(* ===== verification/JsPrelude.thy ===== *)
theory JsPrelude
  imports Complex_Main
begin

text \<open>
  The vocabulary every component of the model shares: JavaScript strings, numbers,
  plain objects and JSON values, with the operations of the language's standard
  library that the front end calls on them.

  A string is the list of its UTF-16 code units, so that \<open>length\<close>, \<open>slice\<close> and
  substring search count what JavaScript counts. Source literals are written with
  \<open>lat\<close> (ASCII text) and \<open>heb\<close> (the Hebrew block laid out as in SI 960: the letters
  \<open>a\<close> to \<open>z\<close> stand for bet to tav, the sign at 64 for alef, and everything else for
  itself); any other code unit is spelled as a number.
\<close>

named_theorems js_lit \<open>evaluation of string literals\<close>
named_theorems js_defs \<open>unfolding of the string primitives\<close>

section \<open>Strings\<close>

type_synonym code_unit = nat
type_synonym jsstr = "code_unit list"

definition lat :: "string \<Rightarrow> jsstr" where
  "lat s = map of_char s"

definition heb_unit :: "code_unit \<Rightarrow> code_unit" where
  "heb_unit n = (if n = 64 then 1488 else if 97 \<le> n \<and> n \<le> 122 then n + 1392 else n)"

definition heb :: "string \<Rightarrow> jsstr" where
  "heb s = map (\<lambda>c. heb_unit (of_char c)) s"

declare lat_def [js_lit] heb_def [js_lit] heb_unit_def [js_lit]

lemma length_lat [simp]: "length (lat s) = length s"
  by (simp add: lat_def)

lemma length_heb [simp]: "length (heb s) = length s"
  by (simp add: heb_def)

text \<open>White space and line terminators in the sense of \<open>String.prototype.trim\<close>.\<close>

definition is_space :: "code_unit \<Rightarrow> bool" where
  "is_space c \<longleftrightarrow>
     9 \<le> c \<and> c \<le> 13 \<or> c = 32 \<or> c = 160 \<or> c = 5760 \<or> 8192 \<le> c \<and> c \<le> 8202
     \<or> c = 8232 \<or> c = 8233 \<or> c = 8239 \<or> c = 8287 \<or> c = 12288 \<or> c = 65279"

definition trim :: "jsstr \<Rightarrow> jsstr" where
  "trim s = rev (dropWhile is_space (rev (dropWhile is_space s)))"

lemma trim_Nil [simp]: "trim [] = []"
  by (simp add: trim_def)

lemma length_trim_le: "length (trim s) \<le> length s"
proof -
  have "length (trim s) \<le> length (dropWhile is_space s)"
    unfolding trim_def by (metis length_dropWhile_le length_rev)
  also have "\<dots> \<le> length s" by (rule length_dropWhile_le)
  finally show ?thesis .
qed

lemma dropWhile_snoc_keep: "\<not> P x \<Longrightarrow> dropWhile P (xs @ [x]) = dropWhile P xs @ [x]"
  by (induction xs) auto

lemma trim_eq_Nil_iff: "trim s = [] \<longleftrightarrow> (\<forall>c \<in> set s. is_space c)"
proof -
  have "trim s = [] \<longleftrightarrow> (\<forall>c \<in> set (dropWhile is_space s). is_space c)"
    by (simp add: trim_def)
  also have "\<dots> \<longleftrightarrow> (\<forall>c \<in> set s. is_space c)"
    by (induction s) auto
  finally show ?thesis .
qed

lemma hd_trim: "trim s \<noteq> [] \<Longrightarrow> \<not> is_space (hd (trim s))"
proof -
  assume ne: "trim s \<noteq> []"
  define t where "t = dropWhile is_space s"
  obtain ws where "rev t = ws @ dropWhile is_space (rev t)"
    by (metis takeWhile_dropWhile_id)
  then have split: "t = trim s @ rev ws"
    by (metis rev_append rev_rev_ident t_def trim_def)
  with ne have "hd t = hd (trim s)" by simp
  moreover have "\<not> is_space (hd t)"
    using ne split by (metis append_is_Nil_conv hd_dropWhile t_def)
  ultimately show ?thesis by simp
qed

lemma last_trim: "trim s \<noteq> [] \<Longrightarrow> \<not> is_space (last (trim s))"
  unfolding trim_def by (metis hd_dropWhile last_rev rev_is_Nil_conv)

lemma trim_fixpoint:
  assumes "s \<noteq> []" "\<not> is_space (hd s)" "\<not> is_space (last s)"
  shows "trim s = s"
proof -
  have "dropWhile is_space s = s"
    using assms by (cases s) auto
  moreover have "dropWhile is_space (rev s) = rev s"
    using assms by (cases s rule: rev_cases) auto
  ultimately show ?thesis by (simp add: trim_def)
qed

lemma trim_idem [simp]: "trim (trim s) = trim s"
proof (cases "trim s = []")
  case False
  then show ?thesis by (intro trim_fixpoint hd_trim last_trim)
qed simp

text \<open>
  \<open>toLowerCase\<close> on ASCII, Latin-1 and Cyrillic letters; Hebrew has no case. The
  rest of the Unicode case table is outside the model.
\<close>

definition lower_unit :: "code_unit \<Rightarrow> code_unit" where
  "lower_unit c =
     (if 65 \<le> c \<and> c \<le> 90 \<or> 192 \<le> c \<and> c \<le> 222 \<and> c \<noteq> 215 \<or> 1040 \<le> c \<and> c \<le> 1071 then c + 32
      else if 1024 \<le> c \<and> c \<le> 1039 then c + 80 else c)"

definition lower :: "jsstr \<Rightarrow> jsstr" where
  "lower s = map lower_unit s"

lemma lower_unit_idem [simp]: "lower_unit (lower_unit c) = lower_unit c"
  by (auto simp: lower_unit_def)

lemma lower_idem [simp]: "lower (lower s) = lower s"
  by (simp add: lower_def)

lemma length_lower [simp]: "length (lower s) = length s"
  by (simp add: lower_def)

lemma is_space_lower_unit [simp]: "is_space (lower_unit c) = is_space c"
  by (auto simp: lower_unit_def is_space_def)

lemma trim_lower: "trim (lower s) = lower (trim s)"
  by (simp add: trim_def lower_def dropWhile_map rev_map comp_def)

definition starts_with :: "jsstr \<Rightarrow> jsstr \<Rightarrow> bool" where
  "starts_with s p \<longleftrightarrow> take (length p) s = p"

lemma starts_with_iff: "starts_with s p \<longleftrightarrow> (\<exists>t. s = p @ t)"
  by (auto simp: starts_with_def) (metis append_take_drop_id)

fun has_sub :: "jsstr \<Rightarrow> jsstr \<Rightarrow> bool" where
  "has_sub [] p = (p = [])"
| "has_sub (c # s) p = (starts_with (c # s) p \<or> has_sub s p)"

lemma includes_iff: "has_sub s p \<longleftrightarrow> (\<exists>a b. s = a @ p @ b)"
proof (induction s)
  case Nil
  show ?case by auto
next
  case (Cons c s)
  show ?case
  proof
    assume "has_sub (c # s) p"
    then consider "starts_with (c # s) p" | "has_sub s p" by auto
    then show "\<exists>a b. c # s = a @ p @ b"
    proof cases
      case 1
      then show ?thesis by (auto simp: starts_with_iff intro: exI [of _ "[]"])
    next
      case 2
      with Cons.IH show ?thesis by (metis append_Cons)
    qed
  next
    assume "\<exists>a b. c # s = a @ p @ b"
    then obtain a b where ab: "c # s = a @ p @ b" by blast
    show "has_sub (c # s) p"
    proof (cases a)
      case Nil
      with ab have "starts_with (c # s) p" by (auto simp: starts_with_iff)
      then show ?thesis by simp
    next
      case (Cons x a')
      with ab Cons.IH show ?thesis by auto
    qed
  qed
qed

lemma includes_refl [simp]: "has_sub s s"
  by (metis append.left_neutral append.right_neutral includes_iff)

lemma includes_Nil [simp]: "has_sub s []"
  by (cases s) (auto simp: starts_with_def)

lemma includes_trans: "has_sub s t \<Longrightarrow> has_sub t u \<Longrightarrow> has_sub s u"
proof -
  assume "has_sub s t" "has_sub t u"
  then obtain a b c d where "s = a @ t @ b" "t = c @ u @ d"
    by (auto simp: includes_iff)
  then have "s = (a @ c) @ u @ (d @ b)" by simp
  then show ?thesis unfolding includes_iff by blast
qed

definition slice_to :: "nat \<Rightarrow> jsstr \<Rightarrow> jsstr" where
  "slice_to n s = take n s"

definition is_digit :: "code_unit \<Rightarrow> bool" where
  "is_digit c \<longleftrightarrow> 48 \<le> c \<and> c \<le> 57"

text \<open>Decimal numerals, as string concatenation and templates print them.\<close>

fun nat_str :: "nat \<Rightarrow> jsstr" where
  "nat_str n = (if n < 10 then [48 + n] else nat_str (n div 10) @ [48 + n mod 10])"

declare nat_str.simps [simp del]

definition digits_val :: "jsstr \<Rightarrow> nat" where
  "digits_val s = foldl (\<lambda>a d. a * 10 + (d - 48)) 0 s"

lemma digits_val_snoc [simp]: "digits_val (s @ [d]) = digits_val s * 10 + (d - 48)"
  by (simp add: digits_val_def)

lemma digits_val_nat_str [simp]: "digits_val (nat_str n) = n"
proof (induction n rule: nat_str.induct)
  case (1 n)
  show ?case
  proof (cases "n < 10")
    case True
    then show ?thesis by (simp add: nat_str.simps [of n] digits_val_def)
  next
    case False
    with "1.IH" show ?thesis by (simp add: nat_str.simps [of n])
  qed
qed

lemma nat_str_inj: "nat_str m = nat_str n \<longleftrightarrow> m = n"
  by (metis digits_val_nat_str)

lemma nat_str_digits: "\<forall>d \<in> set (nat_str n). is_digit d"
proof (induction n rule: nat_str.induct)
  case (1 n)
  show ?case
  proof (cases "n < 10")
    case True
    then show ?thesis by (simp add: nat_str.simps [of n] is_digit_def)
  next
    case False
    with "1.IH" have "\<forall>d \<in> set (nat_str (n div 10)). is_digit d" by simp
    moreover have "is_digit (48 + n mod 10)" by (simp add: is_digit_def)
    ultimately show ?thesis using False by (simp add: nat_str.simps [of n])
  qed
qed

lemma nat_str_nonempty [simp]: "nat_str n \<noteq> []"
  by (subst nat_str.simps) simp

lemma length_nat_str_le: "n < 10 ^ k \<Longrightarrow> 0 < k \<Longrightarrow> length (nat_str n) \<le> k"
proof (induction n arbitrary: k rule: nat_str.induct)
  case (1 n)
  show ?case
  proof (cases "n < 10")
    case True
    with "1.prems" show ?thesis by (simp add: nat_str.simps [of n])
  next
    case False
    with "1.prems" obtain k' where k: "k = Suc k'" "0 < k'"
      by (metis gr0_conv_Suc not_gr_zero power_one_right power_0 Suc_lessD One_nat_def
          less_one linorder_not_less order_less_le_trans)
    with "1.prems" have "n div 10 < 10 ^ k'"
      by (simp add: less_mult_imp_div_less mult.commute)
    with "1.IH" [OF False] k have "length (nat_str (n div 10)) \<le> k'" by simp
    with False k show ?thesis by (simp add: nat_str.simps [of n])
  qed
qed

definition pad_start :: "nat \<Rightarrow> code_unit \<Rightarrow> jsstr \<Rightarrow> jsstr" where
  "pad_start n c s = replicate (n - length s) c @ s"

lemma digits_val_zeros [simp]: "digits_val (replicate k 48 @ s) = digits_val s"
  by (induction k) (auto simp: digits_val_def)

section \<open>Numbers\<close>

text \<open>
  A \<open>number\<close> is a finite double (a rational), an infinity or \<open>NaN\<close>. The code does no
  arithmetic on numbers of unknown origin beyond comparisons, \<open>Math.round\<close>, \<open>min\<close> and
  \<open>max\<close>, which are exact.
\<close>

datatype js_num = Fin rat | PosInf | NegInf | NaN

definition math_round :: "rat \<Rightarrow> int" where
  "math_round r = \<lfloor>r + 1 / 2\<rfloor>"

section \<open>JSON values\<close>

datatype json =
    JNull
  | JBool bool
  | JNum js_num
  | JStr jsstr
  | JArr "json list"
  | JObj "(jsstr \<times> json) list"

text \<open>What an optional result adds to a list of results.\<close>

definition opt_list :: "'a option \<Rightarrow> 'a list" where
  "opt_list x = (case x of None \<Rightarrow> [] | Some a \<Rightarrow> [a])"

lemma opt_list_simps [simp]: "opt_list None = []" "opt_list (Some x) = [x]"
  by (simp_all add: opt_list_def)

end
