(* ===== verification/JsObject.thy ===== *)
theory JsObject
  imports JsPrelude
begin

text \<open>
  Plain JavaScript objects used as dictionaries (\<open>Record<string, T>\<close>): the list of own
  properties in insertion order. \<open>put\<close> is \<open>{...o, [k]: v}\<close> and \<open>o[k] = v\<close>, \<open>del\<close> is
  \<open>delete o[k]\<close>, \<open>get\<close> is \<open>o[k]\<close> with \<open>None\<close> for \<open>undefined\<close>, and \<open>entries\<close> /
  \<open>keys\<close> are \<open>Object.entries\<close> / \<open>Object.keys\<close>, which list the integer-like keys
  first, in ascending order, and then the others as they were inserted. Names inherited
  from \<open>Object.prototype\<close> are not modelled.

  The laws a client of such a dictionary relies on are the locale \<open>keyed_store\<close>,
  interpreted at the end on these operations.
\<close>

section \<open>The interface\<close>

locale keyed_store =
  fixes lookup :: "'m \<Rightarrow> 'k \<Rightarrow> 'v option"
    and insert_at :: "'k \<Rightarrow> 'v \<Rightarrow> 'm \<Rightarrow> 'm"
    and remove_at :: "'k \<Rightarrow> 'm \<Rightarrow> 'm"
    and listing :: "'m \<Rightarrow> ('k \<times> 'v) list"
    and ok :: "'m \<Rightarrow> bool"
  assumes lookup_insert: "ok m \<Longrightarrow> lookup (insert_at k v m) = (lookup m)(k \<mapsto> v)"
    and lookup_remove: "ok m \<Longrightarrow> lookup (remove_at k m) = (lookup m)(k := None)"
    and listing_lookup: "ok m \<Longrightarrow> (k, v) \<in> set (listing m) \<longleftrightarrow> lookup m k = Some v"
    and listing_distinct: "ok m \<Longrightarrow> distinct (map fst (listing m))"
    and ok_insert: "ok m \<Longrightarrow> ok (insert_at k v m)"
    and ok_remove: "ok m \<Longrightarrow> ok (remove_at k m)"
begin

lemma listed_keys: "ok m \<Longrightarrow> set (map fst (listing m)) = dom (lookup m)"
proof -
  assume ok: "ok m"
  have "k \<in> fst ` set (listing m) \<longleftrightarrow> (\<exists>v. (k, v) \<in> set (listing m))" for k
    by force
  with ok show ?thesis by (auto simp: listing_lookup)
qed

lemma keys_insert:
  "ok m \<Longrightarrow> set (map fst (listing (insert_at k v m))) = insert k (set (map fst (listing m)))"
  using listed_keys [of m] listed_keys [of "insert_at k v m"]
  by (simp add: ok_insert lookup_insert)

lemma keys_remove:
  "ok m \<Longrightarrow> set (map fst (listing (remove_at k m))) = set (map fst (listing m)) - {k}"
  using listed_keys [of m] listed_keys [of "remove_at k m"]
  by (auto simp: ok_remove lookup_remove)

lemma size_listing: "ok m \<Longrightarrow> length (listing m) = card (dom (lookup m))"
  by (metis distinct_card length_map listed_keys listing_distinct)

lemma size_insert_fresh:
  assumes "ok m" "lookup m k = None"
  shows "length (listing (insert_at k v m)) = Suc (length (listing m))"
proof -
  have "finite (dom (lookup m))" using listed_keys [OF assms(1)] by (metis List.finite_set)
  moreover have "k \<notin> dom (lookup m)" using assms(2) by auto
  ultimately show ?thesis
    using assms(1) by (simp add: size_listing ok_insert lookup_insert)
qed

lemma size_insert_present:
  "ok m \<Longrightarrow> lookup m k = Some w \<Longrightarrow> length (listing (insert_at k v m)) = length (listing m)"
  by (simp add: size_listing ok_insert lookup_insert insert_absorb domI)

lemma listing_Nil: "ok m \<Longrightarrow> listing m = [] \<longleftrightarrow> dom (lookup m) = {}"
  by (metis listed_keys map_is_Nil_conv set_empty)

end

section \<open>Objects as lists of own properties\<close>

type_synonym 'a obj = "(jsstr \<times> 'a) list"

definition wf_obj :: "'a obj \<Rightarrow> bool" where
  "wf_obj m \<longleftrightarrow> distinct (map fst m)"

abbreviation get :: "'a obj \<Rightarrow> jsstr \<Rightarrow> 'a option" where
  "get m k \<equiv> map_of m k"

fun put :: "jsstr \<Rightarrow> 'a \<Rightarrow> 'a obj \<Rightarrow> 'a obj" where
  "put k v [] = [(k, v)]"
| "put k v ((k', v') # m) = (if k = k' then (k, v) # m else (k', v') # put k v m)"

definition del :: "jsstr \<Rightarrow> 'a obj \<Rightarrow> 'a obj" where
  "del k m = filter (\<lambda>e. fst e \<noteq> k) m"

text \<open>Array-index keys: canonical decimal numerals below \<open>2 ^ 32 - 1\<close>.\<close>

definition is_index :: "jsstr \<Rightarrow> bool" where
  "is_index k \<longleftrightarrow>
     k \<noteq> [] \<and> list_all is_digit k \<and> (hd k = 48 \<longrightarrow> k = [48]) \<and> digits_val k < 4294967295"

definition entries :: "'a obj \<Rightarrow> (jsstr \<times> 'a) list" where
  "entries m =
     sort_key (\<lambda>e. digits_val (fst e)) (filter (\<lambda>e. is_index (fst e)) m)
     @ filter (\<lambda>e. \<not> is_index (fst e)) m"

definition keys :: "'a obj \<Rightarrow> jsstr list" where
  "keys m = map fst (entries m)"

lemma map_of_put [simp]: "map_of (put k v m) = (map_of m)(k \<mapsto> v)"
  by (induction k v m rule: put.induct) auto

lemma fst_set_put [simp]: "fst ` set (put k v m) = insert k (fst ` set m)"
  by (induction k v m rule: put.induct) auto

lemma wf_put [simp]: "wf_obj m \<Longrightarrow> wf_obj (put k v m)"
  unfolding wf_obj_def by (induction k v m rule: put.induct) auto

lemma set_put_subset: "set (put k v m) \<subseteq> insert (k, v) (set m)"
  by (induction k v m rule: put.induct) auto

lemma put_fresh: "map_of m k = None \<Longrightarrow> put k v m = m @ [(k, v)]"
  by (induction k v m rule: put.induct) (auto split: if_splits)

lemma map_fst_put_present: "map_of m k = Some w \<Longrightarrow> map fst (put k v m) = map fst m"
  by (induction k v m rule: put.induct) (auto split: if_splits)

lemma put_same: "map_of m k = Some v \<Longrightarrow> put k v m = m"
  by (induction k v m rule: put.induct) (auto split: if_splits)

lemma put_put [simp]: "put k v (put k w m) = put k v m"
  by (induction k w m rule: put.induct) auto

lemma map_of_del: "map_of (del k m) = (map_of m)(k := None)"
  unfolding del_def by (induction m) auto

lemma wf_del [simp]: "wf_obj m \<Longrightarrow> wf_obj (del k m)"
  unfolding wf_obj_def del_def by (simp add: distinct_map_filter)

lemma wf_Nil [simp]: "wf_obj []"
  by (simp add: wf_obj_def)

lemma set_entries [simp]: "set (entries m) = set m"
  by (auto simp: entries_def)

lemma set_keys [simp]: "set (keys m) = fst ` set m"
  by (simp add: keys_def)

lemma length_entries [simp]: "length (entries m) = length m"
  unfolding entries_def by (simp add: sum_length_filter_compl)

lemma length_keys [simp]: "length (keys m) = length m"
  by (simp add: keys_def)

lemma entries_Nil [simp]: "entries [] = []"
  by (simp add: entries_def)

lemma keys_Nil [simp]: "keys [] = []"
  by (simp add: keys_def)

lemma keys_eq_Nil_iff [simp]: "keys m = [] \<longleftrightarrow> m = []"
  by (metis length_0_conv length_keys)

lemma distinct_entries: "wf_obj m \<Longrightarrow> distinct (map fst (entries m))"
proof -
  assume wf: "wf_obj m"
  have "set (map fst (entries m)) = set (map fst m)" by simp
  moreover have "length (map fst (entries m)) = length (map fst m)" by simp
  ultimately show ?thesis using wf unfolding wf_obj_def
    by (metis card_distinct distinct_card)
qed

lemma in_entries_iff: "wf_obj m \<Longrightarrow> (k, v) \<in> set (entries m) \<longleftrightarrow> get m k = Some v"
  by (simp add: wf_obj_def)

text \<open>Without integer-like keys the enumeration order is the insertion order.\<close>

lemma entries_plain: "\<forall>e \<in> set m. \<not> is_index (fst e) \<Longrightarrow> entries m = m"
  by (simp add: entries_def filter_empty_conv filter_id_conv)

interpretation obj: keyed_store map_of put del entries wf_obj
  by unfold_locales
    (auto simp: map_of_del distinct_entries wf_obj_def simp flip: in_entries_iff
      intro: wf_put [unfolded wf_obj_def] wf_del [unfolded wf_obj_def])

lemma keys_put: "wf_obj m \<Longrightarrow> set (keys (put k v m)) = insert k (set (keys m))"
  unfolding keys_def by (rule obj.keys_insert)

lemma keys_del: "wf_obj m \<Longrightarrow> set (keys (del k m)) = set (keys m) - {k}"
  unfolding keys_def by (rule obj.keys_remove)

lemma length_put_fresh: "wf_obj m \<Longrightarrow> get m k = None \<Longrightarrow> length (put k v m) = Suc (length m)"
  using obj.size_insert_fresh [of m k v] by simp

lemma length_put_present:
  "wf_obj m \<Longrightarrow> get m k = Some w \<Longrightarrow> length (put k v m) = length m"
  using obj.size_insert_present [of m k w v] by simp

lemma get_None_iff: "get m k = None \<longleftrightarrow> k \<notin> set (keys m)"
  by (simp add: map_of_eq_None_iff)

lemma hd_keys_present: "m \<noteq> [] \<Longrightarrow> get m (hd (keys m)) \<noteq> None"
  by (metis get_None_iff hd_in_set keys_eq_Nil_iff)

text \<open>\<open>Object.keys(m)[0] ?? null\<close>.\<close>

definition first_key :: "'a obj \<Rightarrow> jsstr option" where
  "first_key m = (case keys m of [] \<Rightarrow> None | k # _ \<Rightarrow> Some k)"

lemma first_key_None_iff [simp]: "first_key m = None \<longleftrightarrow> m = []"
  by (auto simp: first_key_def split: list.splits dest: arg_cong [where f = length])

lemma first_key_present: "first_key m = Some k \<Longrightarrow> get m k \<noteq> None"
  by (auto simp: first_key_def get_None_iff simp del: set_keys split: list.splits)

end
