(* ===== verification/ApiClient.thy ===== *)
theory ApiClient
  imports JsObject
begin

text \<open>
  The fetch wrapper every screen talks through (\<open>lib/apiClient.ts\<close>) and the shared
  error text (\<open>lib/friendlyError.ts\<close>).

  A call is split where the code awaits: \<open>request\<close> is what it hands to \<open>fetch\<close>, and
  \<open>settle_request\<close> is what its promise becomes once \<open>fetch\<close> rejected or a response
  arrived. The browser's network is the \<open>fetch_outcome\<close>: a rejection with the error's
  name (\<open>AbortError\<close> after the 8 second timer), or a status with the parsed body,
  \<open>None\<close> where \<open>res.json()\<close> rejects.
\<close>

section \<open>Errors\<close>

record api_error =
  err_status :: nat
  err_message :: jsstr
  err_body :: json

definition isUnauthorized :: "api_error \<Rightarrow> bool" where
  "isUnauthorized e \<longleftrightarrow> err_status e = 401"

definition detail :: "api_error \<Rightarrow> jsstr option" where
  "detail e =
     (case err_body e of
        JObj kvs \<Rightarrow>
          (case map_of kvs (lat ''detail'') of
             Some (JStr d) \<Rightarrow> if d \<noteq> [] then Some d else None
           | _ \<Rightarrow> None)
      | _ \<Rightarrow> None)"

definition isDemoBlocked :: "api_error \<Rightarrow> bool" where
  "isDemoBlocked e \<longleftrightarrow>
     err_status e = 403 \<and> (case detail e of None \<Rightarrow> False | Some d \<Rightarrow> has_sub d (heb ''cne''))"

text \<open>What a \<open>catch\<close> clause can see: an \<open>ApiError\<close>, or some other \<open>Error\<close> by name.\<close>

datatype js_thrown = ThrownApi api_error | ThrownOther jsstr

section \<open>Requests\<close>

datatype http_method = GET | POST | PUT | PATCH | DELETE

record http_request =
  req_method :: http_method
  req_path :: jsstr
  req_body :: "json option"
  req_headers :: "(jsstr \<times> jsstr) list"
  req_include_credentials :: bool

datatype fetch_outcome =
    Rejected jsstr
  | Responded nat "json option"

datatype api_value = Undefined | Json json

definition TIMEOUT_MS :: nat where
  "TIMEOUT_MS = 8000"

definition parseBody :: "json option \<Rightarrow> json" where
  "parseBody b = (case b of None \<Rightarrow> JNull | Some j \<Rightarrow> j)"

definition request :: "jsstr \<Rightarrow> http_method \<Rightarrow> json option \<Rightarrow> http_request" where
  "request path m body =
     \<lparr>req_method = m, req_path = path, req_body = body,
      req_headers =
        [((lat ''Accept''), (lat ''application/json''))]
        @ (if body \<noteq> None then [((lat ''Content-Type''), (lat ''application/json''))] else []),
      req_include_credentials = True\<rparr>"

definition res_ok :: "nat \<Rightarrow> bool" where
  "res_ok st \<longleftrightarrow> 200 \<le> st \<and> st \<le> 299"

definition settle_request :: "fetch_outcome \<Rightarrow> js_thrown + api_value" where
  "settle_request r =
     (case r of
        Responded st b \<Rightarrow>
          if \<not> res_ok st then
            Inl (ThrownApi \<lparr>err_status = st, err_message = (lat ''HTTP '') @ nat_str st,
                            err_body = parseBody b\<rparr>)
          else if st = 204 then Inr Undefined
          else Inr (Json (parseBody b))
      | Rejected name \<Rightarrow>
          (let reason = if name = (lat ''AbortError'') then (lat ''timeout'') else (lat ''unreachable'')
           in Inl (ThrownApi \<lparr>err_status = 0, err_message = reason, err_body = JNull\<rparr>)))"

definition api_get :: "jsstr \<Rightarrow> http_request" where
  "api_get path = request path GET None"

definition api_post :: "jsstr \<Rightarrow> json option \<Rightarrow> http_request" where
  "api_post path body = request path POST body"

definition api_put :: "jsstr \<Rightarrow> json option \<Rightarrow> http_request" where
  "api_put path body = request path PUT body"

definition api_patch :: "jsstr \<Rightarrow> json option \<Rightarrow> http_request" where
  "api_patch path body = request path PATCH body"

definition api_delete :: "jsstr \<Rightarrow> http_request" where
  "api_delete path = request path DELETE None"

section \<open>Friendly errors\<close>

definition msg_session_expired :: jsstr where
  "msg_session_expired = (heb ''tb zews ddzgaxez. xrppe @z drnec edzgaxe ngcy.'')"

definition msg_no_connection :: jsstr where
  "msg_no_connection = (heb ''@io giaex lyxz. acwe @z dgiaex epqe yea.'')"

definition msg_invalid_data :: jsstr where
  "msg_invalid_data = (heb ''dpzepim ypylge @ipm zwipim. pqe yea.'')"

definition msg_server_trouble :: jsstr where
  "msg_server_trouble = (heb ''@ixrd zwld fnpiz ayxz. pqe yea arec xbr.'')"

definition toFriendlyError :: "js_thrown \<Rightarrow> jsstr \<Rightarrow> jsstr" where
  "toFriendlyError err fallback =
     (case err of
        ThrownApi e \<Rightarrow>
          if err_status e = 401 then msg_session_expired
          else if err_status e = 403 \<and> detail e \<noteq> None then the (detail e)
          else if err_status e = 0 then msg_no_connection
          else if err_status e = 422 then msg_invalid_data
          else if err_status e \<ge> 500 then msg_server_trouble
          else fallback
      | ThrownOther name \<Rightarrow> fallback)"

section \<open>Lemmas\<close>

lemma detail_nonempty: "detail e = Some d \<Longrightarrow> d \<noteq> []"
  by (auto simp: detail_def split: json.splits option.splits if_splits)

lemma settle_request_throws:
  "settle_request r = Inl t \<Longrightarrow> \<exists>e. t = ThrownApi e"
  by (auto simp: settle_request_def Let_def split: fetch_outcome.splits if_splits)

lemma settle_request_status:
  assumes "settle_request r = Inl (ThrownApi e)"
  shows "err_status e =
    (case r of Rejected _ \<Rightarrow> 0 | Responded st _ \<Rightarrow> st) \<and> \<not> res_ok (err_status e)"
  using assms
  by (auto simp: settle_request_def Let_def res_ok_def split: fetch_outcome.splits if_splits)

lemma settle_request_value:
  "settle_request (Responded st b) = Inr v \<longleftrightarrow>
     res_ok st \<and> v = (if st = 204 then Undefined else Json (parseBody b))"
  by (auto simp: settle_request_def)

lemma toFriendlyError_demo:
  "isDemoBlocked e \<Longrightarrow> detail e = Some (toFriendlyError (ThrownApi e) fb)"
  by (auto simp: isDemoBlocked_def toFriendlyError_def split: option.splits)

lemma msgs_nonempty [simp]:
  "msg_session_expired \<noteq> []" "msg_no_connection \<noteq> []"
  "msg_invalid_data \<noteq> []" "msg_server_trouble \<noteq> []"
  by (simp_all add: msg_session_expired_def msg_no_connection_def msg_invalid_data_def
      msg_server_trouble_def js_lit)

lemma toFriendlyError_nonempty: "fb \<noteq> [] \<Longrightarrow> toFriendlyError t fb \<noteq> []"
  by (auto simp: toFriendlyError_def split: js_thrown.splits dest: detail_nonempty)

end
