(* ===== verification/DashTypes.thy ===== *)
theory DashTypes
  imports ApiClient
begin

text \<open>
  The wire types of the dashboard (\<open>dashboard/types.ts\<close>) and of the appointments
  (\<open>dashboard/appointmentTypes.ts\<close>), as the code has them: string unions are
  datatypes, object types are records, \<open>T | null\<close> is \<open>T option\<close>. Where the code
  reads a field only through \<open>??\<close> or \<open>?.\<close>, \<open>undefined\<close> and \<open>null\<close> are both
  \<open>None\<close>. The close-reason labels (\<open>dashboard/closeReason.ts\<close>) are here too.
\<close>

section \<open>Query enums\<close>

datatype period = Week | Month | All_time

datatype lead_status_filter =
  F_all | F_new | F_in_progress | F_abandoned | F_open | F_deal | F_closed

datatype lead_status = L_new | L_in_progress | L_abandoned | L_deal | L_closed

datatype close_reason = Completed | Abandoned | Answered

fun period_str :: "period \<Rightarrow> jsstr" where
  "period_str Week = (lat ''week'')"
| "period_str Month = (lat ''month'')"
| "period_str All_time = (lat ''all'')"

fun status_filter_str :: "lead_status_filter \<Rightarrow> jsstr" where
  "status_filter_str F_all = (lat ''all'')"
| "status_filter_str F_new = (lat ''new'')"
| "status_filter_str F_in_progress = (lat ''in_progress'')"
| "status_filter_str F_abandoned = (lat ''abandoned'')"
| "status_filter_str F_open = (lat ''open'')"
| "status_filter_str F_deal = (lat ''deal'')"
| "status_filter_str F_closed = (lat ''closed'')"

fun lead_status_str :: "lead_status \<Rightarrow> jsstr" where
  "lead_status_str L_new = (lat ''new'')"
| "lead_status_str L_in_progress = (lat ''in_progress'')"
| "lead_status_str L_abandoned = (lat ''abandoned'')"
| "lead_status_str L_deal = (lat ''deal'')"
| "lead_status_str L_closed = (lat ''closed'')"

section \<open>Answers and leads\<close>

record file_answer =
  file_id :: jsstr
  file_mime :: jsstr
  file_name :: "jsstr option"

datatype answer_value = AText jsstr | AFile file_answer | AFiles "file_answer list"

type_synonym answers = "answer_value obj"

record lead =
  lead_id :: jsstr
  lead_name :: jsstr
  lead_contact_name :: "jsstr option"
  lead_phone :: "jsstr option"
  lead_answers :: answers
  lead_state :: lead_status
  lead_close_reason :: "close_reason option"
  lead_outcome_note :: "jsstr option"
  lead_last_step_index :: int
  lead_is_test :: bool
  lead_conversation_id :: "jsstr option"
  lead_started_at :: "jsstr option"
  lead_last_activity_at :: "jsstr option"
  lead_submitted_at :: "jsstr option"
  lead_feed_seen_at :: "jsstr option"

record dashboard_stats =
  st_period :: period
  st_started :: int
  st_completed :: int
  st_abandoned :: int
  st_total_leads :: int
  st_orders :: int
  st_meetings :: int

section \<open>Conversations\<close>

datatype conversation_status = C_bot | C_waiting | C_human | C_closed

fun conversation_status_str :: "conversation_status \<Rightarrow> jsstr" where
  "conversation_status_str C_bot = (lat ''bot'')"
| "conversation_status_str C_waiting = (lat ''waiting'')"
| "conversation_status_str C_human = (lat ''human'')"
| "conversation_status_str C_closed = (lat ''closed'')"

record conversation =
  conv_id :: jsstr
  conv_status :: conversation_status
  conv_last_activity_at :: "jsstr option"
  conv_preview :: "jsstr option"
  conv_assigned_user_id :: "jsstr option"
  conv_unread :: nat
  conv_contact_name :: "jsstr option"
  conv_phone :: "jsstr option"

record conversations_response =
  convs :: "conversation list"
  convs_unread_total :: nat

datatype msg_role = R_customer | R_bot | R_owner

record chat_message =
  msg_role :: msg_role
  msg_body :: jsstr
  msg_at :: "jsstr option"

record conversation_detail =
  det_conversation_id :: jsstr
  det_status :: conversation_status
  det_lead :: "lead option"
  det_messages :: "chat_message list"

record messages_response =
  mr_conversation_id :: jsstr
  mr_messages :: "chat_message list"

record set_status_response =
  ss_conversation_id :: jsstr
  ss_status :: conversation_status

section \<open>Why a lead closed\<close>

datatype badge_tone = Leaf | Info | Neutral | Warning

fun CLOSE_REASON_META :: "close_reason \<Rightarrow> jsstr \<times> badge_tone" where
  "CLOSE_REASON_META Completed = ((heb ''lic deylm''), Leaf)"
| "CLOSE_REASON_META Abandoned = ((heb ''lic pphy''), Warning)"
| "CLOSE_REASON_META Answered = ((heb ''nrpd deylm''), Neutral)"

definition closeReasonMeta :: "close_reason option \<Rightarrow> (jsstr \<times> badge_tone) option" where
  "closeReasonMeta reason = map_option CLOSE_REASON_META reason"

section \<open>Appointments\<close>

record hours_range =
  hr_s :: jsstr
  hr_e :: jsstr

type_synonym working_hours = "hours_range list obj"

record booking_settings =
  bs_slug :: jsstr
  bs_timezone :: jsstr
  bs_working_hours :: working_hours
  bs_min_notice_minutes :: js_num
  bs_buffer_minutes :: js_num
  bs_max_days_ahead :: js_num
  bs_meet_enabled :: bool
  bs_welcome_message :: "jsstr option"

record booking_settings_update =
  bsu_working_hours :: working_hours
  bsu_min_notice_minutes :: js_num
  bsu_buffer_minutes :: js_num
  bsu_max_days_ahead :: js_num
  bsu_meet_enabled :: bool
  bsu_welcome_message :: "jsstr option"

record service_item =
  svc_id :: jsstr
  svc_name :: jsstr
  svc_duration_minutes :: int
  svc_active :: bool
  svc_description :: "jsstr option"
  svc_price :: "int option"
  svc_created_at :: jsstr

text \<open>An optional field of a request body: left out, or sent.\<close>

datatype 'a field = Omitted | Sent 'a

record service_create =
  sc_name :: jsstr
  sc_duration_minutes :: js_num
  sc_active :: "bool field"
  sc_description :: "jsstr option field"
  sc_price :: "int option field"

record service_update =
  su_name :: "jsstr field"
  su_duration_minutes :: "js_num field"
  su_active :: "bool field"
  su_description :: "jsstr option field"
  su_price :: "int option field"

datatype booking_status = B_pending | B_confirmed | B_cancelled | B_completed

fun booking_status_str :: "booking_status \<Rightarrow> jsstr" where
  "booking_status_str B_pending = (lat ''pending'')"
| "booking_status_str B_confirmed = (lat ''confirmed'')"
| "booking_status_str B_cancelled = (lat ''cancelled'')"
| "booking_status_str B_completed = (lat ''completed'')"

record booking_item =
  bk_id :: jsstr
  bk_service_id :: "jsstr option"
  bk_service_name :: "jsstr option"
  bk_lead_id :: "jsstr option"
  bk_client_name :: "jsstr option"
  bk_client_phone :: "jsstr option"
  bk_client_email :: "jsstr option"
  bk_scheduled_at :: jsstr
  bk_duration_minutes :: int
  bk_status :: booking_status
  bk_notes :: "jsstr option"
  bk_google_event_id :: "jsstr option"
  bk_meet_link :: "jsstr option"
  bk_is_test :: bool
  bk_created_at :: jsstr
  bk_updated_at :: jsstr

record booking_patch =
  bp_status :: "booking_status field"
  bp_date :: "jsstr field"
  bp_time :: "jsstr field"

record public_service =
  ps_id :: jsstr
  ps_name :: jsstr
  ps_duration_minutes :: int
  ps_description :: "jsstr option"
  ps_price :: "int option"

record public_booking_create =
  pb_service_id :: jsstr
  pb_date :: jsstr
  pb_time :: jsstr
  pb_name :: jsstr
  pb_phone :: jsstr
  pb_email :: "jsstr field"
  pb_notes :: "jsstr field"

record public_booking_response =
  pbr_booking_id :: jsstr
  pbr_cancel_token :: jsstr
  pbr_scheduled_at :: jsstr

section \<open>The printed enums are injective\<close>

lemma period_str_inj: "period_str a = period_str b \<longleftrightarrow> a = b"
  by (cases a; cases b) (simp_all add: js_lit)

lemma status_filter_str_inj: "status_filter_str a = status_filter_str b \<longleftrightarrow> a = b"
  by (cases a; cases b) (simp_all add: js_lit)

lemma lead_status_str_inj: "lead_status_str a = lead_status_str b \<longleftrightarrow> a = b"
  by (cases a; cases b) (simp_all add: js_lit)

lemma conversation_status_str_inj:
  "conversation_status_str a = conversation_status_str b \<longleftrightarrow> a = b"
  by (cases a; cases b) (simp_all add: js_lit)

end
