(* ===== verification/JsUrl.thy ===== *)
theory JsUrl
  imports JsPrelude
begin

text \<open>
  The two encoders the request paths are built with: \<open>encodeURIComponent\<close> and the
  serialiser of \<open>URLSearchParams\<close>. Both turn UTF-16 into code points, code points into
  UTF-8 bytes, and bytes outside their safe set into \<open>%XX\<close>. \<open>encodeURIComponent\<close>
  throws \<open>URIError\<close> on a lone surrogate (\<open>None\<close> here); \<open>URLSearchParams\<close> puts the
  replacement character in its place.

  The decoders are what the server applies; they are here to state that nothing is lost.
\<close>

section \<open>UTF-16 and UTF-8\<close>

definition is_high :: "code_unit \<Rightarrow> bool" where
  "is_high c \<longleftrightarrow> 55296 \<le> c \<and> c \<le> 56319"

definition is_low :: "code_unit \<Rightarrow> bool" where
  "is_low c \<longleftrightarrow> 56320 \<le> c \<and> c \<le> 57343"

fun code_points :: "jsstr \<Rightarrow> nat option list" where
  "code_points [] = []"
| "code_points [c] = (if is_high c \<or> is_low c then [None] else [Some c])"
| "code_points (c # d # s) =
     (if is_high c \<and> is_low d
      then Some (65536 + (c - 55296) * 1024 + (d - 56320)) # code_points s
      else (if is_high c \<or> is_low c then None else Some c) # code_points (d # s))"

definition utf16 :: "nat \<Rightarrow> jsstr" where
  "utf16 c =
     (if c < 65536 then [c]
      else [55296 + (c - 65536) div 1024, 56320 + (c - 65536) mod 1024])"

definition utf8 :: "nat \<Rightarrow> nat list" where
  "utf8 c =
     (if c < 128 then [c]
      else if c < 2048 then [192 + c div 64, 128 + c mod 64]
      else if c < 65536 then [224 + c div 4096, 128 + c div 64 mod 64, 128 + c mod 64]
      else [240 + c div 262144, 128 + c div 4096 mod 64, 128 + c div 64 mod 64,
            128 + c mod 64])"

fun utf8_decode :: "nat list \<Rightarrow> nat list" where
  "utf8_decode [] = []"
| "utf8_decode (a # s) =
     (if a < 128 then a # utf8_decode s
      else if a < 224 then
        (case s of b # r \<Rightarrow> ((a - 192) * 64 + (b - 128)) # utf8_decode r | _ \<Rightarrow> [])
      else if a < 240 then
        (case s of
           b # c # r \<Rightarrow> ((a - 224) * 4096 + (b - 128) * 64 + (c - 128)) # utf8_decode r
         | _ \<Rightarrow> [])
      else
        (case s of
           b # c # d # r \<Rightarrow>
             ((a - 240) * 262144 + (b - 128) * 4096 + (c - 128) * 64 + (d - 128)) # utf8_decode r
         | _ \<Rightarrow> []))"

text \<open>Strings of 16-bit units, and code points a string can hold.\<close>

definition wf_units :: "jsstr \<Rightarrow> bool" where
  "wf_units s \<longleftrightarrow> (\<forall>c \<in> set s. c < 65536)"

lemma utf8_bytes: "c < 1114112 \<Longrightarrow> b \<in> set (utf8 c) \<Longrightarrow> b < 256"
  by (auto simp: utf8_def split: if_splits)

lemma utf8_decode_utf8:
  "c < 1114112 \<Longrightarrow> utf8_decode (utf8 c @ s) = c # utf8_decode s"
proof -
  assume c: "c < 1114112"
  have r3: "c div 4096 * 4096 + c div 64 mod 64 * 64 + c mod 64 = c"
  proof -
    have "c div 64 div 64 * 64 + c div 64 mod 64 = c div 64" by (rule div_mult_mod_eq)
    moreover have "c div 64 div 64 = c div 4096" by (simp add: div_mult2_eq [symmetric])
    ultimately have "(c div 4096 * 64 + c div 64 mod 64) * 64 + c mod 64 = c"
      by (metis div_mult_mod_eq)
    then show ?thesis by (simp add: algebra_simps)
  qed
  have r4: "c div 262144 * 262144 + c div 4096 mod 64 * 4096 + c div 64 mod 64 * 64 + c mod 64 = c"
  proof -
    have "c div 4096 div 64 * 64 + c div 4096 mod 64 = c div 4096" by (rule div_mult_mod_eq)
    moreover have "c div 4096 div 64 = c div 262144" by (simp add: div_mult2_eq [symmetric])
    ultimately have "c div 262144 * 64 + c div 4096 mod 64 = c div 4096" by simp
    then have "(c div 262144 * 64 + c div 4096 mod 64) * 4096 = c div 4096 * 4096" by simp
    with r3 show ?thesis by (simp add: algebra_simps)
  qed
  consider "c < 128" | "128 \<le> c" "c < 2048" | "2048 \<le> c" "c < 65536" | "65536 \<le> c"
    by linarith
  then show ?thesis
  proof cases
    case 1
    then show ?thesis by (simp add: utf8_def)
  next
    case 2
    then have "c div 64 < 32" by simp
    with 2 show ?thesis by (simp add: utf8_def)
  next
    case 3
    then have "c div 4096 < 16" by simp
    with 3 r3 show ?thesis by (simp add: utf8_def)
  next
    case 4
    with c r4 show ?thesis by (simp add: utf8_def)
  qed
qed

lemma utf8_decode_concat:
  "\<forall>c \<in> set cs. c < 1114112 \<Longrightarrow> utf8_decode (concat (map utf8 cs)) = cs"
  by (induction cs) (auto simp: utf8_decode_utf8)

lemma code_points_bound:
  "wf_units s \<Longrightarrow> Some c \<in> set (code_points s) \<Longrightarrow> c < 1114112"
  by (induction s rule: code_points.induct)
    (auto simp: wf_units_def is_high_def is_low_def split: if_splits)

lemma utf16_code_points:
  "None \<notin> set (code_points s) \<Longrightarrow> wf_units s \<Longrightarrow> concat (map (utf16 \<circ> the) (code_points s)) = s"
proof (induction s rule: code_points.induct)
  case (3 c d s)
  show ?case
  proof (cases "is_high c \<and> is_low d")
    case True
    then obtain a b where ab: "c = 55296 + a" "d = 56320 + b" "b < 1024"
      by (auto simp: is_high_def is_low_def dest!: le_Suc_ex)
    then have "utf16 (65536 + (c - 55296) * 1024 + (d - 56320)) = [c, d]"
      by (simp add: utf16_def)
    with True 3 show ?thesis by (simp add: wf_units_def)
  next
    case False
    with 3 show ?thesis by (auto simp: wf_units_def utf16_def split: if_splits)
  qed
qed (auto simp: wf_units_def utf16_def split: if_splits)

section \<open>Percent encoding\<close>

definition hex_digit :: "nat \<Rightarrow> code_unit" where
  "hex_digit n = (if n < 10 then 48 + n else 55 + n)"

definition hex_val :: "code_unit \<Rightarrow> nat" where
  "hex_val c = (if c < 58 then c - 48 else c - 55)"

definition pct :: "nat \<Rightarrow> jsstr" where
  "pct b = [37, hex_digit (b div 16), hex_digit (b mod 16)]"

definition is_alnum :: "code_unit \<Rightarrow> bool" where
  "is_alnum c \<longleftrightarrow> 48 \<le> c \<and> c \<le> 57 \<or> 65 \<le> c \<and> c \<le> 90 \<or> 97 \<le> c \<and> c \<le> 122"

text \<open>\<open>A-Z a-z 0-9 - _ . ! ~ * ' ( )\<close>.\<close>

definition uri_unreserved :: "code_unit \<Rightarrow> bool" where
  "uri_unreserved c \<longleftrightarrow> is_alnum c \<or> c \<in> {45, 95, 46, 33, 126, 42, 39, 40, 41}"

definition enc_byte :: "(nat \<Rightarrow> bool) \<Rightarrow> nat \<Rightarrow> jsstr" where
  "enc_byte safe b = (if safe b then [b] else pct b)"

fun dec_bytes :: "jsstr \<Rightarrow> nat list" where
  "dec_bytes [] = []"
| "dec_bytes (c # s) =
     (if c = 37 then
        (case s of h # l # r \<Rightarrow> (hex_val h * 16 + hex_val l) # dec_bytes r | _ \<Rightarrow> [])
      else c # dec_bytes s)"

lemma dec_bytes_pct: "b < 256 \<Longrightarrow> dec_bytes (pct b @ s) = b # dec_bytes s"
  by (auto simp: pct_def hex_digit_def hex_val_def)

lemma dec_bytes_enc:
  assumes "\<not> safe 37" "\<forall>b \<in> set bs. b < 256"
  shows "dec_bytes (concat (map (enc_byte safe) bs)) = bs"
  using assms(2)
proof (induction bs)
  case (Cons b bs)
  with assms(1) have "dec_bytes (enc_byte safe b @ s) = b # dec_bytes s" for s
    by (auto simp: enc_byte_def dec_bytes_pct simp del: dec_bytes.simps(2))
      (metis dec_bytes.simps(2))
  with Cons show ?case by simp
qed simp

lemma hex_digit_alnum: "n < 16 \<Longrightarrow> is_alnum (hex_digit n)"
  by (auto simp: hex_digit_def is_alnum_def)

lemma pct_units: "b < 256 \<Longrightarrow> c \<in> set (pct b) \<Longrightarrow> c = 37 \<or> is_alnum c"
  by (auto simp: pct_def hex_digit_alnum)

section \<open>encodeURIComponent\<close>

definition encodeURIComponent :: "jsstr \<Rightarrow> jsstr option" where
  "encodeURIComponent s =
     (if None \<in> set (code_points s) then None
      else Some (concat (map (enc_byte uri_unreserved)
             (concat (map (utf8 \<circ> the) (code_points s))))))"

definition decodeURIComponent :: "jsstr \<Rightarrow> jsstr" where
  "decodeURIComponent e = concat (map utf16 (utf8_decode (dec_bytes e)))"

lemma cps_bytes:
  "wf_units s \<Longrightarrow> None \<notin> set (code_points s) \<Longrightarrow>
   \<forall>b \<in> set (concat (map (utf8 \<circ> the) (code_points s))). b < 256"
proof (clarsimp)
  fix b o'
  assume wf: "wf_units s" and n: "None \<notin> set (code_points s)" and o: "o' \<in> set (code_points s)"
    and b: "b \<in> set (utf8 (the o'))"
  from n o obtain c where "o' = Some c" by (cases o') auto
  with wf o b show "b < 256" using code_points_bound utf8_bytes by fastforce
qed

lemma encode_safe:
  assumes "encodeURIComponent s = Some e" "wf_units s" "c \<in> set e"
  shows "c = 37 \<or> uri_unreserved c"
proof -
  from assms(1) have n: "None \<notin> set (code_points s)"
    by (auto simp: encodeURIComponent_def split: if_splits)
  with assms(1,3) obtain b where
    b: "b \<in> set (concat (map (utf8 \<circ> the) (code_points s)))" and c: "c \<in> set (enc_byte uri_unreserved b)"
    by (fastforce simp: encodeURIComponent_def split: if_splits)
  from cps_bytes [OF assms(2) n] b have "b < 256" by blast
  with c show ?thesis
    by (auto simp: enc_byte_def uri_unreserved_def split: if_splits dest: pct_units)
qed

theorem decode_encode:
  assumes "encodeURIComponent s = Some e" "wf_units s"
  shows "decodeURIComponent e = s"
proof -
  let ?cps = "map the (code_points s)"
  from assms(1) have n: "None \<notin> set (code_points s)"
    and e: "e = concat (map (enc_byte uri_unreserved) (concat (map utf8 ?cps)))"
    by (auto simp: encodeURIComponent_def split: if_splits)
  have "\<not> uri_unreserved 37" by (simp add: uri_unreserved_def is_alnum_def)
  with cps_bytes [OF assms(2) n] have "dec_bytes e = concat (map utf8 ?cps)"
    unfolding e by (intro dec_bytes_enc) auto
  moreover have "\<forall>c \<in> set ?cps. c < 1114112"
    using n code_points_bound [OF assms(2)] by (auto simp: image_iff) (metis option.exhaust_sel)
  ultimately have "utf8_decode (dec_bytes e) = ?cps" by (metis utf8_decode_concat)
  then show ?thesis
    using utf16_code_points [OF n assms(2)] by (simp add: decodeURIComponent_def)
qed

lemma encode_inj:
  "encodeURIComponent s = Some e \<Longrightarrow> encodeURIComponent t = Some e \<Longrightarrow>
   wf_units s \<Longrightarrow> wf_units t \<Longrightarrow> s = t"
  using decode_encode by metis

lemma encode_Nil_iff: "encodeURIComponent s = Some [] \<longleftrightarrow> s = []"
proof
  assume "encodeURIComponent s = Some []"
  then have n: "None \<notin> set (code_points s)"
    and e: "concat (map (enc_byte uri_unreserved) (concat (map (utf8 \<circ> the) (code_points s)))) = []"
    by (auto simp: encodeURIComponent_def split: if_splits)
  have "enc_byte f b \<noteq> []" for f b by (simp add: enc_byte_def pct_def)
  moreover have "utf8 c \<noteq> []" for c by (simp add: utf8_def)
  ultimately have "code_points s = []" using e by (cases "code_points s") auto
  then show "s = []" by (cases s rule: code_points.cases) (auto split: if_splits)
qed (simp add: encodeURIComponent_def)

section \<open>URLSearchParams\<close>

definition form_safe :: "code_unit \<Rightarrow> bool" where
  "form_safe c \<longleftrightarrow> is_alnum c \<or> c \<in> {42, 45, 46, 95}"

definition form_byte :: "nat \<Rightarrow> jsstr" where
  "form_byte b = (if b = 32 then [43] else enc_byte form_safe b)"

definition usv :: "jsstr \<Rightarrow> nat list" where
  "usv s = map (\<lambda>o'. case o' of None \<Rightarrow> 65533 | Some c \<Rightarrow> c) (code_points s)"

definition form_encode :: "jsstr \<Rightarrow> jsstr" where
  "form_encode s = concat (map form_byte (concat (map utf8 (usv s))))"

fun form_serialize :: "(jsstr \<times> jsstr) list \<Rightarrow> jsstr" where
  "form_serialize [] = []"
| "form_serialize [(k, v)] = form_encode k @ [61] @ form_encode v"
| "form_serialize ((k, v) # ps) = form_encode k @ [61] @ form_encode v @ [38] @ form_serialize ps"

definition plus_to_space :: "jsstr \<Rightarrow> jsstr" where
  "plus_to_space s = map (\<lambda>c. if c = 43 then 32 else c) s"

definition form_decode :: "jsstr \<Rightarrow> jsstr" where
  "form_decode e = concat (map utf16 (utf8_decode (dec_bytes (plus_to_space e))))"

fun split_on :: "code_unit \<Rightarrow> jsstr \<Rightarrow> jsstr list" where
  "split_on d [] = [[]]"
| "split_on d (c # s) =
     (if c = d then [] # split_on d s
      else (case split_on d s of p # ps \<Rightarrow> (c # p) # ps | [] \<Rightarrow> [[c]]))"

definition form_parse_pair :: "jsstr \<Rightarrow> jsstr \<times> jsstr" where
  "form_parse_pair p =
     (form_decode (takeWhile (\<lambda>c. c \<noteq> 61) p),
      form_decode (tl (dropWhile (\<lambda>c. c \<noteq> 61) p)))"

definition form_parse :: "jsstr \<Rightarrow> (jsstr \<times> jsstr) list" where
  "form_parse s = map form_parse_pair (filter (\<lambda>p. p \<noteq> []) (split_on 38 s))"

lemma split_on_none: "d \<notin> set s \<Longrightarrow> split_on d s = [s]"
  by (induction s) auto

lemma split_on_append: "d \<notin> set s \<Longrightarrow> split_on d (s @ d # t) = s # split_on d t"
  by (induction s) auto

lemma usv_bound: "wf_units s \<Longrightarrow> c \<in> set (usv s) \<Longrightarrow> c < 1114112"
  by (auto simp: usv_def code_points_bound split: option.splits)

lemma usv_bytes: "wf_units s \<Longrightarrow> b \<in> set (concat (map utf8 (usv s))) \<Longrightarrow> b < 256"
  by (auto dest: usv_bound utf8_bytes)

lemma form_encode_units:
  assumes "wf_units s" "c \<in> set (form_encode s)"
  shows "form_safe c \<or> c = 37 \<or> c = 43"
proof -
  from assms(2) obtain b where
    b: "b \<in> set (concat (map utf8 (usv s)))" and c: "c \<in> set (form_byte b)"
    by (auto simp: form_encode_def)
  from usv_bytes [OF assms(1) b] c show ?thesis
    by (auto simp: form_byte_def enc_byte_def form_safe_def split: if_splits dest: pct_units)
qed

text \<open>Strings without lone surrogates survive the round trip.\<close>

definition well_formed :: "jsstr \<Rightarrow> bool" where
  "well_formed s \<longleftrightarrow> wf_units s \<and> None \<notin> set (code_points s)"

lemma dec_form_bytes:
  assumes "\<forall>b \<in> set bs. b < 256"
  shows "dec_bytes (plus_to_space (concat (map form_byte bs))) = bs"
  using assms
proof (induction bs)
  case (Cons b bs)
  have nosafe: "\<not> form_safe 43" "\<not> form_safe 37"
    by (simp_all add: form_safe_def is_alnum_def)
  have hex: "hex_digit n \<noteq> 43" for n by (simp add: hex_digit_def)
  have "dec_bytes (plus_to_space (form_byte b) @ s) = b # dec_bytes s" for s
  proof (cases "b = 32 \<or> form_safe b")
    case True
    then show ?thesis using nosafe by (auto simp: form_byte_def enc_byte_def plus_to_space_def)
  next
    case False
    then have "plus_to_space (form_byte b) = pct b"
      using hex by (simp add: form_byte_def enc_byte_def plus_to_space_def pct_def)
    with Cons.prems show ?thesis by (simp add: dec_bytes_pct)
  qed
  with Cons show ?case by (simp add: plus_to_space_def)
qed (simp add: plus_to_space_def)

text \<open>What a server reads: lone surrogates are replaced, everything else is kept.\<close>

definition to_usv :: "jsstr \<Rightarrow> jsstr" where
  "to_usv s = concat (map utf16 (usv s))"

lemma to_usv_id: "well_formed s \<Longrightarrow> to_usv s = s"
proof -
  assume wf: "well_formed s"
  then have n: "None \<notin> set (code_points s)" and w: "wf_units s" by (auto simp: well_formed_def)
  have "usv s = map the (code_points s)"
    unfolding usv_def by (rule map_cong [OF refl]) (use n in \<open>auto split: option.splits\<close>)
  then show ?thesis using utf16_code_points [OF n w] by (simp add: to_usv_def)
qed

lemma form_decode_usv: "wf_units s \<Longrightarrow> form_decode (form_encode s) = to_usv s"
proof -
  assume w: "wf_units s"
  have "dec_bytes (plus_to_space (form_encode s)) = concat (map utf8 (usv s))"
    unfolding form_encode_def by (rule dec_form_bytes) (use usv_bytes [OF w] in blast)
  moreover have "\<forall>c \<in> set (usv s). c < 1114112" using usv_bound [OF w] by blast
  ultimately show ?thesis
    by (simp add: utf8_decode_concat form_decode_def to_usv_def)
qed

lemma form_decode_encode: "well_formed s \<Longrightarrow> form_decode (form_encode s) = s"
  by (simp add: form_decode_usv to_usv_id well_formed_def)

lemma form_encode_no_sep:
  "wf_units s \<Longrightarrow> 38 \<notin> set (form_encode s)" "wf_units s \<Longrightarrow> 61 \<notin> set (form_encode s)"
  by (auto dest!: form_encode_units simp: form_safe_def is_alnum_def)

lemma form_parse_pair_encode:
  assumes "wf_units k" "wf_units v"
  shows "form_parse_pair (form_encode k @ 61 # form_encode v) = (to_usv k, to_usv v)"
proof -
  have "61 \<notin> set (form_encode k)"
    using assms by (intro form_encode_no_sep)
  then have "takeWhile (\<lambda>c. c \<noteq> 61) (form_encode k @ 61 # form_encode v) = form_encode k"
    "dropWhile (\<lambda>c. c \<noteq> 61) (form_encode k @ 61 # form_encode v) = 61 # form_encode v"
    by (simp_all add: takeWhile_tail takeWhile_append dropWhile_append)
  with assms show ?thesis by (simp add: form_parse_pair_def form_decode_usv)
qed

theorem form_parse_serialize:
  "\<forall>(k, v) \<in> set ps. wf_units k \<and> wf_units v \<Longrightarrow>
   form_parse (form_serialize ps) = map (\<lambda>(k, v). (to_usv k, to_usv v)) ps"
proof (induction ps rule: form_serialize.induct)
  case (2 k v)
  then have "38 \<notin> set (form_encode k @ 61 # form_encode v)"
    by (auto simp: form_encode_no_sep)
  with 2 show ?case by (simp add: form_parse_def split_on_none form_parse_pair_encode)
next
  case (3 k v p ps)
  then have "38 \<notin> set (form_encode k @ 61 # form_encode v)"
    by (auto simp: form_encode_no_sep)
  then have "split_on 38 ((form_encode k @ 61 # form_encode v) @ 38 # form_serialize (p # ps))
      = (form_encode k @ 61 # form_encode v) # split_on 38 (form_serialize (p # ps))"
    by (rule split_on_append)
  with 3 show ?case by (auto simp: form_parse_def form_parse_pair_encode)
qed (simp add: form_parse_def)

lemma form_serialize_units:
  assumes "\<forall>(k, v) \<in> set ps. wf_units k \<and> wf_units v" "c \<in> set (form_serialize ps)"
  shows "form_safe c \<or> c \<in> {37, 43, 38, 61}"
  using assms by (induction ps rule: form_serialize.induct) (auto dest: form_encode_units)

end
