(* ===== verification/Clients.thy ===== *)
theory Clients
  imports DashTypes JsUrl
begin

text \<open>
  The typed wrappers around the HTTP endpoints (\<open>lib/dashboardClient.ts\<close>,
  \<open>lib/bookingClient.ts\<close>, \<open>lib/publicBookingClient.ts\<close>,
  \<open>components/booking/public/publicPageClient.ts\<close>, \<open>lib/whatsappClient.ts\<close>): each is
  the request it hands to the fetch wrapper. A wrapper that puts an id or a slug into the
  path returns \<open>None\<close> where \<open>encodeURIComponent\<close> throws. The type of the response is a
  cast in the code, with nothing to compute.

  The second half states what all of them promise: the path stays under \<open>/api/\<close>, an id
  never leaks out of its path segment, and no request names the tenant.
\<close>

section \<open>Query strings\<close>

datatype qval = QUndef | QStr jsstr | QBool bool | QInt int

definition int_str :: "int \<Rightarrow> jsstr" where
  "int_str i = (if i < 0 then 45 # nat_str (nat (- i)) else nat_str (nat i))"

fun qval_str :: "qval \<Rightarrow> jsstr" where
  "qval_str QUndef = (lat ''undefined'')"
| "qval_str (QStr s) = s"
| "qval_str (QBool b) = (if b then (lat ''true'') else (lat ''false''))"
| "qval_str (QInt i) = int_str i"

definition qval_skipped :: "qval \<Rightarrow> bool" where
  "qval_skipped v \<longleftrightarrow> v = QUndef \<or> v = QStr []"

definition qval_of :: "('a \<Rightarrow> jsstr) \<Rightarrow> 'a option \<Rightarrow> qval" where
  "qval_of f v = (case v of None \<Rightarrow> QUndef | Some x \<Rightarrow> QStr (f x))"

definition qval_bool :: "bool option \<Rightarrow> qval" where
  "qval_bool v = (case v of None \<Rightarrow> QUndef | Some b \<Rightarrow> QBool b)"

fun search_of :: "(jsstr \<times> qval) list \<Rightarrow> (jsstr \<times> jsstr) list \<Rightarrow> (jsstr \<times> jsstr) list" where
  "search_of [] search = search"
| "search_of ((k, v) # ps) search =
     search_of ps (if qval_skipped v then search else put k (qval_str v) search)"

definition qs :: "(jsstr \<times> qval) list \<Rightarrow> jsstr" where
  "qs params =
     (let str = form_serialize (search_of params []) in if str \<noteq> [] then 63 # str else [])"

text \<open>The public client's own copy, on string values only.\<close>

fun public_search_of :: "(jsstr \<times> jsstr option) list \<Rightarrow> (jsstr \<times> jsstr) list \<Rightarrow> (jsstr \<times> jsstr) list"
where
  "public_search_of [] search = search"
| "public_search_of ((k, v) # ps) search =
     public_search_of ps
       (case v of None \<Rightarrow> search | Some s \<Rightarrow> if s = [] then search else put k s search)"

definition public_qs :: "(jsstr \<times> jsstr option) list \<Rightarrow> jsstr" where
  "public_qs params =
     (let str = form_serialize (public_search_of params []) in if str \<noteq> [] then 63 # str else [])"

definition with_component :: "jsstr \<Rightarrow> (jsstr \<Rightarrow> 'a) \<Rightarrow> 'a option" where
  "with_component s f = map_option f (encodeURIComponent s)"

section \<open>dashboardClient.ts\<close>

record leads_opts =
  lo_period :: "period option"
  lo_status :: "lead_status_filter option"
  lo_flow :: "jsstr option"
  lo_includeTest :: "bool option"

definition getDashboard :: "period option \<Rightarrow> bool option \<Rightarrow> http_request" where
  "getDashboard per includeTest =
     api_get ((lat ''/api/dashboard'') @
       qs [((lat ''period''), qval_of period_str per), ((lat ''include_test''), qval_bool includeTest)])"

definition getLeads :: "leads_opts \<Rightarrow> http_request" where
  "getLeads opts =
     api_get ((lat ''/api/leads'') @
       qs [((lat ''period''), qval_of period_str (lo_period opts)),
           ((lat ''status''), qval_of status_filter_str (lo_status opts)),
           ((lat ''flow''), qval_of id (lo_flow opts)),
           ((lat ''include_test''), qval_bool (lo_includeTest opts))])"

definition leadsExportUrl :: "leads_opts \<Rightarrow> jsstr option \<Rightarrow> jsstr" where
  "leadsExportUrl opts q =
     (lat ''/api/leads/export'') @
       qs [((lat ''period''), qval_of period_str (lo_period opts)),
           ((lat ''status''), qval_of status_filter_str (lo_status opts)),
           ((lat ''flow''), qval_of id (lo_flow opts)),
           ((lat ''include_test''), qval_bool (lo_includeTest opts)),
           ((lat ''q''), qval_of id q)]"

definition setLeadStatus :: "jsstr \<Rightarrow> lead_status \<Rightarrow> jsstr option \<Rightarrow> http_request option" where
  "setLeadStatus leadId st note =
     (let body = (case note of
            None \<Rightarrow> JObj [((lat ''status''), JStr (lead_status_str st))]
          | Some n \<Rightarrow> JObj [((lat ''status''), JStr (lead_status_str st)), ((lat ''note''), JStr n)])
      in with_component leadId (\<lambda>e. api_patch ((lat ''/api/leads/'') @ e @ (lat ''/status'')) (Some body)))"

definition getConversations :: "conversation_status option \<Rightarrow> http_request" where
  "getConversations st =
     api_get ((lat ''/api/conversations'') @ qs [((lat ''status''), qval_of conversation_status_str st)])"

definition getConversation :: "jsstr \<Rightarrow> http_request option" where
  "getConversation cid = with_component cid (\<lambda>e. api_get ((lat ''/api/conversations/'') @ e))"

definition getConversationMessages :: "jsstr \<Rightarrow> http_request option" where
  "getConversationMessages cid =
     with_component cid (\<lambda>e. api_get ((lat ''/api/conversations/'') @ e @ (lat ''/messages'')))"

definition setConversationStatus :: "jsstr \<Rightarrow> conversation_status \<Rightarrow> http_request option" where
  "setConversationStatus cid st =
     with_component cid (\<lambda>e. api_post ((lat ''/api/conversations/'') @ e @ (lat ''/status''))
       (Some (JObj [((lat ''status''), JStr (conversation_status_str st))])))"

definition replyToConversation :: "jsstr \<Rightarrow> jsstr \<Rightarrow> http_request option" where
  "replyToConversation cid txt =
     with_component cid (\<lambda>e. api_post ((lat ''/api/conversations/'') @ e @ (lat ''/reply''))
       (Some (JObj [((lat ''text''), JStr txt)])))"

definition deleteLead :: "jsstr \<Rightarrow> http_request option" where
  "deleteLead leadId = with_component leadId (\<lambda>e. api_delete ((lat ''/api/leads/'') @ e))"

definition markLeadSeen :: "jsstr \<Rightarrow> http_request option" where
  "markLeadSeen leadId =
     with_component leadId (\<lambda>e. api_post ((lat ''/api/leads/'') @ e @ (lat ''/seen'')) None)"

definition markAllLeadsSeen :: http_request where
  "markAllLeadsSeen = api_post (lat ''/api/leads/seen-all'') None"

definition deleteAccount :: http_request where
  "deleteAccount = api_delete (lat ''/api/account'')"

definition setPublished :: "bool \<Rightarrow> http_request" where
  "setPublished isPublished =
     api_put (lat ''/api/bot/publish'') (Some (JObj [((lat ''is_published''), JBool isPublished)]))"

section \<open>bookingClient.ts\<close>

definition json_int :: "int \<Rightarrow> json" where
  "json_int i = JNum (Fin (of_int i))"

definition json_opt :: "('a \<Rightarrow> json) \<Rightarrow> 'a option \<Rightarrow> json" where
  "json_opt f v = (case v of None \<Rightarrow> JNull | Some x \<Rightarrow> f x)"

definition json_field :: "jsstr \<Rightarrow> ('a \<Rightarrow> json) \<Rightarrow> 'a field \<Rightarrow> (jsstr \<times> json) list" where
  "json_field k f v = (case v of Omitted \<Rightarrow> [] | Sent x \<Rightarrow> [(k, f x)])"

definition json_range :: "hours_range \<Rightarrow> json" where
  "json_range r = JObj [((lat ''s''), JStr (hr_s r)), ((lat ''e''), JStr (hr_e r))]"

definition json_hours :: "working_hours \<Rightarrow> json" where
  "json_hours w = JObj (map (\<lambda>(k, rs). (k, JArr (map json_range rs))) w)"

definition getBookingSettings :: http_request where
  "getBookingSettings = api_get (lat ''/api/booking/settings'')"

definition updateBookingSettings :: "booking_settings_update \<Rightarrow> http_request" where
  "updateBookingSettings b =
     api_put (lat ''/api/booking/settings'') (Some (JObj
       [((lat ''working_hours''), json_hours (bsu_working_hours b)),
        ((lat ''min_notice_minutes''), JNum (bsu_min_notice_minutes b)),
        ((lat ''buffer_minutes''), JNum (bsu_buffer_minutes b)),
        ((lat ''max_days_ahead''), JNum (bsu_max_days_ahead b)),
        ((lat ''meet_enabled''), JBool (bsu_meet_enabled b)),
        ((lat ''welcome_message''), json_opt JStr (bsu_welcome_message b))]))"

definition generateWelcomeMessage :: "jsstr option \<Rightarrow> http_request" where
  "generateWelcomeMessage tone =
     api_post (lat ''/api/booking/welcome/generate'') (Some (JObj
       (case tone of None \<Rightarrow> [] | Some t \<Rightarrow> if t = [] then [] else [((lat ''tone''), JStr t)])))"

definition getServices :: http_request where
  "getServices = api_get (lat ''/api/services'')"

definition createService :: "service_create \<Rightarrow> http_request" where
  "createService b =
     api_post (lat ''/api/services'') (Some (JObj
       ([((lat ''name''), JStr (sc_name b)), ((lat ''duration_minutes''), JNum (sc_duration_minutes b))]
        @ json_field (lat ''active'') JBool (sc_active b)
        @ json_field (lat ''description'') (json_opt JStr) (sc_description b)
        @ json_field (lat ''price'') (json_opt json_int) (sc_price b))))"

definition updateService :: "jsstr \<Rightarrow> service_update \<Rightarrow> http_request option" where
  "updateService sid b =
     with_component sid (\<lambda>e. api_patch ((lat ''/api/services/'') @ e) (Some (JObj
       (json_field (lat ''name'') JStr (su_name b)
        @ json_field (lat ''duration_minutes'') JNum (su_duration_minutes b)
        @ json_field (lat ''active'') JBool (su_active b)
        @ json_field (lat ''description'') (json_opt JStr) (su_description b)
        @ json_field (lat ''price'') (json_opt json_int) (su_price b)))))"

definition deleteService :: "jsstr \<Rightarrow> http_request option" where
  "deleteService sid = with_component sid (\<lambda>e. api_delete ((lat ''/api/services/'') @ e))"

record bookings_opts =
  bo_status :: "booking_status option"
  bo_from :: "jsstr option"
  bo_to :: "jsstr option"
  bo_includeTest :: "bool option"

definition getBookings :: "bookings_opts \<Rightarrow> http_request" where
  "getBookings opts =
     api_get ((lat ''/api/bookings'') @
       qs [((lat ''status''), qval_of booking_status_str (bo_status opts)),
           ((lat ''from''), qval_of id (bo_from opts)),
           ((lat ''to''), qval_of id (bo_to opts)),
           ((lat ''include_test''), qval_bool (bo_includeTest opts))])"

definition patchBooking :: "jsstr \<Rightarrow> booking_patch \<Rightarrow> http_request option" where
  "patchBooking bid b =
     with_component bid (\<lambda>e. api_patch ((lat ''/api/bookings/'') @ e) (Some (JObj
       (json_field (lat ''status'') (JStr \<circ> booking_status_str) (bp_status b)
        @ json_field (lat ''date'') JStr (bp_date b)
        @ json_field (lat ''time'') JStr (bp_time b)))))"

definition getBookingAlerts :: http_request where
  "getBookingAlerts = api_get (lat ''/api/bookings/alerts'')"

definition getGoogleConnectUrl :: http_request where
  "getGoogleConnectUrl = api_get (lat ''/api/google/connect'')"

definition getGoogleStatus :: http_request where
  "getGoogleStatus = api_get (lat ''/api/google/status'')"

definition disconnectGoogle :: http_request where
  "disconnectGoogle = api_post (lat ''/api/google/disconnect'') None"

section \<open>publicBookingClient.ts and publicPageClient.ts\<close>

definition slugPath :: "jsstr \<Rightarrow> jsstr option" where
  "slugPath slug = with_component slug (\<lambda>e. (lat ''/api/book/'') @ e)"

definition getPublicServices :: "jsstr \<Rightarrow> http_request option" where
  "getPublicServices slug = map_option (\<lambda>p. api_get (p @ (lat ''/services''))) (slugPath slug)"

definition getPublicSlots :: "jsstr \<Rightarrow> jsstr \<Rightarrow> jsstr \<Rightarrow> http_request option" where
  "getPublicSlots slug serviceId date =
     map_option (\<lambda>p. api_get (p @ (lat ''/slots'') @
         public_qs [((lat ''service_id''), Some serviceId), ((lat ''date''), Some date)]))
       (slugPath slug)"

definition getPublicAvailability :: "jsstr \<Rightarrow> jsstr \<Rightarrow> jsstr \<Rightarrow> jsstr \<Rightarrow> http_request option" where
  "getPublicAvailability slug serviceId from_day to_day =
     map_option (\<lambda>p. api_get (p @ (lat ''/availability'') @
         public_qs [((lat ''service_id''), Some serviceId), ((lat ''from''), Some from_day),
                    ((lat ''to''), Some to_day)]))
       (slugPath slug)"

definition createPublicBooking :: "jsstr \<Rightarrow> public_booking_create \<Rightarrow> http_request option" where
  "createPublicBooking slug b =
     map_option (\<lambda>p. api_post p (Some (JObj
       ([((lat ''service_id''), JStr (pb_service_id b)), ((lat ''date''), JStr (pb_date b)),
         ((lat ''time''), JStr (pb_time b)), ((lat ''name''), JStr (pb_name b)),
         ((lat ''phone''), JStr (pb_phone b))]
        @ json_field (lat ''email'') JStr (pb_email b)
        @ json_field (lat ''notes'') JStr (pb_notes b)))))
       (slugPath slug)"

definition cancelPublicBooking :: "jsstr \<Rightarrow> jsstr \<Rightarrow> http_request option" where
  "cancelPublicBooking slug token =
     Option.bind (slugPath slug) (\<lambda>p.
       with_component token (\<lambda>t. api_post (p @ (lat ''/cancel/'') @ t) None))"

definition reschedulePublicBooking :: "jsstr \<Rightarrow> jsstr \<Rightarrow> jsstr \<Rightarrow> jsstr \<Rightarrow> http_request option" where
  "reschedulePublicBooking slug token date time =
     Option.bind (slugPath slug) (\<lambda>p.
       with_component token (\<lambda>t. api_post (p @ (lat ''/reschedule/'') @ t)
         (Some (JObj [((lat ''date''), JStr date), ((lat ''time''), JStr time)]))))"

definition getPublicBusinessPage :: "jsstr \<Rightarrow> http_request option" where
  "getPublicBusinessPage slug =
     with_component slug (\<lambda>e. api_get ((lat ''/api/book/'') @ e @ (lat ''/page'')))"

section \<open>whatsappClient.ts\<close>

record whatsapp_status =
  wa_linked :: bool
  wa_connected :: bool
  wa_phone :: "jsstr option"
  wa_gateway_status :: jsstr
  wa_error :: "jsstr option"

record whatsapp_qr =
  qr_status :: jsstr
  qr_data_url :: "jsstr option"

record test_number =
  tn_phone :: jsstr
  tn_label :: "jsstr option"

definition getStatus :: http_request where
  "getStatus = api_get (lat ''/api/whatsapp/status'')"

definition link :: http_request where
  "link = api_post (lat ''/api/whatsapp/link'') None"

definition getQr :: http_request where
  "getQr = api_get (lat ''/api/whatsapp/qr'')"

definition getTestNumbers :: http_request where
  "getTestNumbers = api_get (lat ''/api/whatsapp/test-numbers'')"

definition setTestNumbers :: "test_number list \<Rightarrow> http_request" where
  "setTestNumbers numbers =
     api_put (lat ''/api/whatsapp/test-numbers'') (Some (JObj
       [((lat ''numbers''), JArr (map (\<lambda>n. JObj
          [((lat ''phone''), JStr (tn_phone n)), ((lat ''label''), json_opt JStr (tn_label n))]) numbers))]))"

end
