(* ===== verification/ClientLaws.thy ===== *)
theory ClientLaws
  imports Clients
begin

text \<open>
  What the HTTP wrappers of \<open>Clients\<close> promise, whatever they are called with: the path
  stays under \<open>/api/\<close>, an id never leaks out of its path segment, the query string gives
  the server back what was put in, and no request names the tenant.
\<close>

section \<open>What every wrapper promises\<close>

text \<open>The requests of this theory, one rule for each wrapper.\<close>

inductive client_request :: "http_request \<Rightarrow> bool" where
  r_dashboard: "client_request (getDashboard per t)"
| r_leads: "\<forall>f. lo_flow o' = Some f \<longrightarrow> wf_units f \<Longrightarrow> client_request (getLeads o')"
| r_lead_status: "wf_units i \<Longrightarrow> setLeadStatus i st n = Some r \<Longrightarrow> client_request r"
| r_convs: "client_request (getConversations cs)"
| r_conv: "wf_units i \<Longrightarrow> getConversation i = Some r \<Longrightarrow> client_request r"
| r_messages: "wf_units i \<Longrightarrow> getConversationMessages i = Some r \<Longrightarrow> client_request r"
| r_conv_status: "wf_units i \<Longrightarrow> setConversationStatus i cs' = Some r \<Longrightarrow> client_request r"
| r_reply: "wf_units i \<Longrightarrow> replyToConversation i x = Some r \<Longrightarrow> client_request r"
| r_delete_lead: "wf_units i \<Longrightarrow> deleteLead i = Some r \<Longrightarrow> client_request r"
| r_seen: "wf_units i \<Longrightarrow> markLeadSeen i = Some r \<Longrightarrow> client_request r"
| r_seen_all: "client_request markAllLeadsSeen"
| r_delete_account: "client_request deleteAccount"
| r_publish: "client_request (setPublished p)"
| r_settings: "client_request getBookingSettings"
| r_put_settings: "client_request (updateBookingSettings b)"
| r_welcome: "client_request (generateWelcomeMessage tone)"
| r_services: "client_request getServices"
| r_create_service: "client_request (createService sc)"
| r_update_service: "wf_units i \<Longrightarrow> updateService i su = Some r \<Longrightarrow> client_request r"
| r_delete_service: "wf_units i \<Longrightarrow> deleteService i = Some r \<Longrightarrow> client_request r"
| r_bookings: "\<forall>d. bo_from bo = Some d \<or> bo_to bo = Some d \<longrightarrow> wf_units d \<Longrightarrow>
     client_request (getBookings bo)"
| r_patch_booking: "wf_units i \<Longrightarrow> patchBooking i bp = Some r \<Longrightarrow> client_request r"
| r_alerts: "client_request getBookingAlerts"
| r_google_url: "client_request getGoogleConnectUrl"
| r_google_status: "client_request getGoogleStatus"
| r_google_off: "client_request disconnectGoogle"
| r_pub_services: "wf_units i \<Longrightarrow> getPublicServices i = Some r \<Longrightarrow> client_request r"
| r_pub_slots: "wf_units i \<Longrightarrow> wf_units s \<Longrightarrow> wf_units d \<Longrightarrow>
     getPublicSlots i s d = Some r \<Longrightarrow> client_request r"
| r_pub_avail: "wf_units i \<Longrightarrow> wf_units s \<Longrightarrow> wf_units d \<Longrightarrow> wf_units d' \<Longrightarrow>
     getPublicAvailability i s d d' = Some r \<Longrightarrow> client_request r"
| r_pub_create: "wf_units i \<Longrightarrow> createPublicBooking i pb = Some r \<Longrightarrow> client_request r"
| r_pub_cancel: "wf_units i \<Longrightarrow> wf_units tk \<Longrightarrow> cancelPublicBooking i tk = Some r \<Longrightarrow>
     client_request r"
| r_pub_move: "wf_units i \<Longrightarrow> wf_units tk \<Longrightarrow> reschedulePublicBooking i tk d tm = Some r \<Longrightarrow>
     client_request r"
| r_pub_page: "wf_units i \<Longrightarrow> getPublicBusinessPage i = Some r \<Longrightarrow> client_request r"
| r_wa_status: "client_request getStatus"
| r_wa_link: "client_request link"
| r_wa_qr: "client_request getQr"
| r_test_numbers: "client_request getTestNumbers"
| r_set_numbers: "client_request (setTestNumbers ns)"

lemmas dashboard_client_defs =
  getDashboard_def getLeads_def setLeadStatus_def getConversations_def getConversation_def
  getConversationMessages_def setConversationStatus_def replyToConversation_def deleteLead_def
  markLeadSeen_def markAllLeadsSeen_def deleteAccount_def setPublished_def

lemmas booking_client_defs =
  getBookingSettings_def updateBookingSettings_def generateWelcomeMessage_def getServices_def
  createService_def updateService_def deleteService_def getBookings_def patchBooking_def
  getBookingAlerts_def getGoogleConnectUrl_def getGoogleStatus_def disconnectGoogle_def

lemmas public_client_defs =
  slugPath_def getPublicServices_def getPublicSlots_def getPublicAvailability_def
  createPublicBooking_def cancelPublicBooking_def reschedulePublicBooking_def
  getPublicBusinessPage_def

lemmas whatsapp_client_defs =
  getStatus_def link_def getQr_def getTestNumbers_def setTestNumbers_def

lemmas client_defs =
  dashboard_client_defs booking_client_defs public_client_defs whatsapp_client_defs

lemmas api_defs = api_get_def api_post_def api_put_def api_patch_def api_delete_def request_def

subsection \<open>Paths\<close>

text \<open>
  A path is confined when it starts under \<open>/api/\<close>, holds nothing but unreserved
  characters, percent triples and slashes up to the first question mark, and nothing but
  form-encoded text after it.
\<close>

definition seg_unit :: "code_unit \<Rightarrow> bool" where
  "seg_unit c \<longleftrightarrow> uri_unreserved c \<or> c = 37 \<or> c = 47"

definition query_unit :: "code_unit \<Rightarrow> bool" where
  "query_unit c \<longleftrightarrow> form_safe c \<or> c = 37 \<or> c = 38 \<or> c = 43 \<or> c = 61"

definition path_part :: "jsstr \<Rightarrow> jsstr" where
  "path_part p = takeWhile (\<lambda>c. c \<noteq> 63) p"

definition query_part :: "jsstr \<Rightarrow> jsstr" where
  "query_part p = tl (dropWhile (\<lambda>c. c \<noteq> 63) p)"

definition confined :: "jsstr \<Rightarrow> bool" where
  "confined p \<longleftrightarrow>
     starts_with p (lat ''/api/'') \<and> list_all seg_unit (path_part p) \<and> list_all query_unit (query_part p)"

definition is_query :: "jsstr \<Rightarrow> bool" where
  "is_query q \<longleftrightarrow> q = [] \<or> hd q = 63 \<and> list_all query_unit (tl q)"

lemma seg_not_63: "list_all seg_unit s \<Longrightarrow> 63 \<notin> set s"
  by (auto simp: list_all_iff seg_unit_def uri_unreserved_def is_alnum_def)

lemma path_query_parts:
  assumes "list_all seg_unit s" "is_query q"
  shows "path_part (s @ q) = s" "query_part (s @ q) = tl q"
proof -
  from assms(1) have n: "\<And>c. c \<in> set s \<Longrightarrow> c \<noteq> 63" using seg_not_63 by blast
  obtain f where q: "q = [] \<or> q = 63 # f"
    using assms(2) by (cases q) (auto simp: is_query_def)
  from q n show "path_part (s @ q) = s"
    unfolding path_part_def by (elim disjE) (simp_all add: takeWhile_append)
  from n have "dropWhile (\<lambda>c. c \<noteq> 63) (s @ q) = dropWhile (\<lambda>c. c \<noteq> 63) q"
    by (intro dropWhile_append2) auto
  then have "query_part (s @ q) = tl (dropWhile (\<lambda>c. c \<noteq> 63) q)"
    by (simp only: query_part_def)
  also have "\<dots> = tl q" using q by auto
  finally show "query_part (s @ q) = tl q" .
qed

lemma confinedI:
  assumes "starts_with s (lat ''/api/'')" "list_all seg_unit s" "is_query q"
  shows "confined (s @ q)"
  using assms path_query_parts [OF assms(2,3)]
  by (cases q) (auto simp: confined_def starts_with_iff is_query_def)

lemma confinedI_plain: "starts_with s (lat ''/api/'') \<Longrightarrow> list_all seg_unit s \<Longrightarrow> confined s"
  using confinedI [of s "[]"] by (simp add: is_query_def)

lemma encode_seg_units:
  "encodeURIComponent s = Some e \<Longrightarrow> wf_units s \<Longrightarrow> list_all seg_unit e"
  by (auto simp: seg_unit_def list_all_iff dest: encode_safe)

lemma encode_no_slash:
  "encodeURIComponent s = Some e \<Longrightarrow> wf_units s \<Longrightarrow> 47 \<notin> set e"
  by (auto simp: uri_unreserved_def is_alnum_def dest: encode_safe)

lemma wf_lat [simp]: "wf_units (lat s)"
proof -
  have "(of_char c :: nat) < 65536" for c
    using nat_of_char_less_256 [of c] by linarith
  then show ?thesis by (auto simp: lat_def wf_units_def)
qed

lemma wf_nat_str [simp]: "wf_units (nat_str n)"
  using nat_str_digits [of n] by (auto simp: wf_units_def is_digit_def)

definition wf_pairs :: "(jsstr \<times> jsstr) list \<Rightarrow> bool" where
  "wf_pairs m \<longleftrightarrow> (\<forall>p \<in> set m. wf_units (fst p) \<and> wf_units (snd p))"

definition qval_wf :: "qval \<Rightarrow> bool" where
  "qval_wf v \<longleftrightarrow> (\<forall>s. v = QStr s \<longrightarrow> wf_units s)"

lemma wf_int_str [simp]: "wf_units (int_str i)"
  using wf_nat_str by (auto simp: int_str_def wf_units_def)

lemma wf_qval_str: "qval_wf v \<Longrightarrow> wf_units (qval_str v)"
  by (cases v) (simp_all add: qval_wf_def)

lemma wf_pairs_put: "wf_units k \<Longrightarrow> wf_units v \<Longrightarrow> wf_pairs m \<Longrightarrow> wf_pairs (put k v m)"
  unfolding wf_pairs_def by (induction k v m rule: put.induct) auto

lemma search_of_wf:
  "\<forall>p \<in> set ps. wf_units (fst p) \<and> qval_wf (snd p) \<Longrightarrow> wf_pairs acc \<Longrightarrow>
   wf_pairs (search_of ps acc)"
proof (induction ps acc rule: search_of.induct)
  case (2 k v ps acc)
  have "wf_pairs (if qval_skipped v then acc else put k (qval_str v) acc)"
    using 2(2,3) by (simp add: wf_pairs_put wf_qval_str)
  with 2 show ?case by simp
qed simp

lemma public_search_of_wf:
  "\<forall>p \<in> set ps. wf_units (fst p) \<and> (\<forall>s. snd p = Some s \<longrightarrow> wf_units s) \<Longrightarrow> wf_pairs acc \<Longrightarrow>
   wf_pairs (public_search_of ps acc)"
proof (induction ps acc rule: public_search_of.induct)
  case (2 k v ps acc)
  have "wf_pairs (case v of None \<Rightarrow> acc | Some s \<Rightarrow> if s = [] then acc else put k s acc)"
    using 2(2,3) by (auto simp: wf_pairs_put split: option.splits)
  with 2 show ?case by simp
qed simp

lemma form_query_units: "wf_pairs m \<Longrightarrow> list_all query_unit (form_serialize m)"
  unfolding list_all_iff
proof
  fix c assume "wf_pairs m" "c \<in> set (form_serialize m)"
  then have "form_safe c \<or> c \<in> {37, 43, 38, 61}"
    by (intro form_serialize_units [of m]) (auto simp: wf_pairs_def)
  then show "query_unit c" by (auto simp: query_unit_def)
qed

definition wf_params :: "(jsstr \<times> qval) list \<Rightarrow> bool" where
  "wf_params ps \<longleftrightarrow> (\<forall>p \<in> set ps. wf_units (fst p) \<and> qval_wf (snd p))"

lemma wf_params_simps [simp]:
  "wf_params []" "wf_params (p # ps) \<longleftrightarrow> wf_units (fst p) \<and> qval_wf (snd p) \<and> wf_params ps"
  by (auto simp: wf_params_def)

lemma is_query_qs: "wf_params ps \<Longrightarrow> is_query (qs ps)"
proof -
  assume "wf_params ps"
  then have "wf_pairs (search_of ps [])"
    by (intro search_of_wf) (auto simp: wf_pairs_def wf_params_def)
  then show ?thesis by (simp add: is_query_def qs_def Let_def form_query_units)
qed

lemma is_query_public_qs:
  assumes "\<forall>p \<in> set ps. wf_units (fst p) \<and> (\<forall>s. snd p = Some s \<longrightarrow> wf_units s)"
  shows "is_query (public_qs ps)"
proof -
  have "wf_pairs (public_search_of ps [])"
    by (intro public_search_of_wf assms) (simp add: wf_pairs_def)
  then show ?thesis by (simp add: is_query_def public_qs_def Let_def form_query_units)
qed

lemma qval_wf_simps [simp]:
  "qval_wf QUndef" "qval_wf (QBool b)" "qval_wf (QInt i)"
  "qval_wf (QStr s) \<longleftrightarrow> wf_units s" "qval_wf (qval_bool b')"
  by (auto simp: qval_wf_def qval_bool_def split: option.splits)

lemma qval_wf_of [simp]:
  "qval_wf (qval_of f v) \<longleftrightarrow> (\<forall>x. v = Some x \<longrightarrow> wf_units (f x))"
  by (auto simp: qval_of_def split: option.splits)

lemma wf_enum_strs [simp]:
  "wf_units (period_str p)" "wf_units (status_filter_str f)"
  "wf_units (conversation_status_str c)" "wf_units (booking_status_str b)"
     apply (cases p; simp)
    apply (cases f; simp)
   apply (cases c; simp)
  apply (cases b; simp)
  done

lemmas unit_defs = seg_unit_def uri_unreserved_def is_alnum_def

lemma with_component_Some:
  "with_component s f = Some r \<longleftrightarrow> (\<exists>e. encodeURIComponent s = Some e \<and> r = f e)"
  by (auto simp: with_component_def)

subsection \<open>Reading a query string back\<close>

text \<open>What the server's form parser reads back from a query string.\<close>

definition query_pairs :: "jsstr \<Rightarrow> (jsstr \<times> jsstr) list" where
  "query_pairs q = form_parse (tl q)"

definition usv_pair :: "jsstr \<times> jsstr \<Rightarrow> jsstr \<times> jsstr" where
  "usv_pair p = (to_usv (fst p), to_usv (snd p))"

definition kept_params :: "(jsstr \<times> qval) list \<Rightarrow> (jsstr \<times> jsstr) list" where
  "kept_params ps =
     map (\<lambda>(k, v). (k, qval_str v)) (filter (\<lambda>(k, v). \<not> qval_skipped v) ps)"

lemma search_of_distinct:
  "distinct (map fst ps) \<Longrightarrow> fst ` set ps \<inter> fst ` set acc = {} \<Longrightarrow>
   search_of ps acc = acc @ kept_params ps"
proof (induction ps acc rule: search_of.induct)
  case (2 k v ps acc)
  have "map_of acc k = None" using 2(3) by (auto simp: map_of_eq_None_iff)
  with 2 show ?case by (auto simp: kept_params_def put_fresh)
qed (simp add: kept_params_def)

lemma serialize_Nil: "form_serialize ps = [] \<longleftrightarrow> ps = []"
  by (cases ps rule: form_serialize.cases) auto

lemma query_pairs_qs:
  assumes "wf_params ps"
  shows "query_pairs (qs ps) = map usv_pair (search_of ps [])"
proof -
  have w: "wf_pairs (search_of ps [])"
    using assms by (intro search_of_wf) (auto simp: wf_pairs_def wf_params_def)
  then have p: "form_parse (form_serialize (search_of ps [])) = map usv_pair (search_of ps [])"
    by (subst form_parse_serialize) (auto simp: wf_pairs_def usv_pair_def)
  show ?thesis
  proof (cases "search_of ps [] = []")
    case True
    then show ?thesis by (simp add: query_pairs_def qs_def form_parse_def)
  next
    case False
    with p show ?thesis by (simp add: query_pairs_def qs_def Let_def serialize_Nil)
  qed
qed

lemma query_pairs_public_qs:
  assumes "\<forall>p \<in> set ps. wf_units (fst p) \<and> (\<forall>s. snd p = Some s \<longrightarrow> wf_units s)"
  shows "query_pairs (public_qs ps) = map usv_pair (public_search_of ps [])"
proof -
  have w: "wf_pairs (public_search_of ps [])"
    by (intro public_search_of_wf assms) (simp add: wf_pairs_def)
  then have p: "form_parse (form_serialize (public_search_of ps [])) =
      map usv_pair (public_search_of ps [])"
    by (subst form_parse_serialize) (auto simp: wf_pairs_def usv_pair_def)
  show ?thesis
  proof (cases "public_search_of ps [] = []")
    case True
    then show ?thesis by (simp add: query_pairs_def public_qs_def form_parse_def)
  next
    case False
    with p show ?thesis by (simp add: query_pairs_def public_qs_def Let_def serialize_Nil)
  qed
qed

definition params_well_formed :: "(jsstr \<times> qval) list \<Rightarrow> bool" where
  "params_well_formed ps \<longleftrightarrow> list_all (\<lambda>(k, v). well_formed k \<and> well_formed (qval_str v)) ps"

lemma qs_read_back:
  assumes "params_well_formed ps" "distinct (map fst ps)"
  shows "query_pairs (qs ps) = kept_params ps"
proof -
  have "wf_params ps"
    unfolding wf_params_def
  proof
    fix p assume "p \<in> set ps"
    with assms(1) show "wf_units (fst p) \<and> qval_wf (snd p)"
      by (cases p) (auto simp: params_well_formed_def list_all_iff well_formed_def qval_wf_def)
  qed
  moreover have "map usv_pair (kept_params ps) = kept_params ps"
    using assms(1)
    by (intro map_idI)
      (auto simp: params_well_formed_def kept_params_def usv_pair_def list_all_iff to_usv_id)
  ultimately show ?thesis
    using assms(2) by (simp add: query_pairs_qs search_of_distinct)
qed

subsection \<open>The promises\<close>

text \<open>The names a request puts before the server: query keys and top-level body keys.\<close>

fun body_names :: "json option \<Rightarrow> jsstr list" where
  "body_names (Some (JObj kvs)) = map fst kvs"
| "body_names _ = []"

definition request_names :: "http_request \<Rightarrow> jsstr list" where
  "request_names r = map fst (form_parse (query_part (req_path r))) @ body_names (req_body r)"

lemma code_points_lat: "None \<notin> set (code_points (lat s))"
proof -
  have "code_points t = map Some t" if "\<forall>c \<in> set t. c < 256" for t
    using that by (induction t rule: code_points.induct) (auto simp: is_high_def is_low_def)
  moreover have "\<forall>c \<in> set (lat s). c < 256"
    by (auto simp: lat_def nat_of_char_less_256)
  ultimately show ?thesis by auto
qed

lemma well_formed_lat [simp]: "well_formed (lat s)"
  by (simp add: well_formed_def code_points_lat)

lemma to_usv_lat [simp]: "to_usv (lat s) = lat s"
  by (simp add: to_usv_id)

lemma search_of_keys: "fst ` set (search_of ps acc) \<subseteq> fst ` set ps \<union> fst ` set acc"
proof (induction ps acc rule: search_of.induct)
  case (2 k v ps acc)
  then show ?case by (cases "qval_skipped v") auto
qed simp

lemma public_search_of_keys: "fst ` set (public_search_of ps acc) \<subseteq> fst ` set ps \<union> fst ` set acc"
proof (induction ps acc rule: public_search_of.induct)
  case (2 k v ps acc)
  then show ?case by (auto split: option.splits if_splits)
qed simp

text \<open>The tail of a path: more segments, then perhaps a query string without the name \<open>b\<close>.\<close>

definition free_query :: "jsstr \<Rightarrow> jsstr \<Rightarrow> bool" where
  "free_query b q \<longleftrightarrow> is_query q \<and> b \<notin> fst ` set (query_pairs q)"

definition path_tail :: "jsstr \<Rightarrow> jsstr \<Rightarrow> bool" where
  "path_tail b y \<longleftrightarrow> (\<exists>s q. y = s @ q \<and> list_all seg_unit s \<and> free_query b q)"

lemma free_query_Nil [simp]: "free_query b []"
  by (simp add: free_query_def is_query_def query_pairs_def form_parse_def)

lemma path_tail_Nil [simp]: "path_tail b []"
  unfolding path_tail_def by (intro exI [of _ "[]"]) simp

lemma path_tail_append: "list_all seg_unit x \<Longrightarrow> path_tail b y \<Longrightarrow> path_tail b (x @ y)"
  unfolding path_tail_def by (metis append_assoc list_all_append)

lemma path_tail_query: "free_query b q \<Longrightarrow> path_tail b q"
  unfolding path_tail_def by (intro exI [of _ "[]"] exI [of _ q]) simp

lemma path_tail_qs:
  assumes "wf_params ps" "b \<notin> to_usv ` fst ` set ps"
  shows "path_tail b (qs ps)"
proof (rule path_tail_query)
  have "to_usv ` fst ` set (search_of ps []) \<subseteq> to_usv ` fst ` set ps"
    using search_of_keys [of ps "[]"] by (intro image_mono) simp
  with assms(2) have "b \<notin> to_usv ` fst ` set (search_of ps [])" by blast
  then have "b \<notin> fst ` set (query_pairs (qs ps))"
    by (simp add: query_pairs_qs [OF assms(1)] usv_pair_def image_image)
  with assms show "free_query b (qs ps)" by (simp add: free_query_def is_query_qs)
qed

lemma path_tail_public_qs:
  assumes "\<forall>p \<in> set ps. wf_units (fst p) \<and> (\<forall>s. snd p = Some s \<longrightarrow> wf_units s)"
    and "b \<notin> to_usv ` fst ` set ps"
  shows "path_tail b (public_qs ps)"
proof (rule path_tail_query)
  have "to_usv ` fst ` set (public_search_of ps []) \<subseteq> to_usv ` fst ` set ps"
    using public_search_of_keys [of ps "[]"] by (intro image_mono) simp
  with assms(2) have "b \<notin> to_usv ` fst ` set (public_search_of ps [])" by blast
  then have "b \<notin> fst ` set (query_pairs (public_qs ps))"
    by (simp add: query_pairs_public_qs [OF assms(1)] usv_pair_def image_image)
  with assms show "free_query b (public_qs ps)" by (simp add: free_query_def is_query_public_qs)
qed

definition lit_seg :: "string \<Rightarrow> bool" where
  "lit_seg l \<longleftrightarrow> list_all seg_unit (lat l)"

definition lit_api :: "string \<Rightarrow> bool" where
  "lit_api l \<longleftrightarrow> starts_with (lat l) (lat ''/api/'') \<and> lit_seg l"

lemmas lit_defs = lit_api_def lit_seg_def js_lit unit_defs starts_with_def

definition good_path :: "jsstr \<Rightarrow> jsstr \<Rightarrow> bool" where
  "good_path b p \<longleftrightarrow> confined p \<and> b \<notin> fst ` set (form_parse (query_part p))"

lemma good_tail:
  assumes "starts_with p (lat ''/api/'')" "path_tail b p"
  shows "good_path b p"
proof -
  obtain s q where p: "p = s @ q" and s: "list_all seg_unit s" and q: "free_query b q"
    using assms(2) unfolding path_tail_def by blast
  then have iq: "is_query q" by (simp add: free_query_def)
  then have "list_all query_unit (tl q)" by (auto simp: is_query_def)
  with assms(1) s q show ?thesis
    unfolding good_path_def confined_def p path_query_parts [OF s iq]
    by (simp add: free_query_def query_pairs_def)
qed

lemma good_lit: "lit_api l \<Longrightarrow> path_tail b y \<Longrightarrow> good_path b (lat l @ y)"
  by (intro good_tail path_tail_append) (auto simp: lit_api_def lit_seg_def starts_with_iff)

lemma good_lit_only: "lit_api l \<Longrightarrow> good_path b (lat l)"
  using good_lit [of l b "[]"] by simp

lemma path_tail_lit: "lit_seg l \<Longrightarrow> path_tail b y \<Longrightarrow> path_tail b (lat l @ y)"
  by (intro path_tail_append) (auto simp: lit_seg_def)

lemma path_tail_lit_only: "lit_seg l \<Longrightarrow> path_tail b (lat l)"
  using path_tail_lit [of l b "[]"] by simp

lemma path_tail_component:
  "encodeURIComponent i = Some e \<Longrightarrow> wf_units i \<Longrightarrow> path_tail b y \<Longrightarrow> path_tail b (e @ y)"
  by (intro path_tail_append encode_seg_units)

lemma path_tail_component_only:
  "encodeURIComponent i = Some e \<Longrightarrow> wf_units i \<Longrightarrow> path_tail b e"
  using path_tail_component [of i e b "[]"] by simp

lemmas good_intros =
  good_lit good_lit_only path_tail_lit path_tail_lit_only path_tail_component
  path_tail_qs path_tail_public_qs

lemma client_request_good: "client_request r \<Longrightarrow> good_path (lat ''business_id'') (req_path r)"
  apply (induction rule: client_request.induct)
  apply (simp_all add: client_defs api_defs with_component_Some Let_def bind_eq_Some_conv)
  apply (auto intro!: good_intros)
  apply (simp_all add: lit_defs path_tail_component_only)
  done

lemma in_json_field: "(k', j) \<in> set (json_field k f v) \<Longrightarrow> k' = k"
  by (auto simp: json_field_def split: field.splits)

lemma client_request_body:
  "client_request r \<Longrightarrow> lat ''business_id'' \<notin> set (body_names (req_body r))"
  apply (induction rule: client_request.induct)
  apply (simp_all add: client_defs api_defs with_component_Some Let_def bind_eq_Some_conv)
  apply (auto dest!: in_json_field split: option.splits)
  apply (simp_all add: js_lit)
  done

text \<open>
  The wrappers that put one id into the path: the segments before it, the id, the segments
  after it, and the request (or \<open>None\<close> where \<open>encodeURIComponent\<close> throws).
\<close>

inductive id_request :: "string list \<Rightarrow> jsstr \<Rightarrow> string list \<Rightarrow> http_request option \<Rightarrow> bool" where
  "id_request [''api'', ''leads''] i [''status''] (setLeadStatus i st n)"
| "id_request [''api'', ''conversations''] i [] (getConversation i)"
| "id_request [''api'', ''conversations''] i [''messages''] (getConversationMessages i)"
| "id_request [''api'', ''conversations''] i [''status''] (setConversationStatus i cs)"
| "id_request [''api'', ''conversations''] i [''reply''] (replyToConversation i x)"
| "id_request [''api'', ''leads''] i [] (deleteLead i)"
| "id_request [''api'', ''leads''] i [''seen''] (markLeadSeen i)"
| "id_request [''api'', ''services''] i [] (updateService i su)"
| "id_request [''api'', ''services''] i [] (deleteService i)"
| "id_request [''api'', ''bookings''] i [] (patchBooking i bp)"
| "id_request [''api'', ''book''] i [''services''] (getPublicServices i)"
| "id_request [''api'', ''book''] i [] (createPublicBooking i pb)"
| "id_request [''api'', ''book''] i [''page''] (getPublicBusinessPage i)"

inductive_cases id_requestE: "id_request pre i post r"

definition segments :: "jsstr \<Rightarrow> jsstr list" where
  "segments p = split_on 47 p"

lemma split_seg: "47 \<notin> set e \<Longrightarrow> split_on 47 (e @ 47 # t) = e # split_on 47 t"
  by (rule split_on_append)

lemma id_request_None: "id_request pre i post w \<Longrightarrow> w = None \<longleftrightarrow> encodeURIComponent i = None"
  by (erule id_requestE) (auto simp: client_defs with_component_def Let_def split: option.splits)

lemma id_request_segments:
  assumes "id_request pre i post (Some r)" "wf_units i"
  shows "\<exists>e. encodeURIComponent i = Some e \<and>
    segments (req_path r) = [] # map lat pre @ [e] @ map lat post"
proof -
  from id_request_None [OF assms(1)] obtain e where e: "encodeURIComponent i = Some e" by auto
  with assms(2) have ns: "47 \<notin> set e" using encode_no_slash by blast
  have "segments (req_path r) = [] # map lat pre @ [e] @ map lat post"
    using assms(1) e
    apply (cases rule: id_requestE)
    apply (simp_all add: client_defs api_defs with_component_def Let_def)
    apply (simp_all add: segments_def js_lit split_seg [OF ns] split_on_none [OF ns])
    done
  with e show ?thesis by blast
qed

section \<open>Properties\<close>



text \<open>
  An id or a slug is exactly one path segment: the request is not made only
  when the string has a lone surrogate (\<open>encodeURIComponent\<close> throws); otherwise the path
  splits at its slashes into the endpoint's own segments with the encoded id in its place,
  and decoding that segment gives the id back.
\<close>

theorem id_is_one_segment:
  assumes "id_request pre i post w" "wf_units i"
  shows "case w of
      None \<Rightarrow> None \<in> set (code_points i)
    | Some r \<Rightarrow> \<exists>e. segments (req_path r) = [] # map lat pre @ [e] @ map lat post
                 \<and> decodeURIComponent e = i"
proof (cases w)
  case None
  with id_request_None [OF assms(1)] show ?thesis
    by (auto simp: encodeURIComponent_def split: if_splits)
next
  case (Some r)
  with id_request_segments [of pre i post r] assms decode_encode show ?thesis by fastforce
qed

theorem id_is_one_segment_witness:
  "\<exists>r e. replyToConversation (lat ''a/b'') [1513] = Some r \<and>
     segments (req_path r) = [[], lat ''api'', lat ''conversations'', e, lat ''reply''] \<and>
     decodeURIComponent e = lat ''a/b''"
proof -
  have q: "id_request [''api'', ''conversations''] (lat ''a/b'') [''reply'']
      (replyToConversation (lat ''a/b'') [1513])" by (rule id_request.intros)
  have n: "None \<notin> set (code_points (lat ''a/b''))"
    using well_formed_lat by (simp add: well_formed_def)
  from id_is_one_segment [OF q wf_lat] n show ?thesis
    by (auto split: option.splits)
qed

text \<open>
  The query helper is a faithful encoder: a server that parses the form
  encoding reads back exactly the parameters that were neither \<open>undefined\<close> nor the empty
  string, in order, with numbers and booleans as JavaScript prints them.
\<close>

theorem qs_roundtrip:
  assumes "params_well_formed ps" "distinct (map fst ps)"
  shows "query_pairs (qs ps) = kept_params ps"
  using assms by (rule qs_read_back)

theorem qs_roundtrip_witness:
  "query_pairs (qs [(lat ''q'', QStr (lat ''a&b=c d'')), (lat ''p'', QUndef),
      (lat ''n'', QBool False), (lat ''e'', QStr (lat []))]) =
    [(lat ''q'', lat ''a&b=c d''), (lat ''n'', lat ''false'')]"
proof -
  let ?ps = "[(lat ''q'', QStr (lat ''a&b=c d'')), (lat ''p'', QUndef),
      (lat ''n'', QBool False), (lat ''e'', QStr (lat []))]"
  have w: "params_well_formed ?ps" by (simp add: params_well_formed_def)
  have "distinct (map fst ?ps)" by (simp add: js_lit)
  from qs_roundtrip [OF w this] show ?thesis
    by (simp add: kept_params_def qval_skipped_def lat_def)
qed

end
