(* ===== verification/BotConfig.thy ===== *)
theory BotConfig
  imports Clients
begin

text \<open>
  The bot configuration (\<open>botbuilder/types.ts\<close>), the pure helpers that edit it
  (\<open>botbuilder/config.ts\<close>) and the endpoints that load and save it
  (\<open>lib/botClient.ts\<close>).

  An optional property of type \<open>T | null\<close> has three states, absent, \<open>null\<close> and a value,
  because the configuration is sent back to the server as it is: \<open>'a nullish\<close>, read by
  \<open>opt\<close> wherever the code writes \<open>x ?? d\<close> or tests truthiness. A property of
  \<open>lead_steps\<close> is \<open>None\<close> where the wire has \<open>null\<close> in place of a flow.
\<close>

section \<open>botbuilder/types.ts\<close>

definition MAX_FLOWS :: nat where "MAX_FLOWS = 20"
definition MAX_STEPS_PER_FLOW :: nat where "MAX_STEPS_PER_FLOW = 30"
definition MIN_CHOICE_OPTIONS :: nat where "MIN_CHOICE_OPTIONS = 2"
definition MAX_CHOICE_OPTIONS :: nat where "MAX_CHOICE_OPTIONS = 12"
definition MAX_UPLOAD_MB :: nat where "MAX_UPLOAD_MB = 10"

lemmas bot_bounds [simp] =
  MAX_FLOWS_def MAX_STEPS_PER_FLOW_def MIN_CHOICE_OPTIONS_def MAX_CHOICE_OPTIONS_def

datatype step_type = S_text | S_phone | S_email | S_choice | S_file
datatype flow_type = T_lead | T_human_handoff | T_booking
datatype file_kind = K_image | K_pdf | K_doc | K_ppt

definition FILE_KINDS :: "file_kind list" where
  "FILE_KINDS = [K_image, K_pdf, K_doc, K_ppt]"

fun FILE_KIND_LABELS :: "file_kind \<Rightarrow> jsstr" where
  "FILE_KIND_LABELS K_image = (heb ''znepd'')"
| "FILE_KIND_LABELS K_pdf = (lat ''PDF'')"
| "FILE_KIND_LABELS K_doc = (lat ''Word'')"
| "FILE_KIND_LABELS K_ppt = (lat ''PowerPoint'')"

type_synonym 'a nullish = "'a option field"

definition opt :: "'a nullish \<Rightarrow> 'a option" where
  "opt x = (case x of Omitted \<Rightarrow> None | Sent v \<Rightarrow> v)"

lemma opt_simps [simp]: "opt Omitted = None" "opt (Sent v) = v"
  by (simp_all add: opt_def)

record step =
  step_key :: jsstr
  step_question :: jsstr
  step_type :: step_type
  step_required :: bool
  step_validate :: "jsstr nullish"
  step_options :: "jsstr list nullish"
  step_accept :: "file_kind list nullish"
  step_error_message :: "jsstr nullish"

record flow =
  flow_label :: jsstr
  flow_type :: flow_type
  flow_steps :: "step list"
  flow_service_name :: "jsstr nullish"
  flow_message :: "jsstr nullish"

datatype bot_language = He | En

record bot_profile =
  prof_name :: "jsstr option"
  prof_system_prompt :: "jsstr option"
  prof_tone :: "jsstr option"
  prof_language :: "bot_language option"
  prof_greeting :: "jsstr option"
  prof_escalation_message :: "jsstr option"
  prof_auto_close_minutes :: "int option"
  prof_menu_keywords :: "jsstr list option"

record bot_settings =
  lead_steps :: "flow option obj"
  bot_profile :: bot_profile
  handoff_keywords :: "jsstr list"
  is_published :: bool

text \<open>What the wire may hold for a \<open>Partial<BotSettings>\<close>.\<close>

record raw_settings =
  raw_lead_steps :: "flow option obj option"
  raw_bot_profile :: "bot_profile option"
  raw_handoff_keywords :: "jsstr list option"
  raw_is_published :: "bool option"

record bot_ai_chat_response =
  ai_reply :: jsstr
  ai_changes :: "raw_settings option"

datatype bot_ai_role = Ai_user | Ai_assistant

record bot_ai_message =
  aim_role :: bot_ai_role
  aim_content :: jsstr
  aim_created_at :: jsstr

datatype try_me_event = Lead_completed | Handed_off | Ev_booking

record bot_try_me_response =
  tm_replies :: "jsstr list"
  tm_state :: json
  tm_event :: "try_me_event option"
  tm_lead :: "answers option"

definition empty_profile :: bot_profile where
  "empty_profile =
     \<lparr>prof_name = None, prof_system_prompt = None, prof_tone = None, prof_language = None,
      prof_greeting = None, prof_escalation_message = None, prof_auto_close_minutes = None,
      prof_menu_keywords = None\<rparr>"

section \<open>botbuilder/config.ts\<close>

definition candidate :: "jsstr \<Rightarrow> nat \<Rightarrow> jsstr" where
  "candidate seed i = slice_to 40 (seed @ [95] @ nat_str i)"

text \<open>The suffixes the loop tries, \<open>for (let i = 2; i < 1000; i++)\<close>.\<close>

definition suffixes :: "nat list" where
  "suffixes = [2..<1000]"

text \<open>\<open>now\<close> is \<open>Date.now()\<close>.\<close>

definition uniqueKey :: "jsstr \<Rightarrow> jsstr list \<Rightarrow> nat \<Rightarrow> jsstr" where
  "uniqueKey base taken now =
     (let seed = (if base \<noteq> [] then base else (lat ''flow'')) in
      if seed \<notin> set taken then seed
      else (case List.find (\<lambda>c. c \<notin> set taken) (map (candidate seed) suffixes) of
              Some c \<Rightarrow> c
            | None \<Rightarrow> candidate seed now))"

definition emptyStep :: "step_type \<Rightarrow> step" where
  "emptyStep t =
     \<lparr>step_key = (heb ''ym_nl@''), step_question = (heb ''nd dym dnl@ ylj?''), step_type = t,
      step_required = True, step_validate = Omitted,
      step_options = Sent (if t = S_choice then Some [[], []] else None),
      step_accept = Sent (if t = S_file then Some FILE_KINDS else None),
      step_error_message = Omitted\<rparr>"

definition DEFAULT_HANDOFF_MESSAGE :: jsstr where
  "DEFAULT_HANDOFF_MESSAGE = (heb ''zecd ytpiz @lipe! pvib nhrnpe igfex @lij adwcm.'')"

definition DEFAULT_BOOKING_MESSAGE :: jsstr where
  "DEFAULT_BOOKING_MESSAGE = (heb ''pyng lditby! lwairz tbiyd p@ dikpq/i lnrxkz: {'' @ lat ''link}'')"

definition emptyFlow :: "jsstr \<Rightarrow> flow_type \<Rightarrow> flow" where
  "emptyFlow label t =
     \<lparr>flow_label = label, flow_type = t,
      flow_steps = (if t = T_lead then [emptyStep S_text] else []),
      flow_service_name = Sent (if t = T_booking then Some [] else None),
      flow_message = Sent (if t = T_human_handoff then Some DEFAULT_HANDOFF_MESSAGE
                           else if t = T_booking then Some DEFAULT_BOOKING_MESSAGE else None)\<rparr>"

definition emptySettings :: bot_settings where
  "emptySettings =
     \<lparr>lead_steps = [], bot_profile = empty_profile,
      handoff_keywords = [(heb ''pvib''), (heb ''@cm''), (lat ''human''), (lat ''agent'')], is_published = False\<rparr>"

text \<open>\<open>!(message ?? '').trim()\<close>.\<close>

definition blank_message :: "jsstr nullish \<Rightarrow> bool" where
  "blank_message m \<longleftrightarrow> (case opt m of None \<Rightarrow> True | Some s \<Rightarrow> trim s = [])"

definition with_default_message :: "flow \<Rightarrow> flow" where
  "with_default_message f =
     (let message =
        (if flow_type f = T_human_handoff \<and> blank_message (flow_message f)
         then Sent (Some DEFAULT_HANDOFF_MESSAGE)
         else if flow_type f = T_booking \<and> blank_message (flow_message f)
         then Sent (Some DEFAULT_BOOKING_MESSAGE)
         else flow_message f)
      in if message = flow_message f then f else f\<lparr>flow_message := message\<rparr>)"

definition withDefaultMessages :: "flow option obj \<Rightarrow> flow option obj" where
  "withDefaultMessages flows =
     foldl (\<lambda>out (k, f). put k (map_option with_default_message f) out) [] (entries flows)"

definition normalizeSettings :: "raw_settings option \<Rightarrow> bot_settings" where
  "normalizeSettings raw =
     (case raw of
        None \<Rightarrow> emptySettings
      | Some r \<Rightarrow>
          \<lparr>lead_steps = withDefaultMessages (case raw_lead_steps r of None \<Rightarrow> [] | Some m \<Rightarrow> m),
           bot_profile = (case raw_bot_profile r of None \<Rightarrow> empty_profile | Some p \<Rightarrow> p),
           handoff_keywords = (case raw_handoff_keywords r of
                                 None \<Rightarrow> handoff_keywords emptySettings | Some ks \<Rightarrow> ks),
           is_published = (case raw_is_published r of None \<Rightarrow> False | Some b \<Rightarrow> b)\<rparr>)"

definition flow_at :: "bot_settings \<Rightarrow> jsstr \<Rightarrow> flow option" where
  "flow_at c k = (case get (lead_steps c) k of Some (Some f) \<Rightarrow> Some f | _ \<Rightarrow> None)"

section \<open>lib/botClient.ts\<close>

fun step_type_str :: "step_type \<Rightarrow> jsstr" where
  "step_type_str S_text = (lat ''text'')"
| "step_type_str S_phone = (lat ''phone'')"
| "step_type_str S_email = (lat ''email'')"
| "step_type_str S_choice = (lat ''choice'')"
| "step_type_str S_file = (lat ''file'')"

fun flow_type_str :: "flow_type \<Rightarrow> jsstr" where
  "flow_type_str T_lead = (lat ''lead'')"
| "flow_type_str T_human_handoff = (lat ''human_handoff'')"
| "flow_type_str T_booking = (lat ''booking'')"

fun file_kind_str :: "file_kind \<Rightarrow> jsstr" where
  "file_kind_str K_image = (lat ''image'')"
| "file_kind_str K_pdf = (lat ''pdf'')"
| "file_kind_str K_doc = (lat ''doc'')"
| "file_kind_str K_ppt = (lat ''ppt'')"

definition json_strs :: "jsstr list \<Rightarrow> json" where
  "json_strs xs = JArr (map JStr xs)"

definition json_undef :: "jsstr \<Rightarrow> ('a \<Rightarrow> json) \<Rightarrow> 'a option \<Rightarrow> (jsstr \<times> json) list" where
  "json_undef k f v = (case v of None \<Rightarrow> [] | Some x \<Rightarrow> [(k, f x)])"

definition json_step :: "step \<Rightarrow> json" where
  "json_step s = JObj
     ([((lat ''key''), JStr (step_key s)), ((lat ''question''), JStr (step_question s)),
       ((lat ''type''), JStr (step_type_str (step_type s))), ((lat ''required''), JBool (step_required s))]
      @ json_field (lat ''validate'') (json_opt JStr) (step_validate s)
      @ json_field (lat ''options'') (json_opt json_strs) (step_options s)
      @ json_field (lat ''accept'') (json_opt (json_strs \<circ> map file_kind_str)) (step_accept s)
      @ json_field (lat ''error_message'') (json_opt JStr) (step_error_message s))"

definition json_flow :: "flow \<Rightarrow> json" where
  "json_flow f = JObj
     ([((lat ''label''), JStr (flow_label f)), ((lat ''flow_type''), JStr (flow_type_str (flow_type f))),
       ((lat ''steps''), JArr (map json_step (flow_steps f)))]
      @ json_field (lat ''service_name'') (json_opt JStr) (flow_service_name f)
      @ json_field (lat ''message'') (json_opt JStr) (flow_message f))"

definition json_profile :: "bot_profile \<Rightarrow> json" where
  "json_profile p = JObj
     (json_undef (lat ''name'') JStr (prof_name p)
      @ json_undef (lat ''system_prompt'') JStr (prof_system_prompt p)
      @ json_undef (lat ''tone'') JStr (prof_tone p)
      @ json_undef (lat ''language'') (\<lambda>l. JStr (case l of He \<Rightarrow> (lat ''he'') | En \<Rightarrow> (lat ''en''))) (prof_language p)
      @ json_undef (lat ''greeting'') JStr (prof_greeting p)
      @ json_undef (lat ''escalation_message'') JStr (prof_escalation_message p)
      @ json_undef (lat ''auto_close_minutes'') json_int (prof_auto_close_minutes p)
      @ json_undef (lat ''menu_keywords'') json_strs (prof_menu_keywords p))"

definition json_settings :: "bot_settings \<Rightarrow> json" where
  "json_settings c = JObj
     [((lat ''lead_steps''), JObj (map (\<lambda>(k, f). (k, json_opt json_flow f)) (lead_steps c))),
      ((lat ''bot_profile''), json_profile (bot_profile c)),
      ((lat ''handoff_keywords''), json_strs (handoff_keywords c)),
      ((lat ''is_published''), JBool (is_published c))]"

definition getSettings :: http_request where
  "getSettings = api_get (lat ''/api/bot/settings'')"

definition saveSettings :: "bot_settings \<Rightarrow> http_request" where
  "saveSettings cfg = api_put (lat ''/api/bot/settings'') (Some (json_settings cfg))"

definition aiChat :: "jsstr \<Rightarrow> bot_settings \<Rightarrow> http_request" where
  "aiChat message currentConfig =
     api_post (lat ''/api/bot/ai/chat'') (Some (JObj
       [((lat ''message''), JStr message), ((lat ''current_config''), json_settings currentConfig)]))"

definition aiHistory :: http_request where
  "aiHistory = api_get (lat ''/api/bot/ai/history'')"

text \<open>The engine's state is opaque: it is sent back as it came (\<open>null\<close> to start afresh).\<close>

definition tryMe :: "jsstr \<Rightarrow> json \<Rightarrow> http_request" where
  "tryMe message st =
     api_post (lat ''/api/bot/tryme'') (Some (JObj [((lat ''message''), JStr message), ((lat ''state''), st)]))"

section \<open>Lemmas\<close>

subsection \<open>Unique keys\<close>

lemma candidate_short: "length (candidate seed i) \<le> 40"
  by (simp add: candidate_def slice_to_def)

lemma candidate_uncut:
  "length seed \<le> 36 \<Longrightarrow> i < 1000 \<Longrightarrow> candidate seed i = seed @ 95 # nat_str i"
  using length_nat_str_le [of i 3] by (simp add: candidate_def slice_to_def)

lemma suffixes_facts:
  "distinct suffixes" "length suffixes = 998" "i \<in> set suffixes \<Longrightarrow> i < 1000"
  unfolding suffixes_def by (rule distinct_upt, subst length_upt, simp, simp only: set_upt atLeastLessThan_iff)

lemma suffixes_unfold: "suffixes = 2 # 3 # 4 # [5..<1000]"
  unfolding suffixes_def by (simp only: upt_conv_Cons [of 2] upt_conv_Cons [of 3] upt_conv_Cons [of 4]
      less_numeral_extra numeral_less_iff semiring_norm Suc_numeral if_True)

lemma candidates_distinct:
  "length seed \<le> 36 \<Longrightarrow> distinct (map (candidate seed) suffixes)"
  by (auto simp: distinct_map inj_on_def candidate_uncut nat_str_inj suffixes_facts)

lemma find_fresh:
  assumes "distinct xs" "length taken < length xs"
  shows "\<exists>c. List.find (\<lambda>c. c \<notin> set taken) xs = Some c \<and> c \<notin> set taken"
proof (cases "List.find (\<lambda>c. c \<notin> set taken) xs")
  case None
  then have "set xs \<subseteq> set taken" by (auto simp: find_None_iff)
  then have "card (set xs) \<le> card (set taken)" by (intro card_mono) simp_all
  also have "\<dots> \<le> length taken" by (rule card_length)
  finally show ?thesis using assms by (simp add: distinct_card)
next
  case (Some c)
  then show ?thesis by (auto simp: find_Some_iff)
qed

lemma uniqueKey_fresh:
  assumes "length base \<le> 36" "length taken < 998"
  shows "uniqueKey base taken now \<notin> set taken"
proof -
  let ?seed = "if base \<noteq> [] then base else (lat ''flow'')"
  have "length ?seed \<le> 36" using assms(1) by simp
  then have "distinct (map (candidate ?seed) suffixes)" by (rule candidates_distinct)
  from find_fresh [OF this, of taken] assms(2) obtain c where
    c: "List.find (\<lambda>c. c \<notin> set taken) (map (candidate ?seed) suffixes) = Some c"
       "c \<notin> set taken" by (auto simp: suffixes_facts)
  show ?thesis
    unfolding uniqueKey_def Let_def c(1) using c(2) by simp
qed

subsection \<open>Normalization\<close>

lemma foldl_put_map:
  assumes "distinct (map fst xs)" "fst ` set xs \<inter> fst ` set acc = {}"
  shows "foldl (\<lambda>out (k, f). put k (g f) out) acc xs = acc @ map (\<lambda>(k, f). (k, g f)) xs"
  using assms
proof (induction xs arbitrary: acc)
  case (Cons x xs)
  obtain k f where x: "x = (k, f)" by (cases x)
  with Cons.prems have "map_of acc k = None" by (auto simp: map_of_eq_None_iff)
  with Cons x show ?case by (auto simp: put_fresh)
qed simp

lemma withDefaultMessages_map:
  "wf_obj flows \<Longrightarrow>
   withDefaultMessages flows =
     map (\<lambda>(k, f). (k, map_option with_default_message f)) (entries flows)"
  unfolding withDefaultMessages_def
  by (subst foldl_put_map) (simp_all add: distinct_entries)

lemma wf_foldl_put: "wf_obj acc \<Longrightarrow> wf_obj (foldl (\<lambda>out (k, f). put k (g f) out) acc xs)"
  by (induction xs arbitrary: acc) auto

lemma wf_withDefaultMessages [simp]: "wf_obj (withDefaultMessages flows)"
  unfolding withDefaultMessages_def by (rule wf_foldl_put) simp

lemma get_withDefaultMessages:
  assumes "wf_obj flows"
  shows "get (withDefaultMessages flows) k = map_option (map_option with_default_message) (get flows k)"
proof -
  have "map_of (entries flows) k = Some f \<longleftrightarrow> map_of flows k = Some f" for f
    using assms distinct_entries [OF assms]
    by (simp add: wf_obj_def map_of_eq_Some_iff)
  then have "map_of (entries flows) k = map_of flows k"
    by (metis not_Some_eq)
  then show ?thesis
    by (simp add: withDefaultMessages_map assms map_of_map)
qed

lemma defaults_nonblank [simp]:
  "trim DEFAULT_HANDOFF_MESSAGE \<noteq> []" "trim DEFAULT_BOOKING_MESSAGE \<noteq> []"
  by (simp_all add: DEFAULT_HANDOFF_MESSAGE_def DEFAULT_BOOKING_MESSAGE_def trim_eq_Nil_iff
      is_space_def js_lit)

lemma with_default_message_idem [simp]:
  "with_default_message (with_default_message f) = with_default_message f"
  by (cases f) (auto simp: with_default_message_def Let_def blank_message_def)

lemma with_default_message_fields [simp]:
  "flow_label (with_default_message f) = flow_label f"
  "flow_type (with_default_message f) = flow_type f"
  "flow_steps (with_default_message f) = flow_steps f"
  "flow_service_name (with_default_message f) = flow_service_name f"
  by (simp_all add: with_default_message_def Let_def)

lemma with_default_message_nonblank:
  "flow_type f \<noteq> T_lead \<Longrightarrow> \<not> blank_message (flow_message (with_default_message f))"
  by (cases f; cases "flow_type f") (auto simp: with_default_message_def Let_def blank_message_def)

lemma entries_idem: "entries (entries m) = entries m"
  by (simp add: entries_def filter_sort filter_id_conv sort_key_id_if_sorted)

lemma normalizeSettings_wf [simp]: "wf_obj (lead_steps (normalizeSettings raw))"
  by (simp add: normalizeSettings_def emptySettings_def split: option.split)

definition as_raw :: "bot_settings \<Rightarrow> raw_settings" where
  "as_raw c =
     \<lparr>raw_lead_steps = Some (lead_steps c), raw_bot_profile = Some (bot_profile c),
      raw_handoff_keywords = Some (handoff_keywords c), raw_is_published = Some (is_published c)\<rparr>"

definition raw_flows :: "raw_settings option \<Rightarrow> flow option obj" where
  "raw_flows raw =
     (case raw of None \<Rightarrow> [] | Some r \<Rightarrow> (case raw_lead_steps r of None \<Rightarrow> [] | Some m \<Rightarrow> m))"

lemma lead_steps_normalize: "lead_steps (normalizeSettings raw) = withDefaultMessages (raw_flows raw)"
  by (simp add: normalizeSettings_def raw_flows_def emptySettings_def withDefaultMessages_def
      split: option.split)

lemma sort_key_map: "sort_key f (map g xs) = map g (sort_key (f \<circ> g) xs)"
proof (induction xs)
  case (Cons x xs)
  have "insort_key f (g x) (map g ys) = map g (insort_key (f \<circ> g) x ys)" for ys
    by (induction ys) simp_all
  with Cons show ?case by (simp add: comp_def)
qed simp

lemma entries_map_values: "entries (map (\<lambda>(k, v). (k, g v)) m) = map (\<lambda>(k, v). (k, g v)) (entries m)"
  by (simp add: entries_def filter_map sort_key_map comp_def split_def)

lemma withDefaultMessages_idem:
  assumes "wf_obj m"
  shows "withDefaultMessages (withDefaultMessages m) = withDefaultMessages m"
proof -
  let ?g = "\<lambda>(k :: jsstr, f). (k, map_option with_default_message f)"
  have e: "entries (map ?g xs) = map ?g (entries xs)" for xs :: "flow option obj"
    by (rule entries_map_values)
  have "withDefaultMessages (withDefaultMessages m) = map ?g (entries (map ?g (entries m)))"
    using assms by (subst withDefaultMessages_map, simp) (simp add: withDefaultMessages_map)
  also have "\<dots> = map ?g (map ?g (entries m))"
    by (simp only: e entries_idem)
  also have "\<dots> = map ?g (entries m)"
    by (auto simp: option.map_comp comp_def)
  finally show ?thesis using assms by (simp add: withDefaultMessages_map)
qed

lemma flow_at_normalize:
  assumes "wf_obj (raw_flows raw)"
  shows "flow_at (normalizeSettings raw) k =
    (case get (raw_flows raw) k of Some (Some f) \<Rightarrow> Some (with_default_message f) | _ \<Rightarrow> None)"
  using assms
  by (simp add: flow_at_def lead_steps_normalize get_withDefaultMessages split: option.split)

lemma keys_normalize:
  "wf_obj (raw_flows raw) \<Longrightarrow> keys (lead_steps (normalizeSettings raw)) = keys (raw_flows raw)"
proof -
  assume w: "wf_obj (raw_flows raw)"
  let ?g = "\<lambda>(k :: jsstr, f). (k, map_option with_default_message f)"
  have e: "entries (map ?g xs) = map ?g (entries xs)" for xs :: "flow option obj"
    by (rule entries_map_values)
  have "entries (lead_steps (normalizeSettings raw)) = map ?g (entries (raw_flows raw))"
    using w by (simp add: lead_steps_normalize withDefaultMessages_map e entries_idem)
  then show ?thesis by (simp add: keys_def comp_def split_def)
qed

section \<open>Properties\<close>

text \<open>
  The key helper never returns a taken key when the base has at most 36
  characters and fewer than 998 keys are taken, which covers both of its callers.
\<close>

theorem uniqueKey_never_taken:
  assumes "length base \<le> 36" "length taken < 998"
  shows "uniqueKey base taken now \<notin> set taken"
  using assms by (rule uniqueKey_fresh)

theorem uniqueKey_never_taken_witness:
  "uniqueKey (lat ''flow'') [lat ''flow'', lat ''flow_2''] 7 \<notin> {lat ''flow'', lat ''flow_2''}"
  using uniqueKey_never_taken [of "lat ''flow''" "[lat ''flow'', lat ''flow_2'']" 7] by simp

text \<open>
  Against its comment, the helper does return a taken key for a long base: the
  cut to 40 characters drops the suffix, so a base of exactly 40 characters that is taken is
  returned itself, whatever the clock says.
\<close>

theorem uniqueKey_collides:
  assumes "length base = 40" "base \<in> set taken"
  shows "uniqueKey base taken now = base"
proof -
  have c: "candidate base i = base" for i
    using assms(1) by (simp add: candidate_def slice_to_def)
  have "List.find (\<lambda>c. c \<notin> set taken) (map (candidate base) suffixes) = None"
    using assms(2) by (auto simp: find_None_iff c)
  with assms c show ?thesis by (auto simp: uniqueKey_def)
qed

theorem uniqueKey_collides_witness:
  "uniqueKey (replicate 40 97) [replicate 40 97] 1700000000000 = replicate 40 97"
  using uniqueKey_collides [of "replicate 40 97" "[replicate 40 97]" 1700000000000] by simp

text \<open>
  Normalization keeps every flow under its key, in enumeration order, gives
  every handoff and booking flow a message with visible text, changes nothing else of a
  flow, and is idempotent.
\<close>

theorem normalizeSettings_correct:
  assumes "wf_obj (raw_flows raw)"
  shows "keys (lead_steps (normalizeSettings raw)) = keys (raw_flows raw)
    \<and> (\<forall>k f. get (raw_flows raw) k = Some (Some f) \<longrightarrow>
         (\<exists>f'. flow_at (normalizeSettings raw) k = Some f' \<and>
            f' = f\<lparr>flow_message := flow_message f'\<rparr> \<and>
            (flow_type f \<noteq> T_lead \<longrightarrow> \<not> blank_message (flow_message f')) \<and>
            (\<not> blank_message (flow_message f) \<longrightarrow> f' = f)))
    \<and> normalizeSettings (Some (as_raw (normalizeSettings raw))) = normalizeSettings raw"
proof (intro conjI allI impI)
  show "keys (lead_steps (normalizeSettings raw)) = keys (raw_flows raw)"
    using assms by (rule keys_normalize)
next
  fix k f assume "get (raw_flows raw) k = Some (Some f)"
  then have "flow_at (normalizeSettings raw) k = Some (with_default_message f)"
    using assms by (simp add: flow_at_normalize)
  then show "\<exists>f'. flow_at (normalizeSettings raw) k = Some f' \<and>
      f' = f\<lparr>flow_message := flow_message f'\<rparr> \<and>
      (flow_type f \<noteq> T_lead \<longrightarrow> \<not> blank_message (flow_message f')) \<and>
      (\<not> blank_message (flow_message f) \<longrightarrow> f' = f)"
    using with_default_message_nonblank [of f]
    by (intro exI [of _ "with_default_message f"]) (simp add: with_default_message_def Let_def)
next
  have "lead_steps (normalizeSettings (Some (as_raw (normalizeSettings raw))))
      = lead_steps (normalizeSettings raw)"
    using assms
    by (simp add: lead_steps_normalize raw_flows_def as_raw_def withDefaultMessages_idem
        split: option.split)
  then show "normalizeSettings (Some (as_raw (normalizeSettings raw))) = normalizeSettings raw"
    by (simp add: normalizeSettings_def as_raw_def)
qed

theorem normalizeSettings_correct_witness:
  "let f = emptyFlow (lat ''a'') T_booking;
       raw = Some \<lparr>raw_lead_steps = Some [(lat ''b'', Some (f\<lparr>flow_message := Sent None\<rparr>))],
                   raw_bot_profile = None, raw_handoff_keywords = None, raw_is_published = None\<rparr>
   in keys (lead_steps (normalizeSettings raw)) = keys (raw_flows raw)
      \<and> normalizeSettings (Some (as_raw (normalizeSettings raw))) = normalizeSettings raw"
  unfolding Let_def
  by (rule conjI; rule normalizeSettings_correct [THEN conjunct1]
        normalizeSettings_correct [THEN conjunct2, THEN conjunct2])
    (simp_all add: raw_flows_def wf_obj_def)

end
