(* ===== verification/React.thy ===== *)
theory React
  imports JsPrelude
begin

text \<open>
  What the model keeps of React and of promises.

  A component is a state record and a function from its state to a tree of elements.
  The tree keeps tags, texts, \<open>disabled\<close> flags and event handlers, so that \<open>fires v e\<close>
  says exactly which events the user can raise on a rendered view; class names, inline
  styles, icons and focus handling are left out. A handler is given as the predicate on
  the component's events that it raises.

  An asynchronous call is two events: the one that starts it and the one that settles
  it with a response. The \<open>cancelled\<close> flags which the effects close over are tokens:
  starting a load takes a fresh token, and running an effect's clean-up cancels the
  token of its last run. The locale \<open>guarded_settle\<close> states what a component promises
  when it checks the flag before every state change.
\<close>

section \<open>Rendered trees\<close>

datatype 'e attr =
    Disabled bool
  | On "'e \<Rightarrow> bool"
  | Attr string jsstr

datatype 'e vnode =
    Txt jsstr
  | El string "'e attr list" "'e vnode list"

abbreviation on_click :: "'e \<Rightarrow> 'e attr" where
  "on_click e \<equiv> On (\<lambda>x. x = e)"

fun is_disabled :: "'e attr \<Rightarrow> bool" where
  "is_disabled (Disabled b) = b"
| "is_disabled _ = False"

fun handles :: "'e attr \<Rightarrow> 'e \<Rightarrow> bool" where
  "handles (On p) e = p e"
| "handles _ e = False"

fun fires :: "'e vnode \<Rightarrow> 'e \<Rightarrow> bool" where
  "fires (Txt s) e = False"
| "fires (El t as vs) e =
     (\<not> list_ex is_disabled as \<and> list_ex (\<lambda>a. handles a e) as \<or> list_ex (\<lambda>v. fires v e) vs)"

definition fires_any :: "'e vnode list \<Rightarrow> 'e \<Rightarrow> bool" where
  "fires_any vs e = list_ex (\<lambda>v. fires v e) vs"

lemma fires_any_simps [simp]:
  "fires_any [] e = False"
  "fires_any (v # vs) e = (fires v e \<or> fires_any vs e)"
  "fires_any (us @ vs) e = (fires_any us e \<or> fires_any vs e)"
  by (auto simp: fires_any_def)

lemma fires_El [simp]:
  "fires (El t as vs) e =
     (\<not> list_ex is_disabled as \<and> list_ex (\<lambda>a. handles a e) as \<or> fires_any vs e)"
  by (simp add: fires_any_def)

declare fires.simps(2) [simp del]

lemma fires_any_iff: "fires_any vs e \<longleftrightarrow> (\<exists>v \<in> set vs. fires v e)"
  by (simp add: fires_any_def list_ex_iff)

text \<open>Every text the user can read on a view.\<close>

fun texts :: "'e vnode \<Rightarrow> jsstr list" where
  "texts (Txt s) = [s]"
| "texts (El t as vs) = concat (map texts vs)"

definition texts_of :: "'e vnode list \<Rightarrow> jsstr list" where
  "texts_of vs = concat (map texts vs)"

lemma texts_of_simps [simp]:
  "texts_of [] = []"
  "texts_of (v # vs) = texts v @ texts_of vs"
  "texts_of (us @ vs) = texts_of us @ texts_of vs"
  by (auto simp: texts_of_def)

lemma texts_El [simp]: "texts (El t as vs) = texts_of vs"
  by (simp add: texts_of_def)

declare texts.simps(2) [simp del]

text \<open>Conditional children: \<open>{c ? v : null}\<close>.\<close>

definition shown :: "bool \<Rightarrow> 'e vnode list \<Rightarrow> 'e vnode list" where
  "shown c vs = (if c then vs else [])"

lemma fires_any_shown [simp]: "fires_any (shown c vs) e \<longleftrightarrow> c \<and> fires_any vs e"
  by (simp add: shown_def)

lemma texts_of_shown [simp]: "texts_of (shown c vs) = (if c then texts_of vs else [])"
  by (simp add: shown_def)

text \<open>\<open>xs.map((x, i) => v)\<close>.\<close>

definition mapi :: "(nat \<Rightarrow> 'a \<Rightarrow> 'b) \<Rightarrow> 'a list \<Rightarrow> 'b list" where
  "mapi f xs = map2 f [0..<length xs] xs"

lemma length_mapi [simp]: "length (mapi f xs) = length xs"
  by (simp add: mapi_def)

lemma nth_mapi [simp]: "i < length xs \<Longrightarrow> mapi f xs ! i = f i (xs ! i)"
  by (simp add: mapi_def)

lemma mapi_eq_map_enum: "mapi f xs = map (\<lambda>i. f i (xs ! i)) [0..<length xs]"
  by (rule nth_equalityI) auto

lemma set_mapi: "set (mapi f xs) = {f i (xs ! i) |i. i < length xs}"
  by (auto simp: mapi_eq_map_enum)

lemma fires_any_mapi: "fires_any (mapi f xs) e \<longleftrightarrow> (\<exists>i < length xs. fires (f i (xs ! i)) e)"
  by (auto simp: fires_any_iff set_mapi)

lemma fires_any_map: "fires_any (map f xs) e \<longleftrightarrow> (\<exists>x \<in> set xs. fires (f x) e)"
  by (auto simp: fires_any_iff)

text \<open>A child component's view in its parent: its events, wrapped by the parent's callback.\<close>

fun attr_in :: "('e \<Rightarrow> 'f) \<Rightarrow> 'e attr \<Rightarrow> 'f attr" where
  "attr_in f (Disabled b) = Disabled b"
| "attr_in f (On p) = On (\<lambda>e. \<exists>x. e = f x \<and> p x)"
| "attr_in f (Attr n v) = Attr n v"

fun view_in :: "('e \<Rightarrow> 'f) \<Rightarrow> 'e vnode \<Rightarrow> 'f vnode" where
  "view_in f (Txt s) = Txt s"
| "view_in f (El t as vs) = El t (map (attr_in f) as) (map (view_in f) vs)"

lemma fires_view_in: "fires (view_in f v) e \<longleftrightarrow> (\<exists>x. e = f x \<and> fires v x)"
proof (induction v)
  case (El t as vs)
  have d: "is_disabled (attr_in f a) = is_disabled a" for a by (cases a) simp_all
  have h: "handles (attr_in f a) e \<longleftrightarrow> (\<exists>x. e = f x \<and> handles a x)" for a by (cases a) auto
  from El show ?case
    by (simp add: list_ex_iff d h fires_any_map fires_any_iff) blast
qed simp

lemma fires_any_view_in: "fires_any (map (view_in f) vs) e \<longleftrightarrow> (\<exists>x. e = f x \<and> fires_any vs x)"
  by (auto simp: fires_any_iff fires_view_in)

text \<open>A labelled text field: its value, and the event every keystroke raises.\<close>

definition field_view :: "jsstr \<Rightarrow> jsstr \<Rightarrow> (jsstr \<Rightarrow> 'e) \<Rightarrow> 'e vnode" where
  "field_view label v f = El ''label'' [] [Txt label, El ''input'' [Attr ''value'' v, On (\<lambda>e. \<exists>x. e = f x)] []]"

lemma fires_field [simp]: "fires (field_view l v f) e \<longleftrightarrow> (\<exists>x. e = f x)"
  by (simp add: field_view_def)

text \<open>The same with a length limit, and disabled or not.\<close>

definition limited_field :: "jsstr \<Rightarrow> jsstr \<Rightarrow> nat option \<Rightarrow> bool \<Rightarrow> (jsstr \<Rightarrow> 'e) \<Rightarrow> 'e vnode" where
  "limited_field label v mx dis f =
     El ''label'' [] [Txt label, El ''input'' [Attr ''value'' v, Disabled dis,
       On (\<lambda>e. \<exists>x. e = f x \<and> (case mx of None \<Rightarrow> True | Some n \<Rightarrow> length x \<le> n))] []]"

lemma fires_limited [simp]:
  "fires (limited_field l v mx dis f) e \<longleftrightarrow> \<not> dis \<and> (\<exists>x. e = f x \<and> (case mx of None \<Rightarrow> True | Some n \<Rightarrow> length x \<le> n))"
  by (auto simp: limited_field_def)

text \<open>\<open>xs.filter((_, i) => i !== k)\<close>.\<close>

definition drop_index :: "nat \<Rightarrow> 'a list \<Rightarrow> 'a list" where
  "drop_index k xs = take k xs @ drop (Suc k) xs"

lemma length_drop_index: "k < length xs \<Longrightarrow> length (drop_index k xs) = length xs - 1"
  by (simp add: drop_index_def)

lemma drop_index_beyond: "length xs \<le> k \<Longrightarrow> drop_index k xs = xs"
  by (simp add: drop_index_def)

lemma nth_drop_index:
  "k < length xs \<Longrightarrow> i < length xs - 1 \<Longrightarrow>
   drop_index k xs ! i = (if i < k then xs ! i else xs ! Suc i)"
  by (auto simp: drop_index_def nth_append)

lemma set_drop_index: "set (drop_index k xs) \<subseteq> set xs"
  unfolding drop_index_def by (auto dest: in_set_takeD in_set_dropD)

lemma map_drop_index: "map f (drop_index k xs) = drop_index k (map f xs)"
  by (simp add: drop_index_def take_map drop_map)

lemma distinct_drop_index: "distinct xs \<Longrightarrow> distinct (drop_index k xs)"
proof -
  assume d: "distinct xs"
  then have "distinct (take k xs @ drop k xs)" by simp
  then have "set (take k xs) \<inter> set (drop k xs) = {}" by (simp only: distinct_append)
  moreover have "set (drop (Suc k) xs) \<subseteq> set (drop k xs)" by (rule set_drop_subset_set_drop) simp
  ultimately show ?thesis using d by (auto simp: drop_index_def)
qed

section \<open>Loads and their cancellation tokens\<close>

record loader =
  next_tok :: nat
  cancelled :: "nat list"
  cleanup :: "nat option"

definition new_loader :: loader where
  "new_loader = \<lparr>next_tok = 0, cancelled = [], cleanup = None\<rparr>"

definition live :: "nat \<Rightarrow> loader \<Rightarrow> bool" where
  "live t l \<longleftrightarrow> t < next_tok l \<and> t \<notin> set (cancelled l)"

text \<open>Calling the loading function: a fresh \<open>let cancelled = false\<close>.\<close>

definition begin_load :: "loader \<Rightarrow> loader" where
  "begin_load l = l\<lparr>next_tok := Suc (next_tok l)\<rparr>"

text \<open>The clean-up of the effect's last run, if it left one.\<close>

definition run_cleanup :: "loader \<Rightarrow> loader" where
  "run_cleanup l =
     (case cleanup l of
        None \<Rightarrow> l
      | Some t \<Rightarrow> l\<lparr>cancelled := t # cancelled l, cleanup := None\<rparr>)"

text \<open>Re-running an effect whose body returns the load's cancel function.\<close>

definition rerun_effect :: "loader \<Rightarrow> loader" where
  "rerun_effect l =
     (let l' = run_cleanup l in (begin_load l')\<lparr>cleanup := Some (next_tok l')\<rparr>)"

definition loader_ok :: "loader \<Rightarrow> bool" where
  "loader_ok l \<longleftrightarrow>
     (\<forall>t \<in> set (cancelled l). t < next_tok l) \<and>
     (\<forall>t. cleanup l = Some t \<longrightarrow> live t l)"

lemma loader_ok_new [simp]: "loader_ok new_loader"
  by (simp add: loader_ok_def new_loader_def)

lemma loader_ok_begin [simp]: "loader_ok l \<Longrightarrow> loader_ok (begin_load l)"
  by (auto simp: loader_ok_def begin_load_def live_def less_Suc_eq)

lemma loader_ok_cleanup [simp]: "loader_ok l \<Longrightarrow> loader_ok (run_cleanup l)"
  by (auto simp: loader_ok_def run_cleanup_def live_def split: option.splits)

lemma loader_ok_rerun [simp]: "loader_ok l \<Longrightarrow> loader_ok (rerun_effect l)"
  using loader_ok_cleanup [of l]
  by (auto simp: loader_ok_def rerun_effect_def begin_load_def live_def Let_def less_Suc_eq)

lemma cleanup_kills: "cleanup l = Some t \<Longrightarrow> \<not> live t (run_cleanup l)"
  by (simp add: run_cleanup_def live_def)

lemma rerun_kills: "cleanup l = Some t \<Longrightarrow> t < next_tok l \<Longrightarrow> \<not> live t (rerun_effect l)"
  by (simp add: rerun_effect_def run_cleanup_def begin_load_def live_def Let_def)

lemma next_tok_run_cleanup [simp]: "next_tok (run_cleanup l) = next_tok l"
  by (simp add: run_cleanup_def split: option.splits)

lemma rerun_new_live: "loader_ok l \<Longrightarrow> live (next_tok l) (rerun_effect l)"
  by (auto simp: rerun_effect_def begin_load_def live_def Let_def run_cleanup_def loader_ok_def
      split: option.splits)

lemma begin_new_live: "loader_ok l \<Longrightarrow> live (next_tok l) (begin_load l)"
  by (auto simp: begin_load_def live_def loader_ok_def)

lemma first_load_live [simp]: "live 0 (rerun_effect new_loader)"
  by (simp add: live_def rerun_effect_def new_loader_def run_cleanup_def begin_load_def Let_def)

lemma first_load_cleanup [simp]: "cleanup (rerun_effect new_loader) = Some 0"
  by (simp add: rerun_effect_def new_loader_def run_cleanup_def begin_load_def Let_def)

lemma next_tok_rerun [simp]: "next_tok (rerun_effect l) = Suc (next_tok l)"
  by (simp add: rerun_effect_def begin_load_def Let_def)

lemma cleanup_rerun [simp]: "cleanup (rerun_effect l) = Some (next_tok l)"
  by (simp add: rerun_effect_def Let_def)

text \<open>
  A component that tests its token before it touches its state. \<open>toks\<close> projects the
  loader out of the state, \<open>settle t r\<close> handles the response \<open>r\<close> of the load \<open>t\<close>.
\<close>

locale guarded_settle =
  fixes toks :: "'s \<Rightarrow> loader"
    and settle :: "nat \<Rightarrow> 'r \<Rightarrow> 's \<Rightarrow> 's"
  assumes dead_ignored: "\<not> live t (toks s) \<Longrightarrow> settle t r s = s"
    and toks_kept: "toks (settle t r s) = toks s"
begin

lemma dead_fold:
  "\<forall>(t, r) \<in> set rs. \<not> live t (toks s) \<Longrightarrow> fold (\<lambda>(t, r). settle t r) rs s = s"
  by (induction rs) (auto simp: dead_ignored)

lemma toks_fold: "toks (fold (\<lambda>(t, r). settle t r) rs s) = toks s"
  by (induction rs arbitrary: s) (auto simp: toks_kept split: prod.splits)

lemma superseded:
  assumes "toks s' = rerun_effect (toks s)" "cleanup (toks s) = Some t" "loader_ok (toks s)"
  shows "settle t r s' = s'"
proof (rule dead_ignored)
  have "t < next_tok (toks s)" using assms(2,3) by (auto simp: loader_ok_def live_def)
  with assms show "\<not> live t (toks s')" by (simp add: rerun_kills)
qed

end

end
