(* ===== verification/StepsEditor.thy ===== *)
theory StepsEditor
  imports BotConfig React
begin

text \<open>
  The editor of one flow's steps (\<open>components/botbuilder/StepsEditor.tsx\<close>). Its props are
  the flow and the callback that replaces the flow's steps; its own state is the index of
  the expanded step. Every handler is a function of both; \<open>None\<close> is a thrown
  \<open>TypeError\<close> (a step index that does not exist), which no rendered control can raise.

  The callback is the interface \<open>steps_owner\<close>: the page that owns the flow promises that
  it reads back the steps it was given and keeps them apart from everything else.
\<close>

section \<open>Operations\<close>

definition updateStep :: "nat \<Rightarrow> (step \<Rightarrow> step) \<Rightarrow> step list \<Rightarrow> step list" where
  "updateStep index patch steps = mapi (\<lambda>i s. if i = index then patch s else s) steps"

definition retype :: "step_type \<Rightarrow> step \<Rightarrow> step" where
  "retype t st = st\<lparr>
     step_type := t,
     step_options := Sent (if t = S_choice
        then (case opt (step_options st) of
                Some os \<Rightarrow> if length os \<ge> 2 then Some os else Some [[], []]
              | None \<Rightarrow> Some [[], []])
        else None),
     step_accept := Sent (if t = S_file
        then (case opt (step_accept st) of
                Some ks \<Rightarrow> if length ks > 0 then Some ks else Some FILE_KINDS
              | None \<Rightarrow> Some FILE_KINDS)
        else None)\<rparr>"

definition changeType :: "nat \<Rightarrow> step_type \<Rightarrow> step list \<Rightarrow> step list option" where
  "changeType index t steps =
     (if index < length steps then Some (updateStep index (retype t) steps) else None)"

definition accepted :: "step \<Rightarrow> file_kind list" where
  "accepted st = (case opt (step_accept st) of None \<Rightarrow> [] | Some ks \<Rightarrow> ks)"

definition next_accept :: "file_kind \<Rightarrow> bool \<Rightarrow> file_kind list \<Rightarrow> file_kind list" where
  "next_accept kind checked current =
     (let nxt = (if checked then filter (\<lambda>k. k = kind \<or> k \<in> set current) FILE_KINDS
                 else filter (\<lambda>k. k \<noteq> kind) current)
      in if length nxt > 0 then nxt else current)"

definition toggleAccept :: "nat \<Rightarrow> file_kind \<Rightarrow> bool \<Rightarrow> step list \<Rightarrow> step list option" where
  "toggleAccept index kind checked steps =
     (if index < length steps
      then Some (updateStep index
             (\<lambda>s. s\<lparr>step_accept := Sent (Some (next_accept kind checked (accepted (steps ! index))))\<rparr>) steps)
      else None)"

definition step_opts :: "step \<Rightarrow> jsstr list" where
  "step_opts st = (case opt (step_options st) of None \<Rightarrow> [] | Some os \<Rightarrow> os)"

definition set_opts :: "jsstr list \<Rightarrow> step \<Rightarrow> step" where
  "set_opts os s = s\<lparr>step_options := Sent (Some os)\<rparr>"

text \<open>
  Writing past the end of the options would leave holes in the array; that is \<open>None\<close> here
  too.
\<close>

definition updateOption :: "nat \<Rightarrow> nat \<Rightarrow> jsstr \<Rightarrow> step list \<Rightarrow> step list option" where
  "updateOption index optIndex v steps =
     (if index < length steps then
        (let os = step_opts (steps ! index) in
         if optIndex < length os then Some (updateStep index (set_opts (os[optIndex := v])) steps)
         else if optIndex = length os then Some (updateStep index (set_opts (os @ [v])) steps)
         else None)
      else None)"

definition addOption :: "nat \<Rightarrow> step list \<Rightarrow> step list option" where
  "addOption index steps =
     (if index < length steps
      then Some (updateStep index (set_opts (step_opts (steps ! index) @ [[]])) steps)
      else None)"

definition removeOption :: "nat \<Rightarrow> nat \<Rightarrow> step list \<Rightarrow> step list option" where
  "removeOption index optIndex steps =
     (if index < length steps
      then Some (updateStep index (set_opts (drop_index optIndex (step_opts (steps ! index)))) steps)
      else None)"

definition addStep :: "nat \<Rightarrow> step list \<Rightarrow> step list" where
  "addStep now steps =
     (let base = emptyStep S_text
      in steps @ [base\<lparr>step_key := uniqueKey (step_key base) (map step_key steps) now\<rparr>])"

definition open_after_remove :: "nat \<Rightarrow> int \<Rightarrow> int" where
  "open_after_remove index cur =
     (if cur = int index then - 1 else if cur > int index then cur - 1 else cur)"

section \<open>Events\<close>

datatype steps_event =
    ToggleOpen nat
  | RemoveStep nat
  | SetKey nat jsstr
  | SetType nat step_type
  | SetQuestion nat jsstr
  | SetOption nat nat jsstr
  | RemoveOption nat nat
  | AddOption nat
  | ToggleAccept nat file_kind bool
  | SetRequired nat bool
  | AddStep nat

definition initial_open :: "step list \<Rightarrow> int" where
  "initial_open steps = (if length steps > 0 then 0 else - 1)"

text \<open>The new steps, if the callback is called, and the new expanded index.\<close>

fun on_steps_event :: "steps_event \<Rightarrow> step list \<Rightarrow> int \<Rightarrow> (step list option \<times> int) option" where
  "on_steps_event (ToggleOpen i) steps opn = Some (None, if opn = int i then - 1 else int i)"
| "on_steps_event (RemoveStep i) steps opn = Some (Some (drop_index i steps), open_after_remove i opn)"
| "on_steps_event (SetKey i v) steps opn = Some (Some (updateStep i (\<lambda>s. s\<lparr>step_key := v\<rparr>) steps), opn)"
| "on_steps_event (SetType i t) steps opn = map_option (\<lambda>n. (Some n, opn)) (changeType i t steps)"
| "on_steps_event (SetQuestion i v) steps opn =
     Some (Some (updateStep i (\<lambda>s. s\<lparr>step_question := v\<rparr>) steps), opn)"
| "on_steps_event (SetOption i j v) steps opn = map_option (\<lambda>n. (Some n, opn)) (updateOption i j v steps)"
| "on_steps_event (RemoveOption i j) steps opn = map_option (\<lambda>n. (Some n, opn)) (removeOption i j steps)"
| "on_steps_event (AddOption i) steps opn = map_option (\<lambda>n. (Some n, opn)) (addOption i steps)"
| "on_steps_event (ToggleAccept i k c) steps opn = map_option (\<lambda>n. (Some n, opn)) (toggleAccept i k c steps)"
| "on_steps_event (SetRequired i b) steps opn =
     Some (Some (updateStep i (\<lambda>s. s\<lparr>step_required := b\<rparr>) steps), opn)"
| "on_steps_event (AddStep now) steps opn = Some (Some (addStep now steps), int (length steps))"

section \<open>The view\<close>

definition STEP_TYPE_OPTIONS :: "(step_type \<times> jsstr) list" where
  "STEP_TYPE_OPTIONS =
     [(S_text, (heb ''hwqh getyi'')), (S_phone, (heb ''hlteo'')), (S_email, (heb ''@iniil'')),
      (S_choice, (heb ''agixd nxyind'')), (S_file, (heb ''weau / znepd''))]"

definition step_summary :: "step \<Rightarrow> jsstr" where
  "step_summary st =
     (if trim (step_question st) \<noteq> [] then trim (step_question st)
      else if trim (step_key st) \<noteq> [] then trim (step_key st)
      else (heb ''yla gcy''))"

definition option_row :: "nat \<Rightarrow> nat \<Rightarrow> jsstr \<Rightarrow> steps_event vnode" where
  "option_row index j v =
     El ''div'' []
       [field_view ((heb ''@tyxez '') @ nat_str (j + 1)) v (SetOption index j),
        El ''button'' [Attr ''aria-label'' ((heb ''ngw @tyxez '') @ nat_str (j + 1)), on_click (RemoveOption index j)] []]"

definition choice_view :: "nat \<Rightarrow> step \<Rightarrow> steps_event vnode" where
  "choice_view index st =
     El ''fieldset'' []
       ([Txt (heb ''@tyxeiez agixd''),
         Txt ((heb ''aio '') @ nat_str MIN_CHOICE_OPTIONS @ (heb '' l-'') @ nat_str MAX_CHOICE_OPTIONS @ (heb '' @tyxeiez.''))]
        @ mapi (option_row index) (step_opts st)
        @ shown (length (step_opts st) < MAX_CHOICE_OPTIONS)
            [El ''button'' [on_click (AddOption index)] [Txt (heb ''deqs @tyxez'')]])"

definition kind_box :: "nat \<Rightarrow> step \<Rightarrow> file_kind \<Rightarrow> steps_event vnode" where
  "kind_box index st kind =
     (let checked = kind \<in> set (accepted st) in
      El ''label'' []
        [El ''checkbox'' [on_click (ToggleAccept index kind (\<not> checked))] [], Txt (FILE_KIND_LABELS kind)])"

definition file_view :: "nat \<Rightarrow> step \<Rightarrow> steps_event vnode" where
  "file_view index st =
     El ''fieldset'' []
       ([Txt (heb ''qebi wavim nezxim''),
         Txt ((heb ''agxe ltgez qeb @gc. becl nxai lweau: '') @ nat_str MAX_UPLOAD_MB @ (lat ''MB.''))]
        @ map (kind_box index st) FILE_KINDS)"

definition step_body :: "nat \<Rightarrow> step \<Rightarrow> steps_event vnode" where
  "step_body index st =
     El ''div'' []
       ([field_view (heb ''nfdd dycd'') (step_key st) (SetKey index),
         El ''select'' [Attr ''value'' (step_type_str (step_type st)), On (\<lambda>e. \<exists>t. e = SetType index t)]
           (map (\<lambda>(t, l). El ''option'' [] [Txt l]) STEP_TYPE_OPTIONS),
         field_view (heb ''dy@ld llweg'') (step_question st) (SetQuestion index)]
        @ shown (step_type st = S_choice) [choice_view index st]
        @ shown (step_type st = S_file) [file_view index st]
        @ [El ''label'' []
             [El ''checkbox'' [on_click (SetRequired index (\<not> step_required st))] [], Txt (heb ''ycd gead'')]])"

definition step_row :: "int \<Rightarrow> nat \<Rightarrow> step \<Rightarrow> steps_event vnode" where
  "step_row opn index st =
     El ''li'' []
       ([El ''button'' [on_click (ToggleOpen index)] [Txt (nat_str (index + 1)), Txt (step_summary st)],
         El ''button'' [Attr ''aria-label'' ((heb ''ngw yla '') @ nat_str (index + 1)), on_click (RemoveStep index)] []]
        @ shown (opn = int index) [step_body index st])"

definition steps_view :: "flow \<Rightarrow> int \<Rightarrow> steps_event vnode list" where
  "steps_view flow opn =
     (if flow_type flow = T_human_handoff then []
      else
        [El ''ol'' [] (mapi (step_row opn) (flow_steps flow))]
        @ shown (length (flow_steps flow) = 0)
            [Txt (if flow_type flow = T_lead
                  then (heb ''nqlel @iqes lic giia ltgez yla @gc. deqite yla kci ldzgil.'')
                  else (heb ''@io ylaim rciio. deqite yla kci ldzgil.''))]
        @ (let atMax = length (flow_steps flow) \<ge> MAX_STEPS_PER_FLOW in
           [El ''button'' [Disabled atMax, On (\<lambda>e. \<exists>now. e = AddStep now)]
              [Txt (if atMax then (heb ''dbrz lnwqinem ('') @ nat_str MAX_STEPS_PER_FLOW @ (lat '')'')
                    else (heb ''deqs yla''))]]))"

section \<open>What the editor keeps\<close>

text \<open>The bounds the view enforces, and the extra configuration each step type owns.\<close>

definition step_bounded :: "step \<Rightarrow> bool" where
  "step_bounded st \<longleftrightarrow> length (step_opts st) \<le> MAX_CHOICE_OPTIONS"

definition step_owned :: "step \<Rightarrow> bool" where
  "step_owned st \<longleftrightarrow>
     (step_type st \<noteq> S_choice \<longrightarrow> opt (step_options st) = None) \<and>
     (step_type st \<noteq> S_file \<longrightarrow> opt (step_accept st) = None) \<and>
     (step_type st = S_choice \<longrightarrow> opt (step_options st) \<noteq> None) \<and>
     (step_type st = S_file \<longrightarrow> accepted st \<noteq> [])"

definition steps_bounded :: "step list \<Rightarrow> bool" where
  "steps_bounded steps \<longleftrightarrow> length steps \<le> MAX_STEPS_PER_FLOW \<and> list_all step_bounded steps"

definition open_ok :: "step list \<Rightarrow> int \<Rightarrow> bool" where
  "open_ok steps opn \<longleftrightarrow> - 1 \<le> opn \<and> opn < int (length steps)"

lemma length_updateStep [simp]: "length (updateStep i p steps) = length steps"
  by (simp add: updateStep_def)

lemma nth_updateStep:
  "j < length steps \<Longrightarrow> updateStep i p steps ! j = (if j = i then p (steps ! j) else steps ! j)"
  by (simp add: updateStep_def)

lemma updateStep_eq: "i < length steps \<Longrightarrow> updateStep i p steps = steps[i := p (steps ! i)]"
  by (rule nth_equalityI) (auto simp: nth_updateStep)

lemma list_all_updateStep:
  "list_all Q steps \<Longrightarrow> (i < length steps \<Longrightarrow> Q (steps ! i) \<Longrightarrow> Q (p (steps ! i))) \<Longrightarrow>
   list_all Q (updateStep i p steps)"
  by (auto simp: list_all_length nth_updateStep)

lemma list_all_drop_index: "list_all Q xs \<Longrightarrow> list_all Q (drop_index i xs)"
  using set_drop_index [of i xs] by (auto simp: list_all_iff)

text \<open>The events a view raises.\<close>

fun row_event :: "step \<Rightarrow> nat \<Rightarrow> steps_event \<Rightarrow> bool" where
  "row_event st i (ToggleOpen j) = (j = i)"
| "row_event st i (RemoveStep j) = (j = i)"
| "row_event st i (SetKey j v) = (j = i)"
| "row_event st i (SetType j t) = (j = i)"
| "row_event st i (SetQuestion j v) = (j = i)"
| "row_event st i (SetOption j o' v) = (j = i \<and> step_type st = S_choice \<and> o' < length (step_opts st))"
| "row_event st i (RemoveOption j o') = (j = i \<and> step_type st = S_choice \<and> o' < length (step_opts st))"
| "row_event st i (AddOption j) =
     (j = i \<and> step_type st = S_choice \<and> length (step_opts st) < MAX_CHOICE_OPTIONS)"
| "row_event st i (ToggleAccept j k c) = (j = i \<and> step_type st = S_file \<and> c = (k \<notin> set (accepted st)))"
| "row_event st i (SetRequired j b) = (j = i \<and> b = (\<not> step_required st))"
| "row_event st i (AddStep now) = False"

lemma in_FILE_KINDS [simp]: "k \<in> set FILE_KINDS"
  by (cases k) (simp_all add: FILE_KINDS_def)

lemma fires_step_row: "fires (step_row opn i st) e \<Longrightarrow> row_event st i e"
  by (auto simp: step_row_def step_body_def choice_view_def file_view_def option_row_def kind_box_def
      fires_any_mapi fires_any_map Let_def split: prod.splits)

lemma steps_view_events:
  "fires_any (steps_view flow opn) e \<Longrightarrow>
     (\<exists>i < length (flow_steps flow). row_event (flow_steps flow ! i) i e)
     \<or> (\<exists>now. e = AddStep now \<and> length (flow_steps flow) < MAX_STEPS_PER_FLOW)"
  by (auto simp: steps_view_def fires_any_mapi Let_def dest: fires_step_row split: if_splits)

text \<open>Each operation keeps the bounds and the ownership of the extra configuration.\<close>

definition step_ok :: "step \<Rightarrow> bool" where
  "step_ok st \<longleftrightarrow> step_bounded st \<and> step_owned st"

lemmas step_ok_defs = step_ok_def step_bounded_def step_owned_def step_opts_def accepted_def

lemma retype_owned: "step_owned (retype t st)"
  by (cases t)
    (auto simp: step_owned_def retype_def accepted_def FILE_KINDS_def split: option.split)

lemma retype_bounded: "step_bounded st \<Longrightarrow> step_bounded (retype t st)"
  by (auto simp: step_bounded_def retype_def step_opts_def split: option.split)

lemma next_accept_nonempty: "current \<noteq> [] \<Longrightarrow> next_accept k c current \<noteq> []"
  by (simp add: next_accept_def Let_def)

lemma set_next_accept:
  "set (next_accept k c current) =
     (if c then insert k (set current)
      else if set current \<subseteq> {k} then set current else set current - {k})"
proof (cases c)
  case True
  have "k \<in> set (filter (\<lambda>x. x = k \<or> x \<in> set current) FILE_KINDS)" by simp
  then have "filter (\<lambda>x. x = k \<or> x \<in> set current) FILE_KINDS \<noteq> []" by (metis list.set_intros(1) empty_iff list.set(1))
  with True show ?thesis by (auto simp: next_accept_def Let_def)
next
  case False
  then show ?thesis by (auto simp: next_accept_def Let_def filter_empty_conv)
qed

lemma edit_ok:
  "step_ok st \<Longrightarrow> step_ok (st\<lparr>step_key := v\<rparr>)"
  "step_ok st \<Longrightarrow> step_ok (st\<lparr>step_question := v\<rparr>)"
  "step_ok st \<Longrightarrow> step_ok (st\<lparr>step_required := b\<rparr>)"
  "step_ok st \<Longrightarrow> step_ok (retype t st)"
  "step_ok st \<Longrightarrow> step_type st = S_choice \<Longrightarrow> length os \<le> MAX_CHOICE_OPTIONS \<Longrightarrow> step_ok (set_opts os st)"
  "step_ok st \<Longrightarrow> step_type st = S_file \<Longrightarrow> ks \<noteq> [] \<Longrightarrow> step_ok (st\<lparr>step_accept := Sent (Some ks)\<rparr>)"
  by (simp_all add: step_ok_def retype_owned retype_bounded)
    (simp_all add: step_ok_defs set_opts_def)

lemma new_step_ok: "step_ok ((emptyStep S_text)\<lparr>step_key := k\<rparr>)"
  by (simp add: step_ok_defs emptyStep_def)

lemma length_drop_le: "length (drop_index i xs) \<le> length xs"
  by (simp add: drop_index_def)

lemma row_event_total:
  assumes "i < length steps" "row_event (steps ! i) i e" "list_all step_ok steps"
    "length steps \<le> MAX_STEPS_PER_FLOW" "open_ok steps opn"
  shows "\<exists>r opn'. on_steps_event e steps opn = Some (r, opn') \<and>
    (let ns = (case r of None \<Rightarrow> steps | Some ns \<Rightarrow> ns) in
       list_all step_ok ns \<and> length ns \<le> MAX_STEPS_PER_FLOW \<and> open_ok ns opn')"
proof -
  from assms(1,3) have ok: "step_ok (steps ! i)" by (simp add: list_all_length)
  have upd: "list_all step_ok (updateStep i p steps)" if "step_ok (p (steps ! i))" for p
    using assms(3) that by (rule list_all_updateStep)
  have acc: "step_type (steps ! i) = S_file \<Longrightarrow> accepted (steps ! i) \<noteq> []"
    using ok by (simp add: step_ok_def step_owned_def)
  have bound: "length (step_opts (steps ! i)) \<le> MAX_CHOICE_OPTIONS"
    using ok by (simp add: step_ok_def step_bounded_def)
  show ?thesis
  proof (cases e)
    case (RemoveStep j)
    with assms show ?thesis
      using length_drop_le [of i steps]
      by (auto simp: list_all_drop_index open_ok_def open_after_remove_def length_drop_index)
  next
    case (RemoveOption j k)
    with assms ok bound show ?thesis
      using length_drop_le [of k "step_opts (steps ! i)"]
      by (auto simp: removeOption_def Let_def open_ok_def intro!: upd edit_ok)
  qed (use assms ok acc bound in \<open>auto simp: open_ok_def changeType_def updateOption_def addOption_def
      toggleAccept_def Let_def next_accept_nonempty intro!: upd edit_ok\<close>)
qed

lemma view_event_total:
  assumes "fires_any (steps_view flow opn) e" "list_all step_ok (flow_steps flow)"
    "length (flow_steps flow) \<le> MAX_STEPS_PER_FLOW" "open_ok (flow_steps flow) opn"
  shows "\<exists>r opn'. on_steps_event e (flow_steps flow) opn = Some (r, opn') \<and>
    (let ns = (case r of None \<Rightarrow> flow_steps flow | Some ns \<Rightarrow> ns) in
       list_all step_ok ns \<and> length ns \<le> MAX_STEPS_PER_FLOW \<and> open_ok ns opn')"
proof -
  from steps_view_events [OF assms(1)] consider
      i where "i < length (flow_steps flow)" "row_event (flow_steps flow ! i) i e"
    | now where "e = AddStep now" "length (flow_steps flow) < MAX_STEPS_PER_FLOW" by blast
  then show ?thesis
  proof cases
    case 1
    then show ?thesis using assms(2-4) by (rule row_event_total)
  next
    case 2
    with assms show ?thesis by (auto simp: addStep_def Let_def new_step_ok open_ok_def)
  qed
qed

section \<open>The owner of the steps\<close>

locale steps_owner =
  fixes steps_of :: "'s \<Rightarrow> step list"
    and put_steps :: "step list \<Rightarrow> 's \<Rightarrow> 's"
    and ready :: "'s \<Rightarrow> bool"
  assumes steps_put: "ready s \<Longrightarrow> steps_of (put_steps ns s) = ns"
    and ready_put: "ready s \<Longrightarrow> ready (put_steps ns s)"
    and put_put: "ready s \<Longrightarrow> put_steps a (put_steps b s) = put_steps a s"
begin

definition act :: "steps_event \<Rightarrow> 's \<Rightarrow> int \<Rightarrow> ('s \<times> int) option" where
  "act e s opn =
     map_option (\<lambda>(r, opn'). (case r of None \<Rightarrow> s | Some ns \<Rightarrow> put_steps ns s, opn'))
       (on_steps_event e (steps_of s) opn)"

lemma act_ready: "ready s \<Longrightarrow> act e s opn = Some (s', opn') \<Longrightarrow> ready s'"
  by (auto simp: act_def ready_put split: option.splits)

lemma act_steps:
  "ready s \<Longrightarrow> on_steps_event e (steps_of s) opn = Some (r, opn') \<Longrightarrow>
   \<exists>s'. act e s opn = Some (s', opn') \<and>
     steps_of s' = (case r of None \<Rightarrow> steps_of s | Some ns \<Rightarrow> ns)"
  by (auto simp: act_def steps_put split: option.splits)

lemma act_total:
  assumes "ready s" "flow_steps flow = steps_of s" "fires_any (steps_view flow opn) e"
    "list_all step_ok (steps_of s)" "length (steps_of s) \<le> MAX_STEPS_PER_FLOW"
    "open_ok (steps_of s) opn"
  shows "\<exists>s' opn'. act e s opn = Some (s', opn') \<and> ready s' \<and> list_all step_ok (steps_of s') \<and>
    length (steps_of s') \<le> MAX_STEPS_PER_FLOW \<and> open_ok (steps_of s') opn'"
proof -
  from view_event_total [OF assms(3), unfolded assms(2), OF assms(4-6)] obtain r opn' where
    r: "on_steps_event e (steps_of s) opn = Some (r, opn')" and
    ok: "let ns = (case r of None \<Rightarrow> steps_of s | Some ns \<Rightarrow> ns) in
       list_all step_ok ns \<and> length ns \<le> MAX_STEPS_PER_FLOW \<and> open_ok ns opn'"
    by blast
  from act_steps [OF assms(1) r] ok act_ready [OF assms(1)] show ?thesis
    by (auto simp: Let_def)
qed

text \<open>The last edit of a field wins, and typing leaves no trace of what was typed before.\<close>

lemma act_question_twice:
  assumes "ready s" "act (SetQuestion i v) s opn = Some (s1, o1)"
    "act (SetQuestion i w) s1 o1 = Some (s2, o2)"
  shows "act (SetQuestion i w) s opn = Some (s2, o2)"
proof -
  have "updateStep i (\<lambda>s. s\<lparr>step_question := w\<rparr>) (updateStep i (\<lambda>s. s\<lparr>step_question := v\<rparr>) xs)
      = updateStep i (\<lambda>s. s\<lparr>step_question := w\<rparr>) xs" for xs
    by (rule nth_equalityI) (auto simp: nth_updateStep)
  with assms show ?thesis by (auto simp: act_def steps_put put_put)
qed

end

section \<open>Properties\<close>



text \<open>
  Removing a step never moves the accordion to another step: the step that was
  expanded is still the expanded one, unless it is the one removed, and then none is.
\<close>

theorem remove_keeps_expanded_step:
  assumes "i < length steps" "open_ok steps opn"
  shows "if opn < 0 \<or> opn = int i then open_after_remove i opn = - 1
         else 0 \<le> open_after_remove i opn \<and>
              drop_index i steps ! nat (open_after_remove i opn) = steps ! nat opn"
  using assms
  by (auto simp: open_after_remove_def open_ok_def nth_drop_index nat_less_iff Suc_nat_eq_nat_zadd1)

theorem remove_keeps_expanded_step_witness:
  "drop_index 0 [emptyStep S_text, emptyStep S_email] ! nat (open_after_remove 0 1) = emptyStep S_email"
  using remove_keeps_expanded_step [of 0 "[emptyStep S_text, emptyStep S_email]" 1]
  by (simp add: open_ok_def)

text \<open>
  Ticking a file kind accepts exactly that kind more, unticking exactly that
  kind less, except that the last accepted kind stays: a non-empty list is never emptied.
\<close>

theorem toggleAccept_exact:
  assumes "index < length steps"
  shows "\<exists>ns. toggleAccept index k checked steps = Some ns \<and>
    (\<forall>j < length steps. j \<noteq> index \<longrightarrow> ns ! j = steps ! j) \<and>
    (let old = set (accepted (steps ! index)); new = set (accepted (ns ! index)) in
       new = (if checked then insert k old else if old \<subseteq> {k} then old else old - {k}) \<and>
       (old \<noteq> {} \<longrightarrow> new \<noteq> {}))"
proof -
  let ?ks = "accepted (steps ! index)"
  let ?ns = "updateStep index (\<lambda>s. s\<lparr>step_accept := Sent (Some (next_accept k checked ?ks))\<rparr>) steps"
  have a: "accepted (?ns ! index) = next_accept k checked ?ks"
    using assms by (simp add: nth_updateStep) (simp add: accepted_def)
  have "set (next_accept k checked ?ks) \<noteq> {}" if "set ?ks \<noteq> {}"
    using next_accept_nonempty [of ?ks k checked] that by simp
  moreover have "toggleAccept index k checked steps = Some ?ns"
    using assms by (simp add: toggleAccept_def)
  ultimately show ?thesis
    unfolding Let_def
    by (intro exI [of _ ?ns]) (simp only: a set_next_accept, simp add: nth_updateStep)
qed

theorem toggleAccept_exact_witness:
  "let st = (emptyStep S_file)\<lparr>step_accept := Sent (Some [K_pdf])\<rparr> in
   \<exists>ns. toggleAccept 0 K_pdf False [st] = Some ns \<and> set (accepted (ns ! 0)) = {K_pdf}"
  using toggleAccept_exact [of 0 "[(emptyStep S_file)\<lparr>step_accept := Sent (Some [K_pdf])\<rparr>]" K_pdf False]
  by (auto simp: accepted_def Let_def)

text \<open>
  A new step never reuses a field id: as long as fewer than 998 steps exist,
  its key differs from every key of the flow, so keys that were distinct stay distinct.
\<close>

theorem addStep_fresh_key:
  assumes "length steps < 998"
  shows "\<exists>st. addStep now steps = steps @ [st] \<and> step_key st \<notin> set (map step_key steps) \<and>
    (distinct (map step_key steps) \<longrightarrow> distinct (map step_key (addStep now steps)))"
proof -
  let ?k = "uniqueKey (step_key (emptyStep S_text)) (map step_key steps) now"
  have "length (step_key (emptyStep S_text)) \<le> 36" by (simp add: emptyStep_def)
  with assms have "?k \<notin> set (map step_key steps)" by (intro uniqueKey_fresh) simp_all
  then show ?thesis by (auto simp: addStep_def Let_def)
qed

theorem addStep_fresh_key_witness:
  "distinct (map step_key (addStep 0 [emptyStep S_text]))"
  using addStep_fresh_key [of "[emptyStep S_text]" 0] by auto

end
