(* ===== verification/AiChat.thy ===== *)
theory AiChat
  imports BotConfig React
begin

text \<open>
  The two chats of the bot builder: the assistant panel
  (\<open>components/botbuilder/AIChatPanel.tsx\<close>) and the test chat (\<open>pages/TryMePage.tsx\<close>).
  Each is its state record, a function per handler, the settling of each awaited call as an
  event of its own, and its view. Scrolling and focus are left out.
\<close>

section \<open>Stripping code fences\<close>

definition fence :: jsstr where
  "fence = [96, 96, 96]"

definition json_fence :: jsstr where
  "json_fence = fence @ (lat ''json'')"

text \<open>The text after the next fence.\<close>

fun after_fence :: "jsstr \<Rightarrow> jsstr option" where
  "after_fence [] = None"
| "after_fence (c # s) = (if starts_with (c # s) fence then Some (drop 3 (c # s)) else after_fence s)"

lemma after_fence_shorter: "after_fence s = Some r \<Longrightarrow> length r < length s"
  by (induction s rule: after_fence.induct) (auto split: if_splits)

text \<open>
  One global \<open>replace\<close> of \<open>opener[\s\S]*?```\<close> by nothing; \<open>cf\<close> is \<open>lower\<close> where the
  pattern has the flag \<open>i\<close>.
\<close>

function strip_blocks :: "(jsstr \<Rightarrow> jsstr) \<Rightarrow> jsstr \<Rightarrow> jsstr \<Rightarrow> jsstr" where
  "strip_blocks cf opener [] = []"
| "strip_blocks cf opener (c # s) =
     (case (if starts_with (cf (c # s)) opener then after_fence (drop (length opener) (c # s)) else None) of
        Some r \<Rightarrow> strip_blocks cf opener r
      | None \<Rightarrow> c # strip_blocks cf opener s)"
  by pat_completeness auto

termination
proof (relation "measure (\<lambda>(_, _, s). length s)", goal_cases)
  case (3 cf opener c s r)
  then have "after_fence (drop (length opener) (c # s)) = Some r" by (simp split: if_splits)
  then have "length r < length (drop (length opener) (c # s))" by (rule after_fence_shorter)
  then show ?case by simp
qed simp_all

text \<open>\<open>replace(/\n{3,}/g, '\n\n')\<close>.\<close>

fun squeeze_newlines :: "nat \<Rightarrow> jsstr \<Rightarrow> jsstr" where
  "squeeze_newlines seen [] = []"
| "squeeze_newlines seen (c # s) =
     (if c = 10 then (if seen < 2 then c # squeeze_newlines (seen + 1) s else squeeze_newlines seen s)
      else c # squeeze_newlines 0 s)"

definition tidy :: "jsstr \<Rightarrow> jsstr" where
  "tidy s = trim (squeeze_newlines 0 s)"

definition stripFences :: "jsstr \<Rightarrow> jsstr" where
  "stripFences s = tidy (strip_blocks id fence (strip_blocks lower json_fence s))"

section \<open>The assistant panel\<close>

definition GREETING :: jsstr where
  "GREETING = (heb ''dii, @pi drefx dgkm ylj. and @ekl lrfex lj diem?'')"

definition ai_applied_note :: jsstr where
  "ai_applied_note = (heb ''refx d-AI rcko @z daeh. acwe elgve '' @ [34] @ heb ''ynex yipeiim'' @ [34] @ heb '' kci lynex.'')"

definition ai_friendly :: "js_thrown \<Rightarrow> jsstr" where
  "ai_friendly err =
     (case err of
        ThrownApi e \<Rightarrow>
          if err_status e = 503 then (heb ''refx d-AI @ipe fnio kxbr (l@ debcx). pqe yea n@egx iezx.'')
          else if err_status e = 502 then (heb ''refx d-AI l@ fnio fnpiz. pqe yea arec xbr.'')
          else if err_status e = 401 then (heb ''tb zews ddzgaxez. xrppe @z drnec edzgaxe ngcy.'')
          else (heb ''@ixrd zwld ayligz ddecrd. pqe yea.'')
      | ThrownOther _ \<Rightarrow> (heb ''@ixrd zwld ayligz ddecrd. pqe yea.''))"

record ai_chat =
  ai_messages :: "(bot_ai_role \<times> jsstr) list"
  ai_input :: jsstr
  ai_sending :: bool
  ai_loadingHistory :: bool
  ai_error :: "jsstr option"
  ai_note :: "jsstr option"
  ai_loader :: loader

definition ai_init :: ai_chat where
  "ai_init = \<lparr>ai_messages = [], ai_input = [], ai_sending = False, ai_loadingHistory = False,
              ai_error = None, ai_note = None, ai_loader = new_loader\<rparr>"

text \<open>The effect on \<open>[open]\<close>: its clean-up always runs first; it loads only when opening.\<close>

definition ai_opened :: "ai_chat \<Rightarrow> ai_chat" where
  "ai_opened s = s\<lparr>ai_error := None, ai_note := None, ai_loadingHistory := True,
                   ai_loader := rerun_effect (ai_loader s)\<rparr>"

definition ai_closed :: "ai_chat \<Rightarrow> ai_chat" where
  "ai_closed s = s\<lparr>ai_loader := run_cleanup (ai_loader s)\<rparr>"

definition ai_history :: "nat \<Rightarrow> (js_thrown + bot_ai_message list) \<Rightarrow> ai_chat \<Rightarrow> ai_chat" where
  "ai_history t r s =
     (if live t (ai_loader s) then
        s\<lparr>ai_messages := (case r of Inl _ \<Rightarrow> [] | Inr ms \<Rightarrow>
             map (\<lambda>m. (if aim_role m = Ai_user then Ai_user else Ai_assistant, aim_content m)) ms),
          ai_loadingHistory := False\<rparr>
      else s)"

definition ai_type :: "jsstr \<Rightarrow> ai_chat \<Rightarrow> ai_chat" where
  "ai_type v s = s\<lparr>ai_input := v\<rparr>"

text \<open>Submitting: the new state and the request, with the configuration of this render.\<close>

definition ai_submit :: "bot_settings \<Rightarrow> ai_chat \<Rightarrow> ai_chat \<times> http_request option" where
  "ai_submit cfg s =
     (let txt = trim (ai_input s) in
      if txt = [] \<or> ai_sending s then (s, None)
      else (s\<lparr>ai_error := None, ai_note := None, ai_input := [],
              ai_messages := ai_messages s @ [(Ai_user, txt)], ai_sending := True\<rparr>,
            Some (aiChat txt cfg)))"

text \<open>Settling: the new state and the changes handed to \<open>onApplyChanges\<close>.\<close>

definition ai_reply :: "(js_thrown + bot_ai_chat_response) \<Rightarrow> ai_chat \<Rightarrow> ai_chat \<times> raw_settings option" where
  "ai_reply r s =
     (case r of
        Inl err \<Rightarrow> (s\<lparr>ai_error := Some (ai_friendly err), ai_sending := False\<rparr>, None)
      | Inr res \<Rightarrow>
          (let s1 = s\<lparr>ai_messages := ai_messages s @ [(Ai_assistant, BotConfig.ai_reply res)]\<rparr> in
           case ai_changes res of
             None \<Rightarrow> (s1\<lparr>ai_sending := False\<rparr>, None)
           | Some c \<Rightarrow> (s1\<lparr>ai_note := Some ai_applied_note, ai_sending := False\<rparr>, Some c)))"

datatype ai_event = A_close | A_type jsstr | A_submit

definition ai_bubble :: "bot_ai_role \<times> jsstr \<Rightarrow> ai_event vnode" where
  "ai_bubble m =
     (case m of
        (Ai_user, c) \<Rightarrow> El ''li'' [] [Txt (heb ''@z/d: ''), Txt c]
      | (Ai_assistant, c) \<Rightarrow>
          El ''li'' [] [Txt (heb ''drefx: ''),
            Txt (if stripFences c \<noteq> [] then stripFences c else ([9989] @ heb '' dyipeiim degle.''))])"

definition ai_view :: "bool \<Rightarrow> ai_chat \<Rightarrow> ai_event vnode list" where
  "ai_view opn s =
     (if \<not> opn then []
      else
        [El ''button'' [on_click A_close] [],
         El ''header'' [] [Txt (heb ''refx d-AI ylj''), El ''button'' [on_click A_close] []],
         El ''p'' [] [Txt GREETING]]
        @ shown (ai_loadingHistory s) [Txt (heb ''hero yigd'' @ [8230])]
        @ [El ''ul'' [] (map ai_bubble (ai_messages s))]
        @ shown (ai_sending s) [Txt (heb ''drefx nwlic'' @ [8230])]
        @ (case ai_note s of None \<Rightarrow> [] | Some n \<Rightarrow> [El ''Alert'' [] [Txt n]])
        @ (case ai_error s of None \<Rightarrow> [] | Some m \<Rightarrow> [El ''Alert'' [] [Txt m]])
        @ [El ''form'' []
             [El ''textarea'' [Attr ''value'' (ai_input s), On (\<lambda>e. \<exists>v. e = A_type v), on_click A_submit] [],
              El ''button'' [Disabled (ai_sending s \<or> length (trim (ai_input s)) = 0), on_click A_submit] []]])"

section \<open>The test chat\<close>

definition tm_friendly :: "js_thrown \<Rightarrow> jsstr" where
  "tm_friendly err =
     (case err of
        ThrownApi e \<Rightarrow>
          if err_status e = 401 then (heb ''tb zews ddzgaxez. xrppe @z drnec edzgaxe ngcy.'')
          else if err_status e = 0 then (heb ''@io giaex lyxz. acwe @z dgiaex epqe yea.'')
          else if err_status e \<ge> 500 then (heb ''@ixrd zwld fnpiz ayxz. pqe yea arec xbr.'')
          else (heb ''@ixrd zwld ayligz ddecrd. pqe yea.'')
      | ThrownOther _ \<Rightarrow> (heb ''@ixrd zwld ayligz ddecrd. pqe yea.''))"

datatype tm_entry =
    Bubble nat bool jsstr
  | LeadCard nat answers
  | HandoffNote nat

fun entry_id :: "tm_entry \<Rightarrow> nat" where
  "entry_id (Bubble i c t) = i"
| "entry_id (LeadCard i l) = i"
| "entry_id (HandoffNote i) = i"

text \<open>\<open>Bubble i True t\<close> is the customer's. \<open>tm_seq\<close> is the module's \<open>entrySeq\<close>.\<close>

record tryme =
  tm_entries :: "tm_entry list"
  tm_conv :: json
  tm_input :: jsstr
  tm_sending :: bool
  tm_opening :: bool
  tm_error :: "jsstr option"
  tm_seq :: nat
  tm_loader :: loader

fun bot_bubbles :: "nat \<Rightarrow> jsstr list \<Rightarrow> tm_entry list" where
  "bot_bubbles n [] = []"
| "bot_bubbles n (t # ts) = Bubble (n + 1) False t # bot_bubbles (n + 1) ts"

definition added_entries :: "nat \<Rightarrow> bot_try_me_response \<Rightarrow> tm_entry list" where
  "added_entries n res =
     (let bs = bot_bubbles n (tm_replies res); m = n + length (tm_replies res) + 1 in
      if tm_event res = Some Lead_completed \<and> tm_lead res \<noteq> None then bs @ [LeadCard m (the (tm_lead res))]
      else if tm_event res = Some Handed_off then bs @ [HandoffNote m]
      else bs)"

definition applyResponse :: "bot_try_me_response \<Rightarrow> tryme \<Rightarrow> tryme" where
  "applyResponse res s =
     (let added = added_entries (tm_seq s) res in
      s\<lparr>tm_conv := tm_state res, tm_entries := tm_entries s @ added,
        tm_seq := tm_seq s + length added\<rparr>)"

definition tm_cleared :: "tryme \<Rightarrow> tryme" where
  "tm_cleared s = s\<lparr>tm_error := None, tm_opening := True, tm_entries := [], tm_conv := JNull, tm_input := []\<rparr>"

definition tm_open_request :: http_request where
  "tm_open_request = tryMe [] JNull"

text \<open>The mount effect runs \<open>open\<close> and keeps its cancel function; a reset drops it.\<close>

definition tm_mount :: "nat \<Rightarrow> tryme" where
  "tm_mount seq =
     tm_cleared \<lparr>tm_entries = [], tm_conv = JNull, tm_input = [], tm_sending = False, tm_opening = True,
                 tm_error = None, tm_seq = seq, tm_loader = rerun_effect new_loader\<rparr>"

definition tm_reset :: "tryme \<Rightarrow> tryme \<times> http_request option" where
  "tm_reset s =
     (if tm_sending s then (s, None)
      else ((tm_cleared s)\<lparr>tm_loader := begin_load (tm_loader s)\<rparr>, Some tm_open_request))"

definition tm_opened :: "nat \<Rightarrow> (js_thrown + bot_try_me_response) \<Rightarrow> tryme \<Rightarrow> tryme" where
  "tm_opened t r s =
     (if live t (tm_loader s) then
        (case r of Inl err \<Rightarrow> s\<lparr>tm_error := Some (tm_friendly err)\<rparr> | Inr res \<Rightarrow> applyResponse res s)
          \<lparr>tm_opening := False\<rparr>
      else s)"

definition tm_type :: "jsstr \<Rightarrow> tryme \<Rightarrow> tryme" where
  "tm_type v s = s\<lparr>tm_input := v\<rparr>"

definition tm_submit :: "tryme \<Rightarrow> tryme \<times> http_request option" where
  "tm_submit s =
     (let txt = trim (tm_input s) in
      if txt = [] \<or> tm_sending s \<or> tm_opening s then (s, None)
      else (s\<lparr>tm_error := None, tm_input := [],
              tm_entries := tm_entries s @ [Bubble (tm_seq s + 1) True txt],
              tm_seq := tm_seq s + 1, tm_sending := True\<rparr>,
            Some (tryMe txt (tm_conv s))))"

definition tm_replied :: "(js_thrown + bot_try_me_response) \<Rightarrow> tryme \<Rightarrow> tryme" where
  "tm_replied r s =
     (case r of Inl err \<Rightarrow> s\<lparr>tm_error := Some (tm_friendly err)\<rparr> | Inr res \<Rightarrow> applyResponse res s)
       \<lparr>tm_sending := False\<rparr>"

datatype tm_ui = M_reset | M_type jsstr | M_submit

definition lead_card_rows :: "(answer_value \<Rightarrow> tm_ui vnode) \<Rightarrow> answers \<Rightarrow> tm_ui vnode list" where
  "lead_card_rows answerValue l =
     map (\<lambda>(k, v). El ''div'' [] [Txt (k @ (lat '':'')), answerValue v]) (entries l)"

definition tm_entry_view :: "(answer_value \<Rightarrow> tm_ui vnode) \<Rightarrow> tm_entry \<Rightarrow> tm_ui vnode" where
  "tm_entry_view answerValue en =
     (case en of
        Bubble i c t \<Rightarrow> El ''li'' [] [Txt (if c then (heb ''@z/d: '') else (heb ''daeh: '')), Txt t]
      | LeadCard i l \<Rightarrow>
          El ''li'' [] [Txt (heb ''fd nd ydid p@qs (anva aciwd '' @ [8212] @ heb '' l@ pynx)''), El ''dl'' [] (lead_card_rows answerValue l)]
      | HandoffNote i \<Rightarrow> El ''li'' [] [Txt (heb ''k@o daeh did nraix @z dyigd lpvib @peyi.'')])"

definition tm_view :: "(answer_value \<Rightarrow> tm_ui vnode) \<Rightarrow> tryme \<Rightarrow> tm_ui vnode list" where
  "tm_view answerValue s =
     [Txt (heb ''pqd @ezi''), Txt (heb ''caxe rm daeh k@ile @zm lweg. fde nva aciwd '' @ [8212] @ heb '' yem cax l@ pynx.''),
      El ''button'' [Disabled (tm_sending s \<or> tm_opening s), on_click M_reset] [Txt (heb ''dzgl ngcy'')]]
     @ shown (tm_opening s) [Txt (heb ''tezg yigd'' @ [8230])]
     @ [El ''ul'' [] (map (tm_entry_view answerValue) (tm_entries s))]
     @ shown (tm_sending s) [Txt (heb ''daeh nwlic'' @ [8230])]
     @ (case tm_error s of None \<Rightarrow> [] | Some m \<Rightarrow> [El ''Alert'' [] [Txt m]])
     @ [El ''form'' []
          [El ''textarea'' [Disabled (tm_opening s), Attr ''value'' (tm_input s),
             On (\<lambda>e. \<exists>v. e = M_type v), on_click M_submit] [],
           El ''button'' [Disabled (tm_sending s \<or> tm_opening s \<or> length (trim (tm_input s)) = 0),
             on_click M_submit] []]]"

section \<open>Lemmas on the fences\<close>

lemma fence_ne [simp]: "fence \<noteq> []" "length fence = 3"
  by (simp_all add: fence_def)

lemma starts_with_fence: "starts_with s fence \<Longrightarrow> 96 \<in> set s"
  by (auto simp: starts_with_iff fence_def)

lemma after_fence_none: "96 \<notin> set s \<Longrightarrow> after_fence s = None"
  by (induction s) (auto dest: starts_with_fence)

lemma after_fence_body: "96 \<notin> set body \<Longrightarrow> after_fence (body @ fence @ b) = Some b"
proof (induction body)
  case Nil
  have "starts_with (fence @ b) fence" by (simp add: starts_with_iff)
  then show ?case by (simp add: fence_def)
next
  case (Cons c body)
  then have "\<not> starts_with (c # body @ fence @ b) fence"
    by (auto simp: starts_with_def fence_def)
  with Cons show ?case by simp
qed

lemma strip_blocks_skip:
  assumes "\<And>c. g c = 96 \<longleftrightarrow> c = 96" "96 \<notin> set a"
  shows "strip_blocks (map g) (96 # op') (a @ t) = a @ strip_blocks (map g) (96 # op') t"
  using assms(2)
proof (induction a)
  case (Cons c a)
  then have "g c \<noteq> 96" by (simp add: assms(1))
  then have "\<not> starts_with (map g (c # a @ t)) (96 # op')" by (simp add: starts_with_def)
  with Cons show ?case by simp
qed simp

lemma strip_blocks_plain:
  "(\<And>c. g c = 96 \<longleftrightarrow> c = 96) \<Longrightarrow> 96 \<notin> set a \<Longrightarrow> strip_blocks (map g) (96 # op') a = a"
  using strip_blocks_skip [of g a op' "[]"] by simp

lemma lower_tick: "lower_unit c = 96 \<longleftrightarrow> c = 96"
  by (auto simp: lower_unit_def)

lemma lower_map: "lower = map lower_unit"
  by (auto simp: lower_def)

lemma id_map: "id = map id"
  by simp

lemma strip_second:
  assumes "96 \<notin> set a" "96 \<notin> set body" "96 \<notin> set b"
  shows "strip_blocks id fence (a @ fence @ body @ fence @ b) = a @ b"
proof -
  have f: "fence = 96 # [96, 96]" by (simp add: fence_def)
  have sw: "starts_with (fence @ body @ fence @ b) fence" by (simp add: starts_with_iff)
  have af: "after_fence (drop 3 (fence @ body @ fence @ b)) = Some b"
    using after_fence_body [OF assms(2), of b] by (simp add: fence_def)
  have "strip_blocks id fence (fence @ body @ fence @ b) = strip_blocks id fence b"
    using sw af unfolding f by (simp add: fence_def)
  moreover have "strip_blocks (map id) (96 # [96, 96]) (a @ t) = a @ strip_blocks (map id) (96 # [96, 96]) t"
    for t by (rule strip_blocks_skip) (simp_all add: assms)
  moreover have "strip_blocks (map id) (96 # [96, 96]) b = b"
    by (rule strip_blocks_plain) (simp_all add: assms)
  ultimately show ?thesis by (simp add: fence_def)
qed

lemma json_fence_Cons: "json_fence = 96 # [96, 96, 106, 115, 111, 110]"
  by (simp add: json_fence_def fence_def js_lit)

lemma length_json_fence [simp]: "length json_fence = 7"
  by (simp add: json_fence_Cons)

lemma strip_hit:
  "s \<noteq> [] \<Longrightarrow> starts_with (cf s) opener \<Longrightarrow> after_fence (drop (length opener) s) = Some r \<Longrightarrow>
   strip_blocks cf opener s = strip_blocks cf opener r"
  by (cases s) simp_all

lemma strip_miss:
  "\<not> starts_with (cf (c # s)) opener \<or> after_fence (drop (length opener) (c # s)) = None \<Longrightarrow>
   strip_blocks cf opener (c # s) = c # strip_blocks cf opener s"
  by (auto split: option.split)

lemma strip_first_plain_tail:
  assumes "96 \<notin> set b"
  shows "strip_blocks lower json_fence (fence @ b) = fence @ b"
proof -
  have n: "after_fence (drop k b) = None" for k
    using assms by (intro after_fence_none) (auto dest: in_set_dropD)
  have "strip_blocks (map lower_unit) (96 # [96, 96, 106, 115, 111, 110]) b = b"
    by (rule strip_blocks_plain) (simp_all add: assms lower_tick)
  then have p: "strip_blocks lower json_fence b = b" by (simp add: lower_map json_fence_Cons)
  have "\<not> starts_with (lower ([96, 96] @ b)) json_fence" "\<not> starts_with (lower ([96] @ b)) json_fence"
    using assms by (cases b; auto simp: starts_with_def json_fence_Cons lower_map lower_tick)+
  moreover have "after_fence (drop (length json_fence) (96 # 96 # 96 # b)) = None"
    using n [of 4] by simp
  ultimately have "strip_blocks lower json_fence (96 # 96 # 96 # b) =
      96 # 96 # 96 # strip_blocks lower json_fence b"
    by (simp add: strip_miss del: strip_blocks.simps)
  then show ?thesis by (simp add: fence_def p)
qed

lemma strip_first:
  assumes "96 \<notin> set a" "96 \<notin> set body" "96 \<notin> set b"
  shows "strip_blocks lower json_fence (a @ fence @ body @ fence @ b) =
    (if starts_with (lower body) (lat ''json'') then a @ b else a @ fence @ body @ fence @ b)"
proof -
  have skip: "strip_blocks lower json_fence (x @ t) = x @ strip_blocks lower json_fence t"
    if "96 \<notin> set x" for x t
  proof -
    have "strip_blocks (map lower_unit) (96 # [96, 96, 106, 115, 111, 110]) (x @ t) =
        x @ strip_blocks (map lower_unit) (96 # [96, 96, 106, 115, 111, 110]) t"
      using that by (intro strip_blocks_skip lower_tick)
    then show ?thesis by (simp add: lower_map json_fence_Cons)
  qed
  show ?thesis
  proof (cases "starts_with (lower body) (lat ''json'')")
    case True
    then have len: "4 \<le> length body"
      by (auto simp: starts_with_def js_lit dest: arg_cong [where f = length])
    have "starts_with (lower (fence @ body @ fence @ b)) json_fence"
      using True by (auto simp: starts_with_iff json_fence_def lower_def fence_def lower_unit_def)
    moreover have "after_fence (drop 7 (fence @ body @ fence @ b)) = Some b"
    proof -
      have "drop 7 (fence @ body @ fence @ b) = drop 4 body @ fence @ b"
        using len by (simp add: fence_def)
      moreover have "96 \<notin> set (drop 4 body)" using assms(2) by (auto dest: in_set_dropD)
      ultimately show ?thesis by (simp add: after_fence_body)
    qed
    ultimately have "strip_blocks lower json_fence (fence @ body @ fence @ b) = strip_blocks lower json_fence b"
      by (intro strip_hit) simp_all
    with True skip [OF assms(1)] skip [OF assms(3), of "[]"] show ?thesis by simp
  next
    case False
    have n0: "\<not> starts_with (lower (fence @ body @ fence @ b)) json_fence"
    proof
      assume "starts_with (lower (fence @ body @ fence @ b)) json_fence"
      then have "take 4 (lower (body @ fence @ b)) = lat ''json''"
        by (simp add: starts_with_def json_fence_def fence_def lower_def lower_unit_def numeral_eq_Suc)
      then have t: "take 4 (lower body @ lower (fence @ b)) = lat ''json''"
        by (simp add: lower_def)
      then have "96 \<notin> set (take 4 (lower body @ lower (fence @ b)))" by (simp add: js_lit)
      moreover have "lower (fence @ b) = 96 # 96 # 96 # lower b"
        by (simp add: lower_def fence_def lower_unit_def)
      ultimately have "4 \<le> length body"
        by (cases "4 - length body") (auto simp: numeral_eq_Suc)
      with t False show False by (simp add: starts_with_def numeral_eq_Suc)
    qed
    have n1: "\<not> starts_with (lower (96 # 96 # body @ fence @ b)) json_fence \<and>
      \<not> starts_with (lower (96 # body @ fence @ b)) json_fence"
    proof (cases body)
      case Nil
      then show ?thesis
        by (simp add: starts_with_def json_fence_Cons lower_map fence_def lower_unit_def)
    next
      case (Cons c r)
      then have "lower_unit c \<noteq> 96" using assms(2) by (auto simp: lower_tick)
      with Cons show ?thesis
        by (simp add: starts_with_def json_fence_Cons lower_map)
    qed
    have "strip_blocks lower json_fence (fence @ body @ fence @ b) =
        fence @ strip_blocks lower json_fence (body @ fence @ b)"
      using n0 n1 by (simp add: fence_def strip_miss del: strip_blocks.simps)
    with False skip [OF assms(1)] skip [OF assms(2)] strip_first_plain_tail [OF assms(3)]
    show ?thesis by simp
  qed
qed

section \<open>The panel's loads\<close>

interpretation ai: guarded_settle ai_loader ai_history
  by unfold_locales (simp_all add: ai_history_def)

lemma ai_closed_dead:
  "loader_ok (ai_loader s) \<Longrightarrow> cleanup (ai_loader s) = Some t \<Longrightarrow> \<not> live t (ai_loader (ai_closed s))"
  by (simp add: ai_closed_def cleanup_kills)

lemma next_tok_new: "next_tok new_loader = 0"
  by (simp add: new_loader_def)

section \<open>Runs of the test chat\<close>

text \<open>
  What can happen on the page: \<open>os\<close> are the openings in flight, \<open>ts\<close> the texts of the turns
  in flight. The user can only do what the rendered page offers.
\<close>

inductive tm_run :: "(answer_value \<Rightarrow> tm_ui vnode) \<Rightarrow> tryme \<Rightarrow> nat list \<Rightarrow> jsstr list \<Rightarrow> bool" for av where
  tm_start: "tm_run av (tm_mount seq) [0] []"
| tm_typed: "tm_run av s os ts \<Longrightarrow> fires_any (tm_view av s) (M_type v) \<Longrightarrow> tm_run av (tm_type v s) os ts"
| tm_restart: "tm_run av s os ts \<Longrightarrow> fires_any (tm_view av s) M_reset \<Longrightarrow> tm_reset s = (s', Some r) \<Longrightarrow>
     tm_run av s' (next_tok (tm_loader s) # os) ts"
| tm_sent: "tm_run av s os ts \<Longrightarrow> fires_any (tm_view av s) M_submit \<Longrightarrow> tm_submit s = (s', Some r) \<Longrightarrow>
     tm_run av s' os (trim (tm_input s) # ts)"
| tm_open_settled: "tm_run av s os ts \<Longrightarrow> t \<in> set os \<Longrightarrow> tm_run av (tm_opened t res s) (remove1 t os) ts"
| tm_turn_settled: "tm_run av s os ts \<Longrightarrow> x \<in> set ts \<Longrightarrow> tm_run av (tm_replied res' s) os (remove1 x ts)"

definition tm_inv :: "tryme \<Rightarrow> nat list \<Rightarrow> jsstr list \<Rightarrow> bool" where
  "tm_inv s os ts \<longleftrightarrow>
     loader_ok (tm_loader s) \<and>
     (if tm_opening s then (\<exists>t. os = [t] \<and> live t (tm_loader s)) else os = []) \<and>
     (if tm_sending s
      then \<not> tm_opening s \<and> (\<exists>x i. ts = [x] \<and> tm_entries s \<noteq> [] \<and> last (tm_entries s) = Bubble i True x)
      else ts = []) \<and>
     distinct (map entry_id (tm_entries s)) \<and> (\<forall>en \<in> set (tm_entries s). entry_id en \<le> tm_seq s)"

lemma bot_bubbles_ids: "map entry_id (bot_bubbles n ts) = map (\<lambda>i. n + 1 + i) [0..<length ts]"
proof (induction ts arbitrary: n)
  case (Cons t ts)
  then show ?case by (simp add: upt_conv_Cons map_Suc_upt [symmetric] del: upt_Suc)
qed simp

lemma length_bot_bubbles [simp]: "length (bot_bubbles n ts) = length ts"
  by (induction ts arbitrary: n) simp_all

lemma added_ids:
  "map entry_id (added_entries n res) = map (\<lambda>i. n + 1 + i) [0..<length (added_entries n res)]"
  by (auto simp: added_entries_def Let_def bot_bubbles_ids)

lemma applyResponse_ids:
  assumes "distinct (map entry_id (tm_entries s))" "\<forall>en \<in> set (tm_entries s). entry_id en \<le> tm_seq s"
  shows "distinct (map entry_id (tm_entries (applyResponse res s)))"
    "\<forall>en \<in> set (tm_entries (applyResponse res s)). entry_id en \<le> tm_seq (applyResponse res s)"
proof -
  let ?a = "added_entries (tm_seq s) res"
  have ids: "entry_id ` set ?a = (\<lambda>i. tm_seq s + 1 + i) ` {0..<length ?a}"
    using added_ids [of "tm_seq s" res] by (metis list.set_map set_upt)
  have d: "distinct (map entry_id ?a)"
    unfolding added_ids by (simp add: distinct_map inj_on_def)
  have disj: "entry_id ` set (tm_entries s) \<inter> entry_id ` set ?a = {}"
    using assms(2) unfolding ids by fastforce
  with assms(1) d show "distinct (map entry_id (tm_entries (applyResponse res s)))"
    by (simp add: applyResponse_def Let_def)
  have "\<forall>en \<in> set ?a. entry_id en \<le> tm_seq s + length ?a"
  proof
    fix en assume "en \<in> set ?a"
    then have "entry_id en \<in> (\<lambda>i. tm_seq s + 1 + i) ` {0..<length ?a}" using ids by blast
    then show "entry_id en \<le> tm_seq s + length ?a" by auto
  qed
  then show "\<forall>en \<in> set (tm_entries (applyResponse res s)). entry_id en \<le> tm_seq (applyResponse res s)"
    using assms(2) by (auto simp: applyResponse_def Let_def trans_le_add1)
qed

lemma applyResponse_fields [simp]:
  "tm_sending (applyResponse res s) = tm_sending s" "tm_opening (applyResponse res s) = tm_opening s"
  "tm_loader (applyResponse res s) = tm_loader s" "tm_input (applyResponse res s) = tm_input s"
  by (simp_all add: applyResponse_def Let_def)

lemma entry_view_silent: "\<forall>a e. \<not> fires (av a) e \<Longrightarrow> \<not> fires (tm_entry_view av en) e"
  by (cases en) (auto simp: tm_entry_view_def lead_card_rows_def fires_any_map)

lemma reset_offered:
  "fires_any (tm_view av s) M_reset \<Longrightarrow> \<forall>a e. \<not> fires (av a) e \<Longrightarrow> \<not> tm_sending s \<and> \<not> tm_opening s"
  by (simp add: tm_view_def fires_any_map entry_view_silent split: option.splits)

lemma tm_run_inv:
  assumes "tm_run av s os ts" "\<forall>a e. \<not> fires (av a) e"
  shows "tm_inv s os ts"
  using assms(1)
proof (induction rule: tm_run.induct)
  case (tm_start seq)
  show ?case by (simp add: tm_inv_def tm_mount_def tm_cleared_def)
next
  case (tm_typed s os ts v)
  then show ?case by (auto simp: tm_inv_def tm_type_def split: if_splits)
next
  case (tm_restart s os ts s' r)
  have "\<not> tm_sending s \<and> \<not> tm_opening s" using reset_offered [OF tm_restart(2) assms(2)] .
  with tm_restart show ?case
    by (auto simp: tm_inv_def tm_reset_def tm_cleared_def begin_new_live split: if_splits)
next
  case (tm_sent s os ts s' r)
  then show ?case
    by (auto simp: tm_inv_def tm_submit_def Let_def split: if_splits) (force+)?
next
  case (tm_open_settled s os ts t res)
  then have l: "live t (tm_loader s)" and o: "tm_opening s" "os = [t]" "\<not> tm_sending s" "ts = []"
    by (auto simp: tm_inv_def split: if_splits)
  from tm_open_settled(3) l o show ?case
    by (auto simp: tm_inv_def tm_opened_def applyResponse_ids split: sum.split)
next
  case (tm_turn_settled s os ts x res')
  then have o: "\<not> tm_opening s" "os = []" "tm_sending s" "ts = [x]"
    by (auto simp: tm_inv_def split: if_splits)
  from tm_turn_settled(3) o show ?case
    by (auto simp: tm_inv_def tm_replied_def applyResponse_ids split: sum.split)
qed

section \<open>Properties\<close>

text \<open>
  The owner never sees the assistant's code blocks: a fenced block whose body
  has no backtick, \<open>json\<close> or not, is removed from the text around it, and only blank lines
  and outer white space are tidied.
\<close>

theorem stripFences_removes_block:
  assumes "96 \<notin> set a" "96 \<notin> set body" "96 \<notin> set b"
  shows "stripFences (a @ fence @ body @ fence @ b) = tidy (a @ b)"
proof (cases "starts_with (lower body) (lat ''json'')")
  case True
  have "strip_blocks (map id) (96 # [96, 96]) (a @ b) = a @ b"
    by (rule strip_blocks_plain) (use assms in simp_all)
  then have "strip_blocks id fence (a @ b) = a @ b" by (simp add: fence_def)
  with True strip_first [OF assms] show ?thesis by (simp add: stripFences_def)
next
  case False
  with strip_first [OF assms] strip_second [OF assms] show ?thesis by (simp add: stripFences_def)
qed

theorem stripFences_removes_block_witness:
  "stripFences (lat ''ok '' @ fence @ lat ''json {}'' @ fence @ lat '' done'') = tidy (lat ''ok  done'')"
  using stripFences_removes_block [of "lat ''ok ''" "lat ''json {}''" "lat '' done''"]
  by (simp add: js_lit)

text \<open>
  Property C12. The test chat runs one request at a time and keeps the order of the talk: on
  every run, at most one opening or turn is in flight; while a turn is in flight its own text
  is the last bubble, so the replies land right under the message they answer; and the React
  keys of the entries are distinct.
\<close>

theorem tryme_one_turn_at_a_time:
  assumes "tm_run av s os ts" "\<forall>a e. \<not> fires (av a) e"
  shows "length os + length ts \<le> 1
    \<and> (\<forall>x \<in> set ts. \<exists>i. last (tm_entries s) = Bubble i True x)
    \<and> distinct (map entry_id (tm_entries s))"
  using tm_run_inv [OF assms] by (auto simp: tm_inv_def split: if_splits)

theorem tryme_one_turn_at_a_time_witness:
  "\<exists>s. tm_run (\<lambda>_. Txt []) s [] [[104, 105]] \<and> last (tm_entries s) = Bubble 1 True [104, 105]"
proof -
  let ?av = "\<lambda>_ :: answer_value. Txt [] :: tm_ui vnode"
  let ?e = "Inl (ThrownOther [])"
  define s1 where "s1 = tm_opened 0 ?e (tm_mount 0)"
  have r1: "tm_run ?av s1 [] []"
    using tm_open_settled [OF tm_start [of ?av 0], of 0 ?e] by (simp add: s1_def)
  have "\<not> tm_opening s1" "\<not> tm_sending s1"
    by (simp_all add: s1_def tm_opened_def tm_mount_def tm_cleared_def)
  then have f2: "fires_any (tm_view ?av s1) (M_type [104, 105])"
    by (simp add: tm_view_def)
  define s2 where "s2 = tm_type [104, 105] s1"
  have r2: "tm_run ?av s2 [] []" unfolding s2_def using tm_typed [OF r1 f2] .
  have t: "trim [104, 105] = [104, 105]" by (simp add: trim_def is_space_def)
  have s2: "\<not> tm_opening s2" "\<not> tm_sending s2" "tm_input s2 = [104, 105]"
    "tm_seq s2 = 0" "tm_entries s2 = []"
    by (simp_all add: s1_def s2_def tm_type_def tm_opened_def tm_mount_def tm_cleared_def)
  then have f3: "fires_any (tm_view ?av s2) M_submit"
    by (simp add: tm_view_def)
  obtain s3 r where s3: "tm_submit s2 = (s3, Some r)" "tm_entries s3 = [Bubble 1 True [104, 105]]"
    using s2 t by (simp add: tm_submit_def Let_def)
  have r3: "tm_run ?av s3 [] [[104, 105]]"
    using tm_sent [OF r2 f3 s3(1)] s2 t by simp
  from tryme_one_turn_at_a_time [OF r3] s3(2) have "last (tm_entries s3) = Bubble 1 True [104, 105]" by simp
  with r3 show ?thesis by blast
qed

text \<open>
  A message sent before the history arrived disappears: the composer is not
  disabled while the history loads, and the response then replaces the whole transcript,
  whatever the owner has already sent, although its request is under way.
\<close>

theorem history_drops_sent_message:
  assumes "trim v \<noteq> []"
  shows "\<exists>s1 r. fires_any (ai_view True (ai_type v (ai_opened ai_init))) A_submit
    \<and> ai_submit cfg (ai_type v (ai_opened ai_init)) = (s1, Some r)
    \<and> ai_messages s1 = [(Ai_user, trim v)]
    \<and> ai_messages (ai_history 0 (Inr []) s1) = [] \<and> ai_sending (ai_history 0 (Inr []) s1)"
  using assms
  by (auto simp: ai_submit_def ai_type_def ai_opened_def ai_init_def ai_history_def ai_view_def Let_def)

theorem history_drops_sent_message_witness:
  "\<exists>s1 r. ai_submit emptySettings (ai_type [104] (ai_opened ai_init)) = (s1, Some r)
    \<and> ai_messages (ai_history 0 (Inr []) s1) = []"
  using history_drops_sent_message [of "[104]" emptySettings] by (auto simp: trim_def is_space_def)

text \<open>
  A closed panel is deaf to its history: once the panel is closed, the response
  of the load it had started changes nothing, whether it succeeds or fails.
\<close>

theorem closed_panel_ignores_history:
  assumes "loader_ok (ai_loader s)" "cleanup (ai_loader s) = Some t"
  shows "ai_history t r (ai_closed s) = ai_closed s"
  using ai.dead_ignored ai_closed_dead [OF assms] by blast

theorem closed_panel_ignores_history_witness:
  "ai_history 0 (Inr []) (ai_closed (ai_opened ai_init)) = ai_closed (ai_opened ai_init)"
proof (rule closed_panel_ignores_history)
  show "loader_ok (ai_loader (ai_opened ai_init))" by (simp add: ai_opened_def ai_init_def)
  show "cleanup (ai_loader (ai_opened ai_init)) = Some 0"
    by (simp add: ai_opened_def ai_init_def next_tok_new)
qed

end
