(* ===== verification/Controls.thy ===== *)
theory Controls
  imports BotConfig React
begin

text \<open>
  Three shared controls: the tab strip (\<open>components/ui/Tabs.tsx\<close>), the flow-type radio
  group (\<open>components/botbuilder/FlowTypeSelector.tsx\<close>) and the publish switch
  (\<open>components/dashboard/PublishToggle.tsx\<close>). The first two move by keyboard in the
  visual direction of a right-to-left page.
\<close>

section \<open>Tabs\<close>

record tab_item =
  tab_id :: jsstr
  tab_label :: jsstr

datatype nav_key = ArrowLeft | ArrowRight | ArrowUp | ArrowDown | HomeKey | EndKey | OtherKey

text \<open>\<open>findIndex\<close>: \<open>None\<close> is \<open>-1\<close>.\<close>

fun find_index :: "('a \<Rightarrow> bool) \<Rightarrow> 'a list \<Rightarrow> nat option" where
  "find_index p [] = None"
| "find_index p (x # xs) = (if p x then Some 0 else map_option Suc (find_index p xs))"

lemma find_index_Some:
  "find_index p xs = Some i \<Longrightarrow> i < length xs \<and> p (xs ! i) \<and> (\<forall>j < i. \<not> p (xs ! j))"
proof (induction xs arbitrary: i)
  case (Cons x xs)
  then show ?case
    by (auto split: if_splits simp: less_Suc_eq_0_disj nth_Cons')
qed simp

lemma find_index_None: "find_index p xs = None \<longleftrightarrow> (\<forall>x \<in> set xs. \<not> p x)"
  by (induction xs) auto

text \<open>
  The tab a key press activates. The remainder of \<open>(next + items.length) % items.length\<close> is
  taken of a non-negative number, so it is the mathematical one.
\<close>

definition tab_key_target :: "tab_item list \<Rightarrow> jsstr \<Rightarrow> nav_key \<Rightarrow> jsstr option" where
  "tab_key_target items activeId key =
     (case find_index (\<lambda>t. tab_id t = activeId) items of
        None \<Rightarrow> None
      | Some idx \<Rightarrow>
          (let nxt = (case key of
               ArrowLeft \<Rightarrow> Some (int idx + 1)
             | ArrowRight \<Rightarrow> Some (int idx - 1)
             | HomeKey \<Rightarrow> Some 0
             | EndKey \<Rightarrow> Some (int (length items) - 1)
             | _ \<Rightarrow> None)
           in case nxt of
                None \<Rightarrow> None
              | Some n \<Rightarrow>
                  Some (tab_id (items ! nat ((n + int (length items)) mod int (length items))))))"

definition tab_button :: "tab_item list \<Rightarrow> jsstr \<Rightarrow> (jsstr \<Rightarrow> 'e) \<Rightarrow> tab_item \<Rightarrow> 'e vnode" where
  "tab_button items activeId onChange tab =
     El ''tab''
       [Attr ''aria-selected'' (if tab_id tab = activeId then (lat ''true'') else (lat ''false'')),
        on_click (onChange (tab_id tab)),
        On (\<lambda>e. \<exists>key t. tab_key_target items activeId key = Some t \<and> e = onChange t)]
       [Txt (tab_label tab)]"

definition tabs_view :: "tab_item list \<Rightarrow> jsstr \<Rightarrow> (jsstr \<Rightarrow> 'e) \<Rightarrow> jsstr \<Rightarrow> 'e vnode" where
  "tabs_view items activeId onChange label =
     El ''tablist'' [Attr ''aria-label'' label] (map (tab_button items activeId onChange) items)"

lemma tab_key_target_in:
  assumes "tab_key_target items activeId key = Some t"
  shows "t \<in> tab_id ` set items"
proof -
  from assms obtain i n where i: "find_index (\<lambda>t. tab_id t = activeId) items = Some i"
    and t: "t = tab_id (items ! nat (n mod int (length items)))"
    by (auto simp: tab_key_target_def Let_def split: option.splits)
  have "0 < int (length items)" using find_index_Some [OF i] by linarith
  then have "nat (n mod int (length items)) < length items"
    by (simp add: nat_less_iff)
  then show ?thesis unfolding t by (intro imageI nth_mem)
qed

lemma tabs_view_events:
  "fires (tabs_view items activeId onChange label) e \<Longrightarrow> \<exists>t \<in> tab_id ` set items. e = onChange t"
  using tab_key_target_in
  by (fastforce simp: tabs_view_def tab_button_def fires_any_map)

lemma find_index_nth:
  assumes "distinct (map tab_id items)" "i < length items"
  shows "find_index (\<lambda>t. tab_id t = tab_id (items ! i)) items = Some i"
proof (cases "find_index (\<lambda>t. tab_id t = tab_id (items ! i)) items")
  case None
  with assms(2) show ?thesis by (auto simp: find_index_None)
next
  case (Some j)
  from find_index_Some [OF Some] have "j < length items" "tab_id (items ! j) = tab_id (items ! i)" by auto
  with assms have "j = i" by (metis length_map nth_eq_iff_index_eq nth_map)
  with Some show ?thesis by simp
qed

section \<open>FlowTypeSelector\<close>

datatype selector_value = Flow_option flow_type | Knowledge_option

definition OPTIONS :: "(selector_value \<times> jsstr \<times> bool) list" where
  "OPTIONS =
     [(Flow_option T_lead, (heb ''@iqes lic''), True),
      (Flow_option T_human_handoff, (heb ''nrax lpvib''), True),
      (Flow_option T_booking, (heb ''wairz tbiyd''), True),
      (Knowledge_option, (heb ''aqiq icr''), False)]"

text \<open>\<open>OPTIONS.filter((o) => o.enabled)\<close>, cast to flow types.\<close>

definition enabled_types :: "flow_type list" where
  "enabled_types = [t. (Flow_option t, _, True) \<leftarrow> OPTIONS]"

definition move_type :: "flow_type \<Rightarrow> int \<Rightarrow> flow_type option" where
  "move_type current delta =
     (case find_index (\<lambda>t. t = current) enabled_types of
        None \<Rightarrow> None
      | Some idx \<Rightarrow>
          Some (enabled_types !
            nat ((int idx + delta + int (length enabled_types)) mod int (length enabled_types))))"

definition type_key :: "flow_type \<Rightarrow> nav_key \<Rightarrow> flow_type option" where
  "type_key optValue key =
     (case key of
        ArrowLeft \<Rightarrow> move_type optValue 1 | ArrowDown \<Rightarrow> move_type optValue 1
      | ArrowRight \<Rightarrow> move_type optValue (- 1) | ArrowUp \<Rightarrow> move_type optValue (- 1)
      | _ \<Rightarrow> None)"

definition type_option_view ::
  "flow_type \<Rightarrow> (flow_type \<Rightarrow> 'e) \<Rightarrow> selector_value \<times> jsstr \<times> bool \<Rightarrow> 'e vnode" where
  "type_option_view v onChange o' =
     (case o' of
        (Flow_option t, label, True) \<Rightarrow>
          El ''radio'' [Attr ''aria-checked'' (if v = t then (lat ''true'') else (lat ''false'')),
            on_click (onChange t), On (\<lambda>e. \<exists>key t'. type_key t key = Some t' \<and> e = onChange t')] [Txt label]
      | (_, label, _) \<Rightarrow> El ''span'' [] [Txt label, Txt (heb ''awxea'')])"

definition type_selector_view :: "flow_type \<Rightarrow> (flow_type \<Rightarrow> 'e) \<Rightarrow> 'e vnode" where
  "type_selector_view v onChange =
     El ''radiogroup'' [] (Txt (heb ''qeb dnqlel'') # map (type_option_view v onChange) OPTIONS)"

lemma enabled_types_eq: "enabled_types = [T_lead, T_human_handoff, T_booking]"
  by (simp add: enabled_types_def OPTIONS_def)

section \<open>PublishToggle\<close>

record publish =
  pub_saving :: bool
  pub_error :: "jsstr option"
  pub_prev :: "bool option"

definition pub_init :: publish where
  "pub_init = \<lparr>pub_saving = False, pub_error = None, pub_prev = None\<rparr>"

text \<open>
  The click: the new state, the optimistic value given to \<open>onChange\<close>, the request.
  \<open>pub_prev\<close> is the \<open>prev\<close> the running call closes over.
\<close>

definition pub_toggle :: "bool \<Rightarrow> publish \<Rightarrow> publish \<times> (bool \<times> http_request) option" where
  "pub_toggle isPublished p =
     (if pub_saving p then (p, None)
      else (p\<lparr>pub_saving := True, pub_error := None, pub_prev := Some isPublished\<rparr>,
            Some (\<not> isPublished, setPublished (\<not> isPublished))))"

text \<open>Settling with the server's \<open>is_published\<close>, and the value given to \<open>onChange\<close>.\<close>

definition pub_settled :: "(js_thrown + bool) \<Rightarrow> publish \<Rightarrow> (publish \<times> bool) option" where
  "pub_settled r p =
     (case pub_prev p of
        None \<Rightarrow> None
      | Some prev \<Rightarrow>
          (case r of
             Inr b \<Rightarrow> Some (p\<lparr>pub_saving := False, pub_prev := None\<rparr>, b)
           | Inl err \<Rightarrow>
               Some (p\<lparr>pub_error := Some (toFriendlyError err (heb ''rckeo nva dtxqem pkyl. pqe yea.'')),
                       pub_saving := False, pub_prev := None\<rparr>, prev)))"

definition publish_view :: "bool \<Rightarrow> 'e \<Rightarrow> publish \<Rightarrow> 'e vnode" where
  "publish_view isPublished toggle p =
     El ''div'' []
       ([Txt (if isPublished then (heb ''texqm'') else (heb ''kaei'')),
         El ''switch'' [Attr ''aria-checked'' (if isPublished then (lat ''true'') else (lat ''false'')),
           Attr ''aria-label'' (if isPublished then (heb ''daeh ntexqm '' @ [8212] @ heb '' lgve kci lkaez'')
                                else (heb ''daeh kaei '' @ [8212] @ heb '' lgve kci ltxqm'')),
           Disabled (pub_saving p), on_click toggle] []]
        @ (case pub_error p of None \<Rightarrow> [] | Some m \<Rightarrow> [El ''alert'' [] [Txt m]]))"

section \<open>Properties\<close>

text \<open>
  The arrow keys walk the tabs in a cycle: on a strip of distinct tabs with tab
  \<open>i\<close> active, left goes to the next one, right to the previous one, both wrapping around,
  Home and End to the first and the last, and left then right is back where it began.
\<close>

theorem tab_keys_cycle:
  assumes "distinct (map tab_id items)" "i < length items"
  shows "let n = length items; go = (\<lambda>k. Some (tab_id (items ! k))); a = tab_id (items ! i) in
    tab_key_target items a ArrowLeft = go ((i + 1) mod n) \<and>
    tab_key_target items a ArrowRight = go ((i + n - 1) mod n) \<and>
    tab_key_target items a HomeKey = go 0 \<and>
    tab_key_target items a EndKey = go (n - 1) \<and>
    tab_key_target items (tab_id (items ! ((i + 1) mod n))) ArrowRight = Some a"
proof -
  let ?n = "length items"
  have n: "0 < ?n" using assms(2) by linarith
  note f = find_index_nth [OF assms(1)]
  have e1: "nat ((int i + 1 + int ?n) mod int ?n) = (i + 1) mod ?n" for i
    by (simp add: nat_mod_distrib nat_add_distrib)
  have e2: "nat ((int i - 1 + int ?n) mod int ?n) = (i + ?n - 1) mod ?n" for i
  proof -
    have "int i - 1 + int ?n = int (i + ?n - 1)" using n by linarith
    then show ?thesis by (simp only: nat_int of_nat_mod [symmetric])
  qed
  have e3: "nat (- 1 mod int ?n) = ?n - 1"
    using e2 [of 0] n by simp
  have bk: "((i + 1) mod ?n + ?n - 1) mod ?n = i"
    using assms(2) n by (cases "i + 1 = ?n") (simp_all add: mod_if)
  have lt: "(i + 1) mod ?n < ?n" using n by simp
  show ?thesis
    unfolding Let_def
    using f [OF assms(2)] f [OF lt] e1 [of i] e2 [of i] e2 [of "(i + 1) mod ?n"] e3 bk n
    by (simp add: tab_key_target_def)
qed

theorem tab_keys_cycle_witness:
  "let items = map (\<lambda>i. \<lparr>tab_id = [i], tab_label = []\<rparr>) [1, 2, 3] in
   tab_key_target items [3] ArrowLeft = Some [1] \<and> tab_key_target items [3] ArrowRight = Some [2]"
  using tab_keys_cycle [of "map (\<lambda>i. \<lparr>tab_id = [i], tab_label = []\<rparr>) [1, 2, 3]" 2] by (simp add: Let_def)

text \<open>
  The radio group offers the three flow types in a cycle and nothing else: its
  events are exactly the three choices, never the disabled option, and each arrow key of each
  option leads to a different type, with left and right undoing each other.
\<close>

theorem type_selector_exact:
  "(fires (type_selector_view v f) e \<longleftrightarrow> (\<exists>t. e = f t)) \<and>
   (\<exists>t'. type_key t ArrowLeft = Some t' \<and> t' \<noteq> t \<and> type_key t' ArrowRight = Some t
     \<and> type_key t ArrowDown = Some t' \<and> type_key t' ArrowUp = Some t)"
proof
  show "fires (type_selector_view v f) e \<longleftrightarrow> (\<exists>t. e = f t)"
    by (auto simp: type_selector_view_def OPTIONS_def type_option_view_def)
      (metis flow_type.exhaust)+
  show "\<exists>t'. type_key t ArrowLeft = Some t' \<and> t' \<noteq> t \<and> type_key t' ArrowRight = Some t
     \<and> type_key t ArrowDown = Some t' \<and> type_key t' ArrowUp = Some t"
    by (cases t) (simp_all add: type_key_def move_type_def enabled_types_eq)
qed

text \<open>
  The publish switch is optimistic and safe: a click while nothing is in flight
  shows the opposite value at once and asks the server for exactly that value; a failure puts
  back the value that was shown, with a message; a success shows what the server says; and a
  click while a call is in flight does nothing.
\<close>

theorem publish_toggle_correct:
  assumes "\<not> pub_saving p"
  shows "\<exists>p1. pub_toggle b p = (p1, Some (\<not> b, setPublished (\<not> b))) \<and>
    pub_toggle b' p1 = (p1, None) \<and>
    (\<forall>err. \<exists>p2. pub_settled (Inl err) p1 = Some (p2, b) \<and> pub_error p2 \<noteq> None \<and> \<not> pub_saving p2) \<and>
    (\<forall>r. \<exists>p2. pub_settled (Inr r) p1 = Some (p2, r) \<and> pub_error p2 = None \<and> \<not> pub_saving p2)"
  using assms by (simp add: pub_toggle_def pub_settled_def)

theorem publish_toggle_correct_witness:
  "\<exists>p1. pub_toggle False pub_init = (p1, Some (True, setPublished True)) \<and>
     pub_toggle True p1 = (p1, None)"
  using publish_toggle_correct [of pub_init False True] by (auto simp: pub_init_def)

end
