(* ===== verification/BotBuilder.thy ===== *)
theory BotBuilder
  imports StepsEditor AiChat Controls
begin

text \<open>
  The bot-builder page (\<open>pages/BotBuilderPage.tsx\<close>) with its flow tabs
  (\<open>components/botbuilder/FlowTabs.tsx\<close>), and inside it the steps editor, the assistant
  panel and the publish switch.

  \<open>on_ui\<close> is what a control's handler does, \<open>on_net\<close> what the settling of a call in flight
  does; each is followed by \<open>commit\<close>, the effects of the render that follows: the flow-type
  editor and the delete question fold when the active tab changes, and the steps editor is
  mounted afresh for every flow (\<open>key={activeKey}\<close>).
\<close>

section \<open>State\<close>

record builder =
  b_config :: "bot_settings option"
  b_activeKey :: "jsstr option"
  b_loading :: bool
  b_loadError :: "jsstr option"
  b_saving :: bool
  b_saveError :: "jsstr option"
  b_saved :: bool
  b_aiOpen :: bool
  b_editingType :: bool
  b_confirming :: bool
  b_editor :: "(jsstr \<times> int) option"
  b_ai :: ai_chat
  b_publish :: publish
  b_snapshot :: "bot_settings option"

text \<open>
  \<open>b_confirming\<close> is the toolbar's state, \<open>b_editor\<close> the mounted steps editor's key and
  expanded index, \<open>b_snapshot\<close> the configuration a running save closes over.
\<close>

definition builder_init :: builder where
  "builder_init =
     \<lparr>b_config = None, b_activeKey = None, b_loading = True, b_loadError = None, b_saving = False,
      b_saveError = None, b_saved = False, b_aiOpen = False, b_editingType = False,
      b_confirming = False, b_editor = None, b_ai = ai_init, b_publish = pub_init, b_snapshot = None\<rparr>"

definition describeSaveError :: "js_thrown \<Rightarrow> jsstr" where
  "describeSaveError err =
     (case err of
        ThrownApi e \<Rightarrow>
          if err_status e = 422 then (heb ''glw ndycez @ipm zwipim. ec@e ylaeh iy ym edpgid, ylkl nqlel @iqes iy ltgez yla @gc, eylkl yla '' @ [34] @ heb ''agixd'' @ [34] @ heb '' iy ltgez yzi @tyxeiez.'')
          else if err_status e = 401 then (heb ''tb zews ddzgaxez. xrppe @z drnec edzgaxe ngcy.'')
          else if err_status e = 0 then (heb ''@io giaex lyxz. acwe @z dgiaex epqe yea.'')
          else (heb ''ynixz ddbcxez pkyld. pqe yea.'')
      | ThrownOther _ \<Rightarrow> (heb ''ynixz ddbcxez pkyld. pqe yea.''))"

fun FLOW_TYPE_LABELS :: "flow_type \<Rightarrow> jsstr" where
  "FLOW_TYPE_LABELS T_lead = (heb ''@iqes lic'')"
| "FLOW_TYPE_LABELS T_human_handoff = (heb ''nrax lpvib'')"
| "FLOW_TYPE_LABELS T_booking = (heb ''wairz tbiyd'')"

text \<open>\<open>config && activeKey ? config.lead_steps[activeKey] : undefined\<close>.\<close>

definition active_flow :: "builder \<Rightarrow> (jsstr \<times> flow) option" where
  "active_flow s =
     (case b_config s of
        None \<Rightarrow> None
      | Some c \<Rightarrow>
          (case b_activeKey s of
             None \<Rightarrow> None
           | Some k \<Rightarrow> if k = [] then None else map_option (\<lambda>f. (k, f)) (flow_at c k)))"

section \<open>Mutators\<close>

definition mutate :: "bot_settings \<Rightarrow> builder \<Rightarrow> builder" where
  "mutate nxt s = s\<lparr>b_config := Some nxt, b_saved := False\<rparr>"

definition setProfile :: "(bot_profile \<Rightarrow> bot_profile) \<Rightarrow> builder \<Rightarrow> builder" where
  "setProfile patch s =
     (case b_config s of
        None \<Rightarrow> s
      | Some c \<Rightarrow> mutate (c\<lparr>bot_profile := patch (bot_profile c)\<rparr>) s)"

definition addFlow :: "nat \<Rightarrow> builder \<Rightarrow> builder" where
  "addFlow now s =
     (case b_config s of
        None \<Rightarrow> s
      | Some c \<Rightarrow>
          (let key = uniqueKey (lat ''flow'') (keys (lead_steps c)) now in
           (mutate (c\<lparr>lead_steps := put key (Some (emptyFlow (heb ''nqlel gcy'') T_lead)) (lead_steps c)\<rparr>) s)
             \<lparr>b_activeKey := Some key\<rparr>))"

definition deleteFlow :: "jsstr \<Rightarrow> builder \<Rightarrow> builder" where
  "deleteFlow key s =
     (case b_config s of
        None \<Rightarrow> s
      | Some c \<Rightarrow>
          (let nextFlows = del key (lead_steps c) in
           (mutate (c\<lparr>lead_steps := nextFlows\<rparr>) s)\<lparr>b_activeKey := first_key nextFlows\<rparr>))"

definition patch_flow :: "jsstr \<Rightarrow> (flow \<Rightarrow> flow) \<Rightarrow> builder \<Rightarrow> builder" where
  "patch_flow key patch s =
     (case b_config s of
        None \<Rightarrow> s
      | Some c \<Rightarrow>
          (case flow_at c key of
             None \<Rightarrow> s
           | Some f \<Rightarrow> mutate (c\<lparr>lead_steps := put key (Some (patch f)) (lead_steps c)\<rparr>) s))"

definition renameFlowLabel :: "jsstr \<Rightarrow> jsstr \<Rightarrow> builder \<Rightarrow> builder" where
  "renameFlowLabel key label s = patch_flow key (\<lambda>f. f\<lparr>flow_label := label\<rparr>) s"

definition patchActiveFlow :: "(flow \<Rightarrow> flow) \<Rightarrow> builder \<Rightarrow> builder" where
  "patchActiveFlow patch s =
     (case b_activeKey s of
        None \<Rightarrow> s
      | Some k \<Rightarrow> if k = [] then s else patch_flow k patch s)"

text \<open>\<open>!message?.trim() || message === other ? default : message\<close>.\<close>

definition swap_message :: "jsstr \<Rightarrow> jsstr \<Rightarrow> jsstr option \<Rightarrow> jsstr option" where
  "swap_message other dflt message =
     (case message of
        None \<Rightarrow> Some dflt
      | Some m \<Rightarrow> if trim m = [] \<or> m = other then Some dflt else Some m)"

definition switch_type :: "flow_type \<Rightarrow> flow \<Rightarrow> flow" where
  "switch_type t f =
     (let steps = (if t = T_human_handoff then []
                   else if t = T_lead \<and> length (flow_steps f) = 0 then flow_steps (emptyFlow [] T_lead)
                   else flow_steps f);
          serviceName = (if t = T_booking
                         then Some (case opt (flow_service_name f) of None \<Rightarrow> [] | Some n \<Rightarrow> n) else None);
          message = (if t = T_human_handoff
                     then swap_message DEFAULT_BOOKING_MESSAGE DEFAULT_HANDOFF_MESSAGE (opt (flow_message f))
                     else if t = T_booking
                     then swap_message DEFAULT_HANDOFF_MESSAGE DEFAULT_BOOKING_MESSAGE (opt (flow_message f))
                     else opt (flow_message f))
      in f\<lparr>flow_type := t, flow_steps := steps, flow_service_name := Sent serviceName,
           flow_message := Sent message\<rparr>)"

definition changeActiveFlowType :: "flow_type \<Rightarrow> builder \<Rightarrow> builder" where
  "changeActiveFlowType t s =
     (case active_flow s of None \<Rightarrow> s | Some _ \<Rightarrow> patchActiveFlow (switch_type t) s)"

definition setActiveFlowSteps :: "step list \<Rightarrow> builder \<Rightarrow> builder" where
  "setActiveFlowSteps steps s = patchActiveFlow (\<lambda>f. f\<lparr>flow_steps := steps\<rparr>) s"

definition applyAiChanges :: "raw_settings \<Rightarrow> builder \<Rightarrow> builder" where
  "applyAiChanges nxt s =
     (let normalized = normalizeSettings (Some nxt) in
      s\<lparr>b_config := Some normalized, b_saved := False,
        b_activeKey :=
          (case b_activeKey s of
             Some prev \<Rightarrow> if prev \<noteq> [] \<and> flow_at normalized prev \<noteq> None then Some prev
                         else first_key (lead_steps normalized)
           | None \<Rightarrow> first_key (lead_steps normalized))\<rparr>)"

definition onSave :: "builder \<Rightarrow> builder \<times> http_request option" where
  "onSave s =
     (case b_config s of
        None \<Rightarrow> (s, None)
      | Some c \<Rightarrow> (s\<lparr>b_saving := True, b_saveError := None, b_saved := False, b_snapshot := Some c\<rparr>,
                   Some (saveSettings c)))"

definition saveSettled :: "(js_thrown + raw_settings) \<Rightarrow> builder \<Rightarrow> builder" where
  "saveSettled r s =
     (case r of
        Inr savedCfg \<Rightarrow> s\<lparr>b_config := Some (normalizeSettings (Some savedCfg)), b_saved := True,
                         b_saving := False, b_snapshot := None\<rparr>
      | Inl err \<Rightarrow> s\<lparr>b_saveError := Some (describeSaveError err), b_saving := False, b_snapshot := None\<rparr>)"

definition loadSettled :: "(js_thrown + raw_settings) \<Rightarrow> builder \<Rightarrow> builder" where
  "loadSettled r s =
     (case r of
        Inr raw \<Rightarrow>
          (let normalized = normalizeSettings (Some raw) in
           s\<lparr>b_config := Some normalized, b_activeKey := first_key (lead_steps normalized), b_loading := False\<rparr>)
      | Inl err \<Rightarrow>
          s\<lparr>b_loadError := Some
              (case err of
                 ThrownApi e \<Rightarrow> if isUnauthorized e then (heb ''tb zews ddzgaxez. xrppe @z drnec.'')
                   else (heb ''hripz dbcxez daeh pkyld. xrppe @z drnec epqe yea.'')
               | ThrownOther _ \<Rightarrow> (heb ''hripz dbcxez daeh pkyld. xrppe @z drnec epqe yea.'')),
            b_loading := False\<rparr>)"

definition set_published :: "bool \<Rightarrow> builder \<Rightarrow> builder" where
  "set_published b s = s\<lparr>b_config := map_option (\<lambda>c. c\<lparr>is_published := b\<rparr>) (b_config s)\<rparr>"

section \<open>Events\<close>

datatype builder_event =
    B_name jsstr | B_tone jsstr | B_prompt jsstr
  | B_select jsstr | B_add nat | B_rename jsstr jsstr
  | B_askDelete | B_cancelDelete | B_delete jsstr
  | B_editType | B_type flow_type | B_message jsstr | B_service jsstr
  | B_steps steps_event
  | B_toggle | B_openAi | B_ai ai_event | B_save

datatype net_event =
    N_loaded "js_thrown + raw_settings"
  | N_saved "js_thrown + raw_settings"
  | N_history nat "js_thrown + bot_ai_message list"
  | N_ai "js_thrown + bot_ai_chat_response"
  | N_published "js_thrown + bool"

text \<open>The steps editor, acting through \<open>onStepsChange\<close>.\<close>

definition steps_in :: "steps_event \<Rightarrow> builder \<Rightarrow> builder option" where
  "steps_in e s =
     (case (active_flow s, b_editor s) of
        (Some (k, f), Some (k', opn)) \<Rightarrow>
          (case on_steps_event e (flow_steps f) opn of
             None \<Rightarrow> None
           | Some (r, opn') \<Rightarrow>
               Some ((case r of None \<Rightarrow> s | Some ns \<Rightarrow> setActiveFlowSteps ns s)\<lparr>b_editor := Some (k', opn')\<rparr>))
      | _ \<Rightarrow> None)"

fun on_ui :: "builder_event \<Rightarrow> builder \<Rightarrow> (builder \<times> http_request option) option" where
  "on_ui (B_name v) s = Some (setProfile (\<lambda>p. p\<lparr>prof_name := Some v\<rparr>) s, None)"
| "on_ui (B_tone v) s = Some (setProfile (\<lambda>p. p\<lparr>prof_tone := Some v\<rparr>) s, None)"
| "on_ui (B_prompt v) s = Some (setProfile (\<lambda>p. p\<lparr>prof_system_prompt := Some v\<rparr>) s, None)"
| "on_ui (B_select k) s = Some (s\<lparr>b_activeKey := Some k\<rparr>, None)"
| "on_ui (B_add now) s = Some (addFlow now s, None)"
| "on_ui (B_rename k l) s = Some (renameFlowLabel k l s, None)"
| "on_ui B_askDelete s = Some (s\<lparr>b_confirming := True\<rparr>, None)"
| "on_ui B_cancelDelete s = Some (s\<lparr>b_confirming := False\<rparr>, None)"
| "on_ui (B_delete k) s = Some ((deleteFlow k s)\<lparr>b_confirming := False\<rparr>, None)"
| "on_ui B_editType s = Some (s\<lparr>b_editingType := True\<rparr>, None)"
| "on_ui (B_type t) s = Some ((changeActiveFlowType t s)\<lparr>b_editingType := False\<rparr>, None)"
| "on_ui (B_message v) s = Some (patchActiveFlow (\<lambda>f. f\<lparr>flow_message := Sent (Some v)\<rparr>) s, None)"
| "on_ui (B_service v) s = Some (patchActiveFlow (\<lambda>f. f\<lparr>flow_service_name := Sent (Some v)\<rparr>) s, None)"
| "on_ui (B_steps e) s = map_option (\<lambda>s'. (s', None)) (steps_in e s)"
| "on_ui B_toggle s =
     (case b_config s of
        None \<Rightarrow> None
      | Some c \<Rightarrow>
          (case pub_toggle (is_published c) (b_publish s) of
             (p, None) \<Rightarrow> Some (s\<lparr>b_publish := p\<rparr>, None)
           | (p, Some (v, req)) \<Rightarrow> Some ((set_published v s)\<lparr>b_publish := p\<rparr>, Some req)))"
| "on_ui B_openAi s = Some (s\<lparr>b_aiOpen := True\<rparr>, None)"
| "on_ui (B_ai A_close) s = Some (s\<lparr>b_aiOpen := False\<rparr>, None)"
| "on_ui (B_ai (A_type v)) s = Some (s\<lparr>b_ai := ai_type v (b_ai s)\<rparr>, None)"
| "on_ui (B_ai A_submit) s =
     (case b_config s of
        None \<Rightarrow> None
      | Some c \<Rightarrow> (case ai_submit c (b_ai s) of (a, req) \<Rightarrow> Some (s\<lparr>b_ai := a\<rparr>, req)))"
| "on_ui B_save s = Some (onSave s)"

fun on_net :: "net_event \<Rightarrow> builder \<Rightarrow> builder option" where
  "on_net (N_loaded r) s = (if b_loading s then Some (loadSettled r s) else None)"
| "on_net (N_saved r) s = (if b_saving s then Some (saveSettled r s) else None)"
| "on_net (N_history t r) s = Some (s\<lparr>b_ai := ai_history t r (b_ai s)\<rparr>)"
| "on_net (N_ai r) s =
     (if ai_sending (b_ai s) then
        (case AiChat.ai_reply r (b_ai s) of
           (a, None) \<Rightarrow> Some (s\<lparr>b_ai := a\<rparr>)
         | (a, Some c) \<Rightarrow> Some (applyAiChanges c (s\<lparr>b_ai := a\<rparr>)))
      else None)"
| "on_net (N_published r) s =
     (case pub_settled r (b_publish s) of
        None \<Rightarrow> None
      | Some (p, v) \<Rightarrow> Some ((set_published v s)\<lparr>b_publish := p\<rparr>))"

text \<open>
  The assistant panel is mounted while there is a configuration; its effect on \<open>[open]\<close>
  runs when the flag it is given changes, and asks for the history when it opens.
\<close>

definition panel_open :: "builder \<Rightarrow> bool" where
  "panel_open s \<longleftrightarrow> b_aiOpen s \<and> b_config s \<noteq> None"

definition commit_request :: "builder \<Rightarrow> builder \<Rightarrow> http_request option" where
  "commit_request old s = (if panel_open s \<and> \<not> panel_open old then Some aiHistory else None)"

definition commit_ai :: "builder \<Rightarrow> builder \<Rightarrow> ai_chat" where
  "commit_ai old s =
     (if panel_open s \<and> \<not> panel_open old then ai_opened (b_ai s)
      else if \<not> panel_open s \<and> panel_open old then ai_closed (b_ai s)
      else b_ai s)"

definition commit_editor :: "builder \<Rightarrow> (jsstr \<times> int) option" where
  "commit_editor s =
     (case active_flow s of
        None \<Rightarrow> None
      | Some (k, f) \<Rightarrow>
          if flow_type f = T_human_handoff then None
          else (case b_editor s of
                  Some (k', opn) \<Rightarrow> if k' = k then Some (k', opn)
                                   else Some (k, initial_open (flow_steps f))
                | None \<Rightarrow> Some (k, initial_open (flow_steps f))))"

definition commit :: "builder \<Rightarrow> builder \<Rightarrow> builder" where
  "commit old s =
     s\<lparr>b_editingType := (b_editingType s \<and> b_activeKey s = b_activeKey old),
       b_confirming := (b_confirming s \<and> b_activeKey s = b_activeKey old \<and> active_flow s \<noteq> None),
       b_editor := commit_editor s,
       b_ai := commit_ai old s\<rparr>"

section \<open>The view\<close>

text \<open>\<open>None\<close> where rendering throws: a flow that is \<open>null\<close> has no label.\<close>

fun all_some :: "'a option list \<Rightarrow> 'a list option" where
  "all_some [] = Some []"
| "all_some (x # xs) = (case x of None \<Rightarrow> None | Some y \<Rightarrow> map_option ((#) y) (all_some xs))"

definition flow_items :: "flow option obj \<Rightarrow> tab_item list option" where
  "flow_items flows =
     all_some (map (\<lambda>(k, fo). map_option (\<lambda>f. \<lparr>tab_id = k,
       tab_label = (if flow_label f \<noteq> [] then flow_label f else (heb ''(ll@ ym)''))\<rparr>) fo) (entries flows))"

definition toolbar_view :: "jsstr \<Rightarrow> jsstr \<Rightarrow> bool \<Rightarrow> builder_event vnode" where
  "toolbar_view flowKey label confirming =
     El ''div'' []
       (field_view (heb ''ym dnqlel'') label (B_rename flowKey)
        # (if confirming then
             [Txt (heb ''lngew @z dnqlel?''), El ''button'' [on_click (B_delete flowKey)] [Txt (heb ''ko, ngw'')],
              El ''button'' [on_click B_cancelDelete] [Txt (heb ''aihel'')]]
           else [El ''button'' [on_click B_askDelete] [Txt (heb ''ngw nqlel'')]]))"

definition flow_tabs_view :: "builder \<Rightarrow> flow option obj \<Rightarrow> tab_item list \<Rightarrow> builder_event vnode list" where
  "flow_tabs_view s flows items =
     (let atMax = length (entries flows) \<ge> MAX_FLOWS in
      (case b_activeKey s of
         Some k \<Rightarrow> if items \<noteq> [] \<and> k \<noteq> [] then [tabs_view items k B_select (heb ''nqlelim'')]
                   else [Txt (heb ''@io nqlelim rciio'')]
       | None \<Rightarrow> [Txt (heb ''@io nqlelim rciio'')])
      @ [El ''button'' [Disabled atMax, On (\<lambda>e. \<exists>now. e = B_add now)]
           [Txt (if atMax then (heb ''nwqinem '') @ nat_str MAX_FLOWS @ (heb '' nqlelim'') else (heb ''nqlel gcy''))]]
      @ (case active_flow s of
           None \<Rightarrow> []
         | Some (k, f) \<Rightarrow> [toolbar_view k (flow_label f) (b_confirming s)]))"

definition val :: "jsstr option \<Rightarrow> jsstr" where
  "val v = (case v of None \<Rightarrow> [] | Some x \<Rightarrow> x)"

definition active_view :: "builder \<Rightarrow> builder_event vnode list" where
  "active_view s =
     (case active_flow s of
        None \<Rightarrow> [Txt (heb ''rciio @io nqlelim. lgve rl '' @ [34] @ heb ''nqlel gcy'' @ [34] @ heb '' kci ldzgil, @e awye nrefx d-AI lapez'' @ [10] @ heb ''                  raexkm.'')]
      | Some (k, f) \<Rightarrow>
          (if b_editingType s then [type_selector_view (flow_type f) B_type]
           else [Txt (heb ''qeb dnqlel''), Txt (FLOW_TYPE_LABELS (flow_type f)),
                 El ''button'' [on_click B_editType] []])
          @ shown (flow_type f = T_human_handoff)
              [field_view (heb ''decrz nrax llweg'') (val (opt (flow_message f))) B_message]
          @ shown (flow_type f = T_booking)
              [field_view (heb ''ym dyixez'') (val (opt (flow_service_name f))) B_service,
               field_view (heb ''decrd llweg'') (val (opt (flow_message f))) B_message]
          @ (case b_editor s of
               Some (k', opn) \<Rightarrow>
                 shown (flow_type f \<noteq> T_human_handoff) (map (view_in B_steps) (steps_view f opn))
             | None \<Rightarrow> []))"

definition profile_view :: "bot_settings \<Rightarrow> builder_event vnode" where
  "profile_view c =
     El ''section'' []
       [Txt (heb ''txhi daeh''),
        field_view (heb ''ym daeh'') (val (prof_name (bot_profile c))) B_name,
        field_view (heb ''heo (l@ gead)'') (val (prof_tone (bot_profile c))) B_tone,
        field_view (heb ''dpgiiz nrxkz (S'' @ lat ''ystem Prompt)'') (val (prof_system_prompt (bot_profile c))) B_prompt]"

definition header_view :: "builder \<Rightarrow> builder_event vnode list" where
  "header_view s =
     [Txt (heb ''aepd daeh'')]
     @ (case b_config s of
          None \<Rightarrow> [] | Some c \<Rightarrow> [publish_view (is_published c) B_toggle (b_publish s)])
     @ [El ''button'' [on_click B_openAi] [Txt (heb ''refx d-AI ylj'')],
        El ''button'' [Disabled (b_saving s \<or> b_loading s \<or> b_config s = None), on_click B_save]
          [Txt (if b_saving s then (heb ''yenx'' @ [8230]) else (heb ''ynex yipeiim''))]]"

definition body_view :: "builder \<Rightarrow> builder_event vnode list option" where
  "body_view s =
     (if b_loading s then Some [Txt (heb ''hero @z dbcxez daeh'' @ [8230])]
      else case b_loadError s of
        Some m \<Rightarrow> Some [El ''Alert'' [] [Txt m]]
      | None \<Rightarrow>
          (case b_config s of
             None \<Rightarrow> Some []
           | Some c \<Rightarrow>
               map_option (\<lambda>items.
                 (case b_saveError s of None \<Rightarrow> [] | Some m \<Rightarrow> [El ''Alert'' [] [Txt m]])
                 @ shown (b_saved s) [El ''Alert'' [] [Txt (heb ''ddbcxez pynxe advlgd.'')]]
                 @ [profile_view c, Txt (heb ''nqleli yigd''),
                    Txt (nat_str (length (keys (lead_steps c))) @ (heb '' nqlelim''))]
                 @ flow_tabs_view s (lead_steps c) items
                 @ active_view s)
               (flow_items (lead_steps c))))"

definition builder_view :: "builder \<Rightarrow> builder_event vnode list option" where
  "builder_view s =
     map_option (\<lambda>body.
       header_view s @ body
       @ (case b_config s of
            None \<Rightarrow> [] | Some c \<Rightarrow> map (view_in B_ai) (ai_view (b_aiOpen s) (b_ai s))))
     (body_view s)"

section \<open>The invariant\<close>

definition cfg_ok :: "bot_settings \<Rightarrow> bool" where
  "cfg_ok c \<longleftrightarrow>
     wf_obj (lead_steps c) \<and> length (lead_steps c) \<le> MAX_FLOWS \<and>
     (\<forall>(k, fo) \<in> set (lead_steps c). k \<noteq> [] \<and> (\<exists>f. fo = Some f \<and> steps_bounded (flow_steps f)))"

definition selection_ok :: "bot_settings \<Rightarrow> jsstr option \<Rightarrow> bool" where
  "selection_ok c ak \<longleftrightarrow>
     (case ak of None \<Rightarrow> lead_steps c = [] | Some k \<Rightarrow> k \<noteq> [] \<and> flow_at c k \<noteq> None)"

definition b_inv :: "builder \<Rightarrow> bool" where
  "b_inv s \<longleftrightarrow>
     (case b_config s of
        None \<Rightarrow> b_activeKey s = None \<and> \<not> b_saving s
      | Some c \<Rightarrow> cfg_ok c \<and> selection_ok c (b_activeKey s)) \<and>
     (b_saving s \<longrightarrow>
        (\<exists>c c0. b_config s = Some c \<and> b_snapshot s = Some c0 \<and>
           set (keys (lead_steps c0)) = set (keys (lead_steps c)))) \<and>
     b_editor s = commit_editor s"

lemma flow_at_put [simp]:
  "flow_at (c\<lparr>lead_steps := put k v (lead_steps c)\<rparr>) k' = (if k' = k then v else flow_at c k')"
  by (simp add: flow_at_def split: option.split)

lemma cfg_ok_flow: "cfg_ok c \<Longrightarrow> k \<in> set (keys (lead_steps c)) \<Longrightarrow> k \<noteq> [] \<and> flow_at c k \<noteq> None"
proof -
  assume ok: "cfg_ok c" and "k \<in> set (keys (lead_steps c))"
  then obtain fo where m: "map_of (lead_steps c) k = Some fo"
    by (metis get_None_iff not_Some_eq)
  then have "(k, fo) \<in> set (lead_steps c)" by (rule map_of_SomeD)
  with ok m show ?thesis by (fastforce simp: cfg_ok_def flow_at_def)
qed

lemma flow_at_key: "flow_at c k \<noteq> None \<Longrightarrow> k \<in> set (keys (lead_steps c))"
  by (metis flow_at_def get_None_iff option.simps(4))

lemma flow_at_bounded: "cfg_ok c \<Longrightarrow> flow_at c k = Some f \<Longrightarrow> steps_bounded (flow_steps f)"
  by (fastforce simp: cfg_ok_def flow_at_def dest: map_of_SomeD split: option.splits)

lemma selection_first_key: "cfg_ok c \<Longrightarrow> selection_ok c (first_key (lead_steps c))"
proof (cases "first_key (lead_steps c)")
  case (Some k)
  assume ok: "cfg_ok c"
  from Some have "k \<in> set (keys (lead_steps c))" by (metis first_key_present get_None_iff)
  with cfg_ok_flow [OF ok] Some show ?thesis by (simp add: selection_ok_def)
next
  case None
  then have "lead_steps c = []" by simp
  then show ?thesis by (simp add: selection_ok_def first_key_def)
qed

lemma cfg_ok_put:
  assumes "cfg_ok c" "k \<noteq> []" "steps_bounded (flow_steps f)"
    and "get (lead_steps c) k \<noteq> None \<or> length (lead_steps c) < MAX_FLOWS"
  shows "cfg_ok (c\<lparr>lead_steps := put k (Some f) (lead_steps c)\<rparr>)"
proof -
  have wf: "wf_obj (lead_steps c)" using assms(1) by (simp add: cfg_ok_def)
  have "length (put k (Some f) (lead_steps c)) \<le> MAX_FLOWS"
  proof (cases "get (lead_steps c) k")
    case None
    with assms(4) length_put_fresh [OF wf None] show ?thesis by simp
  next
    case (Some fo)
    with assms(1) length_put_present [OF wf Some] show ?thesis by (simp add: cfg_ok_def)
  qed
  moreover have "\<forall>(k, fo) \<in> set (put k (Some f) (lead_steps c)).
      k \<noteq> [] \<and> (\<exists>f. fo = Some f \<and> steps_bounded (flow_steps f))"
    using assms(1-3) set_put_subset [of k "Some f" "lead_steps c"] unfolding cfg_ok_def by blast
  ultimately show ?thesis
    using wf unfolding cfg_ok_def by simp
qed

lemma cfg_ok_del: "cfg_ok c \<Longrightarrow> cfg_ok (c\<lparr>lead_steps := del k (lead_steps c)\<rparr>)"
proof -
  assume ok: "cfg_ok c"
  have "length (del k (lead_steps c)) \<le> length (lead_steps c)" by (simp add: del_def)
  also have "\<dots> \<le> MAX_FLOWS" using ok by (simp add: cfg_ok_def)
  finally have "length (del k (lead_steps c)) \<le> MAX_FLOWS" .
  moreover have "wf_obj (del k (lead_steps c))" using ok by (simp add: cfg_ok_def)
  moreover have "set (del k (lead_steps c)) \<subseteq> set (lead_steps c)" by (auto simp: del_def)
  then have "\<forall>(k, fo) \<in> set (del k (lead_steps c)).
      k \<noteq> [] \<and> (\<exists>f. fo = Some f \<and> steps_bounded (flow_steps f))"
    using ok unfolding cfg_ok_def by blast
  ultimately show ?thesis unfolding cfg_ok_def by simp
qed

lemma cfg_ok_simps [simp]:
  "cfg_ok (c\<lparr>bot_profile := p\<rparr>) = cfg_ok c" "cfg_ok (c\<lparr>is_published := b\<rparr>) = cfg_ok c"
  "flow_at (c\<lparr>bot_profile := p\<rparr>) = flow_at c" "flow_at (c\<lparr>is_published := b\<rparr>) = flow_at c"
  by (simp_all add: cfg_ok_def flow_at_def fun_eq_iff)

lemma selection_simps [simp]:
  "selection_ok (c\<lparr>bot_profile := p\<rparr>) = selection_ok c" "selection_ok (c\<lparr>is_published := b\<rparr>) = selection_ok c"
  by (simp_all add: selection_ok_def fun_eq_iff split: option.split)

section \<open>The page owns the steps it lends to the editor\<close>

definition active_steps :: "builder \<Rightarrow> step list" where
  "active_steps s = (case active_flow s of None \<Rightarrow> [] | Some (k, f) \<Rightarrow> flow_steps f)"

lemma active_flow_Some:
  "active_flow s = Some (k, f) \<longleftrightarrow>
     (\<exists>c. b_config s = Some c \<and> b_activeKey s = Some k \<and> k \<noteq> [] \<and> flow_at c k = Some f)"
  by (auto simp: active_flow_def split: option.splits)

lemma patchActiveFlow_active:
  assumes "active_flow s = Some (k, f)" "b_config s = Some c"
  shows "patchActiveFlow p s =
    s\<lparr>b_config := Some (c\<lparr>lead_steps := put k (Some (p f)) (lead_steps c)\<rparr>), b_saved := False\<rparr>"
  using assms by (auto simp: active_flow_Some patchActiveFlow_def patch_flow_def mutate_def)

lemma active_flow_patch:
  assumes "active_flow s = Some (k, f)"
  shows "active_flow (patchActiveFlow p s) = Some (k, p f)"
proof -
  from assms obtain c where c: "b_config s = Some c" by (auto simp: active_flow_Some)
  from assms show ?thesis
    unfolding patchActiveFlow_active [OF assms c] by (auto simp: active_flow_Some c)
qed

interpretation page: steps_owner active_steps setActiveFlowSteps "\<lambda>s. active_flow s \<noteq> None"
proof
  fix s ns a b
  assume "active_flow s \<noteq> None"
  then obtain k f c where f: "active_flow s = Some (k, f)" and c: "b_config s = Some c"
    by (auto simp: active_flow_Some)
  show "active_steps (setActiveFlowSteps ns s) = ns"
    by (simp add: setActiveFlowSteps_def active_steps_def active_flow_patch [OF f])
  show "active_flow (setActiveFlowSteps ns s) \<noteq> None"
    by (simp add: setActiveFlowSteps_def active_flow_patch [OF f])
  let ?s = "setActiveFlowSteps b s"
  have f': "active_flow ?s = Some (k, f\<lparr>flow_steps := b\<rparr>)"
    by (simp add: setActiveFlowSteps_def active_flow_patch [OF f])
  have c': "b_config ?s = Some (c\<lparr>lead_steps := put k (Some (f\<lparr>flow_steps := b\<rparr>)) (lead_steps c)\<rparr>)"
    by (simp add: setActiveFlowSteps_def patchActiveFlow_active [OF f c])
  show "setActiveFlowSteps a ?s = setActiveFlowSteps a s"
    unfolding setActiveFlowSteps_def [of a] patchActiveFlow_active [OF f' c'] patchActiveFlow_active [OF f c]
    by (simp add: setActiveFlowSteps_def patchActiveFlow_active [OF f c])
qed

lemma steps_in_page:
  assumes "active_flow s = Some (k, f)" "b_editor s = Some (k', opn)"
  shows "steps_in e s = map_option (\<lambda>(s', o'). s'\<lparr>b_editor := Some (k', o')\<rparr>) (page.act e s opn)"
  using assms
  by (simp add: steps_in_def page.act_def active_steps_def option.map_comp comp_def
      split: option.split prod.split)

end
