(* ===== verification/BuilderRuns.thy ===== *)
theory BuilderRuns
  imports BotBuilder
begin

text \<open>
  Runs of the bot-builder page: what the owner can do on what is rendered, interleaved with
  the settling of the calls in flight, and what holds on every run.

  The server's side of the contract is a premise of the network steps (\<open>server_ok\<close>): a
  configuration it returns has at most 20 flows under distinct non-empty keys, none of them
  \<open>null\<close>, each within the step and option bounds, and a save returns the flows it was given.
  The runs are those on which no flow is added or removed while a save is in flight; what
  happens otherwise is the last property.
\<close>

section \<open>Runs\<close>

definition raw_ok :: "raw_settings \<Rightarrow> bool" where
  "raw_ok raw \<longleftrightarrow>
     (let m = raw_flows (Some raw) in
      wf_obj m \<and> length m \<le> MAX_FLOWS \<and>
      (\<forall>(k, fo) \<in> set m. k \<noteq> [] \<and> (\<exists>f. fo = Some f \<and> steps_bounded (flow_steps f))))"

definition flow_keys :: "builder \<Rightarrow> jsstr set option" where
  "flow_keys s = map_option (\<lambda>c. set (keys (lead_steps c))) (b_config s)"

fun server_ok :: "net_event \<Rightarrow> builder \<Rightarrow> bool" where
  "server_ok (N_loaded (Inr raw)) s = raw_ok raw"
| "server_ok (N_saved (Inr raw)) s =
     (raw_ok raw \<and>
      (\<forall>c0. b_snapshot s = Some c0 \<longrightarrow> set (keys (raw_flows (Some raw))) = set (keys (lead_steps c0))))"
| "server_ok (N_ai (Inr res)) s = (\<forall>raw. ai_changes res = Some raw \<longrightarrow> raw_ok raw)"
| "server_ok n s = True"

fun is_save_response :: "net_event \<Rightarrow> bool" where
  "is_save_response (N_saved r) = True"
| "is_save_response n = False"

inductive builder_run :: "builder \<Rightarrow> bool" where
  br_start: "builder_run builder_init"
| br_ui: "builder_run s \<Longrightarrow> builder_view s = Some vs \<Longrightarrow> fires_any vs e \<Longrightarrow>
     on_ui e s = Some (s', req) \<Longrightarrow> (b_saving s \<Longrightarrow> flow_keys s' = flow_keys s) \<Longrightarrow>
     builder_run (commit s s')"
| br_net: "builder_run s \<Longrightarrow> on_net n s = Some s' \<Longrightarrow> server_ok n s \<Longrightarrow>
     (b_saving s \<Longrightarrow> \<not> is_save_response n \<Longrightarrow> flow_keys s' = flow_keys s) \<Longrightarrow>
     builder_run (commit s s')"

inductive_cases builder_runE: "builder_run s"

section \<open>What the page offers\<close>

lemma all_some_ids:
  "all_some (map (\<lambda>(k, fo). map_option (\<lambda>f. \<lparr>tab_id = k, tab_label = h f\<rparr>) fo) es) = Some items \<Longrightarrow>
   map tab_id items = map fst es"
  by (induction es arbitrary: items) (auto split: option.splits)

lemma all_some_defined: "all_some xs \<noteq> None \<longleftrightarrow> (\<forall>x \<in> set xs. x \<noteq> None)"
  by (induction xs) (auto split: option.splits)

lemma flow_items_ids: "flow_items flows = Some items \<Longrightarrow> map tab_id items = keys flows"
  unfolding flow_items_def keys_def by (rule all_some_ids)

lemma flow_items_defined: "flow_items flows \<noteq> None \<longleftrightarrow> (\<forall>(k, fo) \<in> set flows. fo \<noteq> None)"
  unfolding flow_items_def all_some_defined by auto

text \<open>What each event needs to be offered.\<close>

fun offered :: "builder \<Rightarrow> builder_event \<Rightarrow> bool" where
  "offered s (B_select k) = (\<exists>c. b_config s = Some c \<and> k \<in> set (keys (lead_steps c)))"
| "offered s (B_add now) = (\<exists>c. b_config s = Some c \<and> length (lead_steps c) < MAX_FLOWS)"
| "offered s (B_rename k l) = (\<exists>f. active_flow s = Some (k, f))"
| "offered s (B_delete k) = (b_confirming s \<and> (\<exists>f. active_flow s = Some (k, f)))"
| "offered s (B_type t) = (b_editingType s \<and> active_flow s \<noteq> None)"
| "offered s (B_steps e) =
     (\<exists>k f k' opn. active_flow s = Some (k, f) \<and> b_editor s = Some (k', opn) \<and> fires_any (steps_view f opn) e)"
| "offered s B_toggle = (b_config s \<noteq> None \<and> \<not> pub_saving (b_publish s))"
| "offered s (B_ai e) = (b_config s \<noteq> None \<and> b_aiOpen s)"
| "offered s B_save = (b_config s \<noteq> None \<and> \<not> b_saving s \<and> \<not> b_loading s)"
| "offered s B_openAi = True"
| "offered s e = (b_config s \<noteq> None)"

lemma header_offers: "fires_any (header_view s) e \<Longrightarrow> offered s e"
  by (auto simp: header_view_def publish_view_def split: option.splits)

lemma active_flow_config: "active_flow s = Some kf \<Longrightarrow> \<exists>c. b_config s = Some c"
  by (cases kf) (auto simp: active_flow_Some)

lemma tabs_offer:
  assumes "fires_any (flow_tabs_view s (lead_steps c) items) e" "b_config s = Some c"
    "flow_items (lead_steps c) = Some items"
  shows "offered s e"
proof -
  have ids: "tab_id ` set items = set (keys (lead_steps c))"
    using flow_items_ids [OF assms(3)] by (metis list.set_map)
  have t: "fires (tabs_view items k B_select l) e \<Longrightarrow> offered s e" for k l
    using tabs_view_events [of items k B_select l e] assms(2) unfolding ids by fastforce
  show ?thesis
    using assms t
    by (auto simp: flow_tabs_view_def Let_def toolbar_view_def split: option.splits if_splits)
qed

lemma active_offers: "fires_any (active_view s) e \<Longrightarrow> offered s e"
proof (cases "active_flow s")
  case (Some kf)
  then obtain c where "b_config s = Some c" using active_flow_config by blast
  moreover obtain k f where "kf = (k, f)" by (cases kf)
  moreover assume "fires_any (active_view s) e"
  ultimately show ?thesis
    using Some
    by (auto simp: active_view_def type_selector_exact fires_any_view_in split: option.splits if_splits)
qed (simp add: active_view_def)

lemma body_offers: "body_view s = Some vs \<Longrightarrow> fires_any vs e \<Longrightarrow> offered s e"
  by (auto simp: body_view_def profile_view_def dest: tabs_offer active_offers
      split: if_splits option.splits)

lemma ai_view_open: "fires_any (ai_view opn a) e \<Longrightarrow> opn"
  by (auto simp: ai_view_def split: if_splits)

lemma builder_offers:
  assumes "builder_view s = Some vs" "fires_any vs e"
  shows "offered s e"
proof -
  from assms(1) obtain body where b: "body_view s = Some body" and
    vs: "vs = header_view s @ body @ (case b_config s of None \<Rightarrow> [] | Some c \<Rightarrow>
      map (view_in B_ai) (ai_view (b_aiOpen s) (b_ai s)))"
    by (auto simp: builder_view_def)
  from assms(2) consider "fires_any (header_view s) e" | "fires_any body e"
    | c where "b_config s = Some c" "fires_any (map (view_in B_ai) (ai_view (b_aiOpen s) (b_ai s))) e"
    unfolding vs by (cases "b_config s") auto
  then show ?thesis
  proof cases
    case 3
    then show ?thesis using ai_view_open by (auto simp: fires_any_view_in)
  qed (use header_offers body_offers [OF b] in blast)+
qed

section \<open>Preservation\<close>

lemma first_key_Nil [simp]: "first_key [] = None"
  by (simp add: first_key_def)

lemma flow_at_get: "flow_at c k = Some f \<longleftrightarrow> get (lead_steps c) k = Some (Some f)"
  by (simp add: flow_at_def split: option.split)

text \<open>The configuration and the selected tab.\<close>

definition sel_inv :: "builder \<Rightarrow> bool" where
  "sel_inv s \<longleftrightarrow>
     (case b_config s of
        None \<Rightarrow> b_activeKey s = None \<and> \<not> b_saving s
      | Some c \<Rightarrow> cfg_ok c \<and> selection_ok c (b_activeKey s))"

lemma raw_ok_cfg: "raw_ok raw \<Longrightarrow> cfg_ok (normalizeSettings (Some raw))"
proof -
  assume ok: "raw_ok raw"
  let ?m = "raw_flows (Some raw)"
  have wf: "wf_obj ?m" and len: "length ?m \<le> MAX_FLOWS" using ok by (simp_all add: raw_ok_def Let_def)
  have m: "lead_steps (normalizeSettings (Some raw)) =
      map (\<lambda>(k, f). (k, map_option with_default_message f)) (entries ?m)"
    using wf by (simp add: lead_steps_normalize withDefaultMessages_map)
  have all: "k \<noteq> [] \<and> (\<exists>f. fo = Some f \<and> steps_bounded (flow_steps f))" if "(k, fo) \<in> set ?m" for k fo
    using ok that unfolding raw_ok_def Let_def by blast
  have "\<forall>(k, fo) \<in> set (lead_steps (normalizeSettings (Some raw))).
      k \<noteq> [] \<and> (\<exists>f. fo = Some f \<and> steps_bounded (flow_steps f))"
  proof
    fix p assume "p \<in> set (lead_steps (normalizeSettings (Some raw)))"
    then obtain k fo where "(k, fo) \<in> set ?m" "p = (k, map_option with_default_message fo)"
      unfolding m by auto
    with all [of k fo] show "case p of (k, fo) \<Rightarrow> k \<noteq> [] \<and> (\<exists>f. fo = Some f \<and> steps_bounded (flow_steps f))"
      by auto
  qed
  moreover have "length (lead_steps (normalizeSettings (Some raw))) \<le> MAX_FLOWS"
    using len unfolding m by simp
  ultimately show ?thesis unfolding cfg_ok_def by simp
qed

lemma raw_ok_wf: "raw_ok raw \<Longrightarrow> wf_obj (raw_flows (Some raw))"
  by (simp add: raw_ok_def Let_def)

lemma uniqueKey_nonempty: "uniqueKey base taken now \<noteq> []"
proof -
  have c: "seed \<noteq> [] \<Longrightarrow> candidate seed i \<noteq> []" for seed i
    by (simp add: candidate_def slice_to_def)
  have "List.find P (map (candidate seed) suffixes) = Some x \<Longrightarrow> seed \<noteq> [] \<Longrightarrow> x \<noteq> []" for P seed x
    using c by (auto simp: find_Some_iff suffixes_facts)
  with c show ?thesis
    by (auto simp: uniqueKey_def Let_def js_lit split: option.splits)
qed

lemma sel_mutate_profile: "sel_inv s \<Longrightarrow> sel_inv (setProfile p s)"
  by (auto simp: sel_inv_def setProfile_def mutate_def split: option.splits)

lemma sel_addFlow:
  assumes "sel_inv s" "b_config s = Some c" "length (lead_steps c) < MAX_FLOWS"
  shows "sel_inv (addFlow now s)"
proof -
  let ?k = "uniqueKey (lat ''flow'') (keys (lead_steps c)) now"
  have "cfg_ok c" using assms(1,2) by (simp add: sel_inv_def)
  moreover have "steps_bounded (flow_steps (emptyFlow l T_lead))" for l
    by (simp add: steps_bounded_def step_bounded_def emptyFlow_def emptyStep_def step_opts_def)
  ultimately have "cfg_ok (c\<lparr>lead_steps := put ?k (Some (emptyFlow l T_lead)) (lead_steps c)\<rparr>)" for l
    using assms(3) by (intro cfg_ok_put uniqueKey_nonempty) simp_all
  then show ?thesis
    using assms(2) by (simp add: sel_inv_def addFlow_def mutate_def selection_ok_def uniqueKey_nonempty Let_def)
qed

lemma sel_deleteFlow: "sel_inv s \<Longrightarrow> sel_inv (deleteFlow k s)"
  using selection_first_key cfg_ok_del
  by (fastforce simp: sel_inv_def deleteFlow_def mutate_def Let_def split: option.splits)

lemma sel_patch_flow:
  assumes "sel_inv s" "\<And>f. steps_bounded (flow_steps f) \<Longrightarrow> steps_bounded (flow_steps (p f))"
  shows "sel_inv (patch_flow k p s)"
proof (cases "b_config s")
  case (Some c)
  show ?thesis
  proof (cases "flow_at c k")
    case None
    with Some assms(1) show ?thesis by (simp add: patch_flow_def)
  next
    case f: (Some f)
    have ok: "cfg_ok c" and sel: "selection_ok c (b_activeKey s)"
      using assms(1) Some by (simp_all add: sel_inv_def)
    have "k \<noteq> []" using cfg_ok_flow [OF ok flow_at_key] f by blast
    moreover have "steps_bounded (flow_steps (p f))"
      using assms(2) flow_at_bounded [OF ok f] by blast
    moreover have "get (lead_steps c) k \<noteq> None"
      using f by (simp add: flow_at_get)
    ultimately have "cfg_ok (c\<lparr>lead_steps := put k (Some (p f)) (lead_steps c)\<rparr>)"
      using ok by (intro cfg_ok_put) simp_all
    moreover have "selection_ok (c\<lparr>lead_steps := put k (Some (p f)) (lead_steps c)\<rparr>) (b_activeKey s)"
      using sel f by (auto simp: selection_ok_def flow_at_def split: option.splits)
    ultimately show ?thesis
      using Some f by (simp add: patch_flow_def mutate_def sel_inv_def)
  qed
qed (use assms in \<open>simp add: patch_flow_def\<close>)

lemma sel_patchActive:
  "sel_inv s \<Longrightarrow> (\<And>f. steps_bounded (flow_steps f) \<Longrightarrow> steps_bounded (flow_steps (p f))) \<Longrightarrow>
   sel_inv (patchActiveFlow p s)"
  using sel_patch_flow [of s p] by (simp add: patchActiveFlow_def split: option.split)

lemma switch_bounded: "steps_bounded (flow_steps f) \<Longrightarrow> steps_bounded (flow_steps (switch_type t f))"
  by (auto simp: switch_type_def Let_def emptyFlow_def steps_bounded_def step_bounded_def emptyStep_def
      step_opts_def)

lemma sel_changeType: "sel_inv s \<Longrightarrow> sel_inv (changeActiveFlowType t s)"
  using sel_patchActive switch_bounded by (simp add: changeActiveFlowType_def split: option.split)

lemma sel_set_published: "sel_inv s \<Longrightarrow> sel_inv (set_published b s)"
  by (auto simp: sel_inv_def set_published_def split: option.splits)

lemma sel_applyAi: "sel_inv s \<Longrightarrow> raw_ok raw \<Longrightarrow> sel_inv (applyAiChanges raw s)"
  using raw_ok_cfg [of raw] selection_first_key [of "normalizeSettings (Some raw)"]
  by (auto simp: sel_inv_def applyAiChanges_def Let_def selection_ok_def split: option.splits)

lemma sel_same:
  "sel_inv s \<Longrightarrow> b_config s' = b_config s \<Longrightarrow> b_activeKey s' = b_activeKey s \<Longrightarrow>
   (b_saving s' \<Longrightarrow> b_saving s \<or> b_config s \<noteq> None) \<Longrightarrow> sel_inv s'"
  by (auto simp: sel_inv_def split: option.splits)

text \<open>The editor only ever hands the page steps within the bounds.\<close>

lemma on_steps_bounded:
  assumes "fires_any (steps_view f opn) e" "steps_bounded (flow_steps f)"
  shows "\<exists>r o'. on_steps_event e (flow_steps f) opn = Some (r, o') \<and>
    (case r of None \<Rightarrow> True | Some ns \<Rightarrow> steps_bounded ns)"
proof -
  let ?steps = "flow_steps f"
  have len: "length ?steps \<le> MAX_STEPS_PER_FLOW" and all: "list_all step_bounded ?steps"
    using assms(2) by (simp_all add: steps_bounded_def)
  have upd: "steps_bounded (updateStep i p ?steps)"
    if "i < length ?steps \<Longrightarrow> step_bounded (?steps ! i) \<Longrightarrow> step_bounded (p (?steps ! i))" for i p
    using list_all_updateStep [OF all, of i p] that len by (simp add: steps_bounded_def)
  have same: "step_bounded (st\<lparr>step_key := v\<rparr>) = step_bounded st"
    "step_bounded (st\<lparr>step_question := v\<rparr>) = step_bounded st"
    "step_bounded (st\<lparr>step_required := b\<rparr>) = step_bounded st"
    "step_bounded (st\<lparr>step_accept := a\<rparr>) = step_bounded st"
    "step_bounded (set_opts os st) \<longleftrightarrow> length os \<le> MAX_CHOICE_OPTIONS" for st v b a os
    by (simp_all add: step_bounded_def step_opts_def set_opts_def)
  from steps_view_events [OF assms(1)] consider
      i where "i < length ?steps" "row_event (?steps ! i) i e"
    | now where "e = AddStep now" "length ?steps < MAX_STEPS_PER_FLOW" by blast
  then show ?thesis
  proof cases
    case (1 i)
    then have b: "length (step_opts (?steps ! i)) \<le> MAX_CHOICE_OPTIONS"
      using all by (simp add: list_all_length step_bounded_def)
    show ?thesis
    proof (cases e)
      case (RemoveStep j)
      have "length (drop_index j ?steps) \<le> MAX_STEPS_PER_FLOW"
        using length_drop_le [of j ?steps] len by linarith
      with RemoveStep all show ?thesis by (simp add: steps_bounded_def list_all_drop_index)
    next
      case (RemoveOption j k)
      have "length (drop_index k (step_opts (?steps ! i))) \<le> MAX_CHOICE_OPTIONS"
        using length_drop_le [of k "step_opts (?steps ! i)"] b by linarith
      with RemoveOption 1 show ?thesis by (auto simp: removeOption_def same intro!: upd)
    qed (use 1 b in \<open>auto simp: changeType_def updateOption_def addOption_def toggleAccept_def same
        retype_bounded Let_def intro!: upd\<close>)
  next
    case 2
    have "step_bounded ((emptyStep S_text)\<lparr>step_key := k\<rparr>)" for k
      by (simp add: step_bounded_def step_opts_def emptyStep_def)
    with 2 all show ?thesis by (simp add: addStep_def Let_def steps_bounded_def)
  qed
qed

lemma sel_steps_in:
  assumes "sel_inv s" "offered s (B_steps e)"
  shows "\<exists>s'. steps_in e s = Some s' \<and> sel_inv s' \<and> b_snapshot s' = b_snapshot s \<and> b_saving s' = b_saving s"
proof -
  from assms(2) obtain k f k' opn where
    f: "active_flow s = Some (k, f)" "b_editor s = Some (k', opn)" "fires_any (steps_view f opn) e" by auto
  from f(1) obtain c where c: "b_config s = Some c" "flow_at c k = Some f" by (auto simp: active_flow_Some)
  then have "steps_bounded (flow_steps f)" using assms(1) flow_at_bounded by (auto simp: sel_inv_def)
  with on_steps_bounded [OF f(3)] obtain r o' where
    r: "on_steps_event e (flow_steps f) opn = Some (r, o')" "case r of None \<Rightarrow> True | Some ns \<Rightarrow> steps_bounded ns"
    by blast
  show ?thesis
  proof (cases r)
    case None
    with r f assms(1) show ?thesis by (auto simp: steps_in_def intro: sel_same)
  next
    case (Some ns)
    let ?s = "setActiveFlowSteps ns s"
    have "sel_inv ?s"
      unfolding setActiveFlowSteps_def using assms(1) r(2) Some by (intro sel_patchActive) simp_all
    moreover have "b_snapshot ?s = b_snapshot s" "b_saving ?s = b_saving s"
      by (simp_all add: setActiveFlowSteps_def patchActiveFlow_active [OF f(1) c(1)])
    ultimately show ?thesis
      using Some r f by (auto simp: steps_in_def intro: sel_same)
  qed
qed

text \<open>The running save.\<close>

definition save_inv :: "builder \<Rightarrow> bool" where
  "save_inv s \<longleftrightarrow>
     (b_saving s \<longrightarrow> (\<exists>c0. b_snapshot s = Some c0 \<and> flow_keys s = Some (set (keys (lead_steps c0)))))"

lemma saving_kept [simp]:
  "b_saving (setProfile p s) = b_saving s" "b_snapshot (setProfile p s) = b_snapshot s"
  "b_saving (addFlow now s) = b_saving s" "b_snapshot (addFlow now s) = b_snapshot s"
  "b_saving (deleteFlow k s) = b_saving s" "b_snapshot (deleteFlow k s) = b_snapshot s"
  "b_saving (patch_flow k q s) = b_saving s" "b_snapshot (patch_flow k q s) = b_snapshot s"
  "b_saving (patchActiveFlow q s) = b_saving s" "b_snapshot (patchActiveFlow q s) = b_snapshot s"
  "b_saving (changeActiveFlowType t s) = b_saving s" "b_snapshot (changeActiveFlowType t s) = b_snapshot s"
  "b_saving (set_published b s) = b_saving s" "b_snapshot (set_published b s) = b_snapshot s"
  "b_saving (applyAiChanges r s) = b_saving s" "b_snapshot (applyAiChanges r s) = b_snapshot s"
  by (simp_all add: setProfile_def addFlow_def deleteFlow_def patch_flow_def patchActiveFlow_def
      changeActiveFlowType_def set_published_def applyAiChanges_def mutate_def Let_def split: option.split)

lemma save_kept:
  "save_inv s \<Longrightarrow> b_saving s' = b_saving s \<Longrightarrow> b_snapshot s' = b_snapshot s \<Longrightarrow>
   (b_saving s \<Longrightarrow> flow_keys s' = flow_keys s) \<Longrightarrow> save_inv s'"
  by (simp add: save_inv_def)

lemma ui_total:
  assumes "sel_inv s" "offered s e"
  shows "\<exists>s' req. on_ui e s = Some (s', req) \<and> sel_inv s' \<and>
    (e \<noteq> B_save \<longrightarrow> b_saving s' = b_saving s \<and> b_snapshot s' = b_snapshot s)"
proof (cases e)
  case (B_steps x)
  with sel_steps_in [of s x] assms show ?thesis by auto
next
  case (B_add now)
  with assms sel_addFlow [OF assms(1)] show ?thesis by auto
next
  case B_toggle
  with assms sel_set_published [OF assms(1)] show ?thesis
    by (auto simp: pub_toggle_def sel_inv_def set_published_def split: option.splits)
next
  case (B_ai x)
  with assms show ?thesis
    by (cases x) (auto simp: ai_submit_def Let_def sel_inv_def split: option.splits)
next
  case (B_select k)
  with assms show ?thesis
    using cfg_ok_flow by (fastforce simp: sel_inv_def selection_ok_def)
next
  case B_save
  with assms show ?thesis
    by (auto simp: onSave_def sel_inv_def)
next
  case (B_delete k)
  with assms sel_deleteFlow [OF assms(1), of k] show ?thesis by (auto intro: sel_same)
next
  case (B_type t)
  with assms sel_changeType [OF assms(1), of t] show ?thesis by (auto intro: sel_same)
qed (use assms in \<open>auto simp: renameFlowLabel_def intro!: sel_mutate_profile sel_patch_flow sel_patchActive
      intro: sel_same\<close>)

lemma ui_save:
  assumes "sel_inv s" "save_inv s" "offered s e" "on_ui e s = Some (s', req)"
    "b_saving s \<Longrightarrow> flow_keys s' = flow_keys s"
  shows "save_inv s'"
proof (cases "e = B_save")
  case True
  with assms show ?thesis by (auto simp: onSave_def save_inv_def flow_keys_def)
next
  case False
  with ui_total [OF assms(1,3)] assms show ?thesis by (auto intro: save_kept)
qed

lemma keys_of_normalized:
  "raw_ok raw \<Longrightarrow> keys (lead_steps (normalizeSettings (Some raw))) = keys (raw_flows (Some raw))"
  by (intro keys_normalize raw_ok_wf)

lemma net_inv:
  assumes "sel_inv s" "save_inv s" "server_ok n s" "on_net n s = Some s'"
    "b_saving s \<Longrightarrow> \<not> is_save_response n \<Longrightarrow> flow_keys s' = flow_keys s"
    "b_loading s \<longrightarrow> \<not> b_saving s"
  shows "sel_inv s' \<and> save_inv s'"
proof (cases n)
  case (N_loaded r)
  with assms have l: "b_loading s" and s': "s' = loadSettled r s" by (auto split: if_splits)
  then have ns: "\<not> b_saving s" using assms(6) by simp
  show ?thesis
  proof (cases r)
    case (Inl err)
    with assms(1) ns s' show ?thesis by (auto simp: loadSettled_def save_inv_def intro: sel_same)
  next
    case (Inr raw)
    with N_loaded assms(3) have "raw_ok raw" by simp
    then have "cfg_ok (normalizeSettings (Some raw))" by (rule raw_ok_cfg)
    with selection_first_key Inr s' ns show ?thesis
      by (simp add: loadSettled_def sel_inv_def save_inv_def Let_def)
  qed
next
  case (N_saved r)
  with assms have sv: "b_saving s" and s': "s' = saveSettled r s" by (auto split: if_splits)
  then obtain c c0 where c: "b_config s = Some c" "cfg_ok c" "selection_ok c (b_activeKey s)"
    and c0: "b_snapshot s = Some c0" "set (keys (lead_steps c0)) = set (keys (lead_steps c))"
    using assms(1,2) by (auto simp: sel_inv_def save_inv_def flow_keys_def split: option.splits)
  show ?thesis
  proof (cases r)
    case (Inl err)
    with assms(1) s' show ?thesis by (auto simp: saveSettled_def save_inv_def intro: sel_same)
  next
    case (Inr raw)
    with N_saved assms(3) c0 have raw: "raw_ok raw"
      "set (keys (raw_flows (Some raw))) = set (keys (lead_steps c))" by auto
    let ?n = "normalizeSettings (Some raw)"
    have ok: "cfg_ok ?n" using raw_ok_cfg [OF raw(1)] .
    have ks: "set (keys (lead_steps ?n)) = set (keys (lead_steps c))"
      using raw by (simp only: keys_of_normalized)
    have "selection_ok ?n (b_activeKey s)"
    proof (cases "b_activeKey s")
      case None
      with c(3) have "keys (lead_steps c) = []" by (simp add: selection_ok_def)
      then have "keys (lead_steps ?n) = []" using ks by (metis set_empty)
      with None show ?thesis by (simp add: selection_ok_def)
    next
      case (Some k)
      with c(3) have "k \<in> set (keys (lead_steps c))"
        using flow_at_key by (auto simp: selection_ok_def)
      then have "k \<in> set (keys (lead_steps ?n))" using ks by blast
      from cfg_ok_flow [OF ok this] Some show ?thesis by (simp add: selection_ok_def)
    qed
    with ok Inr s' show ?thesis by (simp add: saveSettled_def sel_inv_def save_inv_def)
  qed
next
  case (N_history t r)
  with assms(1,2,4) show ?thesis by (auto simp: save_inv_def flow_keys_def intro: sel_same)
next
  case (N_ai r)
  obtain a oc where ac: "AiChat.ai_reply r (b_ai s) = (a, oc)" by (cases "AiChat.ai_reply r (b_ai s)")
  show ?thesis
  proof (cases oc)
    case None
    with N_ai ac assms(1,2,4) show ?thesis
      by (auto simp: save_inv_def flow_keys_def intro: sel_same split: if_splits)
  next
    case (Some raw)
    with N_ai ac assms(3) have "raw_ok raw"
      by (auto simp: AiChat.ai_reply_def Let_def split: sum.splits option.splits)
    moreover have "sel_inv (s\<lparr>b_ai := a\<rparr>)" using assms(1) by (auto intro: sel_same)
    ultimately have "sel_inv (applyAiChanges raw (s\<lparr>b_ai := a\<rparr>))" by (rule sel_applyAi [rotated])
    moreover from Some N_ai ac assms(4) have s': "s' = applyAiChanges raw (s\<lparr>b_ai := a\<rparr>)"
      by (auto split: if_splits)
    moreover have "save_inv s'"
      using assms(2,5) N_ai unfolding s' by (intro save_kept [OF assms(2)]) simp_all
    ultimately show ?thesis by simp
  qed
next
  case (N_published r)
  with assms(4) obtain p v where s': "s' = (set_published v s)\<lparr>b_publish := p\<rparr>"
    by (auto split: option.splits)
  have "sel_inv s'" unfolding s' using sel_set_published [OF assms(1), of v] by (auto intro: sel_same)
  moreover have "save_inv s'"
    unfolding s' using assms(2) by (auto simp: save_inv_def flow_keys_def set_published_def)
  ultimately show ?thesis by simp
qed

lemma loading_kept [simp]:
  "b_loading (setProfile p s) = b_loading s" "b_loading (addFlow now s) = b_loading s"
  "b_loading (deleteFlow k s) = b_loading s" "b_loading (patch_flow k q s) = b_loading s"
  "b_loading (patchActiveFlow q s) = b_loading s" "b_loading (changeActiveFlowType t s) = b_loading s"
  "b_loading (set_published b s) = b_loading s" "b_loading (applyAiChanges r s) = b_loading s"
  "b_loading (renameFlowLabel k l s) = b_loading s" "b_loading (setActiveFlowSteps ns s) = b_loading s"
  by (simp_all add: setProfile_def addFlow_def deleteFlow_def patch_flow_def patchActiveFlow_def
      changeActiveFlowType_def set_published_def applyAiChanges_def mutate_def renameFlowLabel_def
      setActiveFlowSteps_def Let_def split: option.split)

lemma ui_loading: "on_ui e s = Some (s', req) \<Longrightarrow> b_loading s' = b_loading s"
  by (cases "(e, s)" rule: on_ui.cases)
    (auto simp: steps_in_def onSave_def split: option.splits prod.splits)

lemma net_loading: "on_net n s = Some s' \<Longrightarrow> b_loading s' \<Longrightarrow> b_loading s \<and> b_saving s' \<longrightarrow> b_saving s"
  by (cases "(n, s)" rule: on_net.cases)
    (auto simp: loadSettled_def saveSettled_def Let_def split: if_splits sum.splits option.splits prod.splits)

lemma net_loading_back: "on_net n s = Some s' \<Longrightarrow> b_loading s' \<Longrightarrow> b_loading s"
  by (cases "(n, s)" rule: on_net.cases)
    (auto simp: loadSettled_def saveSettled_def Let_def split: if_splits sum.splits option.splits prod.splits)

lemma net_saving_back: "on_net n s = Some s' \<Longrightarrow> b_saving s' \<Longrightarrow> b_saving s"
  by (cases "(n, s)" rule: on_net.cases)
    (auto simp: loadSettled_def saveSettled_def Let_def split: if_splits sum.splits option.splits prod.splits)

lemma commit_fields [simp]:
  "b_config (commit o' s) = b_config s" "b_activeKey (commit o' s) = b_activeKey s"
  "b_saving (commit o' s) = b_saving s" "b_snapshot (commit o' s) = b_snapshot s"
  "b_loading (commit o' s) = b_loading s" "active_flow (commit o' s) = active_flow s"
  "flow_keys (commit o' s) = flow_keys s" "b_saved (commit o' s) = b_saved s"
  "b_editor (commit o' s) = commit_editor s"
  by (simp_all add: commit_def active_flow_def flow_keys_def split: option.split)

definition run_inv :: "builder \<Rightarrow> bool" where
  "run_inv s \<longleftrightarrow> sel_inv s \<and> save_inv s \<and> (b_loading s \<longrightarrow> \<not> b_saving s)"

lemma run_inv_commit: "run_inv (commit o' s) = run_inv s"
  by (simp add: run_inv_def sel_inv_def save_inv_def split: option.split)

lemma builder_run_inv: "builder_run s \<Longrightarrow> run_inv s"
proof (induction rule: builder_run.induct)
  case br_start
  show ?case by (simp add: run_inv_def sel_inv_def save_inv_def builder_init_def)
next
  case (br_ui s vs e s' req)
  then have i: "sel_inv s" "save_inv s" "b_loading s \<longrightarrow> \<not> b_saving s" by (simp_all add: run_inv_def)
  have off: "offered s e" using br_ui(2,3) by (rule builder_offers)
  have t: "sel_inv s'" "e \<noteq> B_save \<longrightarrow> b_saving s' = b_saving s"
    using ui_total [OF i(1) off] br_ui(4) by auto
  have "b_loading s' \<longrightarrow> \<not> b_saving s'"
    using t(2) i(3) off ui_loading [OF br_ui(4)] by (cases "e = B_save") auto
  with t(1) ui_save [OF i(1,2) off br_ui(4,5)] show ?case
    by (simp add: run_inv_commit) (simp add: run_inv_def)
next
  case (br_net s n s')
  then have i: "sel_inv s" "save_inv s" "b_loading s \<longrightarrow> \<not> b_saving s" by (simp_all add: run_inv_def)
  have "sel_inv s' \<and> save_inv s'"
    using net_inv [OF i(1,2) br_net(3,2) br_net(4) i(3)] by blast
  moreover have "b_loading s' \<longrightarrow> \<not> b_saving s'"
    using i(3) net_loading_back [OF br_net(2)] net_saving_back [OF br_net(2)] by blast
  ultimately show ?case by (simp add: run_inv_commit) (simp add: run_inv_def)
qed

lemma sel_inv_view: "sel_inv s \<Longrightarrow> \<exists>vs. builder_view s = Some vs"
proof -
  assume i: "sel_inv s"
  have "body_view s \<noteq> None"
  proof (cases "b_config s")
    case (Some c)
    with i have "cfg_ok c" by (simp add: sel_inv_def)
    then have "flow_items (lead_steps c) \<noteq> None"
      unfolding flow_items_defined by (fastforce simp: cfg_ok_def)
    with Some show ?thesis by (auto simp: body_view_def split: option.split)
  qed (simp add: body_view_def split: option.split)
  then show ?thesis by (auto simp: builder_view_def)
qed

lemma sel_inv_active:
  "sel_inv s \<Longrightarrow> b_config s = Some c \<Longrightarrow> lead_steps c \<noteq> [] \<Longrightarrow> active_flow s \<noteq> None"
  by (auto simp: sel_inv_def selection_ok_def active_flow_def split: option.splits)

section \<open>Properties\<close>



lemma add_offered:
  assumes "sel_inv s" "\<not> b_loading s" "b_loadError s = None" "b_config s = Some c"
    "length (lead_steps c) < MAX_FLOWS"
  shows "\<exists>vs. builder_view s = Some vs \<and> fires_any vs (B_add now)"
proof -
  obtain vs where vs: "builder_view s = Some vs" using sel_inv_view [OF assms(1)] by blast
  then have "fires_any vs (B_add now)"
    using assms(2-5)
    by (auto simp: builder_view_def body_view_def flow_tabs_view_def Let_def)
  with vs show ?thesis by blast
qed

text \<open>
  Saving loses whatever is edited while the request is in flight: the editor
  stays enabled, the response of a server that returns exactly what it was sent replaces the
  working copy, and the page says that everything was saved. A flow added in between is gone
  and, since the selected tab is not revised, no flow is shown at all.
\<close>

theorem save_drops_flow_added_meanwhile:
  assumes "sel_inv s" "b_config s = Some c" "\<not> b_loading s" "b_loadError s = None"
    and "length (lead_steps c) < MAX_FLOWS"
  shows "let s1 = commit s (fst (onSave s));
             s2 = commit s1 (addFlow now s1);
             s3 = commit s2 (saveSettled (Inr (as_raw c)) s2) in
    snd (onSave s) = Some (saveSettings c)
    \<and> (\<exists>vs. builder_view s1 = Some vs \<and> fires_any vs (B_add now))
    \<and> active_flow s2 \<noteq> None \<and> b_saving s2
    \<and> b_saved s3 \<and> b_config s3 = Some (normalizeSettings (Some (as_raw c))) \<and> active_flow s3 = None"
proof -
  let ?k = "uniqueKey (lat ''flow'') (keys (lead_steps c)) now"
  define s1 where "s1 = commit s (fst (onSave s))"
  define s2 where "s2 = commit s1 (addFlow now s1)"
  define s3 where "s3 = commit s2 (saveSettled (Inr (as_raw c)) s2)"
  have ok: "cfg_ok c" using assms(1,2) by (simp add: sel_inv_def)
  have s1: "b_config s1 = Some c" "b_saving s1" "b_loading s1 = b_loading s" "b_loadError s1 = b_loadError s"
    "b_activeKey s1 = b_activeKey s"
    using assms(2) by (simp_all add: s1_def onSave_def) (simp add: commit_def)
  have "sel_inv s1" using assms(1) s1 assms(2) by (simp add: sel_inv_def)
  then have offer: "\<exists>vs. builder_view s1 = Some vs \<and> fires_any vs (B_add now)"
    using s1 assms(3-5) by (intro add_offered) simp_all
  have ak: "b_activeKey s2 = Some ?k" "b_saving s2"
    using s1 by (simp_all add: s2_def) (simp add: addFlow_def Let_def mutate_def)
  have act: "active_flow s2 \<noteq> None"
    using s1(1) uniqueKey_nonempty [of "lat ''flow''" "keys (lead_steps c)" now]
    by (simp add: s2_def addFlow_def Let_def mutate_def active_flow_def)
  have "length (keys (lead_steps c)) < 998" using assms(5) by simp
  then have "?k \<notin> set (keys (lead_steps c))" by (intro uniqueKey_fresh) simp_all
  then have "get (raw_flows (Some (as_raw c))) ?k = None"
    by (simp only: get_None_iff raw_flows_def as_raw_def option.case raw_settings.simps not_False_eq_True)
  then have "flow_at (normalizeSettings (Some (as_raw c))) ?k = None"
    using ok by (subst flow_at_normalize) (simp_all add: raw_flows_def as_raw_def cfg_ok_def)
  then have "active_flow s3 = None"
    using ak by (simp add: s3_def) (simp add: saveSettled_def active_flow_def)
  moreover have "b_saved s3" "b_config s3 = Some (normalizeSettings (Some (as_raw c)))"
    by (simp_all add: s3_def saveSettled_def)
  moreover have "snd (onSave s) = Some (saveSettings c)" using assms(2) by (simp add: onSave_def)
  ultimately show ?thesis
    using offer ak act unfolding Let_def s1_def [symmetric] s2_def [symmetric] s3_def [symmetric] by blast
qed

theorem save_drops_flow_added_meanwhile_witness:
  "\<exists>s3. b_saved s3 \<and> b_config s3 \<noteq> None \<and> active_flow s3 = None"
proof -
  let ?s = "builder_init\<lparr>b_config := Some emptySettings, b_loading := False\<rparr>"
  have "sel_inv ?s"
    by (simp add: sel_inv_def cfg_ok_def selection_ok_def emptySettings_def builder_init_def)
  from save_drops_flow_added_meanwhile [OF this, of emptySettings 0] show ?thesis
    unfolding Let_def by (auto simp: builder_init_def emptySettings_def)
qed

text \<open>
  Changing a flow's type leaves it within the contract of the new type: a
  handoff has no steps, a lead flow at least one, only a booking keeps a service name, a
  message-based flow has a visible message which is never the default of the other type, a
  message the owner wrote is kept, and choosing the same type again changes nothing more.
\<close>

theorem switch_type_contract:
  "let f' = switch_type t f in
     flow_type f' = t \<and> flow_label f' = flow_label f
     \<and> (t = T_human_handoff \<longrightarrow> flow_steps f' = [] \<and> opt (flow_message f') \<noteq> Some DEFAULT_BOOKING_MESSAGE)
     \<and> (t = T_lead \<longrightarrow> flow_steps f' \<noteq> [] \<and> (flow_steps f \<noteq> [] \<longrightarrow> flow_steps f' = flow_steps f))
     \<and> (t = T_booking \<longrightarrow> flow_steps f' = flow_steps f \<and> opt (flow_service_name f') \<noteq> None
          \<and> opt (flow_message f') \<noteq> Some DEFAULT_HANDOFF_MESSAGE)
     \<and> (t \<noteq> T_booking \<longrightarrow> opt (flow_service_name f') = None)
     \<and> (t \<noteq> T_lead \<longrightarrow> \<not> blank_message (flow_message f'))
     \<and> (\<forall>m. opt (flow_message f) = Some m \<and> trim m \<noteq> [] \<and> m \<notin> {DEFAULT_HANDOFF_MESSAGE, DEFAULT_BOOKING_MESSAGE}
          \<longrightarrow> opt (flow_message f') = Some m)
     \<and> switch_type t f' = f'"
proof -
  have ne: "DEFAULT_HANDOFF_MESSAGE \<noteq> DEFAULT_BOOKING_MESSAGE"
    by (simp add: DEFAULT_HANDOFF_MESSAGE_def DEFAULT_BOOKING_MESSAGE_def js_lit)
  show ?thesis
    using ne
    by (cases t)
      (auto simp: switch_type_def Let_def emptyFlow_def swap_message_def blank_message_def split: option.splits)
qed

theorem switch_type_contract_witness:
  "let f' = switch_type T_human_handoff (emptyFlow [] T_booking) in
   flow_steps f' = [] \<and> \<not> blank_message (flow_message f')"
  using switch_type_contract [of T_human_handoff "emptyFlow [] T_booking"] by (simp add: Let_def)

end
