(* ===== verification/Dates.thy ===== *)
theory Dates
  imports JsPrelude
begin

text \<open>
  The date helpers (\<open>lib/bookingDates.ts\<close>, \<open>lib/formatDate.ts\<close>).

  A \<open>Date\<close> at local midnight is its local calendar day, a \<open>civil\<close> date. The \<open>Date\<close>
  constructor normalizes months outside 0..11 and days outside the month by carrying, and
  reads a year between 0 and 99 as 19xx; the engine's limit of \<open>10 ^ 8\<close> days around 1970 is
  not modelled. Weekdays come from the day count of the language specification.

  Parsing an ISO timestamp, the local start of a day and locale formatting belong to the
  browser: they are arguments of the functions that use them.
\<close>

section \<open>Calendar days\<close>

datatype civil = Civil (year: int) (month0: nat) (day: nat)

instantiation civil :: linorder
begin

definition less_civil :: "civil \<Rightarrow> civil \<Rightarrow> bool" where
  "less_civil a b \<longleftrightarrow>
     year a < year b \<or> year a = year b \<and> (month0 a < month0 b \<or> month0 a = month0 b \<and> day a < day b)"

definition less_eq_civil :: "civil \<Rightarrow> civil \<Rightarrow> bool" where
  "less_eq_civil a b \<longleftrightarrow> a < b \<or> a = b"

instance
proof
  fix a b c :: civil
  have eq: "x = y \<longleftrightarrow> year x = year y \<and> month0 x = month0 y \<and> day x = day y" for x y
    by (cases x; cases y) simp
  show "(a < b) = (a \<le> b \<and> \<not> b \<le> a)" "a \<le> a" "a \<le> b \<or> b \<le> a"
    "a \<le> b \<Longrightarrow> b \<le> c \<Longrightarrow> a \<le> c" "a \<le> b \<Longrightarrow> b \<le> a \<Longrightarrow> a = b"
    by (auto simp: less_civil_def less_eq_civil_def eq)
qed

end

definition leap :: "int \<Rightarrow> bool" where
  "leap y \<longleftrightarrow> y mod 4 = 0 \<and> y mod 100 \<noteq> 0 \<or> y mod 400 = 0"

definition month_days :: "int \<Rightarrow> nat \<Rightarrow> nat" where
  "month_days y m = (if m = 1 then (if leap y then 29 else 28) else if m \<in> {3, 5, 8, 10} then 30 else 31)"

definition valid_civil :: "civil \<Rightarrow> bool" where
  "valid_civil c \<longleftrightarrow> month0 c < 12 \<and> 1 \<le> day c \<and> day c \<le> month_days (year c) (month0 c)"

text \<open>Days since 1 January 1970.\<close>

definition day_from_year :: "int \<Rightarrow> int" where
  "day_from_year y = 365 * (y - 1970) + (y - 1969) div 4 - (y - 1901) div 100 + (y - 1601) div 400"

fun days_before :: "int \<Rightarrow> nat \<Rightarrow> nat" where
  "days_before y 0 = 0"
| "days_before y (Suc m) = days_before y m + month_days y m"

definition day_num :: "civil \<Rightarrow> int" where
  "day_num c = day_from_year (year c) + int (days_before (year c) (month0 c)) + int (day c) - 1"

definition getDay :: "civil \<Rightarrow> int" where
  "getDay c = (day_num c + 4) mod 7"

definition next_day :: "civil \<Rightarrow> civil" where
  "next_day c =
     (if day c < month_days (year c) (month0 c) then Civil (year c) (month0 c) (day c + 1)
      else if month0 c < 11 then Civil (year c) (month0 c + 1) 1
      else Civil (year c + 1) 0 1)"

definition prev_day :: "civil \<Rightarrow> civil" where
  "prev_day c =
     (if 1 < day c then Civil (year c) (month0 c) (day c - 1)
      else if 0 < month0 c then Civil (year c) (month0 c - 1) (month_days (year c) (month0 c - 1))
      else Civil (year c - 1) 11 31)"

definition plus_days :: "civil \<Rightarrow> int \<Rightarrow> civil" where
  "plus_days c n = (if 0 \<le> n then (next_day ^^ nat n) c else (prev_day ^^ nat (- n)) c)"

definition full_year :: "int \<Rightarrow> int" where
  "full_year y = (if 0 \<le> y \<and> y \<le> 99 then 1900 + y else y)"

text \<open>\<open>new Date(y, m, d)\<close>.\<close>

definition newDate :: "int \<Rightarrow> int \<Rightarrow> int \<Rightarrow> civil" where
  "newDate y m d = plus_days (Civil (full_year y + m div 12) (nat (m mod 12)) 1) (d - 1)"

section \<open>bookingDates.ts\<close>

definition year_str :: "int \<Rightarrow> jsstr" where
  "year_str y = (if y < 0 then 45 # nat_str (nat (- y)) else nat_str (nat y))"

definition toDateString :: "civil \<Rightarrow> jsstr" where
  "toDateString d =
     year_str (year d) @ [45] @ pad_start 2 48 (nat_str (month0 d + 1)) @ [45]
     @ pad_start 2 48 (nat_str (day d))"

definition fromDateString :: "jsstr \<Rightarrow> civil option" where
  "fromDateString s =
     (if length s = 10 \<and> s ! 4 = 45 \<and> s ! 7 = 45
         \<and> list_all is_digit (take 4 s) \<and> list_all is_digit (take 2 (drop 5 s))
         \<and> list_all is_digit (drop 8 s)
      then Some (newDate (int (digits_val (take 4 s))) (int (digits_val (take 2 (drop 5 s))) - 1)
                   (int (digits_val (drop 8 s))))
      else None)"

text \<open>\<open>now\<close> is the local calendar day of the browser's clock.\<close>

definition todayMidnight :: "civil \<Rightarrow> civil" where
  "todayMidnight now = newDate (year now) (int (month0 now)) (int (day now))"

definition addDays :: "civil \<Rightarrow> int \<Rightarrow> civil" where
  "addDays base n = newDate (year base) (int (month0 base)) (int (day base) + n)"

record year_month =
  ym_year :: int
  ym_month0 :: nat

definition monthOf :: "civil \<Rightarrow> year_month" where
  "monthOf d = \<lparr>ym_year = year d, ym_month0 = month0 d\<rparr>"

definition shiftMonth :: "year_month \<Rightarrow> int \<Rightarrow> year_month" where
  "shiftMonth ym delta =
     (let d = newDate (ym_year ym) (int (ym_month0 ym) + delta) 1
      in \<lparr>ym_year = year d, ym_month0 = month0 d\<rparr>)"

text \<open>\<open>label\<close> is \<open>toLocaleDateString('he-IL', {month: 'long', year: 'numeric'})\<close>.\<close>

definition monthLabel :: "(civil \<Rightarrow> jsstr) \<Rightarrow> year_month \<Rightarrow> jsstr" where
  "monthLabel label ym = label (newDate (ym_year ym) (int (ym_month0 ym)) 1)"

definition monthStart :: "year_month \<Rightarrow> jsstr" where
  "monthStart ym = toDateString (newDate (ym_year ym) (int (ym_month0 ym)) 1)"

definition monthEnd :: "year_month \<Rightarrow> jsstr" where
  "monthEnd ym = toDateString (newDate (ym_year ym) (int (ym_month0 ym) + 1) 0)"

definition monthGrid :: "year_month \<Rightarrow> civil option list" where
  "monthGrid ym =
     (let first = newDate (ym_year ym) (int (ym_month0 ym)) 1;
          leading = nat (getDay first);
          daysInMonth = day (newDate (ym_year ym) (int (ym_month0 ym) + 1) 0)
      in replicate leading None
         @ map (\<lambda>d. Some (newDate (ym_year ym) (int (ym_month0 ym)) (int d))) [1..<daysInMonth + 1])"

definition sameDay :: "civil \<Rightarrow> civil \<Rightarrow> bool" where
  "sameDay a b \<longleftrightarrow> year a = year b \<and> month0 a = month0 b \<and> day a = day b"

section \<open>Day counting\<close>

lemma month_days_range: "28 \<le> month_days y m" "month_days y m \<le> 31"
  by (simp_all add: month_days_def)

lemma div_succ:
  assumes "0 < (n :: int)"
  shows "(z + 1) div n - z div n = (if (z + 1) mod n = 0 then 1 else 0)"
proof -
  define q where "q = z div n"
  define r where "r = z mod n"
  have z: "z = q * n + r" by (simp add: q_def r_def)
  have r: "0 \<le> r" "r < n" using assms by (simp_all add: r_def)
  show ?thesis
  proof (cases "r + 1 = n")
    case True
    then have "z + 1 = (q + 1) * n" using z by (simp add: algebra_simps)
    then show ?thesis using assms by (simp add: q_def [symmetric])
  next
    case False
    with r have "0 \<le> r + 1" "r + 1 < n" by simp_all
    then have "(r + 1) div n = 0" "(r + 1) mod n = r + 1" by simp_all
    moreover have "z + 1 = (r + 1) + q * n" using z by simp
    ultimately have "(z + 1) div n = q" "(z + 1) mod n = r + 1"
      using assms by (simp_all only: div_mult_self1 mod_mult_self1)
    then show ?thesis using r by (simp add: q_def)
  qed
qed

lemma day_from_year_Suc: "day_from_year (y + 1) = day_from_year y + (if leap y then 366 else 365)"
proof -
  have m: "(y - 1968) mod 4 = y mod 4" "(y - 1900) mod 100 = y mod 100" "(y - 1600) mod 400 = y mod 400"
    using mod_mult_self1 [of y "- 492" 4] mod_mult_self1 [of y "- 19" 100] mod_mult_self1 [of y "- 4" 400]
    by simp_all
  have a: "(y - 1968) div 4 - (y - 1969) div 4 = (if y mod 4 = 0 then 1 else 0)"
    using div_succ [of 4 "y - 1969"] m(1) by simp
  have b: "(y - 1900) div 100 - (y - 1901) div 100 = (if y mod 100 = 0 then 1 else 0)"
    using div_succ [of 100 "y - 1901"] m(2) by simp
  have c: "(y - 1600) div 400 - (y - 1601) div 400 = (if y mod 400 = 0 then 1 else 0)"
    using div_succ [of 400 "y - 1601"] m(3) by simp
  have d: "y mod 400 = 0 \<Longrightarrow> y mod 100 = 0" "y mod 100 = 0 \<Longrightarrow> y mod 4 = 0" by presburger+
  have s: "day_from_year (y + 1) = day_from_year y + 365 + ((y - 1968) div 4 - (y - 1969) div 4)
      - ((y - 1900) div 100 - (y - 1901) div 100) + ((y - 1600) div 400 - (y - 1601) div 400)"
    by (simp add: day_from_year_def)
  show ?thesis
    unfolding s a b c leap_def using d
    by (cases "y mod 4 = 0"; cases "y mod 100 = 0"; cases "y mod 400 = 0") simp_all
qed

lemma days_before_12: "int (days_before y 12) = (if leap y then 366 else 365)"
  by (simp add: eval_nat_numeral month_days_def)

lemma day_num_next: "valid_civil c \<Longrightarrow> day_num (next_day c) = day_num c + 1"
proof -
  assume v: "valid_civil c"
  show ?thesis
  proof (cases "day c < month_days (year c) (month0 c)")
    case False
    with v have d: "day c = month_days (year c) (month0 c)" by (simp add: valid_civil_def)
    show ?thesis
    proof (cases "month0 c < 11")
      case True
      with False d show ?thesis by (simp add: next_day_def day_num_def)
    next
      case m: False
      with v have "month0 c = 11" by (simp add: valid_civil_def)
      moreover have "int (days_before (year c) 11) + int (month_days (year c) 11) = int (days_before (year c) 12)"
        by (simp add: eval_nat_numeral)
      ultimately show ?thesis
        using False d days_before_12 [of "year c"] day_from_year_Suc [of "year c"]
        by (simp add: next_day_def day_num_def)
    qed
  qed (simp add: next_day_def day_num_def)
qed

lemma valid_next: "valid_civil c \<Longrightarrow> valid_civil (next_day c)"
  using month_days_range(1) [of "year c" "month0 c + 1"] month_days_range(1) [of "year c + 1" 0]
  by (auto simp: valid_civil_def next_day_def)

lemma valid_prev: "valid_civil c \<Longrightarrow> valid_civil (prev_day c)"
proof -
  assume v: "valid_civil c"
  have m: "1 \<le> month_days y m" for y m using month_days_range(1) [of y m] by linarith
  consider "1 < day c" | "day c = 1" "0 < month0 c" | "day c = 1" "month0 c = 0"
    using v unfolding valid_civil_def by linarith
  then show ?thesis
  proof cases
    case 1
    with v show ?thesis by (auto simp: prev_day_def valid_civil_def)
  next
    case 2
    with v show ?thesis using m by (simp add: prev_day_def valid_civil_def)
  next
    case 3
    then show ?thesis by (simp add: prev_day_def valid_civil_def month_days_def)
  qed
qed

lemma next_prev: "valid_civil c \<Longrightarrow> next_day (prev_day c) = c"
proof -
  assume v: "valid_civil c"
  then have d: "1 \<le> day c" "day c \<le> month_days (year c) (month0 c)" "month0 c < 12"
    by (simp_all add: valid_civil_def)
  consider "1 < day c" | "day c = 1" "0 < month0 c" | "day c = 1" "month0 c = 0"
    using d(1) by linarith
  then show ?thesis
  proof cases
    case 1
    with d show ?thesis by (cases c) (simp add: prev_day_def next_day_def)
  next
    case 2
    with d show ?thesis by (cases c) (simp add: prev_day_def next_day_def)
  next
    case 3
    then show ?thesis by (cases c) (simp add: prev_day_def next_day_def month_days_def)
  qed
qed

lemma day_num_prev: "valid_civil c \<Longrightarrow> day_num (prev_day c) = day_num c - 1"
  using day_num_next [OF valid_prev [of c]] next_prev [of c] by simp

lemma plus_days_valid: "valid_civil c \<Longrightarrow> valid_civil (plus_days c n) \<and> day_num (plus_days c n) = day_num c + n"
proof -
  assume v: "valid_civil c"
  have up: "valid_civil ((next_day ^^ k) c) \<and> day_num ((next_day ^^ k) c) = day_num c + int k" for k
    by (induction k) (use v in \<open>auto simp: valid_next day_num_next\<close>)
  have down: "valid_civil ((prev_day ^^ k) c) \<and> day_num ((prev_day ^^ k) c) = day_num c - int k" for k
    by (induction k) (use v in \<open>auto simp: valid_prev day_num_prev\<close>)
  show ?thesis using up [of "nat n"] down [of "nat (- n)"] by (simp add: plus_days_def)
qed

lemma valid_first: "m < 12 \<Longrightarrow> valid_civil (Civil y m 1)"
  using month_days_range(1) [of y m] by (simp add: valid_civil_def)

lemma newDate_valid:
  "valid_civil (newDate y m d) \<and>
   day_num (newDate y m d) = day_num (Civil (full_year y + m div 12) (nat (m mod 12)) 1) + d - 1"
proof -
  have "nat (m mod 12) < 12" by (simp add: nat_less_iff)
  from plus_days_valid [OF valid_first [OF this]] show ?thesis by (simp add: newDate_def)
qed

lemma plus_days_in_month:
  "1 \<le> d \<Longrightarrow> d \<le> month_days y m \<Longrightarrow> plus_days (Civil y m 1) (int d - 1) = Civil y m d"
proof (induction d)
  case (Suc d)
  show ?case
  proof (cases "d = 0")
    case False
    with Suc have "plus_days (Civil y m 1) (int d - 1) = Civil y m d" by simp
    moreover have "plus_days c (int (Suc d) - 1) = next_day (plus_days c (int d - 1))" for c
    proof -
      have "nat (int (Suc d) - 1) = Suc (nat (int d - 1))" using False by simp
      then show ?thesis using False by (simp only: plus_days_def funpow.simps comp_apply) simp
    qed
    ultimately have "plus_days (Civil y m 1) (int (Suc d) - 1) = next_day (Civil y m d)"
      by simp
    with Suc.prems show ?thesis by (simp add: next_day_def)
  qed (simp add: plus_days_def)
qed simp

lemma newDate_in_month:
  "m < 12 \<Longrightarrow> 1 \<le> d \<Longrightarrow> d \<le> month_days (full_year y) m \<Longrightarrow>
   newDate y (int m) (int d) = Civil (full_year y) m d"
  using plus_days_in_month [of d "full_year y" m] by (simp add: newDate_def)

lemma newDate_last:
  assumes "m < 12"
  shows "newDate y (int m + 1) 0 = Civil (full_year y) m (month_days (full_year y) m)"
proof (cases "m = 11")
  case True
  then show ?thesis by (simp add: newDate_def plus_days_def prev_day_def month_days_def)
next
  case False
  with assms have "(int m + 1) div 12 = 0" "(int m + 1) mod 12 = int (m + 1)" by simp_all
  then have "newDate y (int m + 1) 0 = plus_days (Civil (full_year y) (m + 1) 1) (- 1)"
    by (simp only: newDate_def nat_int) simp
  then show ?thesis by (simp add: plus_days_def prev_day_def)
qed

text \<open>The calendar order is the order of the day counts, so comparing times compares days.\<close>

lemma days_before_mono: "m \<le> n \<Longrightarrow> days_before y m \<le> days_before y n"
  by (induction n) (auto simp: le_Suc_eq)

lemma day_from_year_mono: "y < z \<Longrightarrow> day_from_year y + 365 \<le> day_from_year z"
proof -
  have k: "day_from_year y + 365 \<le> day_from_year (y + 1 + int k)" for k
  proof (induction k)
    case (Suc k)
    have "day_from_year (y + 1 + int (Suc k)) \<ge> day_from_year (y + 1 + int k)"
      using day_from_year_Suc [of "y + 1 + int k"] by (simp add: algebra_simps split: if_splits)
    with Suc show ?case by linarith
  qed (simp add: day_from_year_Suc)
  assume "y < z"
  then have "y + 1 + int (nat (z - y - 1)) = z" by simp
  with k [of "nat (z - y - 1)"] show ?thesis by simp
qed

lemma day_in_year:
  assumes "valid_civil c"
  shows "day_from_year (year c) \<le> day_num c" "day_num c < day_from_year (year c + 1)"
proof -
  have m: "month0 c < 12" and d: "1 \<le> day c" "day c \<le> month_days (year c) (month0 c)"
    using assms by (simp_all add: valid_civil_def)
  have "days_before (year c) (month0 c) + day c \<le> days_before (year c) (Suc (month0 c))"
    using d by simp
  also have "\<dots> \<le> days_before (year c) 12" using m by (intro days_before_mono) simp
  finally have "int (days_before (year c) (month0 c)) + int (day c) \<le> (if leap (year c) then 366 else 365)"
    using days_before_12 [of "year c"] by linarith
  then show "day_num c < day_from_year (year c + 1)"
    by (simp add: day_num_def day_from_year_Suc)
  show "day_from_year (year c) \<le> day_num c" using d by (simp add: day_num_def)
qed

lemma day_num_less:
  assumes "valid_civil a" "valid_civil b" "a < b"
  shows "day_num a < day_num b"
proof -
  have da: "1 \<le> day a" "day a \<le> month_days (year a) (month0 a)" and db: "1 \<le> day b"
    using assms(1,2) by (simp_all add: valid_civil_def)
  from assms(3) consider "year a < year b"
    | "year a = year b" "month0 a < month0 b"
    | "year a = year b" "month0 a = month0 b" "day a < day b"
    unfolding less_civil_def by blast
  then show ?thesis
  proof cases
    case 1
    then have "day_from_year (year a + 1) \<le> day_from_year (year b)"
      using day_from_year_mono [of "year a + 1" "year b"] by (cases "year a + 1 = year b") auto
    with day_in_year [OF assms(1)] day_in_year [OF assms(2)] show ?thesis by linarith
  next
    case 2
    have "days_before (year a) (month0 a) + day a \<le> days_before (year a) (Suc (month0 a))"
      using da by simp
    also have "\<dots> \<le> days_before (year a) (month0 b)" using 2 by (intro days_before_mono) simp
    finally show ?thesis using 2 db by (simp add: day_num_def)
  qed (simp add: day_num_def)
qed

lemma day_num_less_iff: "valid_civil a \<Longrightarrow> valid_civil b \<Longrightarrow> day_num a < day_num b \<longleftrightarrow> a < b"
  using day_num_less [of a b] day_num_less [of b a] by (metis less_irrefl less_linear less_trans)

lemma day_num_inj: "valid_civil a \<Longrightarrow> valid_civil b \<Longrightarrow> day_num a = day_num b \<longleftrightarrow> a = b"
  using day_num_less_iff [of a b] day_num_less_iff [of b a] by (metis less_irrefl linorder_cases)

section \<open>Date strings\<close>

lemma two_digits: "n < 100 \<Longrightarrow> pad_start 2 48 (nat_str n) = [48 + n div 10, 48 + n mod 10]"
proof -
  assume n: "n < 100"
  then have "n div 10 < 10" by simp
  then show ?thesis
    using n by (auto simp: pad_start_def nat_str.simps [of n] nat_str.simps [of "n div 10"])
qed

lemma four_digits:
  assumes "1000 \<le> n" "n < 10000"
  shows "nat_str n = [48 + n div 1000, 48 + n div 100 mod 10, 48 + n div 10 mod 10, 48 + n mod 10]"
proof -
  have "n div 10 div 10 = n div 100" "n div 10 div 10 div 10 = n div 1000"
    by (simp_all add: div_mult2_eq [symmetric])
  moreover have "\<not> n < 10" "\<not> n div 10 < 10" "\<not> n div 100 < 10" "n div 1000 < 10"
    using assms by simp_all
  ultimately show ?thesis
    by (simp add: nat_str.simps [of n] nat_str.simps [of "n div 10"] nat_str.simps [of "n div 100"]
        nat_str.simps [of "n div 1000"] del: One_nat_def)
qed

lemma digits_val_two: "digits_val [48 + n div 10, 48 + n mod 10] = n"
  by (simp add: digits_val_def)

lemma digits_val_four:
  "digits_val [48 + n div 1000, 48 + n div 100 mod 10, 48 + n div 10 mod 10, 48 + n mod 10] = n"
proof -
  have "n div 1000 * 10 + n div 100 mod 10 = n div 100"
    using div_mult_mod_eq [of "n div 100" 10] by (simp add: div_mult2_eq [symmetric])
  moreover have "n div 100 * 10 + n div 10 mod 10 = n div 10"
    using div_mult_mod_eq [of "n div 10" 10] by (simp add: div_mult2_eq [symmetric])
  ultimately show ?thesis by (simp add: digits_val_def)
qed

definition iso_year :: "int \<Rightarrow> bool" where
  "iso_year y \<longleftrightarrow> 1000 \<le> y \<and> y \<le> 9999"

lemma full_year_iso [simp]: "iso_year y \<Longrightarrow> full_year y = y"
  by (simp add: full_year_def iso_year_def)

lemma toDateString_iso:
  assumes "valid_civil c" "iso_year (year c)"
  shows "toDateString c =
    (let y = nat (year c); m = month0 c + 1; d = day c in
     [48 + y div 1000, 48 + y div 100 mod 10, 48 + y div 10 mod 10, 48 + y mod 10, 45,
      48 + m div 10, 48 + m mod 10, 45, 48 + d div 10, 48 + d mod 10])"
proof -
  have "month0 c + 1 < 100" "day c < 100"
    using assms(1) month_days_range(2) [of "year c" "month0 c"] by (simp_all add: valid_civil_def)
  moreover have "1000 \<le> nat (year c)" "nat (year c) < 10000" "\<not> year c < 0"
    using assms(2) by (simp_all add: iso_year_def nat_less_iff le_nat_iff)
  ultimately show ?thesis
    by (simp add: toDateString_def year_str_def two_digits four_digits Let_def del: One_nat_def Suc_eq_plus1)
qed

lemma digit_units: "is_digit (48 + n mod 10)" "n < 100 \<Longrightarrow> is_digit (48 + n div 10)"
  "n < 10000 \<Longrightarrow> is_digit (48 + n div 1000)"
  by (simp_all add: is_digit_def)

lemma from_to_date:
  assumes "valid_civil c" "iso_year (year c)"
  shows "fromDateString (toDateString c) = Some c"
proof -
  define y where "y = nat (year c)"
  define m where "m = month0 c + 1"
  have m: "m < 100" "month0 c < 12" and d: "day c < 100" "1 \<le> day c" "day c \<le> month_days (year c) (month0 c)"
    using assms(1) month_days_range(2) [of "year c" "month0 c"] by (simp_all add: valid_civil_def m_def)
  have y: "y < 10000" "int y = year c"
    using assms(2) by (simp_all add: y_def iso_year_def nat_less_iff)
  have s: "toDateString c =
     [48 + y div 1000, 48 + y div 100 mod 10, 48 + y div 10 mod 10, 48 + y mod 10, 45,
      48 + m div 10, 48 + m mod 10, 45, 48 + day c div 10, 48 + day c mod 10]"
    using toDateString_iso [OF assms] unfolding Let_def y_def m_def .
  let ?A = "[48 + y div 1000, 48 + y div 100 mod 10, 48 + y div 10 mod 10, 48 + y mod 10]"
  let ?B = "[48 + m div 10, 48 + m mod 10]"
  let ?C = "[48 + day c div 10, 48 + day c mod 10]"
  have parts: "length (toDateString c) = 10" "toDateString c ! 4 = 45" "toDateString c ! 7 = 45"
    "take 4 (toDateString c) = ?A" "take 2 (drop 5 (toDateString c)) = ?B" "drop 8 (toDateString c) = ?C"
    unfolding s by simp_all
  have dg: "list_all is_digit ?A" "list_all is_digit ?B" "list_all is_digit ?C"
    using m(1) d(1) y(1) by (simp_all add: digit_units del: add.commute)
  have "fromDateString (toDateString c) = Some (newDate (int y) (int m - 1) (int (day c)))"
    by (simp only: fromDateString_def parts dg digits_val_two digits_val_four if_True simp_thms)
  also have "int m - 1 = int (month0 c)" by (simp add: m_def)
  also have "newDate (int y) (int (month0 c)) (int (day c)) = c"
    using newDate_in_month [of "month0 c" "day c" "year c"] m d y assms(2) by (cases c) simp
  finally show ?thesis .
qed

section \<open>Months\<close>

definition plain_year :: "int \<Rightarrow> bool" where
  "plain_year y \<longleftrightarrow> y < 0 \<or> 99 < y"

lemma full_year_plain [simp]: "plain_year y \<Longrightarrow> full_year y = y"
  by (auto simp: full_year_def plain_year_def)

lemma newDate_first: "newDate y m 1 = Civil (full_year y + m div 12) (nat (m mod 12)) 1"
  by (simp add: newDate_def plus_days_def)

lemma shiftMonth_eq:
  "shiftMonth ym d =
    \<lparr>ym_year = full_year (ym_year ym) + (int (ym_month0 ym) + d) div 12,
     ym_month0 = nat ((int (ym_month0 ym) + d) mod 12)\<rparr>"
  by (simp add: shiftMonth_def newDate_first Let_def)

lemma getDay_in_month: "getDay (Civil y m d) = (getDay (Civil y m 1) + int d - 1) mod 7"
proof -
  define A where "A = day_num (Civil y m 1) + 4"
  have d: "day_num (Civil y m d) + 4 = A + (int d - 1)"
    by (simp add: day_num_def A_def)
  have "getDay (Civil y m d) = (A + (int d - 1)) mod 7"
    unfolding getDay_def d ..
  also have "\<dots> = (A mod 7 + (int d - 1)) mod 7"
    by (rule mod_add_left_eq [symmetric])
  also have "A mod 7 + (int d - 1) = getDay (Civil y m 1) + int d - 1"
    unfolding getDay_def A_def by simp
  finally show ?thesis .
qed

lemma monthGrid_eq:
  assumes "ym_month0 ym < 12" "plain_year (ym_year ym)"
  shows "monthGrid ym =
    (let y = ym_year ym; m = ym_month0 ym in
     replicate (nat (getDay (Civil y m 1))) None
     @ map (\<lambda>d. Some (Civil y m d)) [1..<month_days y m + 1])"
proof -
  let ?y = "ym_year ym" and ?m = "ym_month0 ym"
  have f: "newDate ?y (int ?m) 1 = Civil ?y ?m 1"
    using assms month_days_range(1) [of ?y ?m] newDate_in_month [of ?m 1 ?y] by simp
  have l: "day (newDate ?y (int ?m + 1) 0) = month_days ?y ?m"
    using newDate_last [OF assms(1), of ?y] assms(2) by simp
  have "map (\<lambda>d. Some (newDate ?y (int ?m) (int d))) [1..<month_days ?y ?m + 1] =
      map (\<lambda>d. Some (Civil ?y ?m d)) [1..<month_days ?y ?m + 1]"
    using assms newDate_in_month [of ?m _ ?y] by (intro map_cong) auto
  with f l show ?thesis by (simp add: monthGrid_def Let_def)
qed

lemma getDay_range: "0 \<le> getDay c" "getDay c < 7"
  by (simp_all add: getDay_def)

lemma monthGrid_weekday:
  assumes "ym_month0 ym < 12" "plain_year (ym_year ym)" "i < length (monthGrid ym)"
    "monthGrid ym ! i = Some c"
  shows "getDay c = int (i mod 7)"
proof -
  let ?y = "ym_year ym" and ?m = "ym_month0 ym"
  let ?l = "nat (getDay (Civil ?y ?m 1))"
  note g = monthGrid_eq [OF assms(1,2), unfolded Let_def]
  have i: "?l \<le> i"
    using assms(4) unfolding g by (cases "i < ?l") (simp_all add: nth_append)
  moreover have lt: "i - ?l < month_days ?y ?m"
  proof -
    have "length (monthGrid ym) = ?l + month_days ?y ?m" unfolding g by (simp del: upt_Suc)
    with assms(3) i show ?thesis by linarith
  qed
  ultimately have c: "c = Civil ?y ?m (i - ?l + 1)"
    using assms(4) unfolding g by (simp add: nth_append del: upt_Suc)
  have "getDay c = (int ?l + int (i - ?l)) mod 7"
    unfolding c using getDay_in_month [of ?y ?m "i - ?l + 1"] getDay_range(1) [of "Civil ?y ?m 1"] by simp
  also have "int ?l + int (i - ?l) = int i" using i by simp
  finally show ?thesis by (simp add: of_nat_mod)
qed

section \<open>formatDate.ts\<close>

text \<open>
  \<open>parse\<close> gives the milliseconds of a timestamp, \<open>None\<close> where the \<open>Date\<close> is invalid; \<open>sod\<close>
  is \<open>setHours(0, 0, 0, 0)\<close>, the local start of the day; the other functions are the
  \<open>toLocale...\<close> calls.
\<close>

definition parsed :: "(jsstr \<Rightarrow> int option) \<Rightarrow> jsstr option \<Rightarrow> int option" where
  "parsed parse stamp = (case stamp of None \<Rightarrow> None | Some s \<Rightarrow> if s = [] then None else parse s)"

definition relativeTime ::
  "(jsstr \<Rightarrow> int option) \<Rightarrow> (int \<Rightarrow> jsstr) \<Rightarrow> int \<Rightarrow> jsstr option \<Rightarrow> jsstr" where
  "relativeTime parse shortDate now stamp =
     (case parsed parse stamp of
        None \<Rightarrow> []
      | Some t \<Rightarrow>
          (let diffMin = math_round (of_int (now - t) / 60000) in
           if diffMin < 1 then (heb ''rkyie'')
           else if diffMin < 60 then (heb ''ltpi '') @ year_str diffMin @ (heb '' cw'' @ [1523])
           else let diffHr = math_round (of_int diffMin / 60) in
             if diffHr < 24 then (heb ''ltpi '') @ year_str diffHr @ (heb '' yr'' @ [1523])
             else let diffDay = math_round (of_int diffHr / 24) in
               if diffDay \<le> 7 then (heb ''ltpi '') @ year_str diffDay @ (heb '' inim'')
               else shortDate t))"

definition chatListTime ::
  "(jsstr \<Rightarrow> int option) \<Rightarrow> (int \<Rightarrow> int) \<Rightarrow> (int \<Rightarrow> jsstr) \<Rightarrow> (int \<Rightarrow> jsstr) \<Rightarrow> (int \<Rightarrow> jsstr)
   \<Rightarrow> int \<Rightarrow> jsstr option \<Rightarrow> jsstr" where
  "chatListTime parse sod clock weekday numeric now stamp =
     (case parsed parse stamp of
        None \<Rightarrow> []
      | Some t \<Rightarrow>
          (let dayDiff = (sod now - sod t) div 86400000 in
           if dayDiff \<le> 0 then clock t
           else if dayDiff = 1 then (heb ''@znel'')
           else if dayDiff < 7 then weekday t
           else numeric t))"

definition fullDateTime :: "(jsstr \<Rightarrow> int option) \<Rightarrow> (int \<Rightarrow> jsstr) \<Rightarrow> jsstr option \<Rightarrow> jsstr" where
  "fullDateTime parse full stamp = (case parsed parse stamp of None \<Rightarrow> [] | Some t \<Rightarrow> full t)"

lemma math_round_ge: "of_int k \<le> r \<Longrightarrow> k \<le> math_round r"
  by (simp add: math_round_def le_floor_iff)

text \<open>The counts shown are never zero and never reach the next unit.\<close>

lemma relativeTime_units:
  assumes "60 \<le> (m :: int)"
  shows "1 \<le> math_round (of_int m / 60)"
  using assms by (intro math_round_ge) simp

lemma relativeTime_days:
  assumes "24 \<le> (h :: int)"
  shows "1 \<le> math_round (of_int h / 24)"
  using assms by (intro math_round_ge) simp

section \<open>Properties\<close>

text \<open>
  Property C40. A picked day survives the trip through its string: for every real calendar day
  of the years 1000 to 9999 reading the printed string back gives that very day, so distinct
  days have distinct strings.
\<close>

theorem date_string_roundtrip:
  assumes "valid_civil c" "iso_year (year c)"
  shows "fromDateString (toDateString c) = Some c"
  using assms by (rule from_to_date)

theorem date_string_roundtrip_witness:
  "fromDateString (toDateString (Civil 2024 1 29)) = Some (Civil 2024 1 29)"
  by (rule date_string_roundtrip) (simp_all add: valid_civil_def month_days_def leap_def iso_year_def)

text \<open>
  The month grid is the month: it begins with the empty cells that put the first
  day under its weekday, lists every day of the month once and in order, puts each under the
  column of its weekday (Sunday first), and needs at most 37 cells.
\<close>

theorem monthGrid_correct:
  assumes "ym_month0 ym < 12" "plain_year (ym_year ym)"
  shows "let y = ym_year ym; m = ym_month0 ym; g = monthGrid ym in
    [c. Some c \<leftarrow> g] = map (Civil y m) [1..<month_days y m + 1]
    \<and> (\<forall>i < length g. case g ! i of None \<Rightarrow> i < 7 | Some c \<Rightarrow> valid_civil c \<and> getDay c = int (i mod 7))
    \<and> length g \<le> 37
    \<and> monthStart ym = toDateString (Civil y m 1) \<and> monthEnd ym = toDateString (Civil y m (month_days y m))"
proof -
  let ?y = "ym_year ym" and ?m = "ym_month0 ym"
  let ?l = "nat (getDay (Civil ?y ?m 1))"
  note g = monthGrid_eq [OF assms, unfolded Let_def]
  have l: "?l \<le> 6" using getDay_range [of "Civil ?y ?m 1"] by linarith
  have somes: "[c. Some c \<leftarrow> replicate k None @ map (\<lambda>d. Some (f d)) ds] = map f ds" for k f ds
  proof -
    have "[c. Some c \<leftarrow> replicate k None] = []" by (induction k) simp_all
    moreover have "[c. Some c \<leftarrow> map (\<lambda>d. Some (f d)) ds] = map f ds" by (induction ds) simp_all
    ultimately show ?thesis by simp
  qed
  have days: "[c. Some c \<leftarrow> monthGrid ym] = map (Civil ?y ?m) [1..<month_days ?y ?m + 1]"
    unfolding g by (rule somes)
  have cells: "case monthGrid ym ! i of None \<Rightarrow> i < 7 | Some c \<Rightarrow> valid_civil c \<and> getDay c = int (i mod 7)"
    if i: "i < length (monthGrid ym)" for i
  proof (cases "monthGrid ym ! i")
    case None
    then have "i < ?l"
      using i unfolding g by (cases "i < ?l") (simp_all add: nth_append del: upt_Suc)
    with None l show ?thesis by simp
  next
    case (Some c)
    then have "c \<in> set [c. Some c \<leftarrow> monthGrid ym]"
      using i by (force simp: in_set_conv_nth)
    then have "valid_civil c" unfolding days using assms(1) by (auto simp: valid_civil_def)
    with Some monthGrid_weekday [OF assms i Some] show ?thesis by simp
  qed
  have "length (monthGrid ym) \<le> 37"
    unfolding g using l month_days_range(2) [of ?y ?m] by simp
  moreover have "monthStart ym = toDateString (Civil ?y ?m 1)"
    using assms by (simp add: monthStart_def newDate_first)
  moreover have "monthEnd ym = toDateString (Civil ?y ?m (month_days ?y ?m))"
    using newDate_last [OF assms(1), of ?y] assms(2) by (simp add: monthEnd_def)
  ultimately show ?thesis using days cells unfolding Let_def by blast
qed

theorem monthGrid_correct_witness:
  "length (monthGrid \<lparr>ym_year = 2026, ym_month0 = 1\<rparr>) \<le> 37 \<and>
   monthEnd \<lparr>ym_year = 2026, ym_month0 = 1\<rparr> = toDateString (Civil 2026 1 28)"
  using monthGrid_correct [of "\<lparr>ym_year = 2026, ym_month0 = 1\<rparr>"]
  by (simp add: Let_def plain_year_def month_days_def leap_def)

text \<open>
  Month navigation is exact: outside the years 0 to 99 a step lands on a real
  month and two steps add up, so going forward and back returns to the same month.
\<close>

theorem shiftMonth_adds:
  assumes "plain_year (ym_year ym)" "plain_year (ym_year (shiftMonth ym a))" "ym_month0 ym < 12"
  shows "shiftMonth (shiftMonth ym a) b = shiftMonth ym (a + b)
    \<and> ym_month0 (shiftMonth ym a) < 12 \<and> shiftMonth (shiftMonth ym a) (- a) = ym"
proof -
  have add: "shiftMonth (shiftMonth ym a) b = shiftMonth ym (a + b)" for b
  proof -
    let ?s = "int (ym_month0 ym) + a"
    have p: "full_year (ym_year ym + ?s div 12) = ym_year ym + ?s div 12"
      using assms(1,2) by (simp add: shiftMonth_eq)
    have n: "int (nat (?s mod 12)) = ?s mod 12" by simp
    have e: "?s mod 12 + b = (?s + b) + (- (?s div 12)) * 12"
      using div_mult_mod_eq [of ?s 12] by linarith
    have d1: "(?s mod 12 + b) div 12 = (?s + b) div 12 - ?s div 12"
      unfolding e using div_mult_self1 [of 12 "?s + b" "- (?s div 12)"] by simp
    have d2: "(?s mod 12 + b) mod 12 = (?s + b) mod 12"
      by (rule mod_add_left_eq)
    have "shiftMonth (shiftMonth ym a) b =
        \<lparr>ym_year = full_year (ym_year ym + ?s div 12) + (int (nat (?s mod 12)) + b) div 12,
         ym_month0 = nat ((int (nat (?s mod 12)) + b) mod 12)\<rparr>"
      by (simp only: shiftMonth_eq year_month.simps full_year_plain [OF assms(1)])
    also have "\<dots> = \<lparr>ym_year = ym_year ym + (?s + b) div 12, ym_month0 = nat ((?s + b) mod 12)\<rparr>"
      unfolding p n d1 d2 by simp
    also have "\<dots> = shiftMonth ym (a + b)"
      by (simp only: shiftMonth_eq full_year_plain [OF assms(1)] add.assoc)
    finally show ?thesis .
  qed
  have "shiftMonth ym 0 = ym"
    using assms(1,3) by (simp add: shiftMonth_eq)
  moreover have "ym_month0 (shiftMonth ym a) < 12"
    by (simp add: shiftMonth_eq nat_less_iff)
  ultimately show ?thesis using add [of b] add [of "- a"] by simp
qed

theorem shiftMonth_adds_witness:
  "shiftMonth (shiftMonth \<lparr>ym_year = 2026, ym_month0 = 11\<rparr> 1) (- 1) = \<lparr>ym_year = 2026, ym_month0 = 11\<rparr>"
  using shiftMonth_adds [of "\<lparr>ym_year = 2026, ym_month0 = 11\<rparr>" 1 0]
  by (simp add: plain_year_def shiftMonth_eq full_year_def)

text \<open>
  The inbox stamp is right where every day has 24 hours: with local midnights
  \<open>k\<close> days apart it shows the clock for today, "yesterday" for one day, the weekday up to six
  days, then the date. It is wrong on the day after the clocks went forward: midnight to
  midnight is then 23 hours, and a message of yesterday shows the clock as if it were today's.
\<close>

theorem chatListTime_calendar:
  assumes "stamp \<noteq> []" "parse stamp = Some t"
  shows "(sod now - sod t = 86400000 * k \<longrightarrow>
      chatListTime parse sod clock weekday numeric now (Some stamp) =
        (if k \<le> 0 then clock t else if k = 1 then (heb ''@znel'')
         else if k \<le> 6 then weekday t else numeric t))
    \<and> (sod now - sod t = 23 * 3600000 \<longrightarrow>
      chatListTime parse sod clock weekday numeric now (Some stamp) = clock t)"
  using assms by (auto simp: chatListTime_def parsed_def Let_def)

theorem chatListTime_calendar_witness:
  "chatListTime (\<lambda>_. Some 5) (\<lambda>t. if t = 5 then 0 else 82800000) (\<lambda>_. [49]) (\<lambda>_. []) (\<lambda>_. []) 90000000
     (Some [50]) = [49]"
  using chatListTime_calendar [of "[50]" "\<lambda>_. Some 5" 5 "\<lambda>t. if t = 5 then 0 else 82800000" 90000000 0]
  by simp

end
