(* ===== verification/BookingViews.thy ===== *)
theory BookingViews
  imports React Dates DashTypes
begin

text \<open>
  The parts of the public booking flow that only draw what they are given
  (\<open>components/booking/AvailabilityCalendar.tsx\<close>, \<open>SlotGrid.tsx\<close>,
  \<open>public/ServiceCard.tsx\<close>), and the checks on the customer's phone number and address.

  What the browser supplies while drawing, its clock and its Hebrew date formats, is the
  record \<open>browser\<close>.
\<close>

record browser =
  br_now :: civil
  br_month_year :: "civil \<Rightarrow> jsstr"
  br_weekday_date :: "civil \<Rightarrow> jsstr"
  br_date_time :: "jsstr option \<Rightarrow> jsstr"
  br_origin :: jsstr

section \<open>AvailabilityCalendar.tsx\<close>

definition WEEKDAYS :: "jsstr list" where
  "WEEKDAYS = [(heb ''@''), (heb ''a''), (heb ''b''), (heb ''c''), (heb ''d''), (heb ''e''), (heb ''y'')]"

datatype calendar_event = C_month year_month | C_day jsstr

definition day_cell :: "browser \<Rightarrow> jsstr list \<Rightarrow> jsstr \<Rightarrow> civil option \<Rightarrow> calendar_event vnode" where
  "day_cell br availableDates value oc =
     (case oc of
        None \<Rightarrow> El ''span'' [Attr ''aria-hidden'' (lat ''true'')] []
      | Some cell \<Rightarrow>
          (let isostr = toDateString cell;
               isToday = sameDay cell (todayMidnight (br_now br));
               isPast = cell < todayMidnight (br_now br);
               isAvailable = isostr \<in> set availableDates;
               selected = (isostr = value)
           in El ''button''
                ([Attr ''role'' (lat ''radio''), Attr ''aria-checked'' (if selected then (lat ''true'') else (lat ''false'')),
                  Attr ''aria-label'' (br_weekday_date br cell @
                    (if isAvailable then (heb '' '' @ [8212] @ heb '' iy nercim tpeiim'') else (heb '' '' @ [8212] @ heb '' @io nercim tpeiim''))),
                  Disabled (isPast \<or> \<not> isAvailable), on_click (C_day isostr)]
                 @ (if isToday \<and> \<not> selected then [Attr ''ring'' (lat ''today'')] else []))
                ([Txt (nat_str (day cell))]
                 @ shown (isAvailable \<and> \<not> selected) [El ''span'' [Attr ''aria-hidden'' (lat ''true'')] []])))"

definition month_nav :: "year_month \<Rightarrow> bool \<Rightarrow> int \<Rightarrow> jsstr \<Rightarrow> calendar_event vnode" where
  "month_nav month loading delta label =
     El ''button'' [on_click (C_month (shiftMonth month delta)), Disabled loading, Attr ''aria-label'' label] []"

definition calendar_view ::
    "browser \<Rightarrow> year_month \<Rightarrow> jsstr list \<Rightarrow> jsstr \<Rightarrow> bool \<Rightarrow> calendar_event vnode" where
  "calendar_view br month availableDates value loading =
     El ''div'' []
       ([El ''div'' []
           [month_nav month loading (- 1) (heb ''gecy wecm''),
            El ''span'' [Attr ''aria-live'' (lat ''polite'')] [Txt (monthLabel (br_month_year br) month)],
            month_nav month loading 1 (heb ''gecy da@'')],
         El ''div'' [Attr ''aria-hidden'' (lat ''true'')] (map (\<lambda>d. El ''span'' [] [Txt d]) WEEKDAYS),
         El ''div'' [Attr ''role'' (lat ''radiogroup''), Attr ''aria-label'' (heb ''agixz z@xij'')]
           (map (day_cell br availableDates value) (monthGrid month))]
        @ shown (\<not> loading \<and> availableDates = []) [El ''p'' [] [Txt (heb ''@io nercim tpeiim agecy fd'')]])"

section \<open>SlotGrid.tsx\<close>

definition slot_grid :: "jsstr list \<Rightarrow> jsstr \<Rightarrow> jsstr vnode" where
  "slot_grid slots value =
     (if slots = [] then El ''p'' [] [Txt (heb ''@io yrez tpeiez aiem ypagx. pqe z@xij @gx.'')]
      else El ''div'' [Attr ''role'' (lat ''radiogroup''), Attr ''aria-label'' (heb ''agixz yrd'')]
        (map (\<lambda>slot. El ''button''
            [Attr ''role'' (lat ''radio''), Attr ''aria-checked'' (if slot = value then (lat ''true'') else (lat ''false'')),
             on_click slot]
            [Txt slot]) slots))"

section \<open>ServiceCard.tsx\<close>

definition int_str :: "int \<Rightarrow> jsstr" where
  "int_str n = (if n < 0 then 45 # nat_str (nat (- n)) else nat_str (nat n))"

definition priceLabel :: "int option \<Rightarrow> jsstr" where
  "priceLabel price = (case price of None \<Rightarrow> (heb ''ll@ rlez'') | Some p \<Rightarrow> ([8362]) @ int_str p)"

definition service_card ::
    "jsstr \<Rightarrow> jsstr option \<Rightarrow> int \<Rightarrow> int option \<Rightarrow> bool \<Rightarrow> 'e \<Rightarrow> bool \<Rightarrow> 'e vnode" where
  "service_card name description durationMinutes price selected onSelect interactive =
     El ''button''
       [Attr ''role'' (lat ''radio''), Attr ''aria-checked'' (if selected then (lat ''true'') else (lat ''false'')),
        Disabled (\<not> interactive), on_click onSelect]
       [El ''span'' []
          ([El ''span'' [] [Txt name], El ''span'' [] [Txt (int_str durationMinutes @ (heb '' cwez''))]]
           @ (case description of None \<Rightarrow> [] | Some d \<Rightarrow> shown (d \<noteq> []) [El ''span'' [] [Txt d]])),
        El ''span'' [] [Txt (priceLabel price)]]"

section \<open>The customer's phone number and address\<close>

text \<open>\<open>/^\+?\d{9,15}$/\<close> on the text without white space and hyphens.\<close>

definition isValidPhone :: "jsstr \<Rightarrow> bool" where
  "isValidPhone phone =
     (let digits = filter (\<lambda>c. \<not> is_space c \<and> c \<noteq> 45) phone;
          body = (if digits \<noteq> [] \<and> hd digits = 43 then tl digits else digits)
      in list_all is_digit body \<and> 9 \<le> length body \<and> length body \<le> 15)"

text \<open>
  \<open>/^[^@\s]+@[^@\s]+\.[^@\s]+$/\<close>: the classes exclude the at sign, so the first one splits
  the text, and some dot of the rest has a character on both sides.
\<close>

definition isValidEmail :: "jsstr \<Rightarrow> bool" where
  "isValidEmail email =
     (let plain = (\<lambda>c. c \<noteq> 64 \<and> \<not> is_space c);
          user = takeWhile (\<lambda>c. c \<noteq> 64) email;
          rest = dropWhile (\<lambda>c. c \<noteq> 64) email
      in user \<noteq> [] \<and> list_all plain user \<and> rest \<noteq> [] \<and> list_all plain (tl rest)
         \<and> list_ex (\<lambda>i. tl rest ! i = 46) [1..<length (tl rest) - 1])"

section \<open>Lemmas\<close>

lemma isValidEmail_iff:
  "isValidEmail email \<longleftrightarrow>
     (\<exists>u d t. email = u @ [64] @ d @ [46] @ t \<and> u \<noteq> [] \<and> d \<noteq> [] \<and> t \<noteq> []
        \<and> (\<forall>c \<in> set u \<union> set d \<union> set t. c \<noteq> 64 \<and> \<not> is_space c))"
  (is "?l = ?r")
proof
  assume ?l
  define user where "user = takeWhile (\<lambda>c. c \<noteq> 64) email"
  define rest where "rest = dropWhile (\<lambda>c. c \<noteq> 64) email"
  from \<open>?l\<close> have l: "user \<noteq> []" "list_all (\<lambda>c. c \<noteq> 64 \<and> \<not> is_space c) user" "rest \<noteq> []"
      "list_all (\<lambda>c. c \<noteq> 64 \<and> \<not> is_space c) (tl rest)"
      "list_ex (\<lambda>i. tl rest ! i = 46) [1..<length (tl rest) - 1]"
    unfolding isValidEmail_def Let_def user_def [symmetric] rest_def [symmetric] by blast+
  then have u: "user \<noteq> []" "\<forall>c \<in> set user. c \<noteq> 64 \<and> \<not> is_space c"
    and r: "rest \<noteq> []" "\<forall>c \<in> set (tl rest). c \<noteq> 64 \<and> \<not> is_space c"
    by (simp_all only: list_all_iff not_False_eq_True)
  from l(5) obtain i where i: "1 \<le> i" "i < length (tl rest) - 1" "tl rest ! i = 46"
    unfolding list_ex_iff set_upt by auto
  have h: "hd rest = 64" using r(1) hd_dropWhile [of "\<lambda>c. c \<noteq> 64" email] by (simp add: rest_def)
  define d where "d = take i (tl rest)"
  define t where "t = drop (Suc i) (tl rest)"
  have len: "i < length (tl rest)" using i(2) by linarith
  have s: "tl rest = d @ [46] @ t" using id_take_nth_drop [OF len] i(3) by (simp add: d_def t_def)
  have ne: "d \<noteq> []" "t \<noteq> []"
    using i len by (auto simp: d_def t_def simp flip: length_greater_0_conv)
  have "email = user @ hd rest # tl rest" using r(1) by (simp add: user_def rest_def)
  then have "email = user @ [64] @ d @ [46] @ t" unfolding h s by simp
  moreover have "\<forall>c \<in> set user \<union> set d \<union> set t. c \<noteq> 64 \<and> \<not> is_space c"
    using u(2) r(2) unfolding s by auto
  ultimately have "email = user @ [64] @ d @ [46] @ t \<and> user \<noteq> [] \<and> d \<noteq> [] \<and> t \<noteq> []
      \<and> (\<forall>c \<in> set user \<union> set d \<union> set t. c \<noteq> 64 \<and> \<not> is_space c)"
    using u(1) ne by blast
  then show ?r by blast
next
  assume ?r
  then obtain u d t where e: "email = u @ [64] @ d @ [46] @ t" and ne: "u \<noteq> []" "d \<noteq> []" "t \<noteq> []"
    and p: "\<forall>c \<in> set u \<union> set d \<union> set t. c \<noteq> 64 \<and> \<not> is_space c" by blast
  have tw: "takeWhile (\<lambda>c. c \<noteq> 64) email = u" "dropWhile (\<lambda>c. c \<noteq> 64) email = 64 # d @ [46] @ t"
    using p unfolding e by (auto simp: takeWhile_append dropWhile_append)
  have "list_ex (\<lambda>i. (d @ [46] @ t) ! i = 46) [1..<length (d @ [46] @ t) - 1]"
    unfolding list_ex_iff using ne
    by (intro bexI [of _ "length d"]) (auto simp: nth_append Suc_le_eq)
  moreover have "list_all (\<lambda>c. c \<noteq> 64 \<and> \<not> is_space c) (d @ [46] @ t)"
    using p by (auto simp: list_all_iff is_space_def)
  ultimately show ?l
    using ne p unfolding isValidEmail_def Let_def tw by (simp add: list_all_iff)
qed

lemma fires_day_cell:
  "fires (day_cell br avail v oc) e \<longleftrightarrow>
     (\<exists>c. oc = Some c \<and> e = C_day (toDateString c) \<and> todayMidnight (br_now br) \<le> c \<and> toDateString c \<in> set avail)"
  by (auto simp: day_cell_def Let_def split: option.split)

lemma fires_slot_grid [simp]: "fires (slot_grid slots v) s \<longleftrightarrow> s \<in> set slots"
  by (auto simp: slot_grid_def fires_any_map)

lemma fires_service_card [simp]: "fires (service_card n d m p sel ev i) e \<longleftrightarrow> i \<and> e = ev"
  by (auto simp: service_card_def split: option.split)

lemma todayMidnight_valid [simp]: "valid_civil (todayMidnight now)"
  using newDate_valid by (simp add: todayMidnight_def)

section \<open>Properties\<close>

text \<open>
  The calendar sells exactly what is for sale: the days that can be picked are
  the days of the visible month that the server listed as available and that are not in the
  past, each reported as its own date string, and the month can be changed only by one step
  and only while nothing is loading.
\<close>

theorem calendar_offers_available_days:
  "fires (calendar_view br month avail v loading) e \<longleftrightarrow>
     (case e of
        C_day d \<Rightarrow> d \<in> set avail \<and>
          (\<exists>c. Some c \<in> set (monthGrid month) \<and> d = toDateString c \<and> todayMidnight (br_now br) \<le> c)
      | C_month m \<Rightarrow> \<not> loading \<and> (m = shiftMonth month (- 1) \<or> m = shiftMonth month 1))"
  by (cases e) (auto simp: calendar_view_def month_nav_def fires_any_map fires_day_cell)

end
