(* ===== verification/BookingFlow.thy ===== *)
theory BookingFlow
  imports BookingViews Clients
begin

text \<open>
  The public booking flow (\<open>components/booking/BookingFlow.tsx\<close>): its state, its two loading
  effects, the submission and the view.

  \<open>fp_slug\<close> is \<open>Some\<close> in live mode and \<open>None\<close> in preview; the mode of a mounted flow does not
  change. The \<open>Set\<close> of available days is the list of its members. An effect whose
  dependencies changed runs after the commit (\<open>flow_commit\<close>); a request that cannot be built
  because the slug has a lone surrogate throws: inside the effects this is \<open>None\<close>, inside
  \<open>submit\<close> it is caught. \<open>then\<close> and \<open>finally\<close> of one promise settle together. The browser's own
  form validation (\<open>required\<close>, \<open>type=email\<close>) is left out: it only refuses more submissions.
\<close>

section \<open>State\<close>

record flow_props =
  fp_slug :: "jsstr option"
  fp_services :: "public_service list"
  fp_welcome :: "jsstr option"

record booking_flow =
  bf_serviceId :: jsstr
  bf_date :: jsstr
  bf_time :: jsstr
  bf_month :: year_month
  bf_availableDates :: "jsstr list"
  bf_availLoading :: bool
  bf_availError :: "jsstr option"
  bf_slots :: "jsstr list option"
  bf_slotsLoading :: bool
  bf_slotsError :: "jsstr option"
  bf_name :: jsstr
  bf_phone :: jsstr
  bf_email :: jsstr
  bf_notes :: jsstr
  bf_formError :: "jsstr option"
  bf_submitting :: bool
  bf_submitError :: "jsstr option"
  bf_result :: "public_booking_response option"
  bf_prevServicesKey :: jsstr
  bf_availLoader :: loader
  bf_slotsLoader :: loader

definition isLive :: "flow_props \<Rightarrow> bool" where
  "isLive p \<longleftrightarrow> fp_slug p \<noteq> None"

definition selectedService :: "flow_props \<Rightarrow> booking_flow \<Rightarrow> public_service option" where
  "selectedService p s = find (\<lambda>x. ps_id x = bf_serviceId s) (fp_services p)"

fun join_comma :: "jsstr list \<Rightarrow> jsstr" where
  "join_comma [] = []"
| "join_comma [x] = x"
| "join_comma (x # y # ys) = x @ [44] @ join_comma (y # ys)"

definition servicesKey :: "flow_props \<Rightarrow> jsstr" where
  "servicesKey p = join_comma (map ps_id (fp_services p))"

text \<open>The first render in the month of \<open>now\<close>; the effects of the mount find nothing chosen.\<close>

definition flow_init :: "civil \<Rightarrow> flow_props \<Rightarrow> booking_flow" where
  "flow_init now p =
     \<lparr>bf_serviceId = [], bf_date = [], bf_time = [], bf_month = monthOf now,
      bf_availableDates = [], bf_availLoading = False, bf_availError = None,
      bf_slots = None, bf_slotsLoading = False, bf_slotsError = None,
      bf_name = [], bf_phone = [], bf_email = [], bf_notes = [], bf_formError = None,
      bf_submitting = False, bf_submitError = None, bf_result = None,
      bf_prevServicesKey = servicesKey p, bf_availLoader = new_loader, bf_slotsLoader = new_loader\<rparr>"

section \<open>Effects\<close>

definition services_effect :: "flow_props \<Rightarrow> booking_flow \<Rightarrow> booking_flow" where
  "services_effect p s =
     (if bf_prevServicesKey s \<noteq> servicesKey p then
        (let s1 = s\<lparr>bf_prevServicesKey := servicesKey p\<rparr> in
         if bf_serviceId s \<noteq> [] \<and> bf_serviceId s \<notin> ps_id ` set (fp_services p)
         then s1\<lparr>bf_serviceId := [], bf_date := [], bf_time := []\<rparr> else s1)
      else s)"

definition avail_wanted :: "flow_props \<Rightarrow> booking_flow \<Rightarrow> bool" where
  "avail_wanted p s \<longleftrightarrow> isLive p \<and> bf_serviceId s \<noteq> []"

definition avail_effect :: "flow_props \<Rightarrow> booking_flow \<Rightarrow> booking_flow" where
  "avail_effect p s =
     (if \<not> avail_wanted p s
      then s\<lparr>bf_availableDates := [], bf_availLoader := run_cleanup (bf_availLoader s)\<rparr>
      else s\<lparr>bf_availLoading := True, bf_availError := None,
             bf_availLoader := rerun_effect (bf_availLoader s)\<rparr>)"

definition avail_request :: "flow_props \<Rightarrow> booking_flow \<Rightarrow> http_request option" where
  "avail_request p s =
     Option.bind (fp_slug p) (\<lambda>slug.
       getPublicAvailability slug (bf_serviceId s) (monthStart (bf_month s)) (monthEnd (bf_month s)))"

text \<open>The response of the availability load \<open>t\<close>.\<close>

definition avail_settled :: "nat \<Rightarrow> (js_thrown + jsstr list) \<Rightarrow> booking_flow \<Rightarrow> booking_flow" where
  "avail_settled t r s =
     (if live t (bf_availLoader s) then
        (case r of
           Inr dates \<Rightarrow> s\<lparr>bf_availableDates := dates, bf_availLoading := False\<rparr>
         | Inl err \<Rightarrow> s\<lparr>bf_availableDates := [],
             bf_availError := Some (toFriendlyError err (heb ''hripz dfnipez pkyld. pqe yea.'')),
             bf_availLoading := False\<rparr>)
      else s)"

text \<open>
  \<open>loadSlots\<close> for a service and a date, as a closure has them: the effect keeps its cancel
  function (\<open>rerun_effect\<close>), the conflict handler below drops it (\<open>begin_load\<close>).
\<close>

definition slots_wanted :: "flow_props \<Rightarrow> jsstr \<Rightarrow> jsstr \<Rightarrow> bool" where
  "slots_wanted p sid d \<longleftrightarrow> isLive p \<and> sid \<noteq> [] \<and> d \<noteq> []"

definition loadSlots :: "(loader \<Rightarrow> loader) \<Rightarrow> flow_props \<Rightarrow> jsstr \<Rightarrow> jsstr \<Rightarrow> booking_flow \<Rightarrow> booking_flow" where
  "loadSlots start p sid d s =
     (if \<not> slots_wanted p sid d then s\<lparr>bf_slots := None\<rparr>
      else s\<lparr>bf_slotsLoading := True, bf_slotsError := None, bf_time := [],
             bf_slotsLoader := start (bf_slotsLoader s)\<rparr>)"

definition slots_request :: "flow_props \<Rightarrow> jsstr \<Rightarrow> jsstr \<Rightarrow> http_request option" where
  "slots_request p sid d = Option.bind (fp_slug p) (\<lambda>slug. getPublicSlots slug sid d)"

definition slots_effect :: "flow_props \<Rightarrow> booking_flow \<Rightarrow> booking_flow" where
  "slots_effect p s =
     (if slots_wanted p (bf_serviceId s) (bf_date s)
      then loadSlots rerun_effect p (bf_serviceId s) (bf_date s) s
      else (loadSlots id p (bf_serviceId s) (bf_date s) s)\<lparr>bf_slotsLoader := run_cleanup (bf_slotsLoader s)\<rparr>)"

definition slots_settled :: "nat \<Rightarrow> (js_thrown + jsstr list) \<Rightarrow> booking_flow \<Rightarrow> booking_flow" where
  "slots_settled t r s =
     (if live t (bf_slotsLoader s) then
        (case r of
           Inr slots \<Rightarrow> s\<lparr>bf_slots := Some slots, bf_slotsLoading := False\<rparr>
         | Inl err \<Rightarrow> s\<lparr>bf_slots := Some [],
             bf_slotsError := Some (toFriendlyError err (heb ''hripz dyrez dtpeiez pkyld. pqe yea.'')),
             bf_slotsLoading := False\<rparr>)
      else s)"

text \<open>
  A commit from \<open>s\<close> to \<open>s'\<close>: the effects whose dependencies changed, with the requests they
  send, or \<open>None\<close> when building one throws.
\<close>

definition flow_commit ::
    "flow_props \<Rightarrow> booking_flow \<Rightarrow> booking_flow \<Rightarrow> (booking_flow \<times> http_request list) option" where
  "flow_commit p s s' =
     (let s1 = services_effect p s';
          runA = (bf_serviceId s1 \<noteq> bf_serviceId s \<or> bf_month s1 \<noteq> bf_month s);
          runS = (bf_serviceId s1 \<noteq> bf_serviceId s \<or> bf_date s1 \<noteq> bf_date s);
          s2 = (if runA then avail_effect p s1 else s1);
          s3 = (if runS then slots_effect p s2 else s2);
          reqs = (if runA \<and> avail_wanted p s1 then [avail_request p s1] else [])
            @ (if runS \<and> slots_wanted p (bf_serviceId s1) (bf_date s1)
               then [slots_request p (bf_serviceId s1) (bf_date s1)] else [])
      in if None \<in> set reqs then None else Some (s3, map the reqs))"

section \<open>Handlers\<close>

definition pickService :: "jsstr \<Rightarrow> booking_flow \<Rightarrow> booking_flow" where
  "pickService sid s = s\<lparr>bf_serviceId := sid, bf_date := [], bf_time := [], bf_slots := None\<rparr>"

definition pickDate :: "jsstr \<Rightarrow> booking_flow \<Rightarrow> booking_flow" where
  "pickDate d s = s\<lparr>bf_date := d, bf_time := []\<rparr>"

definition validate :: "booking_flow \<Rightarrow> jsstr option" where
  "validate s =
     (if bf_serviceId s = [] then Some (heb ''agxe yixez.'')
      else if bf_date s = [] then Some (heb ''agxe z@xij.'')
      else if bf_time s = [] then Some (heb ''agxe yrd.'')
      else if length (trim (bf_name s)) < 2 then Some (heb ''dfipe ym nl@.'')
      else if \<not> isValidPhone (bf_phone s) then Some (heb ''dfipe nqtx hlteo zwio.'')
      else if trim (bf_email s) \<noteq> [] \<and> \<not> isValidEmail (trim (bf_email s)) then Some (heb ''dfipe kzeaz @iniil zwipd.'')
      else None)"

definition or_omitted :: "jsstr \<Rightarrow> jsstr field" where
  "or_omitted x = (if x = [] then Omitted else Sent x)"

definition booking_body :: "booking_flow \<Rightarrow> public_booking_create" where
  "booking_body s =
     \<lparr>pb_service_id = bf_serviceId s, pb_date = bf_date s, pb_time = bf_time s,
      pb_name = trim (bf_name s), pb_phone = trim (bf_phone s),
      pb_email = or_omitted (trim (bf_email s)), pb_notes = or_omitted (trim (bf_notes s))\<rparr>"

definition taken_msg :: jsstr where
  "taken_msg = (heb ''dnerc dfd pztq fd rzd. agxe yrd @gxz.'')"

text \<open>
  The submission's outcome, handled by the closure of the render that submitted (\<open>sid\<close> and
  \<open>d\<close> are its service and date): the new state and whether the slots are asked for again.
\<close>

definition submit_settled ::
    "flow_props \<Rightarrow> jsstr \<Rightarrow> jsstr \<Rightarrow> (js_thrown + public_booking_response) \<Rightarrow> booking_flow
     \<Rightarrow> booking_flow \<times> http_request option" where
  "submit_settled p sid d r s =
     (case r of
        Inr res \<Rightarrow> (s\<lparr>bf_result := Some res, bf_submitting := False\<rparr>, None)
      | Inl err \<Rightarrow>
          (let status = (case err of ThrownApi e \<Rightarrow> err_status e | ThrownOther _ \<Rightarrow> 0) in
           if status = 409 then
             ((loadSlots begin_load p sid d (s\<lparr>bf_submitError := Some taken_msg\<rparr>))\<lparr>bf_submitting := False\<rparr>,
              if slots_wanted p sid d then slots_request p sid d else None)
           else
             (s\<lparr>bf_submitError := Some
                  (if status = 429 then (heb ''iezx nci piqiepez. dnzipe nrh epqe yea.'')
                   else if status = 422 then (heb ''dtxhim @ipm zwipim. acwe epqe yea.'')
                   else toFriendlyError err (heb ''wairz dzex pkyld. pqe yea.'')),
                bf_submitting := False\<rparr>, None)))"

definition submit :: "flow_props \<Rightarrow> booking_flow \<Rightarrow> booking_flow \<times> http_request option" where
  "submit p s =
     (case fp_slug p of
        None \<Rightarrow> (s, None)
      | Some slug \<Rightarrow>
          (case validate s of
             Some err \<Rightarrow> (s\<lparr>bf_formError := Some err\<rparr>, None)
           | None \<Rightarrow>
               (let s1 = s\<lparr>bf_formError := None, bf_submitError := None, bf_submitting := True\<rparr> in
                case createPublicBooking slug (booking_body s) of
                  None \<Rightarrow> submit_settled p (bf_serviceId s) (bf_date s) (Inl (ThrownOther (lat ''URIError''))) s1
                | Some req \<Rightarrow> (s1, Some req))))"

datatype flow_event =
    F_service jsstr
  | F_month year_month
  | F_date jsstr
  | F_time jsstr
  | F_name jsstr
  | F_phone jsstr
  | F_email jsstr
  | F_notes jsstr
  | F_submit

fun on_flow :: "flow_props \<Rightarrow> flow_event \<Rightarrow> booking_flow \<Rightarrow> booking_flow \<times> http_request option" where
  "on_flow p (F_service sid) s = (pickService sid s, None)"
| "on_flow p (F_month m) s = (s\<lparr>bf_month := m\<rparr>, None)"
| "on_flow p (F_date d) s = (pickDate d s, None)"
| "on_flow p (F_time t) s = (s\<lparr>bf_time := t\<rparr>, None)"
| "on_flow p (F_name v) s = (s\<lparr>bf_name := v\<rparr>, None)"
| "on_flow p (F_phone v) s = (s\<lparr>bf_phone := v\<rparr>, None)"
| "on_flow p (F_email v) s = (s\<lparr>bf_email := v\<rparr>, None)"
| "on_flow p (F_notes v) s = (s\<lparr>bf_notes := v\<rparr>, None)"
| "on_flow p F_submit s = submit p s"

section \<open>View\<close>

definition DEFAULT_WELCOME :: jsstr where
  "DEFAULT_WELCOME =
     (heb ''yngim yagxzm lwaer zex! agxe @z dyixez, dz@xij edyrd dpegim lkm '' @ [8212] @ heb '' epivex @izkm wyx l@iyex.'')"

text \<open>The rail of numbered steps (decoration) and one numbered section.\<close>

definition step_trail :: "nat \<Rightarrow> flow_event vnode" where
  "step_trail current =
     (let steps = [(heb ''yixez''), (heb ''z@xij''), (heb ''yrd''), (heb ''txhim'')] in
      El ''div'' [Attr ''aria-hidden'' (lat ''true'')]
        (mapi (\<lambda>i label. El ''div'' []
            ([El ''div'' []
               [El ''span'' [Attr ''reached'' (if i + 1 \<le> current then lat ''true'' else lat ''false'')]
                  [Txt (nat_str (i + 1))],
                El ''span'' [] [Txt label]]]
             @ shown (i + 1 < length steps) [El ''span'' [] []])) steps))"

definition step_section :: "nat \<Rightarrow> bool \<Rightarrow> jsstr \<Rightarrow> flow_event vnode list \<Rightarrow> flow_event vnode" where
  "step_section step done title children =
     El ''section'' []
       (El ''h3'' []
          [El ''span'' [Attr ''aria-hidden'' (lat ''true'')] (if done then [] else [Txt (nat_str step)]),
           Txt title]
        # children)"

text \<open>A field of at most \<open>n\<close> characters: typing cannot make the value longer.\<close>

definition form_field ::
    "jsstr \<Rightarrow> jsstr \<Rightarrow> (jsstr \<Rightarrow> flow_event) \<Rightarrow> nat \<Rightarrow> bool \<Rightarrow> jsstr option \<Rightarrow> flow_event vnode" where
  "form_field label v f n disabled hint =
     El ''div'' []
       ([El ''label'' [] [Txt label],
         El ''input'' [Attr ''value'' v, Disabled disabled, On (\<lambda>e. \<exists>x. length x \<le> n \<and> e = f x)] []]
        @ (case hint of None \<Rightarrow> [] | Some h \<Rightarrow> [El ''p'' [] [Txt h]]))"

definition alert :: "jsstr option \<Rightarrow> flow_event vnode list" where
  "alert m = (case m of None \<Rightarrow> [] | Some x \<Rightarrow> shown (x \<noteq> []) [El ''div'' [Attr ''role'' (lat ''alert'')] [Txt x]])"

definition confirmation_view ::
    "browser \<Rightarrow> flow_props \<Rightarrow> jsstr \<Rightarrow> public_booking_response \<Rightarrow> booking_flow \<Rightarrow> flow_event vnode" where
  "confirmation_view br p slug res s =
     (let path = lat ''/book/'' @ slug @ lat ''/manage/'' @ pbr_cancel_token res in
      El ''div'' []
        [El ''h2'' [] [Txt (heb ''ddfnpd @eyxd'')],
         El ''p'' [] [Txt ((case selectedService p s of None \<Rightarrow> [] | Some x \<Rightarrow> ps_name x @ (lat '' '' @ [183] @ lat '' ''))
            @ br_date_time br (Some (pbr_scheduled_at res)))],
         El ''div'' []
           [El ''p'' [] [Txt (heb ''lpidel ddfnpd (aihel / yipei nerc):'')],
            El ''a'' [Attr ''href'' path] [Txt (heb ''pidel ddfnpd'')],
            El ''p'' [] [Txt (br_origin br @ path)]],
         El ''p'' [] [Txt (heb ''ynxe @z dwiyex '' @ [8212] @ heb '' zvhxke @eze lyipeiim.'')]])"

definition showSummary :: "booking_flow \<Rightarrow> bool" where
  "showSummary s \<longleftrightarrow> bf_serviceId s \<noteq> [] \<and> bf_date s \<noteq> [] \<and> bf_time s \<noteq> []"

definition flow_header :: "flow_props \<Rightarrow> flow_event vnode" where
  "flow_header p =
     El ''header'' []
       [El ''span'' [] [Txt (heb ''wairz zex'')],
        El ''h2'' [] [Txt (heb ''ae@e pwar zex'')],
        El ''p'' [] [Txt (case map_option trim (fp_welcome p) of
            None \<Rightarrow> DEFAULT_WELCOME | Some w \<Rightarrow> if w \<noteq> [] then w else DEFAULT_WELCOME)]]"

definition service_step :: "flow_props \<Rightarrow> booking_flow \<Rightarrow> flow_event vnode" where
  "service_step p s =
     step_section 1 (bf_serviceId s \<noteq> []) (heb ''agxe yixez'')
       (if fp_services p = [] then [El ''p'' [] [Txt (heb ''@io kxbr yixezim fnipim lwaird.'')]]
        else [El ''div'' [Attr ''role'' (lat ''radiogroup''), Attr ''aria-label'' (heb ''agixz yixez'')]
          (map (\<lambda>svc. service_card (ps_name svc) (ps_description svc) (ps_duration_minutes svc) (ps_price svc)
                 (ps_id svc = bf_serviceId s) (F_service (ps_id svc)) True) (fp_services p))])"

fun calendar_in_flow :: "calendar_event \<Rightarrow> flow_event" where
  "calendar_in_flow (C_month m) = F_month m"
| "calendar_in_flow (C_day d) = F_date d"

definition date_step :: "browser \<Rightarrow> flow_props \<Rightarrow> booking_flow \<Rightarrow> flow_event vnode" where
  "date_step br p s =
     step_section 2 (bf_date s \<noteq> []) (heb ''agxe z@xij'')
       (if \<not> isLive p then [El ''p'' [] [Txt (heb ''azvebd nwcind '' @ [8212] @ heb '' leg dz@xikim ievb llweg lti dfnipez ylkm.'')]]
        else case bf_availError s of
          Some m \<Rightarrow> [El ''div'' [Attr ''role'' (lat ''alert'')] [Txt m]]
        | None \<Rightarrow> [view_in calendar_in_flow
            (calendar_view br (bf_month s) (bf_availableDates s) (bf_date s) (bf_availLoading s))])"

definition time_step :: "booking_flow \<Rightarrow> flow_event vnode" where
  "time_step s =
     step_section 3 (bf_time s \<noteq> []) (heb ''agxe yrd'')
       (if bf_slotsLoading s then [El ''div'' [Attr ''role'' (lat ''status'')] [Txt (heb ''hero yrez tpeiez'' @ [8230])]]
        else case bf_slotsError s of
          Some m \<Rightarrow> [El ''div'' [Attr ''role'' (lat ''alert'')] [Txt m]]
        | None \<Rightarrow> [view_in F_time (slot_grid (case bf_slots s of None \<Rightarrow> [] | Some ss \<Rightarrow> ss) (bf_time s))])"

definition summary_rows :: "flow_props \<Rightarrow> booking_flow \<Rightarrow> (jsstr \<times> jsstr) list" where
  "summary_rows p s =
     (let svc = selectedService p s in
      [((heb ''yixez''), case svc of None \<Rightarrow> [] | Some x \<Rightarrow> ps_name x),
       ((heb ''nzi''), bf_date s @ (lat '' '' @ [183] @ lat '' '') @ bf_time s),
       ((heb ''nyj''), (case svc of None \<Rightarrow> [] | Some x \<Rightarrow> int_str (ps_duration_minutes x)) @ (heb '' cw'' @ [1523])),
       ((heb ''ngix''), priceLabel (Option.bind svc ps_price))])"

definition summary_step :: "flow_props \<Rightarrow> booking_flow \<Rightarrow> flow_event vnode" where
  "summary_step p s =
     step_section 4 False (heb ''qikem etxhim'')
       ([El ''dl'' [] (map (\<lambda>(label, value). El ''div'' [] [El ''dt'' [] [Txt label], El ''dd'' [] [Txt value]])
            (summary_rows p s)),
         El ''div'' []
           [form_field (heb ''ym nl@'') (bf_name s) F_name 120 (\<not> isLive p) None,
            form_field (heb ''hlteo'') (bf_phone s) F_phone 20 (\<not> isLive p) None,
            form_field (heb ''@iniil (l@ gead)'') (bf_email s) F_email 200 (\<not> isLive p)
              (Some (heb ''pylg lkm @iyex edfnpd lieno @m zfipe @iniil'')),
            form_field (heb ''drxez (l@ gead)'') (bf_notes s) F_notes 1000 (\<not> isLive p) None]]
        @ alert (bf_formError s) @ alert (bf_submitError s)
        @ [El ''button'' [Disabled (bf_submitting s \<or> \<not> isLive p), on_click F_submit]
            [Txt (if isLive p then (if bf_submitting s then (heb ''n@yx'' @ [8230]) else (heb ''@iyex dfnpd''))
                  else (heb ''@iyex dfnpd (zvebd nwcind)''))]])"

definition flow_view :: "browser \<Rightarrow> flow_props \<Rightarrow> booking_flow \<Rightarrow> flow_event vnode" where
  "flow_view br p s =
     (case (fp_slug p, bf_result s) of
        (Some slug, Some res) \<Rightarrow> confirmation_view br p slug res s
      | _ \<Rightarrow> El ''div'' []
          [flow_header p,
           step_trail (if showSummary s then 4 else if bf_serviceId s \<noteq> [] then (if bf_date s \<noteq> [] then 3 else 2) else 1),
           El ''form'' []
             ([service_step p s]
              @ shown (bf_serviceId s \<noteq> []) [date_step br p s]
              @ shown (bf_serviceId s \<noteq> [] \<and> bf_date s \<noteq> []) [time_step s]
              @ shown (showSummary s) [summary_step p s])])"

section \<open>What the view offers\<close>

lemma fires_step_section [simp]: "fires (step_section n d t vs) e = fires_any vs e"
  by (simp add: step_section_def)

lemma fires_step_trail [simp]: "\<not> fires (step_trail n) e"
  by (simp add: step_trail_def Let_def fires_any_mapi)

lemma fires_form_field [simp]:
  "fires (form_field l v f n d h) e \<longleftrightarrow> \<not> d \<and> (\<exists>x. length x \<le> n \<and> e = f x)"
  by (auto simp: form_field_def split: option.split)

lemma fires_any_alert [simp]: "\<not> fires_any (alert m) e"
  by (simp add: alert_def split: option.split)

lemma fires_header [simp]: "\<not> fires (flow_header p) e"
  by (simp add: flow_header_def)

lemma fires_service_step [simp]:
  "fires (service_step p s) e \<longleftrightarrow> (\<exists>x \<in> set (fp_services p). e = F_service (ps_id x))"
  by (simp add: service_step_def fires_any_map)

lemma fires_date_step:
  "fires (date_step br p s) e \<longleftrightarrow> isLive p \<and> bf_availError s = None \<and>
     (\<exists>x. e = calendar_in_flow x \<and>
        fires (calendar_view br (bf_month s) (bf_availableDates s) (bf_date s) (bf_availLoading s)) x)"
  by (auto simp: date_step_def fires_view_in split: option.split)

lemma fires_time_step:
  "fires (time_step s) e \<longleftrightarrow> \<not> bf_slotsLoading s \<and> bf_slotsError s = None \<and>
     (\<exists>ss t. bf_slots s = Some ss \<and> t \<in> set ss \<and> e = F_time t)"
  by (cases "bf_slots s"; cases "bf_slotsError s") (auto simp: time_step_def fires_view_in)

lemma fires_summary_step:
  "fires (summary_step p s) e \<longleftrightarrow> isLive p \<and>
     ((\<exists>v. length v \<le> 120 \<and> e = F_name v) \<or> (\<exists>v. length v \<le> 20 \<and> e = F_phone v)
      \<or> (\<exists>v. length v \<le> 200 \<and> e = F_email v) \<or> (\<exists>v. length v \<le> 1000 \<and> e = F_notes v)
      \<or> e = F_submit \<and> \<not> bf_submitting s)"
  by (auto simp: summary_step_def fires_any_map)

lemma fires_flow_view:
  "fires (flow_view br p s) e \<longleftrightarrow>
     \<not> (isLive p \<and> bf_result s \<noteq> None) \<and>
     ((\<exists>x \<in> set (fp_services p). e = F_service (ps_id x))
      \<or> bf_serviceId s \<noteq> [] \<and> fires (date_step br p s) e
      \<or> bf_serviceId s \<noteq> [] \<and> bf_date s \<noteq> [] \<and> fires (time_step s) e
      \<or> showSummary s \<and> fires (summary_step p s) e)"
  by (auto simp: flow_view_def confirmation_view_def Let_def isLive_def split: option.splits)

end
