(* ===== verification/BookingRuns.thy ===== *)
theory BookingRuns
  imports BookingFlow
begin

text \<open>
  Runs of the public booking flow: what the customer can do on what is rendered, interleaved
  with the settling of the loads and of the submission, and what holds on every run.

  \<open>pend\<close> are the submissions in flight with the service and date of their closures, \<open>sent\<close> is
  every request sent so far with the properties the flow was given then. The clock may change
  at every step. The ids of the services are the server's UUIDs: not empty, without a comma.
\<close>

section \<open>Loads\<close>

interpretation avail: guarded_settle bf_availLoader avail_settled
  by unfold_locales (auto simp: avail_settled_def split: sum.split)

interpretation slots: guarded_settle bf_slotsLoader slots_settled
  by unfold_locales (auto simp: slots_settled_def split: sum.split)

section \<open>Runs\<close>

definition ids_plain :: "flow_props \<Rightarrow> bool" where
  "ids_plain p \<longleftrightarrow> (\<forall>x \<in> set (fp_services p). ps_id x \<noteq> [] \<and> 44 \<notin> set (ps_id x))"

inductive flow_run ::
    "flow_props \<Rightarrow> booking_flow \<Rightarrow> (jsstr \<times> jsstr) list \<Rightarrow> (flow_props \<times> http_request) list \<Rightarrow> bool" where
  fr_start: "ids_plain p \<Longrightarrow> flow_run p (flow_init now p) [] []"
| fr_ui: "flow_run p s pend sent \<Longrightarrow> fires (flow_view br p s) e \<Longrightarrow> on_flow p e s = (s1, rq) \<Longrightarrow>
     flow_commit p s s1 = Some (s2, rqs) \<Longrightarrow>
     flow_run p s2 (map (\<lambda>_. (bf_serviceId s, bf_date s)) (opt_list rq) @ pend)
       (sent @ map (Pair p) (opt_list rq @ rqs))"
| fr_props: "flow_run p s pend sent \<Longrightarrow> fp_slug p' = fp_slug p \<Longrightarrow> ids_plain p' \<Longrightarrow>
     flow_commit p' s s = Some (s', rqs) \<Longrightarrow> flow_run p' s' pend (sent @ map (Pair p') rqs)"
| fr_avail: "flow_run p s pend sent \<Longrightarrow> flow_run p (avail_settled t r s) pend sent"
| fr_slots: "flow_run p s pend sent \<Longrightarrow> flow_run p (slots_settled t r s) pend sent"
| fr_submitted: "flow_run p s pend sent \<Longrightarrow> (sid, d) \<in> set pend \<Longrightarrow>
     submit_settled p sid d r s = (s', rq) \<Longrightarrow>
     flow_run p s' (remove1 (sid, d) pend) (sent @ map (Pair p) (opt_list rq))"

text \<open>What a posted booking must be.\<close>

definition booking_ok :: "flow_props \<Rightarrow> public_booking_create \<Rightarrow> bool" where
  "booking_ok p b \<longleftrightarrow>
     pb_service_id b \<in> ps_id ` set (fp_services p)
     \<and> (\<exists>c. valid_civil c \<and> pb_date b = toDateString c) \<and> pb_time b \<noteq> []
     \<and> 2 \<le> length (pb_name b) \<and> length (pb_name b) \<le> 120 \<and> trim (pb_name b) = pb_name b
     \<and> isValidPhone (pb_phone b) \<and> length (pb_phone b) \<le> 20
     \<and> (case pb_email b of Omitted \<Rightarrow> True | Sent e \<Rightarrow> isValidEmail e \<and> length e \<le> 200)
     \<and> (case pb_notes b of Omitted \<Rightarrow> True | Sent n \<Rightarrow> n \<noteq> [] \<and> length n \<le> 1000)"

definition flow_inv :: "flow_props \<Rightarrow> booking_flow \<Rightarrow> (jsstr \<times> jsstr) list \<Rightarrow> bool" where
  "flow_inv p s pend \<longleftrightarrow>
     bf_prevServicesKey s = servicesKey p
     \<and> (bf_serviceId s \<noteq> [] \<longrightarrow> bf_serviceId s \<in> ps_id ` set (fp_services p))
     \<and> (bf_date s \<noteq> [] \<longrightarrow> bf_serviceId s \<noteq> [] \<and> isLive p \<and> (\<exists>c. valid_civil c \<and> bf_date s = toDateString c))
     \<and> (bf_time s \<noteq> [] \<longrightarrow> bf_date s \<noteq> [])
     \<and> length (bf_name s) \<le> 120 \<and> length (bf_phone s) \<le> 20 \<and> length (bf_email s) \<le> 200
     \<and> length (bf_notes s) \<le> 1000
     \<and> (if bf_submitting s then length pend = 1 \<and> isLive p else pend = [])"

definition log_ok :: "jsstr option \<Rightarrow> (flow_props \<times> http_request) list \<Rightarrow> bool" where
  "log_ok sl sent \<longleftrightarrow>
     (\<forall>(q, rq) \<in> set sent. \<exists>slug. sl = Some slug \<and> fp_slug q = Some slug \<and>
        (req_method rq = GET \<or>
         req_method rq = POST \<and> (\<exists>b. createPublicBooking slug b = Some rq \<and> booking_ok q b)))"

section \<open>Preservation\<close>

lemma filter_trim: "(\<And>c. is_space c \<Longrightarrow> \<not> P c) \<Longrightarrow> filter P (trim s) = filter P s"
proof -
  assume sp: "\<And>c. is_space c \<Longrightarrow> \<not> P c"
  have d: "filter P (dropWhile is_space xs) = filter P xs" for xs
    using sp by (induction xs) auto
  have "filter P (rev (dropWhile is_space (rev (dropWhile is_space s)))) = filter P s"
    by (simp only: rev_filter [symmetric] d rev_rev_ident)
  then show ?thesis by (simp add: trim_def)
qed

lemma isValidPhone_trim: "isValidPhone (trim s) = isValidPhone s"
  by (simp add: isValidPhone_def filter_trim)

lemma toDateString_nonempty [simp]: "toDateString c \<noteq> []"
  by (simp add: toDateString_def)

lemma grid_valid: "Some c \<in> set (monthGrid m) \<Longrightarrow> valid_civil c"
  using newDate_valid by (auto simp: monthGrid_def Let_def)

lemma join_comma_split:
  assumes "44 \<notin> set a" "44 \<notin> set b" "join_comma (a # as) = join_comma (b # bs)"
  shows "a = b \<and> (as = [] \<longleftrightarrow> bs = []) \<and> join_comma as = join_comma bs"
proof -
  have tw: "takeWhile (\<lambda>c. c \<noteq> 44) (join_comma (x # xs)) = x" if "44 \<notin> set x" for x :: jsstr and xs
    using that by (cases xs) (auto simp: takeWhile_append takeWhile_eq_all_conv)
  from tw [OF assms(1), of as] tw [OF assms(2), of bs] assms(3) have ab: "a = b" by simp
  with assms(3) show ?thesis by (cases as; cases bs) auto
qed

lemma join_comma_inj:
  "\<forall>x \<in> set xs \<union> set ys. x \<noteq> [] \<and> 44 \<notin> set x \<Longrightarrow> join_comma xs = join_comma ys \<Longrightarrow> xs = ys"
proof (induction xs arbitrary: ys)
  case Nil
  then show ?case by (cases ys rule: join_comma.cases) auto
next
  case (Cons a as)
  show ?case
  proof (cases ys)
    case Nil
    with Cons.prems show ?thesis by (cases as) auto
  next
    case (Cons b bs)
    with Cons.prems have "a = b \<and> (as = [] \<longleftrightarrow> bs = []) \<and> join_comma as = join_comma bs"
      by (intro join_comma_split) auto
    with Cons.IH [of bs] Cons Cons.prems(1) show ?thesis by auto
  qed
qed

lemma servicesKey_ids:
  assumes "ids_plain p" "ids_plain p'" "servicesKey p = servicesKey p'"
  shows "ps_id ` set (fp_services p) = ps_id ` set (fp_services p')"
proof -
  have "map ps_id (fp_services p) = map ps_id (fp_services p')"
    using assms by (intro join_comma_inj) (auto simp: ids_plain_def servicesKey_def)
  then show ?thesis by (metis list.set_map)
qed

lemma loadSlots_fields [simp]:
  "bf_serviceId (loadSlots f p a d s) = bf_serviceId s" "bf_date (loadSlots f p a d s) = bf_date s"
  "bf_name (loadSlots f p a d s) = bf_name s" "bf_phone (loadSlots f p a d s) = bf_phone s"
  "bf_email (loadSlots f p a d s) = bf_email s" "bf_notes (loadSlots f p a d s) = bf_notes s"
  "bf_prevServicesKey (loadSlots f p a d s) = bf_prevServicesKey s"
  "bf_submitting (loadSlots f p a d s) = bf_submitting s"
  "bf_result (loadSlots f p a d s) = bf_result s"
  "bf_submitError (loadSlots f p a d s) = bf_submitError s"
  "bf_time (loadSlots f p a d s) = (if slots_wanted p a d then [] else bf_time s)"
  by (simp_all add: loadSlots_def)

lemma avail_effect_fields [simp]:
  "bf_serviceId (avail_effect p s) = bf_serviceId s" "bf_date (avail_effect p s) = bf_date s"
  "bf_name (avail_effect p s) = bf_name s" "bf_phone (avail_effect p s) = bf_phone s"
  "bf_email (avail_effect p s) = bf_email s" "bf_notes (avail_effect p s) = bf_notes s"
  "bf_prevServicesKey (avail_effect p s) = bf_prevServicesKey s"
  "bf_submitting (avail_effect p s) = bf_submitting s" "bf_time (avail_effect p s) = bf_time s"
  "bf_result (avail_effect p s) = bf_result s" "bf_submitError (avail_effect p s) = bf_submitError s"
  "bf_slotsLoader (avail_effect p s) = bf_slotsLoader s"
  by (simp_all add: avail_effect_def)

lemma slots_effect_fields [simp]:
  "bf_serviceId (slots_effect p s) = bf_serviceId s" "bf_date (slots_effect p s) = bf_date s"
  "bf_name (slots_effect p s) = bf_name s" "bf_phone (slots_effect p s) = bf_phone s"
  "bf_email (slots_effect p s) = bf_email s" "bf_notes (slots_effect p s) = bf_notes s"
  "bf_prevServicesKey (slots_effect p s) = bf_prevServicesKey s"
  "bf_submitting (slots_effect p s) = bf_submitting s"
  "bf_result (slots_effect p s) = bf_result s"
  "bf_submitError (slots_effect p s) = bf_submitError s"
  "bf_time (slots_effect p s) = (if slots_wanted p (bf_serviceId s) (bf_date s) then [] else bf_time s)"
  by (simp_all add: slots_effect_def)

lemma flow_commit_state:
  assumes "flow_commit p s s1 = Some (s2, rqs)"
  shows "\<exists>a b. s2 = (if b then slots_effect p else id) ((if a then avail_effect p else id) (services_effect p s1))"
proof (intro exI)
  let ?t = "services_effect p s1"
  show "s2 = (if bf_serviceId ?t \<noteq> bf_serviceId s \<or> bf_date ?t \<noteq> bf_date s then slots_effect p else id)
      ((if bf_serviceId ?t \<noteq> bf_serviceId s \<or> bf_month ?t \<noteq> bf_month s then avail_effect p else id) ?t)"
    using assms unfolding flow_commit_def Let_def by (simp split: if_splits)
qed

lemma services_effect_inv:
  assumes "flow_inv q s pend" "fp_slug p = fp_slug q" "ids_plain p" "ids_plain q"
  shows "flow_inv p (services_effect p s) pend"
proof (cases "servicesKey p = servicesKey q")
  case True
  with assms servicesKey_ids [OF assms(3,4) True] show ?thesis
    by (simp add: flow_inv_def services_effect_def isLive_def split: if_splits)
next
  case False
  with assms show ?thesis
    by (auto simp: flow_inv_def services_effect_def isLive_def Let_def)
qed

lemma flow_inv_effects:
  assumes "flow_inv p s pend"
  shows "flow_inv p (avail_effect p s) pend" "flow_inv p (slots_effect p s) pend"
  using assms by (auto simp: flow_inv_def)

lemma flow_commit_inv:
  assumes "flow_commit p s s1 = Some (s2, rqs)" "flow_inv q s1 pend"
    "fp_slug p = fp_slug q" "ids_plain p" "ids_plain q"
  shows "flow_inv p s2 pend"
proof -
  note i = services_effect_inv [OF assms(2,3,4,5)]
  from flow_commit_state [OF assms(1)] i show ?thesis
    by (auto simp: flow_inv_effects)
qed

lemma GET_requests:
  "getPublicSlots slug a d = Some rq \<Longrightarrow> req_method rq = GET"
  "getPublicAvailability slug a x y = Some rq \<Longrightarrow> req_method rq = GET"
  by (auto simp: getPublicSlots_def getPublicAvailability_def api_get_def request_def)

lemma slots_request_GET: "slots_request p a d = Some rq \<Longrightarrow> isLive p \<and> req_method rq = GET"
  by (auto simp: slots_request_def isLive_def GET_requests split: bind_splits)

lemma avail_request_GET: "avail_request p s = Some rq \<Longrightarrow> isLive p \<and> req_method rq = GET"
  by (auto simp: avail_request_def isLive_def GET_requests split: bind_splits)

lemma flow_commit_GET:
  assumes "flow_commit p s s1 = Some (s2, rqs)" "rq \<in> set rqs"
  shows "isLive p \<and> req_method rq = GET"
proof -
  define u where "u = services_effect p s1"
  define reqs where "reqs =
      (if (bf_serviceId u \<noteq> bf_serviceId s \<or> bf_month u \<noteq> bf_month s) \<and> avail_wanted p u then [avail_request p u] else [])
      @ (if (bf_serviceId u \<noteq> bf_serviceId s \<or> bf_date u \<noteq> bf_date s) \<and> slots_wanted p (bf_serviceId u) (bf_date u)
         then [slots_request p (bf_serviceId u) (bf_date u)] else [])"
  have n: "None \<notin> set reqs" and r: "rqs = map the reqs"
    using assms(1) unfolding flow_commit_def Let_def u_def [symmetric] reqs_def [symmetric]
    by (simp_all split: if_splits)
  from assms(2) r obtain x where x: "x \<in> set reqs" "rq = the x" by auto
  with n have "Some rq \<in> set reqs" by (cases x) auto
  then have "Some rq = avail_request p u \<or> Some rq = slots_request p (bf_serviceId u) (bf_date u)"
    by (auto simp: reqs_def split: if_splits)
  then show ?thesis by (metis avail_request_GET slots_request_GET)
qed

lemma validate_None:
  "validate s = None \<longleftrightarrow>
     bf_serviceId s \<noteq> [] \<and> bf_date s \<noteq> [] \<and> bf_time s \<noteq> [] \<and> 2 \<le> length (trim (bf_name s))
     \<and> isValidPhone (bf_phone s) \<and> (trim (bf_email s) = [] \<or> isValidEmail (trim (bf_email s)))"
  by (auto simp: validate_def)

lemma length_trim_bound: "length x \<le> n \<Longrightarrow> length (trim x) \<le> n"
  using length_trim_le [of x] by linarith

lemma booking_body_ok:
  assumes "flow_inv p s pend" "validate s = None"
  shows "booking_ok p (booking_body s)"
proof -
  from assms(1) have l: "length (trim (bf_name s)) \<le> 120" "length (trim (bf_phone s)) \<le> 20"
      "length (trim (bf_email s)) \<le> 200" "length (trim (bf_notes s)) \<le> 1000"
    by (simp_all add: flow_inv_def length_trim_bound)
  note v = assms(2) [unfolded validate_None]
  from assms(1) v have "bf_serviceId s \<in> ps_id ` set (fp_services p)"
      "\<exists>c. valid_civil c \<and> bf_date s = toDateString c"
    by (simp_all only: flow_inv_def simp_thms)
  with l v show ?thesis
    by (auto simp: booking_ok_def booking_body_def isValidPhone_trim or_omitted_def)
qed

lemma submit_settled_fields:
  assumes "submit_settled p sid d r s = (s', rq)"
  shows "bf_serviceId s' = bf_serviceId s" "bf_date s' = bf_date s" "bf_name s' = bf_name s"
    "bf_phone s' = bf_phone s" "bf_email s' = bf_email s" "bf_notes s' = bf_notes s"
    "bf_prevServicesKey s' = bf_prevServicesKey s" "\<not> bf_submitting s'"
    "bf_time s' = bf_time s \<or> bf_time s' = []"
  using assms unfolding submit_settled_def Let_def by (auto split: sum.splits if_splits)

lemma submit_settled_inv:
  assumes "flow_inv p s pend" "x \<in> set pend" "submit_settled p sid d r s = (s', rq)"
  shows "flow_inv p s' (remove1 x pend)"
proof -
  from assms(1,2) have "pend = [x]"
    by (cases pend) (auto simp: flow_inv_def split: if_splits)
  with assms(1) submit_settled_fields [OF assms(3)] show ?thesis
    unfolding flow_inv_def by (elim disjE) simp_all
qed

lemma submit_settled_GET: "submit_settled p sid d r s = (s', Some rq) \<Longrightarrow> isLive p \<and> req_method rq = GET"
  by (auto simp: submit_settled_def Let_def dest: slots_request_GET split: sum.splits if_splits)

lemma POST_request: "createPublicBooking slug b = Some rq \<Longrightarrow> req_method rq = POST"
  by (auto simp: createPublicBooking_def api_post_def request_def)

lemma offered_flow:
  assumes "fires (flow_view br p s) e"
  shows "case e of
      F_service sid \<Rightarrow> sid \<in> ps_id ` set (fp_services p)
    | F_month m \<Rightarrow> isLive p \<and> bf_serviceId s \<noteq> []
    | F_date d \<Rightarrow> isLive p \<and> bf_serviceId s \<noteq> [] \<and> d \<in> set (bf_availableDates s) \<and> (\<exists>c. valid_civil c \<and> d = toDateString c)
    | F_time t \<Rightarrow> bf_serviceId s \<noteq> [] \<and> bf_date s \<noteq> [] \<and> (\<exists>ss. bf_slots s = Some ss \<and> t \<in> set ss)
    | F_name v \<Rightarrow> length v \<le> 120
    | F_phone v \<Rightarrow> length v \<le> 20
    | F_email v \<Rightarrow> length v \<le> 200
    | F_notes v \<Rightarrow> length v \<le> 1000
    | F_submit \<Rightarrow> isLive p \<and> \<not> bf_submitting s"
proof -
  have cal: "calendar_in_flow x = F_date d \<longleftrightarrow> x = C_day d" "calendar_in_flow x = F_month m \<longleftrightarrow> x = C_month m"
    for x d m by (cases x; simp)+
  have day: "fires (calendar_view br (bf_month s) av v l) (C_day d) \<Longrightarrow>
      d \<in> set av \<and> (\<exists>c. valid_civil c \<and> d = toDateString c)" for av v l d
    using grid_valid by (auto simp: calendar_view_def month_nav_def fires_any_map fires_day_cell)
  have not_cal: "calendar_in_flow x \<noteq> e" if "\<And>m. e \<noteq> F_month m" "\<And>d. e \<noteq> F_date d" for x e
    using that by (cases x) auto
  show ?thesis
    using assms unfolding fires_flow_view fires_date_step fires_time_step fires_summary_step
    by (cases e) (auto simp: eq_commute [of "F_date _" "calendar_in_flow _"]
        eq_commute [of "F_month _" "calendar_in_flow _"] cal dest: day
        dest!: not_cal [THEN notE, OF _ _ sym, rotated 2])
qed

definition posts_ok :: "flow_props \<Rightarrow> http_request list \<Rightarrow> bool" where
  "posts_ok p rs \<longleftrightarrow>
     (\<forall>r \<in> set rs. \<exists>slug b. fp_slug p = Some slug \<and> createPublicBooking slug b = Some r \<and> booking_ok p b)"

lemma submit_inv:
  assumes "flow_inv p s pend" "isLive p" "\<not> bf_submitting s" "submit p s = (s1, rq)"
  shows "flow_inv p s1 (map (\<lambda>_. (bf_serviceId s, bf_date s)) (opt_list rq) @ pend) \<and> posts_ok p (opt_list rq)"
proof -
  obtain slug where slug: "fp_slug p = Some slug" using assms(2) by (auto simp: isLive_def)
  have pend: "pend = []" using assms(1,3) by (simp add: flow_inv_def)
  show ?thesis
  proof (cases "validate s")
    case (Some m)
    with assms(1,4) slug have "flow_inv p s1 pend" "rq = None"
      by (auto simp: submit_def flow_inv_def)
    then show ?thesis by (simp add: opt_list_def posts_ok_def)
  next
    case None
    note ok = booking_body_ok [OF assms(1) None]
    define t where "t = s\<lparr>bf_formError := None, bf_submitError := None, bf_submitting := True\<rparr>"
    have t: "flow_inv p t [(bf_serviceId s, bf_date s)]"
      using assms(1,2) unfolding flow_inv_def t_def by simp
    show ?thesis
    proof (cases "createPublicBooking slug (booking_body s)")
      case n: None
      then have e: "submit_settled p (bf_serviceId s) (bf_date s) (Inl (ThrownOther (lat ''URIError''))) t = (s1, rq)"
        using assms(4) slug None by (simp add: submit_def t_def Let_def)
      from submit_settled_inv [OF t _ e, of "(bf_serviceId s, bf_date s)"] have "flow_inv p s1 []" by simp
      moreover have "rq = None" using e by (auto simp: submit_settled_def Let_def)
      ultimately show ?thesis by (simp add: opt_list_def posts_ok_def pend)
    next
      case (Some r)
      then have e: "s1 = t" "rq = Some r"
        using assms(4) slug None by (simp_all add: submit_def t_def Let_def)
      with t Some slug ok show ?thesis by (auto simp: opt_list_def posts_ok_def pend)
    qed
  qed
qed

lemma ui_inv:
  assumes "flow_inv p s pend" "fires (flow_view br p s) e" "on_flow p e s = (s1, rq)"
  shows "flow_inv p s1 (map (\<lambda>_. (bf_serviceId s, bf_date s)) (opt_list rq) @ pend) \<and> posts_ok p (opt_list rq)"
proof (cases e)
  case F_submit
  with offered_flow [OF assms(2)] assms(1,3) show ?thesis by (intro submit_inv) simp_all
next
  case (F_service sid)
  with offered_flow [OF assms(2)] assms(1,3) show ?thesis
    by (auto simp: opt_list_def posts_ok_def flow_inv_def pickService_def)
next
  case (F_date d)
  with offered_flow [OF assms(2)] assms(1,3) show ?thesis
    by (auto simp: opt_list_def posts_ok_def flow_inv_def pickDate_def)
next
  case (F_time t)
  with offered_flow [OF assms(2)] assms(1,3) show ?thesis
    by (auto simp: opt_list_def posts_ok_def flow_inv_def)
qed (use offered_flow [OF assms(2)] assms(1,3) in \<open>clarsimp simp: opt_list_def posts_ok_def flow_inv_def\<close>)+

lemma settled_inv:
  "flow_inv p s pend \<Longrightarrow> flow_inv p (avail_settled t r s) pend"
  "flow_inv p s pend \<Longrightarrow> flow_inv p (slots_settled t r' s) pend"
  by (simp_all add: flow_inv_def avail_settled_def slots_settled_def split: sum.split)

lemma log_ok_append:
  assumes "log_ok (fp_slug p) sent" "posts_ok p rs" "\<forall>r \<in> set gs. isLive p \<and> req_method r = GET"
  shows "log_ok (fp_slug p) (sent @ map (Pair p) (rs @ gs))"
proof -
  have "\<exists>slug. fp_slug p = Some slug \<and> (req_method r = GET \<or>
      req_method r = POST \<and> (\<exists>b. createPublicBooking slug b = Some r \<and> booking_ok p b))" if "r \<in> set rs \<union> set gs" for r
  proof (cases "r \<in> set rs")
    case True
    with assms(2) show ?thesis using POST_request unfolding posts_ok_def by blast
  next
    case False
    with that assms(3) show ?thesis unfolding isLive_def by auto
  qed
  with assms(1) show ?thesis unfolding log_ok_def by auto
qed

lemma flow_run_inv:
  "flow_run p s pend sent \<Longrightarrow> ids_plain p \<and> flow_inv p s pend \<and> log_ok (fp_slug p) sent"
proof (induction rule: flow_run.induct)
  case (fr_start p now)
  then show ?case by (simp add: flow_inv_def log_ok_def flow_init_def)
next
  case (fr_ui p s pend sent br e s1 rq s2 rqs)
  then have i: "ids_plain p" "flow_inv p s pend" "log_ok (fp_slug p) sent" by simp_all
  note u = ui_inv [OF i(2) fr_ui(2,3)]
  have "flow_inv p s2 (map (\<lambda>_. (bf_serviceId s, bf_date s)) (opt_list rq) @ pend)"
    using flow_commit_inv [OF fr_ui(4)] u i(1) by blast
  moreover have "log_ok (fp_slug p) (sent @ map (Pair p) (opt_list rq @ rqs))"
    using log_ok_append [OF i(3)] u flow_commit_GET [OF fr_ui(4)] by blast
  ultimately show ?case using i(1) by simp
next
  case (fr_props p s pend sent p' s' rqs)
  then have i: "ids_plain p" "flow_inv p s pend" "log_ok (fp_slug p') sent" by simp_all
  have "flow_inv p' s' pend" using flow_commit_inv [OF fr_props(4) i(2) fr_props(2,3) i(1)] .
  moreover have "log_ok (fp_slug p') (sent @ map (Pair p') ([] @ rqs))"
    by (rule log_ok_append [OF i(3)]) (use flow_commit_GET [OF fr_props(4)] in \<open>auto simp: posts_ok_def\<close>)
  ultimately show ?case using fr_props(3) by simp
next
  case (fr_avail p s pend sent t r)
  then show ?case by (simp add: settled_inv)
next
  case (fr_slots p s pend sent t r)
  then show ?case by (simp add: settled_inv)
next
  case (fr_submitted p s pend sent sid d r s' rq)
  then have i: "ids_plain p" "flow_inv p s pend" "log_ok (fp_slug p) sent" by simp_all
  have "\<forall>r \<in> set (opt_list rq). isLive p \<and> req_method r = GET"
    using submit_settled_GET fr_submitted(3) by (auto simp: opt_list_def split: option.splits)
  with log_ok_append [OF i(3), of "[]" "opt_list rq"]
  have "log_ok (fp_slug p) (sent @ map (Pair p) (opt_list rq))" by (simp add: posts_ok_def)
  with i(1) submit_settled_inv [OF i(2) fr_submitted(2,3)] show ?case by simp
qed

text \<open>The state after a commit; it is reached whenever the slug can be encoded.\<close>

definition commit_state :: "flow_props \<Rightarrow> booking_flow \<Rightarrow> booking_flow \<Rightarrow> booking_flow" where
  "commit_state p s s' =
     (let s1 = services_effect p s';
          s2 = (if bf_serviceId s1 \<noteq> bf_serviceId s \<or> bf_month s1 \<noteq> bf_month s then avail_effect p s1 else s1)
      in if bf_serviceId s1 \<noteq> bf_serviceId s \<or> bf_date s1 \<noteq> bf_date s then slots_effect p s2 else s2)"

lemma flow_commit_Some: "flow_commit p s s1 = Some (s2, rqs) \<Longrightarrow> s2 = commit_state p s s1"
  unfolding flow_commit_def commit_state_def Let_def by (simp split: if_splits)

definition slug_ok :: "flow_props \<Rightarrow> bool" where
  "slug_ok p \<longleftrightarrow> (\<forall>slug. fp_slug p = Some slug \<longrightarrow> encodeURIComponent slug \<noteq> None)"

lemma flow_commit_total:
  assumes "slug_ok p"
  shows "\<exists>rqs. flow_commit p s s1 = Some (commit_state p s s1, rqs)"
proof -
  have a: "avail_wanted p u \<Longrightarrow> avail_request p u \<noteq> None" for u
    using assms by (auto simp: avail_wanted_def isLive_def avail_request_def slug_ok_def
        getPublicAvailability_def slugPath_def with_component_def)
  have b: "slots_wanted p sid d \<Longrightarrow> slots_request p sid d \<noteq> None" for sid d
    using assms by (auto simp: slots_wanted_def isLive_def slots_request_def slug_ok_def
        getPublicSlots_def slugPath_def with_component_def)
  show ?thesis
    unfolding flow_commit_def commit_state_def Let_def
    using a [of "services_effect p s1"]
      b [of "bf_serviceId (services_effect p s1)" "bf_date (services_effect p s1)"]
    by (auto simp: eq_commute [of None])
qed

lemma fr_step:
  assumes "flow_run p s pend sent" "slug_ok p" "fires (flow_view br p s) e" "on_flow p e s = (s1, rq)"
    "commit_state p s s1 = s2"
  shows "\<exists>sent'. flow_run p s2 (map (\<lambda>_. (bf_serviceId s, bf_date s)) (opt_list rq) @ pend) sent'
    \<and> set (map (Pair p) (opt_list rq)) \<subseteq> set sent'"
proof -
  obtain rqs where "flow_commit p s s1 = Some (s2, rqs)" using flow_commit_total [OF assms(2)] assms(5) by blast
  from fr_ui [OF assms(1,3,4) this] show ?thesis by (intro exI conjI) auto
qed

lemma loaders_services_effect [simp]:
  "bf_slotsLoader (services_effect p s) = bf_slotsLoader s"
  "bf_availLoader (services_effect p s) = bf_availLoader s"
  by (simp_all add: services_effect_def Let_def)

lemma loaders_slots_effect:
  "bf_availLoader (slots_effect p s) = bf_availLoader s"
  "bf_slotsLoader (slots_effect p s) = run_cleanup (bf_slotsLoader s)
   \<or> bf_slotsLoader (slots_effect p s) = rerun_effect (bf_slotsLoader s)"
  by (simp_all add: slots_effect_def loadSlots_def)

lemma loaders_avail_effect:
  "bf_availLoader (avail_effect p s) = run_cleanup (bf_availLoader s)
   \<or> bf_availLoader (avail_effect p s) = rerun_effect (bf_availLoader s)"
  by (simp add: avail_effect_def)

end
