(* ===== verification/BookingLaws.thy ===== *)
theory BookingLaws
  imports BookingRuns ClientLaws
begin

text \<open>
  What the public booking flow guarantees on every run, and where it does not do what it
  means to: after a slot conflict, after switching the service, and on the confirmation.
\<close>

section \<open>A concrete customer\<close>

text \<open>One service, one free day in January 2026, one free hour.\<close>

definition demo_props :: flow_props where
  "demo_props = \<lparr>fp_slug = Some (lat ''a''), fp_services = [\<lparr>ps_id = [115], ps_name = [67],
     ps_duration_minutes = 30, ps_description = None, ps_price = None\<rparr>], fp_welcome = None\<rparr>"

definition demo_day :: jsstr where "demo_day = toDateString (Civil 2026 0 5)"

definition demo_service :: booking_flow where
  "demo_service = (let s = flow_init (Civil 2026 0 1) demo_props in commit_state demo_props s (pickService [115] s))"

definition demo_date :: booking_flow where
  "demo_date = (let s = avail_settled 0 (Inr [demo_day]) demo_service in commit_state demo_props s (pickDate demo_day s))"

definition demo_time :: booking_flow where
  "demo_time = (slots_settled 0 (Inr [[57]]) demo_date)\<lparr>bf_time := [57]\<rparr>"

lemma demo_slug: "slug_ok demo_props"
  using well_formed_lat by (simp add: slug_ok_def demo_props_def encodeURIComponent_def well_formed_def)

lemma demo_live [simp]: "isLive demo_props" by (simp add: isLive_def demo_props_def)

lemma demo_day_ne [simp]: "demo_day \<noteq> []" by (simp add: demo_day_def)

lemma demo_service: "bf_serviceId demo_service = [115]" "bf_month demo_service = \<lparr>ym_year = 2026, ym_month0 = 0\<rparr>"
  "bf_date demo_service = []" "bf_availLoader demo_service = rerun_effect new_loader"
  "bf_availError demo_service = None" "bf_slotsLoader demo_service = new_loader" "bf_result demo_service = None"
  "bf_prevServicesKey demo_service = servicesKey demo_props" "\<not> bf_submitting demo_service"
  "bf_slotsError demo_service = None" "bf_email demo_service = []"
  by (simp_all add: demo_service_def flow_init_def pickService_def commit_state_def services_effect_def
     avail_effect_def avail_wanted_def slots_effect_def loadSlots_def slots_wanted_def monthOf_def Let_def
     run_cleanup_def new_loader_def)

lemma demo_date: "bf_serviceId demo_date = [115]" "bf_date demo_date = demo_day" "bf_slotsLoader demo_date = rerun_effect new_loader"
  "bf_slotsError demo_date = None" "bf_result demo_date = None" "bf_prevServicesKey demo_date = servicesKey demo_props" "\<not> bf_submitting demo_date"
  "bf_email demo_date = []"
  by (simp_all add: demo_date_def pickDate_def commit_state_def services_effect_def avail_settled_def
     slots_effect_def loadSlots_def slots_wanted_def Let_def demo_service)

lemma demo_time: "bf_serviceId demo_time = [115]" "bf_date demo_time = demo_day" "bf_time demo_time = [57]"
  "bf_result demo_time = None" "bf_prevServicesKey demo_time = servicesKey demo_props" "\<not> bf_submitting demo_time"
  "bf_email demo_time = []" "bf_slotsLoader demo_time = rerun_effect new_loader"
  by (simp_all add: demo_time_def slots_settled_def demo_date)

lemma demo_grid: "Some (Civil 2026 0 5) \<in> set (monthGrid \<lparr>ym_year = 2026, ym_month0 = 0\<rparr>)"
  using newDate_in_month [of 0 5 2026] 
  by (auto simp: monthGrid_def Let_def month_days_def full_year_def newDate_last [of 0 2026, simplified] intro!: image_eqI [of _ _ 5])

lemma fr_quiet:
  assumes "flow_run p s pend sent" "slug_ok p" "fires (flow_view br p s) e" "on_flow p e s = (s1, None)"
    "commit_state p s s1 = s2"
  shows "\<exists>sent'. flow_run p s2 pend sent'"
  using fr_step [OF assms] by (auto simp: opt_list_def)

lemma commit_same:
  "bf_prevServicesKey s1 = servicesKey p \<Longrightarrow> bf_serviceId s1 = bf_serviceId s \<Longrightarrow> bf_month s1 = bf_month s
   \<Longrightarrow> bf_date s1 = bf_date s \<Longrightarrow> commit_state p s s1 = s1"
  by (simp add: commit_state_def services_effect_def)

definition demo_browser :: browser where
  "demo_browser = \<lparr>br_now = Civil 2026 0 1, br_month_year = (\<lambda>_. []), br_weekday_date = (\<lambda>_. []),
     br_date_time = (\<lambda>_. []), br_origin = []\<rparr>"

lemma next_tok_start: "next_tok new_loader = 0"
  by (simp add: new_loader_def)

lemma demo_offers:
  "fires (calendar_view demo_browser \<lparr>ym_year = 2026, ym_month0 = 0\<rparr> [demo_day] [] False) (C_day demo_day)"
proof -
  have "todayMidnight (Civil 2026 0 1) \<le> Civil 2026 0 5"
    using newDate_in_month [of 0 1 2026]
    by (simp add: todayMidnight_def month_days_def full_year_def less_eq_civil_def less_civil_def)
  then show ?thesis
    using demo_grid by (auto simp: calendar_view_def fires_any_map fires_day_cell demo_browser_def demo_day_def)
qed

lemma demo_run_time: "\<exists>sent. flow_run demo_props demo_time [] sent"
proof -
  let ?p = demo_props and ?b = demo_browser
  have "ids_plain ?p" by (simp add: ids_plain_def demo_props_def)
  note s0 = fr_start [OF this, of "Civil 2026 0 1"]
  have "fires (flow_view ?b ?p (flow_init (Civil 2026 0 1) ?p)) (F_service [115])"
    by (simp add: fires_flow_view flow_init_def demo_props_def)
  from fr_quiet [OF s0 demo_slug this on_flow.simps(1) refl] obtain l1 where "flow_run ?p demo_service [] l1"
    by (auto simp: demo_service_def Let_def)
  from fr_avail [OF this, of 0 "Inr [demo_day]"]
  have s1: "flow_run ?p (avail_settled 0 (Inr [demo_day]) demo_service) [] l1" .
  have "fires (flow_view ?b ?p (avail_settled 0 (Inr [demo_day]) demo_service)) (F_date demo_day)"
    using demo_offers
    by (auto simp: fires_flow_view fires_date_step demo_service avail_settled_def intro: exI [of _ "C_day demo_day"])
  from fr_quiet [OF s1 demo_slug this on_flow.simps(3) refl] obtain l2 where "flow_run ?p demo_date [] l2"
    by (auto simp: demo_date_def Let_def)
  from fr_slots [OF this, of 0 "Inr [[57]]"]
  have s2: "flow_run ?p (slots_settled 0 (Inr [[57]]) demo_date) [] l2" .
  have "fires (flow_view ?b ?p (slots_settled 0 (Inr [[57]]) demo_date)) (F_time [57])"
    by (simp add: fires_flow_view fires_time_step demo_date slots_settled_def)
  from fr_quiet [OF s2 demo_slug this on_flow.simps(4) commit_same] obtain l3 where s3: "flow_run ?p demo_time [] l3"
    by (auto simp: demo_time_def slots_settled_def demo_date)
  from s3 show ?thesis by blast
qed

lemma demo_run:
  "\<exists>sent r b. flow_run demo_props ((demo_time\<lparr>bf_name := [68, 97], bf_phone := replicate 9 48\<rparr>)
      \<lparr>bf_formError := None, bf_submitError := None, bf_submitting := True\<rparr>) [([115], demo_day)] sent
    \<and> (demo_props, r) \<in> set sent \<and> createPublicBooking (lat ''a'') b = Some r \<and> pb_time b = [57]"
proof -
  let ?p = demo_props and ?b = demo_browser
  let ?f = "demo_time\<lparr>bf_name := [68, 97], bf_phone := replicate 9 48\<rparr>"
  obtain l3 where s3: "flow_run ?p demo_time [] l3" using demo_run_time by blast
  have "fires (flow_view ?b ?p demo_time) (F_name [68, 97])"
    by (simp add: fires_flow_view fires_summary_step showSummary_def demo_time)
  from fr_quiet [OF s3 demo_slug this on_flow.simps(5) commit_same] obtain l4
    where s4: "flow_run ?p (demo_time\<lparr>bf_name := [68, 97]\<rparr>) [] l4"
    by (auto simp: demo_time)
  have "fires (flow_view ?b ?p (demo_time\<lparr>bf_name := [68, 97]\<rparr>)) (F_phone (replicate 9 48))"
    by (simp add: fires_flow_view fires_summary_step showSummary_def demo_time)
  from fr_quiet [OF s4 demo_slug this on_flow.simps(6) commit_same] obtain l5
    where s5: "flow_run ?p ?f [] l5"
    by (auto simp: demo_time)
  have f: "fires (flow_view ?b ?p ?f) F_submit"
    by (simp add: fires_flow_view fires_summary_step showSummary_def demo_time)
  have v: "validate ?f = None"
    by (simp add: validate_None demo_time trim_def is_space_def isValidPhone_def is_digit_def Let_def
        list_all_iff)
  obtain r where r: "createPublicBooking (lat ''a'') (booking_body ?f) = Some r"
    using demo_slug by (auto simp: slug_ok_def demo_props_def createPublicBooking_def slugPath_def with_component_def)
  from v r have "on_flow ?p F_submit ?f = (?f\<lparr>bf_formError := None, bf_submitError := None, bf_submitting := True\<rparr>, Some r)"
    by (simp add: submit_def demo_props_def)
  from fr_step [OF s5 demo_slug f this commit_same] obtain l6
    where "flow_run ?p (?f\<lparr>bf_formError := None, bf_submitError := None, bf_submitting := True\<rparr>) [([115], demo_day)] l6"
      "(?p, r) \<in> set l6"
    by (auto simp: demo_time opt_list_def)
  moreover have "pb_time (booking_body ?f) = [57]" by (simp add: booking_body_def demo_time)
  ultimately show ?thesis using r by blast
qed

section \<open>Properties\<close>

text \<open>
  Property C1. Nothing unchecked is posted: on every run of the flow, whatever arrives and
  in whatever order, each request goes to the page's own slug and is a read or a booking
  whose service the page offered, whose date is a real day, whose time was chosen, and whose
  trimmed name, phone, address and notes pass the checks and the length bounds; and at most
  one booking is in flight, namely while the flow says it is submitting.
\<close>

theorem booking_posts_checked:
  assumes "flow_run p s pend sent"
  shows "(\<forall>(q, rq) \<in> set sent. \<exists>slug. fp_slug p = Some slug \<and> fp_slug q = Some slug \<and>
        (req_method rq = GET \<or> (\<exists>b. createPublicBooking slug b = Some rq \<and> booking_ok q b)))
    \<and> length pend \<le> 1 \<and> (bf_submitting s \<longleftrightarrow> pend \<noteq> [])"
proof -
  from flow_run_inv [OF assms] have i: "flow_inv p s pend" "log_ok (fp_slug p) sent" by simp_all
  from i(2) have "\<forall>(q, rq) \<in> set sent. \<exists>slug. fp_slug p = Some slug \<and> fp_slug q = Some slug \<and>
        (req_method rq = GET \<or> (\<exists>b. createPublicBooking slug b = Some rq \<and> booking_ok q b))"
    unfolding log_ok_def by fast
  moreover from i(1) have "length pend \<le> 1 \<and> (bf_submitting s \<longleftrightarrow> pend \<noteq> [])"
    by (auto simp: flow_inv_def split: if_splits)
  ultimately show ?thesis by blast
qed

theorem booking_posts_checked_witness:
  "\<exists>r b. createPublicBooking (lat ''a'') b = Some r \<and> booking_ok demo_props b \<and> pb_time b = [57]"
proof -
  obtain s sent r b where w: "flow_run demo_props s [([115], demo_day)] sent" "(demo_props, r) \<in> set sent"
    "createPublicBooking (lat ''a'') b = Some r" "pb_time b = [57]" using demo_run by blast
  from booking_posts_checked [OF w(1)] w(2)
  obtain b' where "createPublicBooking (lat ''a'') b' = Some r" "booking_ok demo_props b'"
    using POST_request [OF w(3)] by (fastforce simp: demo_props_def)
  moreover have "pb_time b' = [57]"
    using calculation(1) w(3,4) by (auto simp: createPublicBooking_def api_post_def request_def slugPath_def with_component_def)
  ultimately show ?thesis by blast
qed



lemma error_not_in_steps:
  "service_step p (s\<lparr>bf_submitError := m\<rparr>) = service_step p s"
  "date_step br p (s\<lparr>bf_submitError := m\<rparr>) = date_step br p s"
  "time_step (s\<lparr>bf_submitError := m\<rparr>) = time_step s"
  by (simp_all add: service_step_def date_step_def time_step_def split: option.split)

text \<open>
  A slot conflict is not explained when it happens: the 409 handler stores the
  message "this slot was just taken" and then reloads the slots, which clears the chosen time
  and with it the section that shows the message. The page is the one without any error; the
  message appears only once the customer has picked another hour.
\<close>

theorem slot_conflict_hides_message:
  assumes "isLive p" "bf_serviceId s \<noteq> []" "bf_date s \<noteq> []" "bf_result s = None" "err_status e = 409" "t \<noteq> []"
  shows "let s' = fst (submit_settled p (bf_serviceId s) (bf_date s) (Inl (ThrownApi e)) s) in
    bf_submitError s' = Some taken_msg \<and> \<not> showSummary s'
    \<and> flow_view br p s' = flow_view br p (s'\<lparr>bf_submitError := None\<rparr>)
    \<and> taken_msg \<in> set (texts (flow_view br p (fst (on_flow p (F_time t) s'))))"
proof -
  define s' where "s' = fst (submit_settled p (bf_serviceId s) (bf_date s) (Inl (ThrownApi e)) s)"
  have f: "bf_submitError s' = Some taken_msg" "bf_time s' = []" "bf_result s' = None"
    "bf_serviceId s' = bf_serviceId s" "bf_date s' = bf_date s"
    using assms by (simp_all add: s'_def submit_settled_def loadSlots_def slots_wanted_def)
  have n: "taken_msg \<noteq> []" by (simp add: taken_msg_def js_lit)
  have v: "flow_view br p s' = flow_view br p (s'\<lparr>bf_submitError := None\<rparr>)"
    by (simp add: flow_view_def showSummary_def f error_not_in_steps shown_def split: option.split)
  have "taken_msg \<in> set (texts (flow_view br p (s'\<lparr>bf_time := t\<rparr>)))"
    using assms f n
    by (auto simp: flow_view_def showSummary_def summary_step_def step_section_def alert_def shown_def
        split: option.split)
  with f v show ?thesis by (simp add: s'_def [symmetric] Let_def showSummary_def)
qed

theorem slot_conflict_hides_message_witness:
  "\<not> showSummary (fst (submit_settled demo_props [115] demo_day
      (Inl (ThrownApi \<lparr>err_status = 409, err_message = [], err_body = JNull\<rparr>)) demo_time))"
  using slot_conflict_hides_message [of demo_props demo_time "\<lparr>err_status = 409, err_message = [], err_body = JNull\<rparr>" "[57]"]
  by (simp add: demo_time Let_def)

text \<open>
  The reload after a conflict cannot be cancelled: the handler drops its cancel
  function, so when the customer picks another date before it is answered, its slots, which
  belong to the old date, are shown and offered under the new one.
\<close>

theorem conflict_reload_overwrites:
  assumes "isLive p" "bf_serviceId s \<noteq> []" "bf_date s \<noteq> []" "bf_result s = None" "err_status e = 409"
    "loader_ok (bf_slotsLoader s)" "cleanup (bf_slotsLoader s) \<noteq> Some (next_tok (bf_slotsLoader s))"
    "s1 = fst (submit_settled p (bf_serviceId s) (bf_date s) (Inl (ThrownApi e)) s)"
    "bf_prevServicesKey s = servicesKey p" "d2 \<noteq> []" "d2 \<noteq> bf_date s"
    "flow_commit p s1 (pickDate d2 s1) = Some (s2, rqs)" "h \<in> set hours"
  shows "let s3 = slots_settled (next_tok (bf_slotsLoader s)) (Inr hours) s2 in
    bf_date s3 = d2 \<and> bf_slots s3 = Some hours \<and> fires (flow_view br p s3) (F_time h)"
proof -
  let ?l = "bf_slotsLoader s"
  have f: "bf_slotsLoader s1 = begin_load ?l" "bf_result s1 = None" "bf_serviceId s1 = bf_serviceId s"
    "bf_date s1 = bf_date s" "bf_month s1 = bf_month s" "bf_prevServicesKey s1 = servicesKey p" "bf_slotsError s1 = None"
    using assms(1-5,8,9) by (simp_all add: submit_settled_def loadSlots_def slots_wanted_def)
  have s2: "s2 = slots_effect p (pickDate d2 s1)"
    using flow_commit_Some [OF assms(12)] assms(4,9,11) f
    by (simp add: commit_state_def services_effect_def pickDate_def)
  have g: "bf_date s2 = d2" "bf_serviceId s2 = bf_serviceId s" "bf_result s2 = None" "bf_slotsError s2 = None"
    "bf_slotsLoader s2 = rerun_effect (begin_load ?l)"
    using assms(1,2,10) f by (simp_all add: s2 slots_effect_def loadSlots_def slots_wanted_def pickDate_def)
  have "live (next_tok ?l) (rerun_effect (begin_load ?l))"
    using assms(6,7)
    by (auto simp: live_def loader_ok_def rerun_effect_def begin_load_def run_cleanup_def Let_def split: option.splits)
  with g assms(1,2,10,13) show ?thesis
    by (auto simp: slots_settled_def Let_def fires_flow_view fires_time_step)
qed

theorem conflict_reload_overwrites_witness:
  "\<exists>s3. bf_date s3 = [50] \<and> bf_slots s3 = Some [[49]] \<and> fires (flow_view demo_browser demo_props s3) (F_time [49])"
proof -
  let ?e = "\<lparr>err_status = 409, err_message = [], err_body = JNull\<rparr>"
  define s1 where "s1 = fst (submit_settled demo_props [115] demo_day (Inl (ThrownApi ?e)) demo_time)"
  obtain s2 rqs where c: "flow_commit demo_props s1 (pickDate [50] s1) = Some (s2, rqs)"
    using flow_commit_total [OF demo_slug] by blast
  have "[50] \<noteq> demo_day" by (simp add: demo_day_def toDateString_def)
  then show ?thesis
    using conflict_reload_overwrites [of demo_props demo_time ?e s1 "[50]" s2 rqs "[49]" "[[49]]" demo_browser] c
      loader_ok_rerun [OF loader_ok_new]
    by (auto simp: demo_time s1_def Let_def next_tok_start)
qed

text \<open>
  A load whose effect ran again is forgotten: after a commit that changed the
  service or the date (the service or the month), the response of the previous slots
  (availability) load changes nothing, so it cannot appear under the new choice.
\<close>

theorem superseded_loads_ignored:
  assumes "flow_commit p s s1 = Some (s2, rqs)"
  shows "(cleanup (bf_slotsLoader s1) = Some t \<and> loader_ok (bf_slotsLoader s1)
        \<and> (bf_serviceId s2 \<noteq> bf_serviceId s \<or> bf_date s2 \<noteq> bf_date s) \<longrightarrow> slots_settled t r s2 = s2)
    \<and> (cleanup (bf_availLoader s1) = Some t \<and> loader_ok (bf_availLoader s1)
        \<and> (bf_serviceId s2 \<noteq> bf_serviceId s \<or> bf_month s2 \<noteq> bf_month s) \<longrightarrow> avail_settled t r' s2 = s2)"
proof (intro conjI impI)
  let ?u = "services_effect p s1"
  assume a: "cleanup (bf_slotsLoader s1) = Some t \<and> loader_ok (bf_slotsLoader s1)
      \<and> (bf_serviceId s2 \<noteq> bf_serviceId s \<or> bf_date s2 \<noteq> bf_date s)"
  then have "bf_slotsLoader s2 = run_cleanup (bf_slotsLoader s1) \<or> bf_slotsLoader s2 = rerun_effect (bf_slotsLoader s1)"
    using flow_commit_Some [OF assms] loaders_slots_effect(2) [of p "avail_effect p ?u"] loaders_slots_effect(2) [of p ?u]
    by (auto simp: commit_state_def Let_def split: if_splits)
  then have "\<not> live t (bf_slotsLoader s2)"
    using a cleanup_kills rerun_kills by (auto simp: loader_ok_def live_def)
  then show "slots_settled t r s2 = s2" by (rule slots.dead_ignored)
next
  let ?u = "services_effect p s1"
  assume a: "cleanup (bf_availLoader s1) = Some t \<and> loader_ok (bf_availLoader s1)
      \<and> (bf_serviceId s2 \<noteq> bf_serviceId s \<or> bf_month s2 \<noteq> bf_month s)"
  have m: "bf_month (slots_effect p v) = bf_month v" "bf_month (avail_effect p v) = bf_month v" for v
    by (simp_all add: slots_effect_def loadSlots_def avail_effect_def)
  from a have "bf_availLoader s2 = run_cleanup (bf_availLoader s1) \<or> bf_availLoader s2 = rerun_effect (bf_availLoader s1)"
    using flow_commit_Some [OF assms] loaders_avail_effect [of p ?u]
    by (auto simp: commit_state_def Let_def loaders_slots_effect(1) m split: if_splits)
  then have "\<not> live t (bf_availLoader s2)"
    using a cleanup_kills rerun_kills by (auto simp: loader_ok_def live_def)
  then show "avail_settled t r' s2 = s2" by (rule avail.dead_ignored)
qed

theorem superseded_loads_ignored_witness:
  "\<exists>s2 rqs. flow_commit demo_props demo_date (pickDate [50] demo_date) = Some (s2, rqs)
    \<and> bf_date s2 = [50] \<and> slots_settled 0 (Inr [[49]]) s2 = s2"
proof -
  obtain rqs where c: "flow_commit demo_props demo_date (pickDate [50] demo_date)
      = Some (commit_state demo_props demo_date (pickDate [50] demo_date), rqs)"
    using flow_commit_total [OF demo_slug] by blast
  have n: "[50] \<noteq> demo_day" by (simp add: demo_day_def toDateString_def)
  have d: "bf_date (commit_state demo_props demo_date (pickDate [50] demo_date)) = [50]"
    by (simp add: commit_state_def services_effect_def pickDate_def demo_date n)
  have "cleanup (bf_slotsLoader (pickDate [50] demo_date)) = Some 0"
      "loader_ok (bf_slotsLoader (pickDate [50] demo_date))"
    by (simp_all add: pickDate_def demo_date next_tok_start)
  with superseded_loads_ignored [OF c, of 0 "Inr [[49]]"] d n c show ?thesis by (auto simp: demo_date)
qed

text \<open>
  Switching the service keeps the old service's days: until the new
  availability arrives the calendar still offers every free day of the previous service.
\<close>

theorem service_switch_keeps_days:
  assumes "flow_commit p s (pickService sid s) = Some (s2, rqs)" "isLive p" "bf_prevServicesKey s = servicesKey p"
    "fires (flow_view br p s) (F_date d)" "fires (flow_view br p s) (F_service sid)"
    "sid \<noteq> []" "sid \<noteq> bf_serviceId s"
  shows "bf_serviceId s2 = sid \<and> bf_availLoading s2 \<and> fires (flow_view br p s2) (F_date d)"
proof -
  have s2: "s2 = slots_effect p (avail_effect p (pickService sid s))"
    using flow_commit_Some [OF assms(1)] assms(3,7)
    by (simp add: commit_state_def services_effect_def pickService_def)
  have c: "fires (calendar_view br m av v l) (C_day d) = fires (calendar_view br m av v' l') (C_day d)" for m av v v' l l'
    by (auto simp: calendar_view_def month_nav_def fires_any_map fires_day_cell)
  have e: "F_date d = calendar_in_flow x \<longleftrightarrow> x = C_day d" for x by (cases x) auto
  have f: "bf_serviceId s2 = sid" "bf_availLoading s2" "bf_availError s2 = None" "bf_result s2 = bf_result s"
    "bf_month s2 = bf_month s" "bf_availableDates s2 = bf_availableDates s"
    using assms(2,6) by (simp_all add: s2 slots_effect_def loadSlots_def slots_wanted_def avail_effect_def
        avail_wanted_def pickService_def)
  from assms(4) have "fires (calendar_view br (bf_month s) (bf_availableDates s) (bf_date s) (bf_availLoading s)) (C_day d)"
    by (auto simp: fires_flow_view fires_date_step fires_time_step fires_summary_step e)
  with c have "fires (date_step br p s2) (F_date d)"
    unfolding fires_date_step f e using assms(2) by blast
  with f assms(4,6) show ?thesis by (auto simp: fires_flow_view)
qed

definition two_services :: flow_props where
  "two_services = demo_props\<lparr>fp_services := fp_services demo_props @
     [\<lparr>ps_id = [116], ps_name = [68], ps_duration_minutes = 60, ps_description = None, ps_price = Some 90\<rparr>]\<rparr>"

lemma two_slug: "slug_ok two_services"
  using demo_slug by (simp add: slug_ok_def two_services_def)

lemma two_live [simp]: "isLive two_services"
  by (simp add: isLive_def two_services_def demo_props_def)

theorem service_switch_keeps_days_witness:
  "\<exists>s2. bf_serviceId s2 = [116] \<and> fires (flow_view demo_browser two_services s2) (F_date demo_day)"
proof -
  define s where "s = (avail_settled 0 (Inr [demo_day]) demo_service)\<lparr>bf_prevServicesKey := servicesKey two_services\<rparr>"
  obtain s2 rqs where c: "flow_commit two_services s (pickService [116] s) = Some (s2, rqs)"
    using flow_commit_total [OF two_slug] by blast
  have d: "fires (flow_view demo_browser two_services s) (F_date demo_day)"
    using demo_offers
    by (auto simp: s_def fires_flow_view fires_date_step demo_service avail_settled_def intro: exI [of _ "C_day demo_day"])
  have "fires (flow_view demo_browser two_services s) (F_service [116])"
    by (simp add: s_def fires_flow_view demo_service avail_settled_def two_services_def)
  from service_switch_keeps_days [OF c _ _ d this] show ?thesis
    by (auto simp: s_def demo_service avail_settled_def)
qed

text \<open>
  The confirmation can name a service that was not booked: the services can
  still be picked while the booking is in flight, and the confirmation shows the service
  selected when it is drawn, not the one that was sent.
\<close>

theorem confirmation_names_other_service:
  assumes "isLive p" "bf_result s = None" "b \<in> set (fp_services p)" "ps_id b \<noteq> []"
    "distinct (map ps_id (fp_services p))"
    "flow_commit p s (pickService (ps_id b) s) = Some (s2, rqs)" "bf_prevServicesKey s = servicesKey p"
  shows "fires (flow_view br p s) (F_service (ps_id b)) \<and>
    ps_name b @ (lat '' '' @ [183] @ lat '' '') @ br_date_time br (Some (pbr_scheduled_at res)) \<in>
      set (texts (flow_view br p (fst (submit_settled p sid d (Inr res) s2))))"
proof -
  from assms(1) obtain slug where slug: "fp_slug p = Some slug" by (auto simp: isLive_def)
  have id2: "bf_serviceId s2 = ps_id b"
    using flow_commit_Some [OF assms(6)] assms(7)
    by (simp add: commit_state_def services_effect_def pickService_def Let_def)
  have "find (\<lambda>x. ps_id x = ps_id b) xs = Some b" if "b \<in> set xs" "distinct (map ps_id xs)" for xs
    using that by (induction xs) (auto simp: image_iff)
  with assms(3,5) id2 have "selectedService p s2 = Some b" by (simp add: selectedService_def)
  then have "selectedService p (s2\<lparr>bf_result := Some res, bf_submitting := False\<rparr>) = Some b"
    by (simp add: selectedService_def)
  then show ?thesis
    using assms(1-3) slug
    by (auto simp: flow_view_def submit_settled_def confirmation_view_def Let_def fires_flow_view fires_service_step)
qed

theorem confirmation_names_other_service_witness:
  "\<exists>s. bf_submitting s \<and> pb_service_id (booking_body s) = [115] \<and> bf_result s = None \<and>
    (\<exists>s2 rqs. flow_commit two_services s (pickService [116] s) = Some (s2, rqs) \<and>
      [68] @ (lat '' '' @ [183] @ lat '' '') \<in> set (texts (flow_view demo_browser two_services (fst (submit_settled two_services [115] demo_day
        (Inr \<lparr>pbr_booking_id = [], pbr_cancel_token = [], pbr_scheduled_at = []\<rparr>) s2)))))"
proof -
  let ?b = "\<lparr>ps_id = [116], ps_name = [68], ps_duration_minutes = 60, ps_description = None, ps_price = Some 90\<rparr>"
  define s where "s = demo_time\<lparr>bf_submitting := True, bf_prevServicesKey := servicesKey two_services\<rparr>"
  obtain s2 rqs where c: "flow_commit two_services s (pickService (ps_id ?b) s) = Some (s2, rqs)"
    using flow_commit_total [OF two_slug] by blast
  let ?res = "\<lparr>pbr_booking_id = [], pbr_cancel_token = [], pbr_scheduled_at = []\<rparr>"
  have s: "bf_submitting s" "pb_service_id (booking_body s) = [115]" "bf_result s = None"
    "bf_prevServicesKey s = servicesKey two_services"
    by (simp_all add: s_def booking_body_def demo_time)
  have p: "?b \<in> set (fp_services two_services)" "ps_id ?b \<noteq> []" "distinct (map ps_id (fp_services two_services))"
    by (simp_all add: two_services_def demo_props_def)
  have "[68] @ (lat '' '' @ [183] @ lat '' '') @ br_date_time demo_browser (Some []) = [68] @ (lat '' '' @ [183] @ lat '' '')"
    by (simp add: demo_browser_def)
  with confirmation_names_other_service [OF two_live s(3) p c s(4), of demo_browser ?res "[115]" demo_day]
  have "[68] @ (lat '' '' @ [183] @ lat '' '') \<in> set (texts (flow_view demo_browser two_services
      (fst (submit_settled two_services [115] demo_day (Inr ?res) s2))))"
    by (simp only: public_service.select_convs public_booking_response.select_convs)
  with c s show ?thesis unfolding public_service.select_convs by blast
qed

end
