(* ===== verification/PublicPage.thy ===== *)
theory PublicPage
  imports BookingRuns
begin

text \<open>
  The public business page around the booking flow (\<open>pages/PublicBookingPage.tsx\<close>).

  The services and the designed page load in parallel under one cancel flag. The page draws
  the flow in two different places, on the plain shell and inside the designed page; React
  keeps a component's state only while it stays in its place, so \<open>pp_commit\<close> starts a fresh
  flow whenever the place changes.
\<close>

record services_response =
  sr_business_name :: jsstr
  sr_welcome_message :: "jsstr option"
  sr_services :: "public_service list"

record public_page =
  pp_slug :: jsstr
  pp_businessName :: jsstr
  pp_welcomeMessage :: "jsstr option"
  pp_services :: "public_service list option"
  pp_page :: "json option"
  pp_loadError :: "jsstr option"
  pp_loader :: loader
  pp_flow :: "booking_flow option"

definition pp_mount :: "jsstr \<Rightarrow> public_page" where
  "pp_mount slug =
     \<lparr>pp_slug = slug, pp_businessName = [], pp_welcomeMessage = None, pp_services = None,
      pp_page = None, pp_loadError = None, pp_loader = rerun_effect new_loader, pp_flow = None\<rparr>"

definition services_settled :: "nat \<Rightarrow> (js_thrown + services_response) \<Rightarrow> public_page \<Rightarrow> public_page" where
  "services_settled t r s =
     (if live t (pp_loader s) then
        (case r of
           Inr res \<Rightarrow> s\<lparr>pp_businessName := sr_business_name res,
             pp_welcomeMessage := sr_welcome_message res, pp_services := Some (sr_services res)\<rparr>
         | Inl err \<Rightarrow>
             if (case err of ThrownApi e \<Rightarrow> err_status e = 404 | ThrownOther _ \<Rightarrow> False)
             then s\<lparr>pp_loadError := Some (heb ''cs dwaird l@ pnv@. ec@e ydwiyex zwio.'')\<rparr>
             else s\<lparr>pp_loadError := Some (toFriendlyError err (heb ''hripz dyixezim pkyld. pqe yea.''))\<rparr>)
      else s)"

definition page_settled :: "nat \<Rightarrow> (js_thrown + json) \<Rightarrow> public_page \<Rightarrow> public_page" where
  "page_settled t r s =
     (if live t (pp_loader s) then
        (case r of Inr res \<Rightarrow> s\<lparr>pp_page := Some res\<rparr> | Inl _ \<Rightarrow> s\<lparr>pp_page := None\<rparr>)
      else s)"

datatype place = Error_alert | Loading_spinner | Plain_shell | Designed_page

definition pp_place :: "public_page \<Rightarrow> place" where
  "pp_place s =
     (if pp_loadError s \<noteq> None then Error_alert
      else if pp_services s = None then Loading_spinner
      else if pp_page s = None then Plain_shell
      else Designed_page)"

definition pp_flow_props :: "public_page \<Rightarrow> flow_props" where
  "pp_flow_props s =
     \<lparr>fp_slug = Some (pp_slug s), fp_services = (case pp_services s of None \<Rightarrow> [] | Some x \<Rightarrow> x),
      fp_welcome = pp_welcomeMessage s\<rparr>"

definition pp_commit :: "civil \<Rightarrow> public_page \<Rightarrow> public_page \<Rightarrow> public_page" where
  "pp_commit now s s' =
     s'\<lparr>pp_flow :=
       (if pp_place s' \<in> {Plain_shell, Designed_page}
        then (if pp_place s' = pp_place s then pp_flow s' else Some (flow_init now (pp_flow_props s')))
        else None)\<rparr>"

interpretation public_services: guarded_settle pp_loader services_settled
  by unfold_locales (auto simp: services_settled_def split: sum.split)

interpretation public_design: guarded_settle pp_loader page_settled
  by unfold_locales (auto simp: page_settled_def split: sum.split)

definition pp_settle :: "civil \<Rightarrow> nat \<times> ((js_thrown + services_response) + (js_thrown + json)) \<Rightarrow> public_page \<Rightarrow> public_page" where
  "pp_settle now x s =
     (case x of
        (t, Inl r) \<Rightarrow> pp_commit now s (services_settled t r s)
      | (t, Inr r) \<Rightarrow> pp_commit now s (page_settled t r s))"

text \<open>
  The designed page is optional: once the services have arrived the customer can
  book, whether the page payload came before, failed, or has not come yet; only a failed
  services load shows an error.
\<close>

theorem page_payload_optional:
  "pp_flow (pp_settle now (0, Inl (Inr res)) (pp_mount slug)) \<noteq> None
   \<and> pp_flow (pp_settle now (0, Inl (Inr res)) (pp_settle now (0, Inr r) (pp_mount slug))) \<noteq> None
   \<and> pp_flow (pp_settle now (0, Inr r) (pp_settle now (0, Inl (Inr res)) (pp_mount slug))) \<noteq> None
   \<and> pp_loadError (pp_settle now (0, Inr r) s) = pp_loadError s
   \<and> pp_place (pp_settle now (0, Inl (Inl err)) (pp_mount slug)) = Error_alert"
proof -
  note d = pp_settle_def pp_commit_def services_settled_def page_settled_def pp_place_def
  have "pp_flow (pp_settle now (0, Inl (Inr res)) (pp_mount slug)) \<noteq> None"
    by (simp add: d pp_mount_def)
  moreover have "pp_flow (pp_settle now (0, Inl (Inr res)) (pp_settle now (0, Inr r) (pp_mount slug))) \<noteq> None"
    by (cases r) (simp_all add: d pp_mount_def)
  moreover have "pp_flow (pp_settle now (0, Inr r) (pp_settle now (0, Inl (Inr res)) (pp_mount slug))) \<noteq> None"
    by (cases r) (simp_all add: d pp_mount_def)
  moreover have "pp_loadError (pp_settle now (0, Inr r) s) = pp_loadError s"
    by (cases r) (simp_all add: d)
  moreover have "pp_place (pp_settle now (0, Inl (Inl err)) (pp_mount slug)) = Error_alert"
    by (simp add: d pp_mount_def)
  ultimately show ?thesis by blast
qed

text \<open>
  A late page payload throws the booking away: when the designed page arrives
  after the services, the flow moves into it and starts anew, whatever service, date, hour or
  details the customer had entered, even with a booking in flight; a failed payload keeps it.
\<close>

theorem late_page_restarts_flow:
  assumes "pp_place s = Plain_shell" "pp_flow s = Some f" "live t (pp_loader s)"
  shows "pp_flow (pp_settle now (t, Inr (Inr page)) s) = Some (flow_init now (pp_flow_props s))
    \<and> pp_flow (pp_settle now (t, Inr (Inl err)) s) = Some f"
  using assms
  by (auto simp: pp_settle_def pp_commit_def page_settled_def pp_place_def pp_flow_props_def split: if_splits)

theorem late_page_restarts_flow_witness:
  "\<exists>s f. bf_serviceId f = [115] \<and> pp_flow s = Some f
    \<and> map_option bf_serviceId (pp_flow (pp_settle (Civil 2026 0 1) (0, Inr (Inr JNull)) s)) = Some []"
proof -
  let ?now = "Civil 2026 0 1"
  define f where "f = pickService [115] (flow_init ?now \<lparr>fp_slug = None, fp_services = [], fp_welcome = None\<rparr>)"
  define s where "s = (pp_settle ?now (0, Inl (Inr \<lparr>sr_business_name = [], sr_welcome_message = None,
      sr_services = []\<rparr>)) (pp_mount [97]))\<lparr>pp_flow := Some f\<rparr>"
  have f: "bf_serviceId f = [115]" by (simp add: f_def pickService_def)
  have s: "pp_place s = Plain_shell" "live 0 (pp_loader s)" "pp_flow s = Some f"
    by (simp_all add: s_def pp_settle_def pp_commit_def services_settled_def pp_mount_def pp_place_def)
  have "bf_serviceId (flow_init ?now p) = []" for p by (simp add: flow_init_def)
  with late_page_restarts_flow [OF s(1,3,2), of ?now JNull]
  have "map_option bf_serviceId (pp_flow (pp_settle ?now (0, Inr (Inr JNull)) s)) = Some []" by simp
  with f s(3) show ?thesis by blast
qed

end
