(* ===== verification/JsNumber.thy ===== *)
theory JsNumber
  imports JsPrelude
begin

text \<open>
  \<open>Number\<close> on strings, with exact values: doubles neither round nor overflow here.
\<close>

text \<open>\<open>Number\<close> on strings: decimal literals, the three radix prefixes, signs, \<open>Infinity\<close>.\<close>

definition radix_digit :: "code_unit \<Rightarrow> nat" where
  "radix_digit c =
     (if is_digit c then c - 48 else if 97 \<le> c \<and> c \<le> 102 then c - 87
      else if 65 \<le> c \<and> c \<le> 70 then c - 55 else 99)"

definition radix_value :: "nat \<Rightarrow> jsstr \<Rightarrow> js_num" where
  "radix_value b s =
     (if s \<noteq> [] \<and> list_all (\<lambda>c. radix_digit c < b) s
      then Fin (of_nat (foldl (\<lambda>a c. a * b + radix_digit c) 0 s)) else NaN)"

definition exponent :: "jsstr \<Rightarrow> int option" where
  "exponent s =
     (if s = [] then Some 0
      else if hd s = 101 \<or> hd s = 69 then
        (let neg = (tl s \<noteq> [] \<and> hd (tl s) = 45);
             d = (if tl s \<noteq> [] \<and> hd (tl s) \<in> {43, 45} then tl (tl s) else tl s)
         in if d \<noteq> [] \<and> list_all is_digit d
            then Some (if neg then - int (digits_val d) else int (digits_val d)) else None)
      else None)"

definition pow10 :: "int \<Rightarrow> rat" where
  "pow10 e = (if 0 \<le> e then 10 ^ nat e else 1 / 10 ^ nat (- e))"

definition decimal_value :: "jsstr \<Rightarrow> js_num" where
  "decimal_value s =
     (let ip = takeWhile is_digit s;
          r = dropWhile is_digit s;
          dot = (r \<noteq> [] \<and> hd r = 46);
          fp = (if dot then takeWhile is_digit (tl r) else []);
          r2 = (if dot then dropWhile is_digit (tl r) else r)
      in if s = (lat ''Infinity'') then PosInf
         else if ip = [] \<and> fp = [] then NaN
         else case exponent r2 of
             None \<Rightarrow> NaN
           | Some e \<Rightarrow> Fin ((of_nat (digits_val ip) + of_nat (digits_val fp) / 10 ^ length fp) * pow10 e))"

definition neg_num :: "js_num \<Rightarrow> js_num" where
  "neg_num n = (case n of Fin r \<Rightarrow> Fin (- r) | PosInf \<Rightarrow> NegInf | NegInf \<Rightarrow> PosInf | NaN \<Rightarrow> NaN)"

definition str_number :: "jsstr \<Rightarrow> js_num" where
  "str_number s =
     (let t = trim s in
      if t = [] then Fin 0
      else if take 2 t \<in> {(lat ''0x''), (lat ''0X'')} then radix_value 16 (drop 2 t)
      else if take 2 t \<in> {(lat ''0o''), (lat ''0O'')} then radix_value 8 (drop 2 t)
      else if take 2 t \<in> {(lat ''0b''), (lat ''0B'')} then radix_value 2 (drop 2 t)
      else if hd t = 45 then neg_num (decimal_value (tl t))
      else if hd t = 43 then decimal_value (tl t)
      else decimal_value t)"

text \<open>\<open>Number.isInteger\<close>, \<open>Number.isFinite\<close> and the comparison with zero.\<close>

definition is_integer :: "js_num \<Rightarrow> bool" where
  "is_integer n = (case n of Fin r \<Rightarrow> of_int \<lfloor>r\<rfloor> = r | _ \<Rightarrow> False)"

definition is_finite :: "js_num \<Rightarrow> bool" where
  "is_finite n = (case n of Fin r \<Rightarrow> True | _ \<Rightarrow> False)"

definition positive :: "js_num \<Rightarrow> bool" where
  "positive n = (case n of Fin r \<Rightarrow> 0 < r | PosInf \<Rightarrow> True | _ \<Rightarrow> False)"

definition negative :: "js_num \<Rightarrow> bool" where
  "negative n = (case n of Fin r \<Rightarrow> r < 0 | NegInf \<Rightarrow> True | _ \<Rightarrow> False)"

lemma digit_no_space: "is_digit c \<Longrightarrow> \<not> is_space c"
  by (simp add: is_digit_def is_space_def)

text \<open>A number printed by the program reads back.\<close>

lemma str_number_nat_str: "str_number (nat_str n) = Fin (of_nat n)"
proof -
  have d: "\<forall>c \<in> set (nat_str n). is_digit c" by (rule nat_str_digits)
  have ne: "nat_str n \<noteq> []" by (subst nat_str.simps) simp
  have sp: "trim (nat_str n) = nat_str n"
    using ne d hd_in_set [OF ne] last_in_set [OF ne] digit_no_space by (intro trim_fixpoint) auto
  have tk: "takeWhile is_digit (nat_str n) = nat_str n" "dropWhile is_digit (nat_str n) = []"
    using d by (simp_all add: takeWhile_eq_all_conv dropWhile_eq_Nil_conv)
  have "nat_str n \<noteq> (lat ''Infinity'')" using d by (auto simp: js_lit is_digit_def)
  then have "decimal_value (nat_str n) = Fin (of_nat n)"
    unfolding decimal_value_def Let_def tk using ne by (simp add: exponent_def pow10_def digits_val_def [of "[]"])
  moreover have "take 2 (nat_str n) \<notin> {(lat ''0x''), (lat ''0X''), (lat ''0o''), (lat ''0O''), (lat ''0b''), (lat ''0B'')}"
  proof
    assume "take 2 (nat_str n) \<in> {(lat ''0x''), (lat ''0X''), (lat ''0o''), (lat ''0O''), (lat ''0b''), (lat ''0B'')}"
    then have "\<exists>c \<in> set (take 2 (nat_str n)). \<not> is_digit c" by (auto simp: js_lit is_digit_def)
    with d show False by (auto dest: in_set_takeD)
  qed
  moreover have "hd (nat_str n) \<noteq> 45 \<and> hd (nat_str n) \<noteq> 43"
    using bspec [OF d hd_in_set [OF ne]] by (auto simp: is_digit_def)
  ultimately show ?thesis using ne by (simp add: str_number_def sp Let_def)
qed

end
