(* ===== verification/GwContract.thy ===== *)
theory GwContract
  imports JsNumber
begin

text \<open>
  The gateway's configuration and its wire contract (\<open>gateway/src/config.js\<close>,
  \<open>gateway/src/contract.js\<close>).

  A decoded WhatsApp message is what the messaging library hands over: the routing key and
  the sender's name are optional strings, the content is a tree \<open>wa\<close> of objects, strings,
  integers and 64 bit \<open>Long\<close>s (\<open>W_long None\<close> is one whose \<open>toNumber\<close> throws). Arrays, byte
  strings and fractions occur in messages only where this code never reads them. Optional
  strings are falsy when absent or empty.
\<close>

section \<open>JavaScript values\<close>

datatype wa =
    W_undef
  | W_null
  | W_bool bool
  | W_int int
  | W_str jsstr
  | W_long "int option"
  | W_obj "(jsstr \<times> wa) list"

fun truthy :: "wa \<Rightarrow> bool" where
  "truthy W_undef = False"
| "truthy W_null = False"
| "truthy (W_bool b) = b"
| "truthy (W_int n) = (n \<noteq> 0)"
| "truthy (W_str s) = (s \<noteq> [])"
| "truthy (W_long n) = True"
| "truthy (W_obj kvs) = True"

fun is_object :: "wa \<Rightarrow> bool" where
  "is_object (W_obj kvs) = True"
| "is_object (W_long n) = True"
| "is_object v = False"

fun object_keys :: "wa \<Rightarrow> jsstr list" where
  "object_keys (W_obj kvs) = map fst kvs"
| "object_keys (W_long n) = [(lat ''low''), (lat ''high''), (lat ''unsigned'')]"
| "object_keys v = []"

text \<open>\<open>v?.k\<close>\<close>

fun get_prop :: "wa \<Rightarrow> jsstr \<Rightarrow> wa" where
  "get_prop (W_obj kvs) k = (case map_of kvs k of None \<Rightarrow> W_undef | Some v \<Rightarrow> v)"
| "get_prop v k = W_undef"

fun first_truthy :: "wa list \<Rightarrow> wa \<Rightarrow> wa" where
  "first_truthy [] d = d"
| "first_truthy (v # vs) d = (if truthy v then v else first_truthy vs d)"

text \<open>\<open>a || b\<close> on optional strings.\<close>

definition or_str :: "jsstr option \<Rightarrow> jsstr option \<Rightarrow> jsstr option" where
  "or_str a b = (if a = None \<or> a = Some [] then b else a)"

definition str_or_empty :: "jsstr option \<Rightarrow> jsstr" where
  "str_or_empty a = (case a of None \<Rightarrow> [] | Some s \<Rightarrow> s)"

definition int_digits :: "int \<Rightarrow> jsstr" where
  "int_digits n = (if n < 0 then 45 # nat_str (nat (- n)) else nat_str (nat n))"

fun to_string :: "wa \<Rightarrow> jsstr" where
  "to_string W_undef = (lat ''undefined'')"
| "to_string W_null = (lat ''null'')"
| "to_string (W_bool b) = (if b then (lat ''true'') else (lat ''false''))"
| "to_string (W_int n) = int_digits n"
| "to_string (W_str s) = s"
| "to_string (W_long n) = (case n of None \<Rightarrow> [] | Some i \<Rightarrow> int_digits i)"
| "to_string (W_obj kvs) = (lat ''[object Object]'')"

fun to_number :: "wa \<Rightarrow> js_num" where
  "to_number W_undef = NaN"
| "to_number W_null = Fin 0"
| "to_number (W_bool b) = Fin (if b then 1 else 0)"
| "to_number (W_int n) = Fin (of_int n)"
| "to_number (W_str s) = str_number s"
| "to_number (W_long n) = (case n of None \<Rightarrow> NaN | Some i \<Rightarrow> Fin (of_int i))"
| "to_number (W_obj kvs) = NaN"

text \<open>\<open>Number(x) || 0\<close> and \<open>x > n\<close>.\<close>

definition or_zero :: "js_num \<Rightarrow> js_num" where
  "or_zero n = (if n = NaN then Fin 0 else n)"

definition exceeds :: "js_num \<Rightarrow> nat \<Rightarrow> bool" where
  "exceeds x n = (case x of Fin r \<Rightarrow> of_nat n < r | PosInf \<Rightarrow> True | NegInf \<Rightarrow> False | NaN \<Rightarrow> False)"

section \<open>config.js\<close>

definition forbidden_secrets :: "jsstr list" where
  "forbidden_secrets = [(lat ''change-me''), (lat ''changeme''), (lat ''my-secret-token'')]"

text \<open>\<open>None\<close> is the thrown error that keeps the process from booting.\<close>

definition requireEnv :: "(jsstr \<Rightarrow> jsstr option) \<Rightarrow> jsstr \<Rightarrow> jsstr option" where
  "requireEnv env name =
     (let value = trim (str_or_empty (env name)) in
      if value = [] then None
      else if lower value \<in> set forbidden_secrets then None
      else Some value)"

record gw_config =
  cfg_port :: js_num
  cfg_gatewayApiToken :: jsstr
  cfg_backendBaseUrl :: jsstr
  cfg_backendWebhookUrl :: jsstr
  cfg_sessionPollMs :: js_num
  cfg_logLevel :: jsstr

text \<open>\<open>s.replace(/\/webhook\/whatsapp\/?$/, '')\<close>\<close>

definition strip_suffix :: "jsstr \<Rightarrow> jsstr \<Rightarrow> jsstr" where
  "strip_suffix suf s =
     (if length suf \<le> length s \<and> drop (length s - length suf) s = suf then take (length s - length suf) s else s)"

definition strip_webhook :: "jsstr \<Rightarrow> jsstr" where
  "strip_webhook s =
     (let w = (lat ''/webhook/whatsapp'') in
      if strip_suffix (w @ [47]) s \<noteq> s then strip_suffix (w @ [47]) s else strip_suffix w s)"

definition or_jsstr :: "jsstr \<Rightarrow> jsstr \<Rightarrow> jsstr" where
  "or_jsstr a b = (if a \<noteq> [] then a else b)"

definition or_num :: "js_num \<Rightarrow> nat \<Rightarrow> js_num" where
  "or_num n d = (if n = NaN \<or> n = Fin 0 then Fin (of_nat d) else n)"

definition env_number :: "(jsstr \<Rightarrow> jsstr option) \<Rightarrow> jsstr \<Rightarrow> js_num" where
  "env_number env name = (case env name of None \<Rightarrow> NaN | Some s \<Rightarrow> str_number s)"

definition loadConfig :: "(jsstr \<Rightarrow> jsstr option) \<Rightarrow> gw_config option" where
  "loadConfig env =
     (let var = (\<lambda>n. trim (str_or_empty (env n)));
          backendBaseUrl = or_jsstr (var (lat ''BACKEND_BASE_URL''))
            (or_jsstr (strip_webhook (var (lat ''BACKEND_WEBHOOK_URL''))) (lat ''http://backend:8000''))
      in map_option (\<lambda>token.
           \<lparr>cfg_port = or_num (env_number env (lat ''PORT'')) 3000,
            cfg_gatewayApiToken = token,
            cfg_backendBaseUrl = backendBaseUrl,
            cfg_backendWebhookUrl = or_jsstr (var (lat ''BACKEND_WEBHOOK_URL''))
              (backendBaseUrl @ (lat ''/webhook/whatsapp'')),
            cfg_sessionPollMs = or_num (env_number env (lat ''SESSION_POLL_MS'')) 15000,
            cfg_logLevel = or_jsstr (var (lat ''LOG_LEVEL'')) (lat ''info'')\<rparr>)
         (requireEnv env (lat ''GATEWAY_API_TOKEN'')))"

section \<open>contract.js\<close>

definition WRAPPER_KEYS :: "jsstr list" where
  "WRAPPER_KEYS = [(lat ''ephemeralMessage''), (lat ''viewOnceMessage''), (lat ''viewOnceMessageV2''),
     (lat ''viewOnceMessageV2Extension''), (lat ''documentWithCaptionMessage'')]"

definition META_KEYS :: "jsstr list" where
  "META_KEYS = [(lat ''messageContextInfo''), (lat ''senderKeyDistributionMessage'')]"

text \<open>The bounded loop, with the number of rounds left.\<close>

fun unwrap_loop :: "nat \<Rightarrow> wa \<Rightarrow> wa" where
  "unwrap_loop 0 current = current"
| "unwrap_loop (Suc n) current =
     (case find (\<lambda>k. k \<in> set WRAPPER_KEYS) (object_keys current) of
        None \<Rightarrow> current
      | Some key \<Rightarrow>
          (let inner = get_prop (get_prop current key) (lat ''message'') in
           if \<not> truthy inner \<or> \<not> is_object inner then current else unwrap_loop n inner))"

definition unwrapMessage :: "wa \<Rightarrow> wa" where
  "unwrapMessage message = unwrap_loop 5 (if truthy message \<and> is_object message then message else W_obj [])"

definition messageType :: "wa \<Rightarrow> jsstr" where
  "messageType message =
     (case find (\<lambda>k. k \<notin> set META_KEYS) (object_keys (unwrapMessage message)) of
        None \<Rightarrow> (lat ''unknown'')
      | Some key \<Rightarrow> if key \<noteq> [] then key else (lat ''unknown''))"

definition extractText :: "wa \<Rightarrow> wa" where
  "extractText message =
     (if \<not> truthy message then W_str []
      else
        (let content = unwrapMessage message in
         first_truthy
           [get_prop content (lat ''conversation''), get_prop (get_prop content (lat ''extendedTextMessage'')) (lat ''text''),
            get_prop (get_prop content (lat ''imageMessage'')) (lat ''caption''),
            get_prop (get_prop content (lat ''videoMessage'')) (lat ''caption''),
            get_prop (get_prop content (lat ''documentMessage'')) (lat ''caption'')]
           (W_str [])))"

definition MAX_MEDIA_BYTES :: nat where
  "MAX_MEDIA_BYTES = 10 * 1024 * 1024"

definition ALLOWED_MEDIA_MIME :: "jsstr list" where
  "ALLOWED_MEDIA_MIME =
     [(lat ''image/jpeg''), (lat ''image/png''), (lat ''image/webp''), (lat ''application/pdf''),
      (lat ''application/msword''),
      (lat ''application/vnd.openxmlformats-officedocument.wordprocessingml.document''),
      (lat ''application/vnd.ms-powerpoint''),
      (lat ''application/vnd.openxmlformats-officedocument.presentationml.presentation'')]"

definition extractMedia :: "wa \<Rightarrow> (wa \<times> jsstr) option" where
  "extractMedia message =
     (let content = unwrapMessage message;
          image = get_prop content (lat ''imageMessage'');
          doc = get_prop content (lat ''documentMessage'')
      in if truthy image then Some (image, (lat ''imageMessage''))
         else if truthy doc then Some (doc, (lat ''documentMessage''))
         else None)"

definition mediaSize :: "wa \<Rightarrow> js_num" where
  "mediaSize node =
     (case get_prop node (lat ''fileLength'') of
        W_undef \<Rightarrow> Fin 0
      | W_null \<Rightarrow> Fin 0
      | W_int n \<Rightarrow> Fin (of_int n)
      | W_str s \<Rightarrow> or_zero (str_number s)
      | W_long n \<Rightarrow> (case n of None \<Rightarrow> Fin 0 | Some i \<Rightarrow> Fin (of_int i))
      | v \<Rightarrow> or_zero (to_number v))"

definition mediaMime :: "wa \<Rightarrow> jsstr" where
  "mediaMime node =
     lower (trim (takeWhile (\<lambda>c. c \<noteq> 59)
       (to_string (first_truthy [get_prop node (lat ''mimetype'')] (W_str [])))))"

definition MEDIA_TOO_BIG_MSG :: jsstr where
  "MEDIA_TOO_BIG_MSG = (heb ''dweau bcel nci '' @ [55357, 56853] @ heb '' @tyx lyleg weau rc 10MB.'')"

definition MEDIA_BAD_TYPE_MSG :: jsstr where
  "MEDIA_BAD_TYPE_MSG = (heb ''qeb dweau dfd l@ pznj '' @ [55357, 56853] @ heb '' @tyx lyleg znepd, PDF, nqnj W'' @ lat ''ord '' @ heb ''@e nvbz.'')"

definition MEDIA_FAILED_MSG :: jsstr where
  "MEDIA_FAILED_MSG = (heb ''l@ dvlgzi lwal @z dweau '' @ [55357, 56853] @ heb '' @tyx lpqez lyleg @eze yea?'')"

text \<open>\<open>None\<close> when the attachment may be downloaded, otherwise the refusal.\<close>

definition checkMediaAllowed :: "wa \<Rightarrow> jsstr option" where
  "checkMediaAllowed node =
     (if exceeds (mediaSize node) MAX_MEDIA_BYTES then Some MEDIA_TOO_BIG_MSG
      else if mediaMime node \<notin> set ALLOWED_MEDIA_MIME then Some MEDIA_BAD_TYPE_MSG
      else None)"

definition jidToE164 :: "jsstr option \<Rightarrow> jsstr" where
  "jidToE164 jid =
     (case jid of
        None \<Rightarrow> []
      | Some j \<Rightarrow>
          (let user = filter is_digit (takeWhile (\<lambda>c. c \<noteq> 58) (takeWhile (\<lambda>c. c \<noteq> 64) j))
           in if user \<noteq> [] then 43 # user else []))"

record wa_key =
  k_remoteJid :: "jsstr option"
  k_senderPn :: "jsstr option"
  k_participant :: "jsstr option"
  k_id :: "jsstr option"
  k_fromMe :: bool

record wa_message =
  wm_key :: wa_key
  wm_message :: wa
  wm_pushName :: "jsstr option"
  wm_timestamp :: wa
  wm_stub :: "nat option"

record stored_media =
  sm_file_id :: jsstr
  sm_mime_type :: jsstr
  sm_name :: jsstr

record payload_opts =
  po_conversationId :: "jsstr option"
  po_selfTest :: bool
  po_media :: "stored_media option"

record webhook_payload =
  wp_gateway_account_id :: jsstr
  wp_from :: jsstr
  wp_push_name :: jsstr
  wp_message_id :: jsstr
  wp_timestamp :: "js_num option"
  wp_type :: jsstr
  wp_text :: wa
  wp_raw :: wa_message
  wp_conversation_id :: jsstr
  wp_self_test :: bool
  wp_media :: "stored_media option"

definition buildWebhookPayload :: "wa_message \<Rightarrow> jsstr \<Rightarrow> payload_opts \<Rightarrow> webhook_payload" where
  "buildWebhookPayload msg gatewayAccountId opts =
     (let content = first_truthy [wm_message msg] (W_obj []);
          t = to_number (wm_timestamp msg)
      in \<lparr>wp_gateway_account_id = gatewayAccountId,
          wp_from = jidToE164 (or_str (k_senderPn (wm_key msg)) (k_remoteJid (wm_key msg))),
          wp_push_name = str_or_empty (wm_pushName msg),
          wp_message_id = str_or_empty (k_id (wm_key msg)),
          wp_timestamp = (if t = NaN \<or> t = Fin 0 then None else Some t),
          wp_type = messageType content,
          wp_text = extractText content,
          wp_raw = msg,
          wp_conversation_id = str_or_empty (or_str (po_conversationId opts) (k_remoteJid (wm_key msg))),
          wp_self_test = po_selfTest opts,
          wp_media = (case po_media opts of None \<Rightarrow> None
            | Some m \<Rightarrow> if sm_file_id m \<noteq> [] then Some m else None)\<rparr>)"

section \<open>Wrapped messages\<close>

text \<open>
  \<open>wrapped n m c\<close>: the content \<open>c\<close> inside \<open>n\<close> wrappers, each with whatever else rides along.
\<close>

inductive wrapped :: "nat \<Rightarrow> wa \<Rightarrow> wa \<Rightarrow> bool" where
  w_core: "wrapped 0 c c"
| w_wrap: "wrapped n m c \<Longrightarrow> k \<in> set WRAPPER_KEYS \<Longrightarrow> set (map fst pre) \<inter> set WRAPPER_KEYS = {} \<Longrightarrow>
     map_of inner (lat ''message'') = Some m \<Longrightarrow>
     wrapped (Suc n) (W_obj (pre @ (k, W_obj inner) # post)) c"

definition plain_content :: "wa \<Rightarrow> bool" where
  "plain_content c \<longleftrightarrow> (\<exists>kvs. c = W_obj kvs \<and> set (map fst kvs) \<inter> set WRAPPER_KEYS = {})"

lemma find_None_disjoint: "set xs \<inter> A = {} \<Longrightarrow> find (\<lambda>k. k \<in> A) xs = None"
  by (auto simp: find_None_iff)

lemma find_first: "set xs \<inter> A = {} \<Longrightarrow> k \<in> A \<Longrightarrow> find (\<lambda>k. k \<in> A) (xs @ k # ys) = Some k"
  by (induction xs) auto

lemma wrapped_object: "wrapped n m c \<Longrightarrow> plain_content c \<Longrightarrow> \<exists>kvs. m = W_obj kvs"
  by (induction rule: wrapped.induct) (auto simp: plain_content_def)

lemma unwrap_plain: "plain_content c \<Longrightarrow> unwrap_loop n c = c"
  by (cases n) (auto simp: plain_content_def find_None_disjoint)

lemma unwrap_step:
  assumes "k \<in> set WRAPPER_KEYS" "set (map fst pre) \<inter> set WRAPPER_KEYS = {}"
    "map_of inner (lat ''message'') = Some (W_obj kvs)"
  shows "unwrap_loop (Suc n) (W_obj (pre @ (k, W_obj inner) # post)) = unwrap_loop n (W_obj kvs)"
proof -
  have f: "find (\<lambda>k. k \<in> set WRAPPER_KEYS) (map fst (pre @ (k, W_obj inner) # post)) = Some k"
    using find_first [OF assms(2,1), of "map fst post"] by simp
  have "k \<notin> fst ` set pre" using assms(1,2) by auto
  then have "map_of (pre @ (k, W_obj inner) # post) k = Some (W_obj inner)"
    by (auto simp: map_add_def map_of_eq_None_iff [THEN iffD2] split: option.split)
  with f assms(3) show ?thesis by simp
qed

lemma unwrap_wrapped: "wrapped n m c \<Longrightarrow> plain_content c \<Longrightarrow> n \<le> r \<Longrightarrow> unwrap_loop r m = c"
proof (induction arbitrary: r rule: wrapped.induct)
  case (w_core c)
  then show ?case by (simp add: unwrap_plain)
next
  case (w_wrap n m c k pre inner post)
  from w_wrap.prems obtain r' where r: "r = Suc r'" "n \<le> r'" by (cases r) auto
  obtain kvs where m: "m = W_obj kvs" using wrapped_object w_wrap by blast
  from unwrap_step [OF w_wrap(2,3) w_wrap(4) [unfolded m]] w_wrap.IH [OF w_wrap.prems(1) r(2)] r m
  show ?case by simp
qed

text \<open>One turn of the loop: the content inside the first wrapper key, if there is one.\<close>

definition peel :: "wa \<Rightarrow> wa option" where
  "peel c =
     (case find (\<lambda>k. k \<in> set WRAPPER_KEYS) (object_keys c) of
        None \<Rightarrow> None
      | Some key \<Rightarrow>
          (let inner = get_prop (get_prop c key) (lat ''message'') in
           if \<not> truthy inner \<or> \<not> is_object inner then None else Some inner))"

fun peel_n :: "nat \<Rightarrow> wa \<Rightarrow> wa option" where
  "peel_n 0 c = Some c"
| "peel_n (Suc n) c = (case peel c of None \<Rightarrow> None | Some i \<Rightarrow> peel_n n i)"

lemma unwrap_peel: "unwrap_loop (Suc n) c = (case peel c of None \<Rightarrow> c | Some i \<Rightarrow> unwrap_loop n i)"
  by (simp add: peel_def Let_def split: option.splits)

lemma unwrap_turns: "\<exists>k \<le> n. peel_n k c = Some (unwrap_loop n c) \<and> (k < n \<longrightarrow> peel (unwrap_loop n c) = None)"
proof (induction n arbitrary: c)
  case (Suc n)
  show ?case
  proof (cases "peel c")
    case None
    then show ?thesis unfolding unwrap_peel by (intro exI [of _ 0]) simp
  next
    case (Some i)
    from Suc.IH [of i] obtain k where "k \<le> n" "peel_n k i = Some (unwrap_loop n i)"
      "k < n \<longrightarrow> peel (unwrap_loop n i) = None" by blast
    with Some show ?thesis unfolding unwrap_peel by (intro exI [of _ "Suc k"]) simp
  qed
qed simp

lemma get_prop_smaller:
  assumes "get_prop v k = x" "x \<noteq> W_undef"
  shows "size x < size v"
proof (cases v)
  case (W_obj kvs)
  with assms have m: "(k, x) \<in> set kvs" by (auto split: option.splits dest: map_of_SomeD)
  have "size x \<le> size_list (\<lambda>p. size_prod (\<lambda>x. 0) size p) kvs"
    using size_list_estimation' [OF m, of "size x" "\<lambda>p. size_prod (\<lambda>x. 0) size p"] by simp
  with W_obj show ?thesis by simp
qed (use assms in auto)

lemma peel_smaller: "peel c = Some i \<Longrightarrow> size i < size c"
proof -
  assume p: "peel c = Some i"
  then obtain key where "i = get_prop (get_prop c key) (lat ''message'')" "truthy i"
    by (auto simp: peel_def Let_def split: option.splits if_splits)
  then have "i \<noteq> W_undef" "get_prop (get_prop c key) (lat ''message'') = i" by auto
  from get_prop_smaller [OF this(2,1)] this have a: "size i < size (get_prop c key)" "get_prop c key \<noteq> W_undef" by auto
  with get_prop_smaller [OF refl a(2)] show ?thesis by simp
qed

lemma unwrap_all: "size c \<le> n \<Longrightarrow> peel (unwrap_loop n c) = None"
proof (induction n arbitrary: c)
  case (Suc n)
  show ?case
  proof (cases "peel c")
    case (Some i)
    then have "size i \<le> n" using peel_smaller [OF Some] Suc.prems by simp
    from Suc.IH [OF this] Some show ?thesis unfolding unwrap_peel by simp
  qed (unfold unwrap_peel, simp)
next
  case 0
  then have "peel c \<noteq> Some i" for i using peel_smaller [of c i] by auto
  then show ?case by (cases "peel c") auto
qed

section \<open>Properties\<close>

text \<open>
  Property C27. Wrapping is invisible: a message nested in up to five disappearing, view-once
  or caption wrappers, with any metadata beside each, is read as its innermost content: the
  same type, the same text and the same attachment.
\<close>

theorem wrapping_is_invisible:
  assumes "wrapped n m c" "plain_content c" "n \<le> 5"
  shows "unwrapMessage m = c \<and> messageType m = messageType c \<and> extractText m = extractText c
    \<and> extractMedia m = extractMedia c"
proof -
  obtain kvs where m: "m = W_obj kvs" using wrapped_object [OF assms(1,2)] by blast
  obtain kvs' where c: "c = W_obj kvs'" using assms(2) by (auto simp: plain_content_def)
  have u: "unwrapMessage m = c" "unwrapMessage c = c"
    using unwrap_wrapped [OF assms] unwrap_plain [OF assms(2)] by (simp_all add: unwrapMessage_def m c)
  show ?thesis unfolding messageType_def extractText_def extractMedia_def u by (simp add: m c)
qed

theorem wrapping_is_invisible_witness:
  "messageType (W_obj [(lat ''messageContextInfo'', W_obj []), (lat ''ephemeralMessage'',
      W_obj [(lat ''message'', W_obj [(lat ''imageMessage'', W_obj [])])])]) = lat ''imageMessage''"
proof -
  let ?c = "W_obj [(lat ''imageMessage'', W_obj [])]"
  have p: "plain_content ?c" by (simp add: plain_content_def WRAPPER_KEYS_def js_lit)
  have "wrapped 1 (W_obj ([(lat ''messageContextInfo'', W_obj [])] @
      (lat ''ephemeralMessage'', W_obj [(lat ''message'', ?c)]) # [])) ?c"
    unfolding One_nat_def by (rule w_wrap [OF w_core]) (simp_all add: WRAPPER_KEYS_def js_lit)
  from wrapping_is_invisible [OF this p] have "messageType (W_obj ([(lat ''messageContextInfo'', W_obj [])] @
      (lat ''ephemeralMessage'', W_obj [(lat ''message'', ?c)]) # [])) = messageType ?c" by simp
  moreover have "messageType ?c = lat ''imageMessage''"
    using unwrap_plain [OF p] by (simp add: messageType_def unwrapMessage_def META_KEYS_def js_lit)
  ultimately show ?thesis by simp
qed

text \<open>
  Property C28. Reading a message ends, however deeply a remote sender nests it: at most five
  wrappers are taken off, one per turn; fewer only when nothing is left to take off; and
  without the bound the loop would end too, since every turn shrinks the content.
\<close>

theorem unwrap_terminates:
  "\<exists>c k. c = (if truthy m \<and> is_object m then m else W_obj []) \<and> k \<le> 5 \<and> peel_n k c = Some (unwrapMessage m)
    \<and> (k = 5 \<or> peel (unwrapMessage m) = None)
    \<and> (\<forall>n. peel (unwrap_loop (size c + n) c) = None)"
proof -
  let ?c = "if truthy m \<and> is_object m then m else W_obj []"
  obtain k where "k \<le> 5" "peel_n k ?c = Some (unwrap_loop 5 ?c)" "k < 5 \<longrightarrow> peel (unwrap_loop 5 ?c) = None"
    using unwrap_turns [of 5 ?c] by blast
  then show ?thesis using unwrap_all [of ?c] unfolding unwrapMessage_def
    by (intro exI [of _ ?c] exI [of _ k]) auto
qed

text \<open>
  The webhook names the customer by phone: when the key carries the sender's
  phone address, with or without a device suffix, \<open>from\<close> is its international number whatever
  hidden id the chat has, while the conversation stays the chat's own id.
\<close>

theorem payload_names_customer:
  assumes "user \<noteq> []" "list_all is_digit user" "dev = [] \<or> hd dev = 58" "64 \<notin> set dev"
    "k_senderPn (wm_key msg) = Some (user @ dev @ [64] @ server)"
    "po_conversationId opts = k_remoteJid (wm_key msg)"
  shows "let p = buildWebhookPayload msg acc opts in
    wp_from p = 43 # user \<and> wp_conversation_id p = str_or_empty (k_remoteJid (wm_key msg))
    \<and> wp_gateway_account_id p = acc"
proof -
  have d: "\<forall>c \<in> set user. c \<noteq> 58 \<and> c \<noteq> 64" "filter is_digit user = user"
    using assms(2) by (auto simp: list_all_iff is_digit_def filter_id_conv)
  have "takeWhile (\<lambda>c. c \<noteq> 64) (user @ dev @ [64] @ server) = user @ dev"
    using d assms(4) by (auto simp: takeWhile_append takeWhile_eq_all_conv)
  moreover have "takeWhile (\<lambda>c. c \<noteq> 58) (user @ dev) = user"
    using d assms(3) by (cases dev) (auto simp: takeWhile_append takeWhile_eq_all_conv)
  ultimately have "jidToE164 (Some (user @ dev @ [64] @ server)) = 43 # user"
    using assms(1) d by (simp add: jidToE164_def)
  with assms show ?thesis
    by (auto simp: buildWebhookPayload_def Let_def or_str_def)
qed

theorem payload_names_customer_witness:
  "wp_from (buildWebhookPayload \<lparr>wm_key = \<lparr>k_remoteJid = Some (lat ''77@lid''), k_senderPn = Some (lat ''97250:3@s''),
      k_participant = None, k_id = None, k_fromMe = False\<rparr>, wm_message = W_undef, wm_pushName = None,
      wm_timestamp = W_undef, wm_stub = None\<rparr> [98]
      \<lparr>po_conversationId = Some (lat ''77@lid''), po_selfTest = False, po_media = None\<rparr>) = lat ''+97250''"
  using payload_names_customer [of "lat ''97250''" "lat '':3''" "\<lparr>wm_key = \<lparr>k_remoteJid = Some (lat ''77@lid''),
      k_senderPn = Some (lat ''97250:3@s''), k_participant = None, k_id = None, k_fromMe = False\<rparr>,
      wm_message = W_undef, wm_pushName = None, wm_timestamp = W_undef, wm_stub = None\<rparr>" "lat ''s''"
      "\<lparr>po_conversationId = Some (lat ''77@lid''), po_selfTest = False, po_media = None\<rparr>" "[98]"]
  by (simp add: js_lit is_digit_def Let_def)

end
