(* ===== verification/GwSession.thy ===== *)
theory GwSession
  imports GwContract JsObject
begin

text \<open>
  One WhatsApp session of the gateway (\<open>gateway/src/session.js\<close>), the parts between its
  socket events: the serialized and rate limited sending, the memory of sent messages, the
  recovery from decryption failures, and the handling of an inbound message.

  \<open>Set\<close> and \<open>Map\<close> keep insertion order: they are lists, newest last, a \<open>Map\<close> with the
  operations of a plain object. The messaging library
  and the backend are parameters: \<open>nrm\<close> is \<open>jidNormalizedUser\<close> (\<open>None\<close> when it
  throws), \<open>download\<close>, \<open>upload\<close> and \<open>backend\<close> are the answers to those three calls.
\<close>

section \<open>Ids\<close>

definition normalizeJidSafe :: "(jsstr \<Rightarrow> jsstr option) \<Rightarrow> jsstr option \<Rightarrow> jsstr option" where
  "normalizeJidSafe nrm jid =
     (case jid of None \<Rightarrow> None | Some j \<Rightarrow> if j = [] then None else nrm j)"

definition jidUser :: "jsstr option \<Rightarrow> jsstr option" where
  "jidUser jid =
     (case jid of None \<Rightarrow> None | Some j \<Rightarrow>
        (let user = filter is_digit (takeWhile (\<lambda>c. c \<noteq> 46) (takeWhile (\<lambda>c. c \<noteq> 58) (takeWhile (\<lambda>c. c \<noteq> 64) j)))
         in if user \<noteq> [] then Some user else None))"

definition isSelfChat :: "(jsstr \<Rightarrow> jsstr option) \<Rightarrow> jsstr option \<Rightarrow> jsstr option \<Rightarrow> jsstr option \<Rightarrow> bool" where
  "isSelfChat nrm ownJid ownLid remoteJid =
     (case normalizeJidSafe nrm remoteJid of
        None \<Rightarrow> False
      | Some n \<Rightarrow> n \<noteq> [] \<and> (ownJid = Some n \<or> ownLid = Some n))"

definition ownPhoneDigits :: "jsstr option \<Rightarrow> jsstr option" where
  "ownPhoneDigits ownJid =
     (case ownJid of None \<Rightarrow> None | Some j \<Rightarrow>
        (let d = filter is_digit (takeWhile (\<lambda>c. c \<noteq> 58) (takeWhile (\<lambda>c. c \<noteq> 64) j))
         in if d \<noteq> [] then Some d else None))"

section \<open>The send chain\<close>

definition SEND_MIN_GAP_MS :: int where
  "SEND_MIN_GAP_MS = 1000"

text \<open>
  A call of \<open>enqueueSend\<close>: when it was made, how much longer than asked its timer took, how
  long the send took, and whether it rejected (the chain goes on either way).
\<close>

record send_job =
  sj_at :: int
  sj_late :: nat
  sj_takes :: nat
  sj_rejects :: bool

text \<open>
  \<open>free\<close> is when the chain's last link settled and \<open>lastSentAt\<close> the variable of that name.
  The result lists start and end of every send.
\<close>

fun run_chain :: "int \<Rightarrow> int \<Rightarrow> send_job list \<Rightarrow> (int \<times> int) list" where
  "run_chain free lastSentAt [] = []"
| "run_chain free lastSentAt (j # js) =
     (let begin_at = max free (sj_at j);
          wait = max 0 (lastSentAt + SEND_MIN_GAP_MS - begin_at);
          start = (if wait = 0 then begin_at else begin_at + wait + int (sj_late j));
          stop = start + int (sj_takes j)
      in (start, stop) # run_chain stop stop js)"

section \<open>Memory of sent messages\<close>

definition SENT_ID_CAP :: nat where "SENT_ID_CAP = 200"
definition SENT_MSG_CAP :: nat where "SENT_MSG_CAP = 500"

record 'm sent_memory =
  sm_ids :: "jsstr list"
  sm_messages :: "(jsstr \<times> 'm) list"

text \<open>Inserting into a \<open>Set\<close> or \<open>Map\<close>, then dropping its oldest entry above the cap.\<close>

definition set_add :: "jsstr \<Rightarrow> jsstr list \<Rightarrow> jsstr list" where
  "set_add x xs = (if x \<in> set xs then xs else xs @ [x])"

definition evict :: "nat \<Rightarrow> 'a list \<Rightarrow> 'a list" where
  "evict cap xs = (if cap < length xs then tl xs else xs)"

definition rememberSentMessage :: "jsstr option \<Rightarrow> 'm option \<Rightarrow> 'm sent_memory \<Rightarrow> 'm sent_memory" where
  "rememberSentMessage mid message m =
     (case mid of None \<Rightarrow> m | Some i \<Rightarrow>
        if i = [] then m
        else
          (let m1 = m\<lparr>sm_ids := evict SENT_ID_CAP (set_add i (sm_ids m))\<rparr> in
           case message of
             None \<Rightarrow> m1
           | Some x \<Rightarrow> m1\<lparr>sm_messages := evict SENT_MSG_CAP (put i x (sm_messages m))\<rparr>))"

section \<open>Recovery from decryption failures\<close>

definition DECRYPT_CLEAR_THRESHOLD :: nat where "DECRYPT_CLEAR_THRESHOLD = 2"
definition DECRYPT_CLEAR_COOLDOWN_MS :: int where "DECRYPT_CLEAR_COOLDOWN_MS = 60000"

record failure_rec =
  fr_count :: nat
  fr_clearedAt :: int

type_synonym failures = "jsstr \<rightharpoonup> failure_rec"

definition failure_of :: "failures \<Rightarrow> jsstr \<Rightarrow> failure_rec" where
  "failure_of f u = (case f u of None \<Rightarrow> \<lparr>fr_count = 0, fr_clearedAt = 0\<rparr> | Some r \<Rightarrow> r)"

text \<open>One user of the failed message: the new table, and whether it asks for a clear.\<close>

definition count_failure :: "int \<Rightarrow> jsstr \<Rightarrow> failures \<Rightarrow> failures \<times> bool" where
  "count_failure now u f =
     (let r = failure_of f u;
          c = fr_count r + 1;
          hit = (DECRYPT_CLEAR_THRESHOLD \<le> c \<and> DECRYPT_CLEAR_COOLDOWN_MS < now - fr_clearedAt r)
      in (f(u \<mapsto> (if hit then \<lparr>fr_count = 0, fr_clearedAt = now\<rparr> else r\<lparr>fr_count := c\<rparr>)), hit))"

fun count_failures :: "int \<Rightarrow> jsstr list \<Rightarrow> failures \<Rightarrow> failures \<times> bool" where
  "count_failures now [] f = (f, False)"
| "count_failures now (u # us) f =
     (let (f1, hit) = count_failure now u f; (f2, hits) = count_failures now us f1 in (f2, hit \<or> hits))"

definition failed_users :: "wa_key \<Rightarrow> jsstr list" where
  "failed_users k =
     fold (\<lambda>jid us. case jidUser jid of None \<Rightarrow> us | Some u \<Rightarrow> set_add u us)
       [k_remoteJid k, k_senderPn k, k_participant k] []"

text \<open>The new table, and the users whose stored sessions are cleared.\<close>

definition handleDecryptFailure :: "int \<Rightarrow> wa_key \<Rightarrow> failures \<Rightarrow> failures \<times> jsstr list option" where
  "handleDecryptFailure now k f =
     (let users = failed_users k in
      if users = [] then (f, None)
      else (let (f', shouldClear) = count_failures now users f in (f', if shouldClear then Some users else None)))"

section \<open>Inbound messages\<close>

record upload_request =
  ur_bytes :: "nat list"
  ur_mimeType :: jsstr
  ur_fileName :: wa
  ur_conversationId :: "jsstr option"
  ur_messageId :: "jsstr option"

record inbound_env =
  ie_businessId :: jsstr
  ie_sentIds :: "jsstr list"
  ie_ownJid :: "jsstr option"
  ie_ownLid :: "jsstr option"
  ie_normalize :: "jsstr \<Rightarrow> jsstr option"
  ie_download :: "wa_message \<Rightarrow> nat list option"
  ie_upload :: "upload_request \<Rightarrow> stored_media option"
  ie_backend :: "webhook_payload \<Rightarrow> jsstr option list option"

text \<open>What the handler does to the outside, in order.\<close>

datatype inbound_action =
    Reply jsstr
  | Upload upload_request
  | Forward webhook_payload

text \<open>\<open>sendReplies\<close>: only texts that are not blank; a failing send does not stop the rest.\<close>

definition sendReplies :: "jsstr option list option \<Rightarrow> inbound_action list" where
  "sendReplies replies =
     (case replies of None \<Rightarrow> [] | Some rs \<Rightarrow>
        map Reply (filter (\<lambda>t. trim t \<noteq> []) (map str_or_empty rs)))"

definition fetchAndStoreMedia ::
    "inbound_env \<Rightarrow> wa_message \<Rightarrow> wa \<Rightarrow> inbound_action list \<times> (jsstr + stored_media)" where
  "fetchAndStoreMedia ie msg node =
     (case ie_download ie msg of
        None \<Rightarrow> ([], Inl MEDIA_FAILED_MSG)
      | Some bytes \<Rightarrow>
          if bytes = [] then ([], Inl MEDIA_FAILED_MSG)
          else if MAX_MEDIA_BYTES < length bytes then ([], Inl MEDIA_TOO_BIG_MSG)
          else
            (let req = \<lparr>ur_bytes = bytes, ur_mimeType = mediaMime node,
                        ur_fileName = first_truthy [get_prop node (lat ''fileName'')] W_null,
                        ur_conversationId = k_remoteJid (wm_key msg), ur_messageId = k_id (wm_key msg)\<rparr>
             in ([Upload req], case ie_upload ie req of None \<Rightarrow> Inl MEDIA_FAILED_MSG | Some m \<Rightarrow> Inr m)))"

text \<open>A text that is not a string makes \<open>trim\<close> throw: the outer handler drops the message.\<close>

fun no_text :: "wa \<Rightarrow> bool" where
  "no_text (W_str s) = (trim s = [])"
| "no_text v = True"

definition is_self_chat :: "inbound_env \<Rightarrow> wa_message \<Rightarrow> bool" where
  "is_self_chat ie msg =
     isSelfChat (ie_normalize ie) (ie_ownJid ie) (ie_ownLid ie) (k_remoteJid (wm_key msg))"

text \<open>The three early returns: no content, an own echo, an own message to somebody else.\<close>

definition inbound_dropped :: "inbound_env \<Rightarrow> wa_message \<Rightarrow> bool" where
  "inbound_dropped ie msg \<longleftrightarrow>
     \<not> truthy (wm_message msg)
     \<or> str_or_empty (k_id (wm_key msg)) \<noteq> [] \<and> str_or_empty (k_id (wm_key msg)) \<in> set (ie_sentIds ie)
     \<or> k_fromMe (wm_key msg) \<and> \<not> is_self_chat ie msg"

definition forward_message :: "inbound_env \<Rightarrow> wa_message \<Rightarrow> stored_media option \<Rightarrow> inbound_action list" where
  "forward_message ie msg stored =
     (let payload = buildWebhookPayload msg (ie_businessId ie)
        \<lparr>po_conversationId = k_remoteJid (wm_key msg), po_selfTest = is_self_chat ie msg, po_media = stored\<rparr>
      in Forward payload # sendReplies (ie_backend ie payload))"

definition handleInbound :: "inbound_env \<Rightarrow> wa_message \<Rightarrow> inbound_action list" where
  "handleInbound ie msg =
     (if inbound_dropped ie msg then []
      else
        (case extractMedia (wm_message msg) of
           None \<Rightarrow> if no_text (extractText (wm_message msg)) then [] else forward_message ie msg None
         | Some (node, _) \<Rightarrow>
             (case checkMediaAllowed node of
                Some reason \<Rightarrow> sendReplies (Some [Some reason])
              | None \<Rightarrow>
                  (case fetchAndStoreMedia ie msg node of
                     (acts, Inl err) \<Rightarrow> acts @ sendReplies (Some [Some err])
                   | (acts, Inr stored) \<Rightarrow> acts @ forward_message ie msg (Some stored)))))"

text \<open>
  Dispatch of \<open>messages.upsert\<close>: \<open>CIPHERTEXT\<close> is the library's stub type of a message that
  could not be decrypted, \<open>notify\<close> says that the batch is of type \<open>'notify'\<close>.
\<close>

datatype upsert_call = Decrypt_failure wa_message | Inbound wa_message

definition on_messages_upsert :: "nat \<Rightarrow> bool \<Rightarrow> wa_message list \<Rightarrow> upsert_call list" where
  "on_messages_upsert CIPHERTEXT notify msgs =
     concat (map (\<lambda>m. if wm_stub m = Some CIPHERTEXT then [Decrypt_failure m]
                      else if notify then [Inbound m] else []) msgs)"

section \<open>Lemmas\<close>

lemma length_run_chain [simp]: "length (run_chain f l js) = length js"
  by (induction js arbitrary: f l) (simp_all add: Let_def)

lemma evict_bounded: "length xs \<le> Suc cap \<Longrightarrow> length (evict cap xs) \<le> cap"
  by (auto simp: evict_def)

lemma length_set_add: "length (set_add x xs) \<le> Suc (length xs)"
  by (simp add: set_add_def)

lemma length_put: "length (put k v es) \<le> Suc (length es)"
  by (induction k v es rule: put.induct) auto

lemma distinct_set_add: "distinct xs \<Longrightarrow> distinct (set_add x xs)"
  by (simp add: set_add_def)

lemma distinct_evict: "distinct xs \<Longrightarrow> distinct (evict cap xs)"
  by (simp add: evict_def distinct_tl)

definition memory_ok :: "'m sent_memory \<Rightarrow> bool" where
  "memory_ok m \<longleftrightarrow> length (sm_ids m) \<le> SENT_ID_CAP \<and> distinct (sm_ids m) \<and> length (sm_messages m) \<le> SENT_MSG_CAP"

lemma remember_ok: "memory_ok m \<Longrightarrow> memory_ok (rememberSentMessage i x m)"
proof -
  assume m: "memory_ok m"
  have a: "length (evict SENT_ID_CAP (set_add j (sm_ids m))) \<le> SENT_ID_CAP" for j
    using m length_set_add [of j "sm_ids m"] by (intro evict_bounded) (simp add: memory_ok_def)
  have b: "length (evict SENT_MSG_CAP (put j y (sm_messages m))) \<le> SENT_MSG_CAP" for j y
    using m length_put [of j y "sm_messages m"] by (intro evict_bounded) (simp add: memory_ok_def)
  have c: "distinct (evict SENT_ID_CAP (set_add j (sm_ids m)))" for j
    using m by (simp add: memory_ok_def distinct_evict distinct_set_add)
  from m a b c show ?thesis
    by (auto simp: memory_ok_def rememberSentMessage_def Let_def split: option.split)
qed

definition remember_all :: "(jsstr option \<times> 'm option) list \<Rightarrow> 'm sent_memory" where
  "remember_all calls = fold (\<lambda>(i, x). rememberSentMessage i x) calls \<lparr>sm_ids = [], sm_messages = []\<rparr>"

lemma fold_remember_ok: "memory_ok m \<Longrightarrow> memory_ok (fold (\<lambda>(i, x). rememberSentMessage i x) calls m)"
  by (induction calls arbitrary: m) (auto simp: remember_ok)

lemma remember_all_ok: "memory_ok (remember_all calls)"
  unfolding remember_all_def by (rule fold_remember_ok) (simp add: memory_ok_def)

lemma remember_all_window:
  "distinct ids \<Longrightarrow> [] \<notin> set ids \<Longrightarrow> map fst calls = map Some ids \<Longrightarrow>
   sm_ids (remember_all calls) = drop (length ids - SENT_ID_CAP) ids"
proof (induction ids arbitrary: calls rule: rev_induct)
  case Nil
  then show ?case by (simp add: remember_all_def)
next
  case (snoc i ids)
  from snoc.prems(3) obtain cs x where c: "calls = cs @ [(Some i, x)]" "map fst cs = map Some ids"
    by (auto simp: append_eq_map_conv map_eq_append_conv)
  from snoc have ih: "sm_ids (remember_all cs) = drop (length ids - SENT_ID_CAP) ids" using c(2) by simp
  have n: "i \<notin> set (drop (length ids - SENT_ID_CAP) ids)" "i \<noteq> []"
    using snoc.prems(1,2) by (auto dest: in_set_dropD)
  have "sm_ids (remember_all calls) = evict SENT_ID_CAP (drop (length ids - SENT_ID_CAP) ids @ [i])"
    using n ih by (auto simp: remember_all_def c(1) rememberSentMessage_def set_add_def Let_def split: option.split)
  also have "\<dots> = drop (length (ids @ [i]) - SENT_ID_CAP) (ids @ [i])"
  proof (cases "length ids < SENT_ID_CAP")
    case False
    then have "drop (length ids - SENT_ID_CAP) ids \<noteq> []" by (simp add: SENT_ID_CAP_def)
    with False show ?thesis by (simp add: evict_def tl_drop Suc_diff_le drop_Suc [symmetric])
  qed (simp add: evict_def)
  finally show ?case .
qed

lemma forward_not_reply: "Forward p \<notin> set (sendReplies rs)" "Upload u \<notin> set (sendReplies rs)"
  by (auto simp: sendReplies_def split: option.split)

lemma filter_forward_replies: "filter (\<lambda>a. \<exists>p. a = Forward p) (sendReplies rs) = []"
  using forward_not_reply(1) by (auto simp: filter_empty_conv)

lemma fetch_Inr:
  "fetchAndStoreMedia ie msg node = (acts, Inr stored) \<Longrightarrow>
   \<exists>u. acts = [Upload u] \<and> ur_bytes u \<noteq> [] \<and> length (ur_bytes u) \<le> MAX_MEDIA_BYTES \<and>
     ur_mimeType u = mediaMime node \<and> ie_download ie msg = Some (ur_bytes u) \<and> ie_upload ie u = Some stored"
  by (auto simp: fetchAndStoreMedia_def Let_def split: option.splits if_splits)

lemma fetch_acts:
  "fetchAndStoreMedia ie msg node = (acts, r) \<Longrightarrow> a \<in> set acts \<Longrightarrow>
   \<exists>u. a = Upload u \<and> ur_bytes u \<noteq> [] \<and> length (ur_bytes u) \<le> MAX_MEDIA_BYTES \<and> ur_mimeType u = mediaMime node"
  by (auto simp: fetchAndStoreMedia_def Let_def split: option.splits if_splits)

lemma checkMediaAllowed_mime: "checkMediaAllowed node = None \<Longrightarrow> mediaMime node \<in> set ALLOWED_MEDIA_MIME"
  by (simp add: checkMediaAllowed_def split: if_splits)

section \<open>Properties\<close>

text \<open>
  Sends are serialized and spaced: they happen in the order in which they were
  asked for, none before it was asked for, each at least a second after the end of the one
  before, whether that one succeeded or not; and a send that was waiting starts exactly that
  second later when its timer is on time.
\<close>

theorem sends_keep_gap:
  assumes "r = run_chain free lastSentAt js"
  shows "length r = length js
    \<and> (\<forall>i < length js. sj_at (js ! i) \<le> fst (r ! i) \<and> snd (r ! i) = fst (r ! i) + int (sj_takes (js ! i)))
    \<and> (\<forall>i. Suc i < length js \<longrightarrow> snd (r ! i) + SEND_MIN_GAP_MS \<le> fst (r ! Suc i)
        \<and> (sj_at (js ! Suc i) \<le> snd (r ! i) \<and> sj_late (js ! Suc i) = 0 \<longrightarrow>
             fst (r ! Suc i) = snd (r ! i) + SEND_MIN_GAP_MS))"
  using assms
proof (induction js arbitrary: free lastSentAt r)
  case (Cons j js)
  define w where "w = max free (sj_at j)"
  define d where "d = max 0 (lastSentAt + SEND_MIN_GAP_MS - w)"
  have wd: "sj_at j \<le> w" "0 \<le> d" by (simp_all add: w_def d_def)
  define a where "a = (if d = 0 then w else w + d + int (sj_late j))"
  define b where "b = a + int (sj_takes j)"
  have h: "r = (a, b) # run_chain b b js" "sj_at j \<le> a" "b = a + int (sj_takes j)"
    using Cons.prems wd unfolding run_chain.simps Let_def w_def [symmetric] d_def [symmetric]
      a_def [symmetric] b_def [symmetric] by (simp_all add: a_def b_def)
  note ih = Cons.IH [OF refl, of b b]
  have first: "js \<noteq> [] \<Longrightarrow> b + SEND_MIN_GAP_MS \<le> fst (run_chain b b js ! 0)
      \<and> (sj_at (js ! 0) \<le> b \<and> sj_late (js ! 0) = 0 \<longrightarrow> fst (run_chain b b js ! 0) = b + SEND_MIN_GAP_MS)"
    by (cases js) (auto simp: Let_def max_def SEND_MIN_GAP_MS_def)
  have at: "sj_at ((j # js) ! i) \<le> fst (r ! i) \<and> snd (r ! i) = fst (r ! i) + int (sj_takes ((j # js) ! i))"
    if "i < length (j # js)" for i
    using that h ih by (cases i) auto
  have gap: "snd (r ! i) + SEND_MIN_GAP_MS \<le> fst (r ! Suc i)
      \<and> (sj_at ((j # js) ! Suc i) \<le> snd (r ! i) \<and> sj_late ((j # js) ! Suc i) = 0 \<longrightarrow>
           fst (r ! Suc i) = snd (r ! i) + SEND_MIN_GAP_MS)"
    if "Suc i < length (j # js)" for i
    using that h(1) ih first by (cases i) auto
  from at gap h(1) show ?case by simp
qed simp

theorem sends_keep_gap_witness:
  "run_chain 5000 0 [\<lparr>sj_at = 5000, sj_late = 0, sj_takes = 40, sj_rejects = True\<rparr>,
      \<lparr>sj_at = 5001, sj_late = 0, sj_takes = 7, sj_rejects = False\<rparr>] ! 1 = (6040, 6047)"
proof -
  let ?js = "[\<lparr>sj_at = 5000, sj_late = 0, sj_takes = 40, sj_rejects = True\<rparr>,
      \<lparr>sj_at = 5001, sj_late = 0, sj_takes = 7, sj_rejects = False\<rparr>]"
  have s: "snd (run_chain 5000 0 ?js ! 0) = 5040" by (simp add: Let_def max_def SEND_MIN_GAP_MS_def)
  have g: "fst (run_chain 5000 0 ?js ! Suc 0) = snd (run_chain 5000 0 ?js ! 0) + SEND_MIN_GAP_MS"
      "snd (run_chain 5000 0 ?js ! Suc 0) = fst (run_chain 5000 0 ?js ! Suc 0) + 7"
    using sends_keep_gap [OF refl, of 5000 0 ?js] s by (simp_all del: run_chain.simps)
  show ?thesis unfolding One_nat_def by (rule prod_eqI) (simp_all only: g s fst_conv snd_conv SEND_MIN_GAP_MS_def)
qed

text \<open>
  The bot does not answer itself: the memory of sent messages stays within its
  caps whatever is sent, it holds exactly the last 200 of distinct ids, and an inbound message
  with one of these ids causes nothing.
\<close>

theorem own_echo_ignored:
  assumes "distinct ids" "[] \<notin> set ids" "map fst calls = map Some ids"
    "i \<in> set (drop (length ids - 200) ids)" "k_id (wm_key msg) = Some i"
    "ie_sentIds ie = sm_ids (remember_all calls)"
  shows "length (sm_ids (remember_all calls)) \<le> 200 \<and> length (sm_messages (remember_all calls)) \<le> 500
    \<and> handleInbound ie msg = []"
proof -
  have "length (sm_ids (remember_all calls)) \<le> 200 \<and> length (sm_messages (remember_all calls)) \<le> 500"
    using remember_all_ok [of calls] by (simp add: memory_ok_def SENT_ID_CAP_def SENT_MSG_CAP_def)
  moreover have "i \<noteq> []" using assms(2,4) by (auto dest: in_set_dropD)
  moreover have "i \<in> set (ie_sentIds ie)"
    using remember_all_window [OF assms(1,2,3)] assms(4,6) by (simp add: SENT_ID_CAP_def)
  ultimately show ?thesis using assms(5) by (simp add: handleInbound_def inbound_dropped_def str_or_empty_def)
qed

definition demo_message :: wa_message where
  "demo_message = \<lparr>wm_key = \<lparr>k_remoteJid = Some (lat ''5@s''), k_senderPn = None, k_participant = None,
     k_id = Some [65], k_fromMe = False\<rparr>, wm_message = W_obj [(lat ''imageMessage'',
       W_obj [(lat ''mimetype'', W_str (lat ''image/png'')), (lat ''fileLength'', W_int 3)])],
     wm_pushName = None, wm_timestamp = W_undef, wm_stub = None\<rparr>"

definition demo_inbound :: "jsstr list \<Rightarrow> inbound_env" where
  "demo_inbound ids = \<lparr>ie_businessId = [98], ie_sentIds = ids, ie_ownJid = None, ie_ownLid = None,
     ie_normalize = Some, ie_download = (\<lambda>_. Some [1, 2, 3]),
     ie_upload = (\<lambda>u. Some \<lparr>sm_file_id = [102], sm_mime_type = ur_mimeType u, sm_name = []\<rparr>),
     ie_backend = (\<lambda>_. Some [Some [104, 105], None])\<rparr>"

theorem own_echo_ignored_witness:
  "handleInbound (demo_inbound (sm_ids (remember_all [(Some [65], None :: nat option), (Some [66], None)]))) demo_message = []"
  using own_echo_ignored [of "[[65], [66]]" "[(Some [65], None :: nat option), (Some [66], None)]" "[65]" demo_message
      "demo_inbound (sm_ids (remember_all [(Some [65], None :: nat option), (Some [66], None)]))"]
  by (simp add: demo_message_def demo_inbound_def)

lemma forward_message_payload:
  "Forward p \<in> set (forward_message ie msg st) \<Longrightarrow>
     wp_raw p = msg \<and> wp_media p = (case st of None \<Rightarrow> None | Some m \<Rightarrow> if sm_file_id m \<noteq> [] then Some m else None)"
  using forward_not_reply by (auto simp: forward_message_def Let_def buildWebhookPayload_def)

lemma forward_message_once [simp]: "length (filter (\<lambda>a. \<exists>q. a = Forward q) (forward_message ie msg st)) = 1"
  by (simp add: forward_message_def Let_def filter_forward_replies)

lemma forward_message_no_upload [simp]: "Upload u \<notin> set (forward_message ie msg st)"
  using forward_not_reply by (auto simp: forward_message_def Let_def)

lemma text_present: "\<not> no_text v \<Longrightarrow> \<exists>t. v = W_str t \<and> trim t \<noteq> []"
  by (cases v) auto

lemma refusal_only: "set (sendReplies (Some [Some r])) \<subseteq> {Reply r}"
  by (simp add: sendReplies_def str_or_empty_def)

lemma not_dropped:
  "\<not> inbound_dropped ie msg \<Longrightarrow>
     (k_id (wm_key msg) = None \<or> k_id (wm_key msg) = Some [] \<or> the (k_id (wm_key msg)) \<notin> set (ie_sentIds ie))
     \<and> (k_fromMe (wm_key msg) \<longrightarrow> is_self_chat ie msg)"
  by (auto simp: inbound_dropped_def str_or_empty_def split: option.splits)

lemma inbound_cases:
  obtains (dropped) "handleInbound ie msg = []"
  | (plain) "\<not> inbound_dropped ie msg" "extractMedia (wm_message msg) = None"
      "\<not> no_text (extractText (wm_message msg))" "handleInbound ie msg = forward_message ie msg None"
  | (refused) node ty reason where "extractMedia (wm_message msg) = Some (node, ty)"
      "checkMediaAllowed node = Some reason" "handleInbound ie msg = sendReplies (Some [Some reason])"
  | (failed) node ty ups err where "extractMedia (wm_message msg) = Some (node, ty)" "checkMediaAllowed node = None"
      "fetchAndStoreMedia ie msg node = (ups, Inl err)" "handleInbound ie msg = ups @ sendReplies (Some [Some err])"
  | (media) node ty ups st where "\<not> inbound_dropped ie msg" "extractMedia (wm_message msg) = Some (node, ty)"
      "checkMediaAllowed node = None" "fetchAndStoreMedia ie msg node = (ups, Inr st)"
      "handleInbound ie msg = ups @ forward_message ie msg (Some st)"
proof -
  have "thesis" if "inbound_dropped ie msg" using that dropped by (simp add: handleInbound_def)
  moreover have thesis if "\<not> inbound_dropped ie msg" "extractMedia (wm_message msg) = None"
    using that dropped plain by (cases "no_text (extractText (wm_message msg))") (simp_all add: handleInbound_def)
  moreover have thesis if "\<not> inbound_dropped ie msg" "extractMedia (wm_message msg) = Some (node, ty)" for node ty
  proof (cases "checkMediaAllowed node")
    case None
    obtain ups r where "fetchAndStoreMedia ie msg node = (ups, r)" by (cases "fetchAndStoreMedia ie msg node")
    with None that failed media show thesis by (cases r) (simp_all add: handleInbound_def)
  qed (use that refused in \<open>simp add: handleInbound_def\<close>)
  ultimately show thesis by (cases "extractMedia (wm_message msg)") auto
qed



text \<open>The moments at which the failures of one contact, at times \<open>ts\<close>, clear its sessions.\<close>

fun clear_times :: "wa_key \<Rightarrow> failures \<Rightarrow> int list \<Rightarrow> int list" where
  "clear_times k f [] = []"
| "clear_times k f (t # ts) =
     (let (f', users) = handleDecryptFailure t k f
      in (if users \<noteq> None then [t] else []) @ clear_times k f' ts)"

lemma one_user_step:
  assumes "failed_users k = [u]"
  shows "handleDecryptFailure t k f =
    (if 1 \<le> fr_count (failure_of f u) \<and> DECRYPT_CLEAR_COOLDOWN_MS < t - fr_clearedAt (failure_of f u)
     then (f(u \<mapsto> \<lparr>fr_count = 0, fr_clearedAt = t\<rparr>), Some [u])
     else (f(u \<mapsto> (failure_of f u)\<lparr>fr_count := fr_count (failure_of f u) + 1\<rparr>), None))"
  using assms by (simp add: handleDecryptFailure_def count_failure_def Let_def DECRYPT_CLEAR_THRESHOLD_def)

lemma clear_times_spaced:
  "failed_users k = [u] \<Longrightarrow>
   sorted_wrt (\<lambda>a b. a + DECRYPT_CLEAR_COOLDOWN_MS < b) (fr_clearedAt (failure_of f u) # clear_times k f ts)
   \<and> 2 * length (clear_times k f ts) \<le> length ts + fr_count (failure_of f u)"
proof (induction ts arbitrary: f)
  case (Cons t ts)
  let ?r = "failure_of f u"
  show ?case
  proof (cases "1 \<le> fr_count ?r \<and> DECRYPT_CLEAR_COOLDOWN_MS < t - fr_clearedAt ?r")
    case True
    let ?f = "f(u \<mapsto> \<lparr>fr_count = 0, fr_clearedAt = t\<rparr>)"
    have r: "failure_of ?f u = \<lparr>fr_count = 0, fr_clearedAt = t\<rparr>" by (simp add: failure_of_def)
    have h: "clear_times k f (t # ts) = t # clear_times k ?f ts"
      using one_user_step [OF Cons.prems, of t f] True by simp
    have p: "0 \<le> DECRYPT_CLEAR_COOLDOWN_MS" by (simp add: DECRYPT_CLEAR_COOLDOWN_MS_def)
    define xs where "xs = clear_times k ?f ts"
    have "\<forall>x \<in> set xs. t + DECRYPT_CLEAR_COOLDOWN_MS < x" "2 * length xs \<le> length ts"
      "sorted_wrt (\<lambda>a b. a + DECRYPT_CLEAR_COOLDOWN_MS < b) xs"
      using Cons.IH [OF Cons.prems, of ?f, unfolded r, folded xs_def] by simp_all
    then show ?thesis unfolding h xs_def [symmetric] using True p by fastforce
  next
    case False
    let ?f = "f(u \<mapsto> ?r\<lparr>fr_count := fr_count ?r + 1\<rparr>)"
    have r: "failure_of ?f u = ?r\<lparr>fr_count := fr_count ?r + 1\<rparr>" by (simp add: failure_of_def)
    have h: "clear_times k f (t # ts) = clear_times k ?f ts"
      using one_user_step [OF Cons.prems, of t f] False by auto
    define xs where "xs = clear_times k ?f ts"
    from Cons.IH [OF Cons.prems, of ?f, unfolded r, folded xs_def] show ?thesis
      unfolding h xs_def [symmetric] by simp
  qed
qed simp

text \<open>
  Recovery is throttled: for the failures of one contact, two clears of its
  stored sessions are always more than a minute apart, and each needs two failures of its own.
\<close>

theorem decrypt_clears_spaced:
  assumes "failed_users k = [u]"
  shows "sorted_wrt (\<lambda>a b. a + 60000 < b) (clear_times k Map.empty ts)
    \<and> 2 * length (clear_times k Map.empty ts) \<le> length ts"
  using clear_times_spaced [OF assms, of Map.empty ts] by (simp add: failure_of_def DECRYPT_CLEAR_COOLDOWN_MS_def)

theorem decrypt_clears_spaced_witness:
  "sorted_wrt (\<lambda>a b. a + 60000 < b)
    (clear_times \<lparr>k_remoteJid = Some (lat ''77:1@s''), k_senderPn = None, k_participant = None, k_id = None,
       k_fromMe = False\<rparr> Map.empty [100000, 100001, 100002, 160003])"
proof -
  have "failed_users \<lparr>k_remoteJid = Some (lat ''77:1@s''), k_senderPn = None, k_participant = None, k_id = None,
       k_fromMe = False\<rparr> = [[55, 55]]"
    by (simp add: failed_users_def jidUser_def set_add_def js_lit is_digit_def)
  from decrypt_clears_spaced [OF this] show ?thesis by blast
qed

end
