(* ===== verification/GwLifecycle.thy ===== *)
theory GwLifecycle
  imports GwSession
begin

text \<open>
  The life of one session (\<open>start\<close>, \<open>restart\<close>, \<open>stop\<close>, \<open>report\<close> and the connection events of
  \<open>gateway/src/session.js\<close>) as a step relation.

  \<open>start\<close> and \<open>stop\<close> await, so their calls are split there: \<open>lc_calls\<close> are the calls of
  \<open>start\<close> in flight, each loading its auth state or asking for the protocol version, and
  \<open>stop\<close> ends in a second step. Sockets are numbered in the order they were made; the
  handlers of every socket ever made stay registered. \<open>lc_closed\<close> are those that reported
  their end, \<open>lc_ended\<close> those this code ended, and \<open>lc_reports\<close> everything reported to the
  backend, newest first.
\<close>

section \<open>State\<close>

datatype gw_status = Starting | Qr_pending | Connected | Disconnected | Logged_out

datatype start_phase = Loading | Versioning

record wa_report =
  rp_status :: gw_status
  rp_phone :: "jsstr option"
  rp_qr :: "jsstr option"

record lifecycle =
  lc_status :: gw_status
  lc_qr :: "jsstr option"
  lc_sock :: "nat option"
  lc_made :: nat
  lc_closed :: "nat list"
  lc_ended :: "nat list"
  lc_auth :: bool
  lc_ownJid :: "jsstr option"
  lc_ownLid :: "jsstr option"
  lc_stopped :: bool
  lc_attempts :: nat
  lc_timer :: "(bool \<times> nat) option"
  lc_calls :: "start_phase list"
  lc_reports :: "wa_report list"
  lc_logouts :: "nat list"

definition createSession :: lifecycle where
  "createSession =
     \<lparr>lc_status = Starting, lc_qr = None, lc_sock = None, lc_made = 0, lc_closed = [], lc_ended = [],
      lc_auth = False, lc_ownJid = None, lc_ownLid = None, lc_stopped = False, lc_attempts = 0,
      lc_timer = None, lc_calls = [], lc_reports = [], lc_logouts = []\<rparr>"

definition RECONNECT_BASE_MS :: nat where "RECONNECT_BASE_MS = 3000"
definition RECONNECT_MAX_MS :: nat where "RECONNECT_MAX_MS = 60000"

section \<open>Operations\<close>

definition report :: "lifecycle \<Rightarrow> lifecycle" where
  "report s = s\<lparr>lc_reports := \<lparr>rp_status = lc_status s, rp_phone = ownPhoneDigits (lc_ownJid s), rp_qr = lc_qr s\<rparr>
                # lc_reports s\<rparr>"

text \<open>
  The answer to a report: a \<open>conflict\<close> says that the number belongs to another business, and
  the socket of the moment is logged out.
\<close>

definition reportAnswered :: "bool \<Rightarrow> lifecycle \<Rightarrow> lifecycle" where
  "reportAnswered conflict s =
     (case lc_sock s of
        None \<Rightarrow> s
      | Some k \<Rightarrow> if conflict then s\<lparr>lc_logouts := k # lc_logouts s\<rparr> else s)"

definition restart :: "bool \<Rightarrow> lifecycle \<Rightarrow> lifecycle" where
  "restart fresh s =
     (if lc_stopped s \<or> lc_timer s \<noteq> None then s
      else s\<lparr>lc_timer := Some (fresh, if fresh then RECONNECT_BASE_MS
                                   else min RECONNECT_MAX_MS (RECONNECT_BASE_MS * 2 ^ lc_attempts s)),
             lc_attempts := lc_attempts s + 1\<rparr>)"

definition start :: "bool \<Rightarrow> lifecycle \<Rightarrow> lifecycle" where
  "start fresh s =
     (if lc_stopped s then s
      else (if fresh then s\<lparr>lc_ownJid := None, lc_ownLid := None\<rparr> else s)\<lparr>lc_calls := lc_calls s @ [Loading]\<rparr>)"

definition drop_call :: "nat \<Rightarrow> lifecycle \<Rightarrow> lifecycle" where
  "drop_call i s = s\<lparr>lc_calls := take i (lc_calls s) @ drop (Suc i) (lc_calls s)\<rparr>"

text \<open>The \<open>catch\<close> of \<open>start\<close>.\<close>

definition startFailed :: "nat \<Rightarrow> lifecycle \<Rightarrow> lifecycle" where
  "startFailed i s = restart False ((drop_call i s)\<lparr>lc_status := Disconnected\<rparr>)"

definition authLoaded :: "nat \<Rightarrow> lifecycle \<Rightarrow> lifecycle" where
  "authLoaded i s = s\<lparr>lc_auth := True, lc_calls := (lc_calls s)[i := Versioning]\<rparr>"

text \<open>The version arrived or failed, and the socket is made.\<close>

definition socketMade :: "nat \<Rightarrow> lifecycle \<Rightarrow> lifecycle" where
  "socketMade i s = (drop_call i s)\<lparr>lc_sock := Some (lc_made s), lc_made := lc_made s + 1\<rparr>"

definition timerFired :: "lifecycle \<Rightarrow> lifecycle" where
  "timerFired s =
     (case lc_timer s of None \<Rightarrow> s | Some (fresh, d) \<Rightarrow> start fresh (s\<lparr>lc_timer := None\<rparr>))"

text \<open>The own ids as the current socket knows them, already normalized.\<close>

definition captureOwnIds :: "jsstr option \<times> jsstr option \<Rightarrow> lifecycle \<Rightarrow> lifecycle" where
  "captureOwnIds ids s =
     s\<lparr>lc_ownJid := (if fst ids \<noteq> None \<and> fst ids \<noteq> Some [] then fst ids else lc_ownJid s),
       lc_ownLid := (if snd ids \<noteq> None \<and> snd ids \<noteq> Some [] then snd ids else lc_ownLid s)\<rparr>"

text \<open>The QR image is rendered asynchronously.\<close>

definition qrRendered :: "jsstr \<Rightarrow> lifecycle \<Rightarrow> lifecycle" where
  "qrRendered url s = report (s\<lparr>lc_qr := Some url, lc_status := Qr_pending\<rparr>)"

definition connectionOpen :: "jsstr option \<times> jsstr option \<Rightarrow> lifecycle \<Rightarrow> lifecycle" where
  "connectionOpen ids s =
     report (captureOwnIds ids (s\<lparr>lc_status := Connected, lc_qr := None, lc_attempts := 0\<rparr>))"

definition connectionClosed :: "nat \<Rightarrow> bool \<Rightarrow> lifecycle \<Rightarrow> lifecycle" where
  "connectionClosed k loggedOut s =
     (let s1 = s\<lparr>lc_closed := k # lc_closed s\<rparr> in
      if lc_stopped s then s1
      else if loggedOut then restart True (report (s1\<lparr>lc_status := Logged_out, lc_qr := None\<rparr>))
      else restart False (report (s1\<lparr>lc_status := Disconnected\<rparr>)))"

definition stopBegin :: "lifecycle \<Rightarrow> lifecycle" where
  "stopBegin s = s\<lparr>lc_stopped := True, lc_timer := None\<rparr>"

definition stopEnd :: "lifecycle \<Rightarrow> lifecycle" where
  "stopEnd s =
     s\<lparr>lc_ended := (case lc_sock s of None \<Rightarrow> lc_ended s | Some k \<Rightarrow> k # lc_ended s), lc_sock := None\<rparr>"

section \<open>Runs\<close>

text \<open>
  What happens to a session, other than being started by the manager. A socket opens or closes
  only after it was made, and closes at most once.
\<close>

inductive lc_next :: "lifecycle \<Rightarrow> lifecycle \<Rightarrow> bool" where
  nx_fail: "i < length (lc_calls s) \<Longrightarrow> lc_next s (startFailed i s)"
| nx_load: "i < length (lc_calls s) \<Longrightarrow> lc_calls s ! i = Loading \<Longrightarrow> lc_next s (authLoaded i s)"
| nx_make: "i < length (lc_calls s) \<Longrightarrow> lc_calls s ! i = Versioning \<Longrightarrow> lc_next s (socketMade i s)"
| nx_tick: "lc_next s (timerFired s)"
| nx_ids: "0 < lc_made s \<Longrightarrow> lc_next s (captureOwnIds ids s)"
| nx_image: "0 < lc_made s \<Longrightarrow> lc_next s (qrRendered url s)"
| nx_open: "k < lc_made s \<Longrightarrow> k \<notin> set (lc_closed s) \<Longrightarrow> lc_next s (connectionOpen ids s)"
| nx_close: "k < lc_made s \<Longrightarrow> k \<notin> set (lc_closed s) \<Longrightarrow> lc_next s (connectionClosed k lo s)"
| nx_answer: "lc_reports s \<noteq> [] \<Longrightarrow> lc_next s (reportAnswered conflict s)"
| nx_stopped: "lc_stopped s \<Longrightarrow> lc_next s (stopEnd s)"

inductive lc_run :: "lifecycle \<Rightarrow> bool" where
  lc_start: "lc_run (start False createSession)"
| lc_step: "lc_run s \<Longrightarrow> lc_next s s' \<Longrightarrow> lc_run s'"
| lc_stop: "lc_run s \<Longrightarrow> lc_run (stopBegin s)"

lemmas lc_load = lc_step [OF _ nx_load]
lemmas lc_make = lc_step [OF _ nx_make]
lemmas lc_open = lc_step [OF _ nx_open]
lemmas lc_stopped = lc_step [OF _ nx_stopped]

definition timer_ok :: "lifecycle \<Rightarrow> bool" where
  "timer_ok s \<longleftrightarrow>
     (\<forall>f d. lc_timer s = Some (f, d) \<longrightarrow>
        RECONNECT_BASE_MS \<le> d \<and> d \<le> RECONNECT_MAX_MS \<and> (f \<longrightarrow> d = RECONNECT_BASE_MS) \<and> \<not> lc_stopped s)"

definition lc_inv :: "lifecycle \<Rightarrow> bool" where
  "lc_inv s \<longleftrightarrow>
     timer_ok s
     \<and> (\<forall>k. lc_sock s = Some k \<longrightarrow> k < lc_made s)
     \<and> (\<forall>k \<in> set (lc_closed s). k < lc_made s)
     \<and> (\<not> lc_stopped s \<longrightarrow> lc_calls s \<noteq> [] \<or> lc_timer s \<noteq> None
          \<or> (\<exists>k. lc_sock s = Some k \<and> k \<notin> set (lc_closed s)))"

lemma report_keeps [simp]:
  "lc_status (report s) = lc_status s" "lc_sock (report s) = lc_sock s" "lc_made (report s) = lc_made s"
  "lc_closed (report s) = lc_closed s" "lc_stopped (report s) = lc_stopped s" "lc_timer (report s) = lc_timer s"
  "lc_calls (report s) = lc_calls s" "lc_attempts (report s) = lc_attempts s" "lc_ended (report s) = lc_ended s"
  by (simp_all add: report_def)

lemma restart_keeps [simp]:
  "lc_status (restart f s) = lc_status s" "lc_sock (restart f s) = lc_sock s" "lc_made (restart f s) = lc_made s"
  "lc_closed (restart f s) = lc_closed s" "lc_stopped (restart f s) = lc_stopped s"
  "lc_calls (restart f s) = lc_calls s" "lc_ended (restart f s) = lc_ended s"
  by (simp_all add: restart_def)

lemma restart_timer: "\<not> lc_stopped s \<Longrightarrow> lc_timer (restart f s) \<noteq> None"
  by (simp add: restart_def)

lemma restart_timer_ok: "timer_ok s \<Longrightarrow> timer_ok (restart f s)"
  by (auto simp: timer_ok_def restart_def RECONNECT_BASE_MS_def RECONNECT_MAX_MS_def)

lemma timer_ok_report [simp]: "timer_ok (report s) = timer_ok s"
  by (simp add: timer_ok_def)

lemma restart_inv:
  assumes "timer_ok s" "\<forall>k. lc_sock s = Some k \<longrightarrow> k < lc_made s" "\<forall>k \<in> set (lc_closed s). k < lc_made s"
  shows "lc_inv (restart f s)"
  unfolding lc_inv_def using assms restart_timer [of s f] by (simp add: restart_timer_ok)

lemma start_inv:
  "lc_inv s \<Longrightarrow> lc_inv (start f s)"
  by (auto simp: lc_inv_def timer_ok_def start_def)

lemma lc_next_inv: "lc_next s s' \<Longrightarrow> lc_inv s \<Longrightarrow> lc_inv s'"
proof (induction rule: lc_next.induct)
  case (nx_fail i s)
  then show ?case
    unfolding startFailed_def by (intro restart_inv) (simp_all add: lc_inv_def timer_ok_def drop_call_def)
next
  case (nx_tick s)
  show ?case
  proof (cases "lc_timer s")
    case (Some t)
    obtain f d where t: "t = (f, d)" by (cases t)
    with nx_tick Some have "\<not> lc_stopped s" by (simp add: lc_inv_def timer_ok_def)
    with nx_tick Some t show ?thesis by (auto simp: lc_inv_def timer_ok_def timerFired_def start_def)
  qed (use nx_tick in \<open>simp add: timerFired_def\<close>)
next
  case (nx_close k s lo)
  show ?case
  proof (cases "lc_stopped s")
    case True
    with nx_close show ?thesis by (simp add: connectionClosed_def lc_inv_def timer_ok_def)
  next
    case False
    have r: "lc_inv (restart f (report (s\<lparr>lc_closed := k # lc_closed s, lc_status := st, lc_qr := q\<rparr>)))" for f st q
      by (rule restart_inv) (use nx_close in \<open>simp_all add: lc_inv_def timer_ok_def\<close>)
    have d: "lc_inv (restart f (report (s\<lparr>lc_closed := k # lc_closed s, lc_status := st\<rparr>)))" for f st
      by (rule restart_inv) (use nx_close in \<open>simp_all add: lc_inv_def timer_ok_def\<close>)
    from False r d show ?thesis by (simp add: connectionClosed_def Let_def)
  qed
next
  case (nx_load i s)
  then show ?case by (auto simp: lc_inv_def timer_ok_def authLoaded_def)
next
  case (nx_make i s)
  then show ?case by (auto simp: lc_inv_def timer_ok_def socketMade_def drop_call_def)
next
  case (nx_answer s conflict)
  then show ?case by (auto simp: lc_inv_def timer_ok_def reportAnswered_def split: option.split)
qed (auto simp: lc_inv_def timer_ok_def captureOwnIds_def qrRendered_def connectionOpen_def stopEnd_def)

lemma lc_run_inv: "lc_run s \<Longrightarrow> lc_inv s"
proof (induction rule: lc_run.induct)
  case lc_start
  show ?case by (simp add: lc_inv_def timer_ok_def start_def createSession_def)
next
  case (lc_stop s)
  then show ?case by (simp add: lc_inv_def timer_ok_def stopBegin_def)
qed (rule lc_next_inv)

lemma lc_next_stopped [simp]: "lc_next s s' \<Longrightarrow> lc_stopped s' = lc_stopped s"
  by (induction rule: lc_next.induct)
    (auto simp: startFailed_def drop_call_def authLoaded_def socketMade_def timerFired_def start_def captureOwnIds_def
      qrRendered_def connectionOpen_def connectionClosed_def Let_def reportAnswered_def stopEnd_def
      split: option.split prod.split)

section \<open>Properties\<close>

text \<open>
  Property C36. A session that was not stopped never gives up: on every run it is starting, or
  a reconnect is scheduled, or its socket has not closed; after each close exactly one
  reconnect is pending.
\<close>

theorem session_never_gives_up:
  assumes "lc_run s" "\<not> lc_stopped s"
  shows "(lc_calls s \<noteq> [] \<or> lc_timer s \<noteq> None \<or> (\<exists>k. lc_sock s = Some k \<and> k \<notin> set (lc_closed s)))
    \<and> lc_timer (connectionClosed k loggedOut s) \<noteq> None
    \<and> (i < length (lc_calls s) \<longrightarrow> lc_timer (startFailed i s) \<noteq> None)"
proof -
  have "lc_timer (connectionClosed k loggedOut s) \<noteq> None"
    using assms(2) restart_timer unfolding connectionClosed_def Let_def by simp
  moreover have "lc_timer (startFailed i s) \<noteq> None"
    using assms(2) restart_timer unfolding startFailed_def drop_call_def by simp
  ultimately show ?thesis using lc_run_inv [OF assms(1)] assms(2) by (simp add: lc_inv_def)
qed

theorem session_never_gives_up_witness:
  "lc_timer (connectionClosed 0 True (socketMade 0 (authLoaded 0 (start False createSession)))) \<noteq> None"
proof -
  have "lc_run (authLoaded 0 (start False createSession))"
    by (rule lc_load [OF lc_start]) (simp_all add: start_def createSession_def)
  then have "lc_run (socketMade 0 (authLoaded 0 (start False createSession)))"
    by (rule lc_make) (simp_all add: authLoaded_def start_def createSession_def)
  from session_never_gives_up [OF this] show ?thesis
    by (simp add: socketMade_def drop_call_def authLoaded_def start_def createSession_def)
qed

text \<open>
  Reconnects back off within bounds: on every run a pending reconnect waits at
  least 3 and at most 60 seconds, 3 after a logout, and a stopped session has none; the
  \<open>n\<close>-th failure in a row waits \<open>3 * 2 ^ n\<close> seconds up to the cap, and a connection resets it.
\<close>

theorem reconnect_backoff:
  assumes "lc_run s"
  shows "(\<forall>f d. lc_timer s = Some (f, d) \<longrightarrow> 3000 \<le> d \<and> d \<le> 60000 \<and> (f \<longrightarrow> d = 3000) \<and> \<not> lc_stopped s)
    \<and> (lc_timer s = None \<and> \<not> lc_stopped s \<longrightarrow>
        lc_timer (connectionClosed k False s) = Some (False, if lc_attempts s \<le> 4 then 3000 * 2 ^ lc_attempts s else 60000))
    \<and> lc_attempts (connectionOpen ids s) = 0"
proof -
  have m: "min RECONNECT_MAX_MS (RECONNECT_BASE_MS * 2 ^ n) = (if n \<le> 4 then 3000 * 2 ^ n else 60000)" for n
  proof (cases "n \<le> 4")
    case True
    then have "(2 :: nat) ^ n \<le> 2 ^ 4" by (intro power_increasing) simp_all
    with True show ?thesis by (simp add: RECONNECT_BASE_MS_def RECONNECT_MAX_MS_def)
  next
    case False
    then have "(2 :: nat) ^ 5 \<le> 2 ^ n" by (intro power_increasing) simp_all
    with False show ?thesis by (simp add: RECONNECT_BASE_MS_def RECONNECT_MAX_MS_def)
  qed
  have "lc_attempts (connectionOpen ids s) = 0" by (simp add: connectionOpen_def captureOwnIds_def)
  moreover have "lc_timer s = None \<and> \<not> lc_stopped s \<longrightarrow>
      lc_timer (connectionClosed k False s) = Some (False, if lc_attempts s \<le> 4 then 3000 * 2 ^ lc_attempts s else 60000)"
    unfolding connectionClosed_def Let_def restart_def by (simp add: m)
  ultimately show ?thesis
    using lc_run_inv [OF assms] by (simp add: lc_inv_def timer_ok_def RECONNECT_BASE_MS_def RECONNECT_MAX_MS_def)
qed

theorem reconnect_backoff_witness:
  "lc_timer (connectionClosed 0 False (socketMade 0 (authLoaded 0 (start False createSession)))) = Some (False, 3000)"
proof -
  have "lc_run (authLoaded 0 (start False createSession))"
    by (rule lc_load [OF lc_start]) (simp_all add: start_def createSession_def)
  then have "lc_run (socketMade 0 (authLoaded 0 (start False createSession)))"
    by (rule lc_make) (simp_all add: authLoaded_def start_def createSession_def)
  from reconnect_backoff [OF this, of 0] show ?thesis
    by (simp add: socketMade_def drop_call_def authLoaded_def start_def createSession_def)
qed

text \<open>
  A session stopped while it is starting is not stopped: \<open>start\<close> looks at
  \<open>stopped\<close> only on entry, so the call in flight still makes its socket after \<open>stop\<close> is over;
  nobody ever ends that socket, it can connect, and the session reports itself connected.
\<close>

theorem stop_during_start_leaks_socket:
  "\<exists>s. lc_run s \<and> lc_stopped s \<and> lc_sock s = Some 0 \<and> 0 \<notin> set (lc_ended s) \<and> lc_calls s = []
    \<and> lc_status s = Connected \<and> map rp_status (lc_reports s) = [Connected]"
proof -
  let ?a = "authLoaded 0 (start False createSession)"
  let ?b = "stopEnd (stopBegin ?a)"
  let ?c = "connectionOpen (None, None) (socketMade 0 ?b)"
  have "lc_run ?a" by (rule lc_load [OF lc_start]) (simp_all add: start_def createSession_def)
  then have "lc_run ?b" by (intro lc_stopped lc_stop) (simp_all add: stopBegin_def)
  then have "lc_run (socketMade 0 ?b)"
    by (rule lc_make) (simp_all add: authLoaded_def start_def createSession_def stopBegin_def stopEnd_def)
  then have "lc_run ?c"
    by (rule lc_open [where k = 0]) (simp_all add: socketMade_def drop_call_def authLoaded_def start_def
        createSession_def stopBegin_def stopEnd_def)
  then show ?thesis
    by (intro exI [of _ ?c] conjI) (simp_all add: connectionOpen_def captureOwnIds_def report_def socketMade_def
        drop_call_def authLoaded_def start_def createSession_def stopBegin_def stopEnd_def)
qed

end
