(* ===== verification/GwAuth.thy ===== *)
theory GwAuth
  imports JsObject
begin

text \<open>
  The gateway's auth store (\<open>gateway/src/dbAuthState.js\<close>): the credentials and Signal keys
  of one business, kept in memory and written as one blob to the backend after a pause.

  \<open>au_puts\<close> are the writes in flight, oldest first, and \<open>au_stored\<close> is what the backend
  holds. Reading and printing the blob is the messaging library's (\<open>BufferJSON\<close>): the
  parameters \<open>decode\<close> and \<open>encode\<close>, of which the code relies on \<open>decode (encode x) = Some x\<close>.
  A value is never falsy once stored, since \<open>set\<close> deletes instead.
\<close>

section \<open>State and operations\<close>

type_synonym 'v key_table = "'v obj obj"

record 'v auth_store =
  au_creds :: 'v
  au_keys :: "'v key_table"
  au_timer :: bool
  au_puts :: "jsstr list"
  au_stored :: "jsstr option"

type_synonym 'v blob_reader = "jsstr \<Rightarrow> ('v \<times> 'v key_table option) option"
type_synonym 'v blob_writer = "'v \<times> 'v key_table \<Rightarrow> jsstr"

text \<open>Loading: a hard failure of the request throws (\<open>None\<close>); a corrupt blob starts afresh.\<close>

definition useDbAuthState ::
    "'v blob_reader \<Rightarrow> 'v \<Rightarrow> jsstr + jsstr option \<Rightarrow> jsstr option \<Rightarrow> 'v auth_store option" where
  "useDbAuthState decode init r stored =
     (let mk = (\<lambda>c ks. \<lparr>au_creds = c, au_keys = ks, au_timer = False, au_puts = [], au_stored = stored\<rparr>) in
      case r of
        Inl err \<Rightarrow> None
      | Inr None \<Rightarrow> Some (mk init [])
      | Inr (Some s) \<Rightarrow>
          if s = [] then Some (mk init [])
          else (case decode s of
              None \<Rightarrow> Some (mk init [])
            | Some (c, ks) \<Rightarrow> Some (mk c (case ks of None \<Rightarrow> [] | Some k \<Rightarrow> k))))"

definition scheduleSave :: "'v auth_store \<Rightarrow> 'v auth_store" where
  "scheduleSave s = s\<lparr>au_timer := True\<rparr>"

definition doSave :: "'v blob_writer \<Rightarrow> 'v auth_store \<Rightarrow> 'v auth_store" where
  "doSave encode s = s\<lparr>au_timer := False, au_puts := au_puts s @ [encode (au_creds s, au_keys s)]\<rparr>"

text \<open>The debounce timer, and the forced write.\<close>

definition saveTimerFired :: "'v blob_writer \<Rightarrow> 'v auth_store \<Rightarrow> 'v auth_store" where
  "saveTimerFired encode s = (if au_timer s then doSave encode s else s)"

definition flush :: "'v blob_writer \<Rightarrow> 'v auth_store \<Rightarrow> 'v auth_store" where
  "flush encode s = (if au_timer s then doSave encode s else s)"

text \<open>The write \<open>i\<close> in flight reached the backend (\<open>ok\<close>) or failed.\<close>

definition putSettled :: "nat \<Rightarrow> bool \<Rightarrow> 'v auth_store \<Rightarrow> 'v auth_store" where
  "putSettled i ok s =
     (if i < length (au_puts s)
      then s\<lparr>au_puts := take i (au_puts s) @ drop (Suc i) (au_puts s),
             au_stored := (if ok then Some (au_puts s ! i) else au_stored s)\<rparr>
      else s)"

definition bucket :: "'v key_table \<Rightarrow> jsstr \<Rightarrow> 'v obj" where
  "bucket ks c = (case get ks c of None \<Rightarrow> [] | Some b \<Rightarrow> b)"

text \<open>\<open>state.keys.get\<close>; \<open>fromObject\<close> rebuilds the values of the app state sync keys.\<close>

definition keys_get :: "('v \<Rightarrow> 'v) \<Rightarrow> jsstr \<Rightarrow> jsstr list \<Rightarrow> 'v auth_store \<Rightarrow> (jsstr \<times> 'v option) list" where
  "keys_get fromObject ty ids s =
     map (\<lambda>i. (i, map_option (if ty = (lat ''app-state-sync-key'') then fromObject else id)
                    (get (bucket (au_keys s) ty) i))) ids"

definition set_entry :: "jsstr \<times> 'v option \<Rightarrow> 'v obj \<Rightarrow> 'v obj" where
  "set_entry e b = (case snd e of None \<Rightarrow> del (fst e) b | Some v \<Rightarrow> put (fst e) v b)"

definition set_category :: "jsstr \<times> (jsstr \<times> 'v option) list \<Rightarrow> 'v key_table \<Rightarrow> 'v key_table" where
  "set_category c ks = put (fst c) (fold set_entry (snd c) (bucket ks (fst c))) ks"

definition keys_set :: "(jsstr \<times> (jsstr \<times> 'v option) list) list \<Rightarrow> 'v auth_store \<Rightarrow> 'v auth_store" where
  "keys_set data s = scheduleSave (s\<lparr>au_keys := fold set_category data (au_keys s)\<rparr>)"

text \<open>The library updates the credentials in place and then calls \<open>saveCreds\<close>.\<close>

definition saveCreds :: "'v \<Rightarrow> 'v auth_store \<Rightarrow> 'v auth_store" where
  "saveCreds c s = scheduleSave (s\<lparr>au_creds := c\<rparr>)"

definition session_user :: "jsstr \<Rightarrow> jsstr" where
  "session_user i = takeWhile (\<lambda>c. c \<noteq> 58) (takeWhile (\<lambda>c. c \<noteq> 46) i)"

definition clearSessionsForUsers :: "jsstr list \<Rightarrow> 'v auth_store \<Rightarrow> 'v auth_store \<times> nat" where
  "clearSessionsForUsers users s =
     (let c = (lat ''session'');
          b = bucket (au_keys s) c;
          gone = filter (\<lambda>i. session_user i \<in> set users) (keys b);
          s1 = (if get (au_keys s) c = None then s else s\<lparr>au_keys := put c (fold del gone b) (au_keys s)\<rparr>)
      in (if gone \<noteq> [] then scheduleSave s1 else s1, length gone))"

section \<open>The table as a map\<close>

definition stored_key :: "'v key_table \<Rightarrow> jsstr \<Rightarrow> jsstr \<Rightarrow> 'v option" where
  "stored_key ks c i = get (bucket ks c) i"

definition wf_table :: "'v key_table \<Rightarrow> bool" where
  "wf_table ks \<longleftrightarrow> wf_obj ks \<and> (\<forall>(c, b) \<in> set ks. wf_obj b)"

lemma wf_bucket: "wf_table ks \<Longrightarrow> wf_obj (bucket ks c)"
  by (auto simp: wf_table_def bucket_def dest: map_of_SomeD split: option.split)

lemma wf_table_put: "wf_table ks \<Longrightarrow> wf_obj b \<Longrightarrow> wf_table (put c b ks)"
  using set_put_subset [of c b ks] unfolding wf_table_def by fastforce

lemma wf_fold_entries: "wf_obj b \<Longrightarrow> wf_obj (fold set_entry es b)"
  by (induction es arbitrary: b) (auto simp: set_entry_def split: option.split)

lemma wf_fold_del: "wf_obj b \<Longrightarrow> wf_obj (fold del is b)"
  by (induction "is" arbitrary: b) auto

lemma map_of_fold_entries:
  "distinct (map fst es) \<Longrightarrow>
   map_of (fold set_entry es b) i = (case map_of es i of None \<Rightarrow> map_of b i | Some v \<Rightarrow> v)"
proof (induction es arbitrary: b)
  case (Cons e es)
  obtain k v where e: "e = (k, v)" by (cases e)
  with Cons.prems have "map_of es k = None" by (auto simp: map_of_eq_None_iff)
  with Cons e show ?case by (cases v) (auto simp: set_entry_def map_of_del split: option.split)
qed simp

lemma map_of_fold_del: "map_of (fold del is b) i = (if i \<in> set is then None else map_of b i)"
  by (induction "is" arbitrary: b) (auto simp: map_of_del)

lemma wf_set_category: "wf_table ks \<Longrightarrow> wf_table (set_category c ks)"
  unfolding set_category_def by (intro wf_table_put wf_fold_entries wf_bucket)

lemma bucket_put [simp]: "bucket (put c b ks) c' = (if c' = c then b else bucket ks c')"
  by (simp add: bucket_def)

definition changed_to :: "(jsstr \<times> (jsstr \<times> 'v option) list) list \<Rightarrow> jsstr \<Rightarrow> jsstr \<Rightarrow> 'v option option" where
  "changed_to data c i = Option.bind (map_of data c) (\<lambda>es. map_of es i)"

lemma stored_fold_categories:
  "distinct (map fst data) \<Longrightarrow> \<forall>(c, es) \<in> set data. distinct (map fst es) \<Longrightarrow>
   stored_key (fold set_category data ks) c i
     = (case changed_to data c i of None \<Rightarrow> stored_key ks c i | Some v \<Rightarrow> v)"
proof (induction data arbitrary: ks)
  case Nil
  then show ?case by (simp add: changed_to_def)
next
  case (Cons d data)
  obtain c' es where d: "d = (c', es)" by (cases d)
  with Cons.prems have n: "map_of data c' = None" and de: "distinct (map fst es)"
    by (auto simp: map_of_eq_None_iff)
  have "stored_key (set_category d ks) c i
      = (if c = c' then (case map_of es i of None \<Rightarrow> stored_key ks c i | Some v \<Rightarrow> v) else stored_key ks c i)"
    using map_of_fold_entries [OF de] by (auto simp: stored_key_def set_category_def d split: option.split)
  with Cons n d show ?case by (auto simp: changed_to_def split: option.split)
qed

lemma wf_fold_categories: "wf_table ks \<Longrightarrow> wf_table (fold set_category data ks)"
  by (induction data arbitrary: ks) (auto simp: wf_set_category)

section \<open>Runs with an orderly backend\<close>

text \<open>
  \<open>w\<close> is the content as it was loaded or last handed to the backend, \<open>k\<close> whether any write was
  made. Here the writes arrive in order and succeed.
\<close>

inductive auth_run :: "'v blob_writer \<Rightarrow> 'v auth_store \<Rightarrow> 'v \<times> 'v key_table \<Rightarrow> bool \<Rightarrow> bool" for encode where
  ar_load: "\<not> au_timer s \<Longrightarrow> au_puts s = [] \<Longrightarrow> auth_run encode s (au_creds s, au_keys s) False"
| ar_set: "auth_run encode s w k \<Longrightarrow> auth_run encode (keys_set data s) w k"
| ar_creds: "auth_run encode s w k \<Longrightarrow> auth_run encode (saveCreds c s) w k"
| ar_clear: "auth_run encode s w k \<Longrightarrow> auth_run encode (fst (clearSessionsForUsers us s)) w k"
| ar_timer: "auth_run encode s w k \<Longrightarrow> au_timer s \<Longrightarrow>
     auth_run encode (saveTimerFired encode s) (au_creds s, au_keys s) True"
| ar_flush: "auth_run encode s w k \<Longrightarrow> au_timer s \<Longrightarrow>
     auth_run encode (flush encode s) (au_creds s, au_keys s) True"
| ar_put: "auth_run encode s w k \<Longrightarrow> auth_run encode (putSettled 0 True s) w k"

definition auth_inv :: "'v blob_writer \<Rightarrow> 'v auth_store \<Rightarrow> 'v \<times> 'v key_table \<Rightarrow> bool \<Rightarrow> bool" where
  "auth_inv encode s w k \<longleftrightarrow>
     (\<not> au_timer s \<longrightarrow> (au_creds s, au_keys s) = w)
     \<and> (au_puts s \<noteq> [] \<longrightarrow> k \<and> last (au_puts s) = encode w)
     \<and> (au_puts s = [] \<and> k \<longrightarrow> au_stored s = Some (encode w))"

lemma put_settled_inv: "auth_inv encode s w k \<Longrightarrow> auth_inv encode (putSettled 0 True s) w k"
  by (cases "au_puts s") (auto simp: auth_inv_def putSettled_def split: if_splits)

lemma put_bucket_same: "get ks c = Some b \<Longrightarrow> put c (bucket ks c) ks = ks"
  by (simp add: bucket_def put_same)

lemma clear_unchanged: "snd (clearSessionsForUsers us s) = 0 \<Longrightarrow> fst (clearSessionsForUsers us s) = s"
  by (auto simp: clearSessionsForUsers_def Let_def put_bucket_same)

lemma clear_schedules: "snd (clearSessionsForUsers us s) \<noteq> 0 \<Longrightarrow> au_timer (fst (clearSessionsForUsers us s))"
  by (auto simp: clearSessionsForUsers_def Let_def scheduleSave_def)

lemma clear_keeps [simp]:
  "au_puts (fst (clearSessionsForUsers us s)) = au_puts s"
  "au_stored (fst (clearSessionsForUsers us s)) = au_stored s"
  by (simp_all add: clearSessionsForUsers_def Let_def scheduleSave_def)

lemma auth_run_inv: "auth_run encode s w k \<Longrightarrow> auth_inv encode s w k"
proof (induction rule: auth_run.induct)
  case (ar_clear s w k us)
  then show ?case
    using clear_unchanged [of us s] clear_schedules [of us s]
    by (cases "snd (clearSessionsForUsers us s) = 0") (auto simp: auth_inv_def)
next
  case (ar_put s w k)
  then show ?case by (simp add: put_settled_inv)
qed (auto simp: auth_inv_def keys_set_def saveCreds_def scheduleSave_def saveTimerFired_def flush_def doSave_def)

lemma puts_settled: "au_puts (putSettled 0 True s) = tl (au_puts s)"
  by (cases "au_puts s") (simp_all add: putSettled_def)

lemma settle_all_puts: "au_puts ((putSettled 0 True ^^ n) s) = drop n (au_puts s)"
  by (induction n) (simp_all add: puts_settled tl_drop drop_Suc)

lemma settle_all_inv: "auth_inv encode s w k \<Longrightarrow> auth_inv encode ((putSettled 0 True ^^ n) s) w k"
  by (induction n) (auto simp: put_settled_inv)

section \<open>Properties\<close>

text \<open>
  Property C16. The key table is a map from category and id to value: \<open>set\<close> changes exactly
  the ids it names, deleting those without a value, \<open>get\<close> reads each id asked for, and a
  recovery deletes exactly the sessions of the given users.
\<close>

theorem key_store_refines_map:
  assumes "wf_table (au_keys s)" "distinct (map fst data)" "\<forall>(c, es) \<in> set data. distinct (map fst es)"
  shows "wf_table (au_keys (keys_set data s)) \<and> au_timer (keys_set data s)
    \<and> stored_key (au_keys (keys_set data s)) c i
        = (case changed_to data c i of None \<Rightarrow> stored_key (au_keys s) c i | Some v \<Rightarrow> v)
    \<and> keys_get f c ids s = map (\<lambda>i. (i, map_option (if c = lat ''app-state-sync-key'' then f else id)
        (stored_key (au_keys s) c i))) ids
    \<and> stored_key (au_keys (fst (clearSessionsForUsers us s))) c i
        = (if c = lat ''session'' \<and> session_user i \<in> set us then None else stored_key (au_keys s) c i)"
proof -
  have "stored_key (au_keys (fst (clearSessionsForUsers us s))) c i
      = (if c = lat ''session'' \<and> session_user i \<in> set us then None else stored_key (au_keys s) c i)"
  proof (cases "get (au_keys s) (lat ''session'')")
    case None
    then have "clearSessionsForUsers us s = (s, 0)" by (simp add: clearSessionsForUsers_def bucket_def Let_def)
    with None show ?thesis by (auto simp: stored_key_def bucket_def)
  next
    case (Some b)
    let ?b = "bucket (au_keys s) (lat ''session'')"
    let ?gone = "filter (\<lambda>i. session_user i \<in> set us) (keys ?b)"
    have "au_keys (fst (clearSessionsForUsers us s)) = put (lat ''session'') (fold del ?gone ?b) (au_keys s)"
      using Some by (simp add: clearSessionsForUsers_def Let_def scheduleSave_def)
    moreover have "i \<notin> fst ` set ?b \<Longrightarrow> map_of ?b i = None" by (simp add: map_of_eq_None_iff)
    ultimately show ?thesis by (auto simp: stored_key_def map_of_fold_del)
  qed
  then show ?thesis
    using stored_fold_categories [OF assms(2,3), of "au_keys s" c i] wf_fold_categories [OF assms(1), of data]
    by (simp add: keys_set_def scheduleSave_def keys_get_def stored_key_def)
qed

theorem key_store_refines_map_witness:
  "stored_key (au_keys (keys_set [(lat ''session'', [([49], Some (7 :: nat)), ([50], None)])]
     \<lparr>au_creds = 0, au_keys = [(lat ''session'', [([50], 9)])], au_timer = False, au_puts = [], au_stored = None\<rparr>))
     (lat ''session'') [50] = None"
  using key_store_refines_map [of "\<lparr>au_creds = 0 :: nat, au_keys = [(lat ''session'', [([50], 9)])],
      au_timer = False, au_puts = [], au_stored = None\<rparr>" "[(lat ''session'', [([49], Some 7), ([50], None)])]"
      "lat ''session''" "[50]"]
  by (simp add: wf_table_def wf_obj_def changed_to_def)

text \<open>
  Property C25. Nothing is lost at an orderly restart: with writes that arrive in order, after
  \<open>flush\<close> and the end of every write in flight the backend holds the credentials and keys of
  the memory, unless nothing changed since they were loaded, and loading them again gives
  exactly these.
\<close>

theorem flush_saves_everything:
  assumes "auth_run encode s w k" "decode (encode (au_creds s, au_keys s)) = Some (au_creds s, Some (au_keys s))"
    "encode (au_creds s, au_keys s) \<noteq> []"
  shows "let s1 = flush encode s; s2 = (putSettled 0 True ^^ length (au_puts s1)) s1 in
    \<not> au_timer s2 \<and> au_puts s2 = []
    \<and> (if k \<or> au_timer s
       then au_stored s2 = Some (encode (au_creds s, au_keys s))
         \<and> map_option (\<lambda>x. (au_creds x, au_keys x)) (useDbAuthState decode init (Inr (au_stored s2)) (au_stored s2))
             = Some (au_creds s, au_keys s)
       else (au_creds s, au_keys s) = w)"
proof -
  define s1 where "s1 = flush encode s"
  define s2 where "s2 = (putSettled 0 True ^^ length (au_puts s1)) s1"
  obtain w' k' where r: "auth_run encode s1 w' k'" "k' \<longleftrightarrow> k \<or> au_timer s" "w' = (if au_timer s then (au_creds s, au_keys s) else w)"
    using assms(1) ar_flush [OF assms(1)] by (cases "au_timer s") (auto simp: s1_def flush_def)
  have i2: "auth_inv encode s2 w' k'"
    unfolding s2_def by (rule settle_all_inv [OF auth_run_inv [OF r(1)]])
  have p: "au_puts s2 = []" unfolding s2_def settle_all_puts by simp
  have t: "au_timer ((putSettled 0 True ^^ n) x) = au_timer x" "au_creds ((putSettled 0 True ^^ n) x) = au_creds x"
    "au_keys ((putSettled 0 True ^^ n) x) = au_keys x" for n and x :: "'a auth_store"
    by (induction n) (auto simp: putSettled_def)
  have c: "\<not> au_timer s2" "au_creds s2 = au_creds s" "au_keys s2 = au_keys s"
    unfolding s2_def t by (simp_all add: s1_def flush_def doSave_def)
  with i2 have w: "(au_creds s, au_keys s) = w'" by (simp add: auth_inv_def)
  show ?thesis
  proof (cases "k \<or> au_timer s")
    case True
    with i2 p r(2) w have "au_stored s2 = Some (encode (au_creds s, au_keys s))" by (simp add: auth_inv_def)
    with True p c assms(2,3) show ?thesis
      by (simp add: useDbAuthState_def s1_def [symmetric] s2_def [symmetric] Let_def)
  next
    case False
    with p c w r(3) show ?thesis by (simp add: s1_def [symmetric] s2_def [symmetric] Let_def)
  qed
qed

theorem flush_saves_everything_witness:
  "\<exists>s. auth_run (\<lambda>_. [49]) s (0 :: nat, []) False \<and> au_creds s = 5
    \<and> au_stored (putSettled 0 True (flush (\<lambda>_. [49]) s)) = Some [49]"
proof -
  define enc :: "nat blob_writer" where "enc = (\<lambda>_. [49])"
  define z :: "nat auth_store" where
    "z = \<lparr>au_creds = 0, au_keys = [], au_timer = False, au_puts = [], au_stored = None\<rparr>"
  define s where "s = saveCreds 5 z"
  have r: "auth_run enc s (0, []) False"
    using ar_creds [OF ar_load, of z enc 5] by (simp add: s_def z_def)
  have e: "au_creds s = 5" "au_keys s = []" "au_timer s" "length (au_puts (flush enc s)) = 1"
    by (simp_all add: s_def z_def flush_def doSave_def saveCreds_def scheduleSave_def)
  have "au_stored (putSettled 0 True (flush enc s)) = Some [49]"
    using flush_saves_everything [OF r, of "\<lambda>_. Some (5, Some [])" 0] e by (simp add: Let_def enc_def)
  with r e(1) show ?thesis unfolding enc_def by blast
qed

text \<open>
  Two writes may be in flight at once, and the backend keeps the one that
  arrives last: if the older one is slower, the store ends with the stale credentials, with no
  write pending and nothing left to flush.
\<close>

theorem older_save_can_win:
  "\<exists>s. auth_run encode s (c2, ks) True \<and> au_puts s = [encode (c1, ks), encode (c2, ks)]
    \<and> (let s' = putSettled 0 True (putSettled 1 True s) in
        au_creds s' = c2 \<and> au_stored s' = Some (encode (c1, ks)) \<and> au_puts s' = [] \<and> flush encode s' = s')"
proof -
  let ?s0 = "\<lparr>au_creds = c1, au_keys = ks, au_timer = False, au_puts = [], au_stored = None\<rparr>"
  let ?s1 = "saveTimerFired encode (saveCreds c1 ?s0)"
  let ?s2 = "saveTimerFired encode (saveCreds c2 ?s1)"
  have t: "au_timer (saveCreds c x)" "au_keys (saveCreds c x) = au_keys x" "au_creds (saveCreds c x) = c" for c x
    by (simp_all add: saveCreds_def scheduleSave_def)
  have "auth_run encode ?s0 (c1, ks) False" using ar_load [of ?s0 encode] by simp
  from ar_timer [OF ar_creds [OF this] t(1)] have "auth_run encode ?s1 (c1, ks) True" by (simp add: t)
  moreover have k1: "au_keys ?s1 = ks" by (simp add: saveTimerFired_def doSave_def t)
  ultimately have "auth_run encode ?s2 (c2, ks) True" using ar_timer [OF ar_creds t(1)] by (metis t(2,3))
  moreover have "?s2 = \<lparr>au_creds = c2, au_keys = ks, au_timer = False,
      au_puts = [encode (c1, ks), encode (c2, ks)], au_stored = None\<rparr>"
    by (simp add: saveTimerFired_def doSave_def saveCreds_def scheduleSave_def)
  ultimately show ?thesis
    by (intro exI [of _ ?s2]) (simp add: putSettled_def flush_def)
qed

end
