(* ===== verification/GwManager.thy ===== *)
theory GwManager
  imports GwLifecycle GwAuth JsUrl
begin

text \<open>
  The gateway around its sessions: the calls to the backend (\<open>gateway/src/internalApi.js\<close>,
  \<open>gateway/src/webhook.js\<close>), the manager that keeps one session per listed business
  (\<open>gateway/src/manager.js\<close>) and its HTTP routes (\<open>gateway/src/routes.js\<close>).
\<close>

section \<open>Calls to the backend\<close>

text \<open>
  What a request of the HTTP library ends in: it throws, or there is an answer, whose body
  may not be JSON (\<open>None\<close>). The request itself: method, URL, and what its body carries.
\<close>

datatype gw_answer = Gw_threw | Gw_answer nat "json option"

datatype gw_method = Gw_get | Gw_put | Gw_post

datatype gw_body =
    No_body
  | Json_body "(jsstr \<times> json) list"
  | Form_body "(jsstr \<times> wa) list" "nat list"

record gw_request =
  gr_method :: gw_method
  gr_url :: jsstr
  gr_token :: jsstr
  gr_body :: gw_body

definition api_base :: "gw_config \<Rightarrow> jsstr" where
  "api_base cfg = strip_suffix [47] (cfg_backendBaseUrl cfg)"

definition jget :: "json option \<Rightarrow> jsstr \<Rightarrow> json option" where
  "jget j k = (case j of Some (JObj kvs) \<Rightarrow> get kvs k | _ \<Rightarrow> None)"

definition api_request :: "gw_config \<Rightarrow> gw_method \<Rightarrow> jsstr \<Rightarrow> gw_body \<Rightarrow> gw_request" where
  "api_request cfg m path body =
     \<lparr>gr_method = m, gr_url = api_base cfg @ path, gr_token = cfg_gatewayApiToken cfg, gr_body = body\<rparr>"

definition listSessions_request :: "gw_config \<Rightarrow> gw_request" where
  "listSessions_request cfg = api_request cfg Gw_get (lat ''/internal/wa/sessions'') No_body"

text \<open>The result of \<open>listSessions\<close>; the status code is not looked at.\<close>

fun string_ids :: "json list \<Rightarrow> jsstr list" where
  "string_ids [] = []"
| "string_ids (JStr s # js) = (if s \<noteq> [] then s # string_ids js else string_ids js)"
| "string_ids (j # js) = string_ids js"

definition listSessions :: "gw_answer \<Rightarrow> jsstr list" where
  "listSessions a =
     (case a of
        Gw_threw \<Rightarrow> []
      | Gw_answer st body \<Rightarrow>
          (case jget body (lat ''sessions'') of Some (JArr js) \<Rightarrow> string_ids js | _ \<Rightarrow> []))"

text \<open>\<open>None\<close> when the id cannot be encoded and the call throws before anything is sent.\<close>

definition creds_request :: "gw_config \<Rightarrow> gw_method \<Rightarrow> jsstr \<Rightarrow> gw_body \<Rightarrow> gw_request option" where
  "creds_request cfg m businessId body =
     map_option (\<lambda>i. api_request cfg m ((lat ''/internal/wa/creds/'') @ i) body) (encodeURIComponent businessId)"

definition saveCreds_body :: "jsstr \<Rightarrow> gw_body" where
  "saveCreds_body authStateB64 = Json_body [((lat ''auth_state''), JStr authStateB64)]"

text \<open>\<open>Inl\<close> is the thrown error; \<open>Inr None\<close> stands for \<open>authState: null\<close>.\<close>

definition loadCreds :: "gw_answer \<Rightarrow> jsstr + json option" where
  "loadCreds a =
     (case a of
        Gw_threw \<Rightarrow> Inl (lat ''request failed'')
      | Gw_answer st body \<Rightarrow>
          if 400 \<le> st then Inl ((lat ''loadCreds '') @ nat_str st)
          else Inr (case jget body (lat ''auth_state'') of Some JNull \<Rightarrow> None | v \<Rightarrow> v))"

definition saveCreds_ok :: "gw_answer \<Rightarrow> bool" where
  "saveCreds_ok a = (case a of Gw_threw \<Rightarrow> False | Gw_answer st body \<Rightarrow> st < 400)"

definition status_name :: "gw_status \<Rightarrow> jsstr" where
  "status_name st =
     (case st of
        Starting \<Rightarrow> (lat ''starting'') | Qr_pending \<Rightarrow> (lat ''qr_pending'') | Connected \<Rightarrow> (lat ''connected'')
      | Disconnected \<Rightarrow> (lat ''disconnected'') | Logged_out \<Rightarrow> (lat ''logged_out''))"

definition json_or_null :: "jsstr option \<Rightarrow> json" where
  "json_or_null s = (case s of None \<Rightarrow> JNull | Some x \<Rightarrow> JStr x)"

definition reportStatus_request :: "gw_config \<Rightarrow> jsstr \<Rightarrow> wa_report \<Rightarrow> gw_request option" where
  "reportStatus_request cfg businessId r =
     map_option (\<lambda>i. api_request cfg Gw_post ((lat ''/internal/wa/status/'') @ i)
         (Json_body [((lat ''status''), JStr (status_name (rp_status r))), ((lat ''phone''), json_or_null (rp_phone r)),
                     ((lat ''qr_data_url''), json_or_null (rp_qr r))]))
       (encodeURIComponent businessId)"

definition reportStatus :: "gw_answer \<Rightarrow> json option" where
  "reportStatus a = (case a of Gw_threw \<Rightarrow> None | Gw_answer st body \<Rightarrow> if st < 400 then body else None)"

fun json_truthy :: "json \<Rightarrow> bool" where
  "json_truthy JNull = False"
| "json_truthy (JBool b) = b"
| "json_truthy (JNum n) = (n \<noteq> NaN \<and> n \<noteq> Fin 0)"
| "json_truthy (JStr s) = (s \<noteq> [])"
| "json_truthy (JArr js) = True"
| "json_truthy (JObj kvs) = True"

text \<open>\<open>resp?.conflict\<close>\<close>

definition is_conflict :: "json option \<Rightarrow> bool" where
  "is_conflict resp = (case jget resp (lat ''conflict'') of None \<Rightarrow> False | Some v \<Rightarrow> json_truthy v)"

definition uploadMedia_request :: "gw_config \<Rightarrow> jsstr \<Rightarrow> upload_request \<Rightarrow> gw_request" where
  "uploadMedia_request cfg businessId u =
     (let opt = (\<lambda>k v. if v \<noteq> [] then [(k, W_str v)] else []) in
      api_request cfg Gw_post (lat ''/internal/wa/media'')
       (Form_body
         ([((lat ''business_id''), W_str businessId)]
          @ opt (lat ''conversation_id'') (str_or_empty (ur_conversationId u))
          @ opt (lat ''message_id'') (str_or_empty (ur_messageId u))
          @ opt (lat ''mime_type'') (ur_mimeType u)
          @ opt (lat ''file_name'') (if truthy (ur_fileName u) then to_string (ur_fileName u) else []))
         (ur_bytes u)))"

text \<open>
  \<open>String(v)\<close> of a string; \<open>other\<close> prints the rest. The mime type is the sniffed one if the
  backend named it.
\<close>

definition json_string :: "(json \<Rightarrow> jsstr) \<Rightarrow> json \<Rightarrow> jsstr" where
  "json_string other j = (case j of JStr s \<Rightarrow> s | _ \<Rightarrow> other j)"

definition uploadMedia :: "(json \<Rightarrow> jsstr) \<Rightarrow> upload_request \<Rightarrow> gw_answer \<Rightarrow> stored_media option" where
  "uploadMedia other u a =
     (case a of
        Gw_threw \<Rightarrow> None
      | Gw_answer st body \<Rightarrow>
          if 400 \<le> st then None
          else
            (case jget body (lat ''file_id'') of
               None \<Rightarrow> None
             | Some f \<Rightarrow>
                 if \<not> json_truthy f then None
                 else Some
                   \<lparr>sm_file_id = json_string other f,
                    sm_mime_type =
                      (case jget body (lat ''mime_type'') of
                         Some v \<Rightarrow> if json_truthy v then json_string other v else ur_mimeType u
                       | None \<Rightarrow> ur_mimeType u),
                    sm_name = (if truthy (ur_fileName u) then to_string (ur_fileName u) else [])\<rparr>))"

text \<open>The replies the session sends: \<open>response?.replies\<close> when it is an array. Here too the status code is not looked at.\<close>

definition forwardToBackend :: "gw_answer \<Rightarrow> json option" where
  "forwardToBackend a = (case a of Gw_threw \<Rightarrow> None | Gw_answer st body \<Rightarrow> body)"

definition reply_text :: "json \<Rightarrow> jsstr option" where
  "reply_text j = (case j of JStr s \<Rightarrow> Some s | _ \<Rightarrow> None)"

definition replies_of :: "json option \<Rightarrow> jsstr option list option" where
  "replies_of resp =
     (case jget resp (lat ''replies'') of Some (JArr js) \<Rightarrow> Some (map reply_text js) | _ \<Rightarrow> None)"

text \<open>
  What \<open>useDbAuthState\<close> gets to decode: anything but a string is falsy or makes
  \<open>Buffer.from\<close> throw, and both start afresh.
\<close>

definition auth_blob :: "jsstr + json option \<Rightarrow> jsstr + jsstr option" where
  "auth_blob r =
     (case r of Inl err \<Rightarrow> Inl err | Inr v \<Rightarrow> Inr (case v of Some (JStr s) \<Rightarrow> Some s | _ \<Rightarrow> None))"

section \<open>Manager\<close>

text \<open>
  \<open>gw_sessions\<close> is the map from business to session, in the order of insertion, and
  \<open>gw_removed\<close> the sessions taken out of it, whose \<open>stop\<close> runs on. \<open>syncSessions\<close> awaits the
  list of the backend: it is split there.
\<close>

record gateway =
  gw_sessions :: "(jsstr \<times> lifecycle) list"
  gw_removed :: "(jsstr \<times> lifecycle) list"
  gw_syncing :: bool

definition startManager :: gateway where
  "startManager = \<lparr>gw_sessions = [], gw_removed = [], gw_syncing = True\<rparr>"

definition syncBegin :: "gateway \<Rightarrow> gateway" where
  "syncBegin g = (if gw_syncing g then g else g\<lparr>gw_syncing := True\<rparr>)"

definition start_listed :: "jsstr \<Rightarrow> (jsstr \<times> lifecycle) list \<Rightarrow> (jsstr \<times> lifecycle) list" where
  "start_listed b m = (if get m b = None then put b (start False createSession) m else m)"

definition syncEnd :: "jsstr list \<Rightarrow> gateway \<Rightarrow> gateway" where
  "syncEnd desired g =
     (let desiredSet = fold set_add desired [];
          started = fold start_listed desiredSet (gw_sessions g);
          keep = (\<lambda>bs. desiredSet = [] \<or> fst bs \<in> set desiredSet)
      in g\<lparr>gw_sessions := filter keep started,
           gw_removed := gw_removed g @ map (\<lambda>(b, s). (b, stopBegin s)) (filter (\<lambda>bs. \<not> keep bs) started),
           gw_syncing := False\<rparr>)"

definition stopManager :: "gateway \<Rightarrow> gateway" where
  "stopManager g =
     g\<lparr>gw_sessions := [], gw_removed := gw_removed g @ map (\<lambda>(b, s). (b, stopBegin s)) (gw_sessions g)\<rparr>"

definition getSession :: "gateway \<Rightarrow> jsstr \<Rightarrow> lifecycle option" where
  "getSession g b = get (gw_sessions g) b"

definition sessionCount :: "gateway \<Rightarrow> nat" where
  "sessionCount g = length (gw_sessions g)"

text \<open>The running gateway: polls, answers of the backend, and whatever happens to its sessions.\<close>

inductive gw_run :: "gateway \<Rightarrow> bool" where
  gw_start: "gw_run startManager"
| gw_poll: "gw_run g \<Longrightarrow> gw_run (syncBegin g)"
| gw_list: "gw_run g \<Longrightarrow> gw_syncing g \<Longrightarrow> gw_run (syncEnd (listSessions a) g)"
| gw_event: "gw_run g \<Longrightarrow> get (gw_sessions g) b = Some s \<Longrightarrow> lc_next s s' \<Longrightarrow>
    gw_run (g\<lparr>gw_sessions := put b s' (gw_sessions g)\<rparr>)"
| gw_late: "gw_run g \<Longrightarrow> i < length (gw_removed g) \<Longrightarrow> gw_removed g ! i = (b, s) \<Longrightarrow> lc_next s s' \<Longrightarrow>
    gw_run (g\<lparr>gw_removed := (gw_removed g)[i := (b, s')]\<rparr>)"

section \<open>Routes\<close>

text \<open>\<open>sha\<close> is the digest of the crypto library.\<close>

definition gatewayTokenValid :: "(jsstr \<Rightarrow> nat list) \<Rightarrow> gw_config \<Rightarrow> jsstr option \<Rightarrow> bool" where
  "gatewayTokenValid sha cfg provided =
     (case provided of
        None \<Rightarrow> False
      | Some p \<Rightarrow> p \<noteq> [] \<and> sha p = sha (cfg_gatewayApiToken cfg))"

text \<open>
  \<open>sendText\<close> of a session: whether the send was queued, and the message id (\<open>Inl\<close> is the
  thrown error). \<open>sent\<close> is what the socket answers: it rejects, or it has an id or not.
\<close>

definition sendText :: "lifecycle \<Rightarrow> jsstr option option \<Rightarrow> bool \<times> (unit + jsstr option)" where
  "sendText s sent =
     (if lc_sock s = None \<or> lc_status s \<noteq> Connected then (False, Inl ())
      else (True, case sent of None \<Rightarrow> Inl () | Some i \<Rightarrow> Inr (if i = Some [] then None else i)))"

record bot_response =
  br_status :: nat
  br_error :: "jsstr option"
  br_message_id :: "jsstr option"

definition bot_error :: "nat \<Rightarrow> jsstr \<Rightarrow> bot_response" where
  "bot_error st e = \<lparr>br_status = st, br_error = Some e, br_message_id = None\<rparr>"

definition body_string :: "json option \<Rightarrow> jsstr \<Rightarrow> jsstr" where
  "body_string body k = (case jget body k of Some (JStr s) \<Rightarrow> s | _ \<Rightarrow> [])"

text \<open>The response, and the send that was queued: business, recipient and text.\<close>

definition send_bot ::
    "(jsstr \<Rightarrow> nat list) \<Rightarrow> gw_config \<Rightarrow> gateway \<Rightarrow> jsstr option \<Rightarrow> json option \<Rightarrow> jsstr option option
     \<Rightarrow> bot_response \<times> (jsstr \<times> jsstr \<times> jsstr) option" where
  "send_bot sha cfg g token body sent =
     (let businessId = trim (body_string body (lat ''business_id''));
          to = trim (body_string body (lat ''to''));
          tx = body_string body (lat ''text'')
      in if \<not> gatewayTokenValid sha cfg token then (bot_error 401 (lat ''unauthorized''), None)
         else if businessId = [] \<or> to = [] \<or> trim tx = [] then
           (bot_error 400 (lat ''missing business_id, to or text''), None)
         else
           (case getSession g businessId of
              None \<Rightarrow> (bot_error 503 (lat ''not connected''), None)
            | Some s \<Rightarrow>
                if lc_status s \<noteq> Connected then (bot_error 503 (lat ''not connected''), None)
                else
                  (case sendText s sent of
                     (queued, r) \<Rightarrow>
                       (case r of
                          Inl e \<Rightarrow> bot_error 500 (lat ''send failed'')
                        | Inr mid \<Rightarrow> \<lparr>br_status = 200, br_error = None, br_message_id = mid\<rparr>,
                        if queued then Some (businessId, to, tx) else None))))"

section \<open>Lemmas\<close>

lemma set_fold_set_add: "set (fold set_add xs ys) = set xs \<union> set ys"
  by (induction xs arbitrary: ys) (auto simp: set_add_def)

lemma fold_set_add_Nil [simp]: "fold set_add xs [] = [] \<longleftrightarrow> xs = []"
  using set_fold_set_add [of xs "[]"] by (cases xs) auto

lemma wf_start_listed: "wf_obj m \<Longrightarrow> wf_obj (start_listed b m)"
  by (simp add: start_listed_def wf_put)

lemma wf_fold_start: "wf_obj m \<Longrightarrow> wf_obj (fold start_listed bs m)"
  by (induction bs arbitrary: m) (simp_all add: wf_start_listed)

lemma get_fold_start:
  "get (fold start_listed bs m) b =
     (if get m b = None \<and> b \<in> set bs then Some (start False createSession) else get m b)"
  by (induction bs arbitrary: m) (auto simp: start_listed_def)

lemma wf_filter: "wf_obj m \<Longrightarrow> wf_obj (filter P m)"
  by (simp add: wf_obj_def distinct_map_filter)

lemma get_filter_key: "get (filter (\<lambda>bs. P (fst bs)) m) b = (if P b then get m b else None)"
  by (induction m) auto

lemma get_syncEnd:
  "get (gw_sessions (syncEnd ds g)) b =
     (if ds = [] then get (gw_sessions g) b
      else if b \<in> set ds then
        (case get (gw_sessions g) b of None \<Rightarrow> Some (start False createSession) | Some s \<Rightarrow> Some s)
      else None)"
  by (simp add: syncEnd_def Let_def get_filter_key [where P = "\<lambda>b. b \<in> set ds"]
      get_fold_start set_fold_set_add split: option.split)

lemma wf_syncEnd: "wf_obj (gw_sessions g) \<Longrightarrow> wf_obj (gw_sessions (syncEnd ds g))"
  by (simp add: syncEnd_def Let_def wf_filter wf_fold_start)


lemma filter_all_keys: "\<forall>b. get m b \<noteq> None \<longrightarrow> P b \<Longrightarrow> filter (\<lambda>bs. P (fst bs)) m = m"
  by (induction m) (auto split: if_splits)

lemma fold_start_present: "\<forall>b \<in> set bs. get m b \<noteq> None \<Longrightarrow> fold start_listed bs m = m"
  by (induction bs) (auto simp: start_listed_def)

lemma syncEnd_sessions_stable:
  assumes "ds \<noteq> [] \<Longrightarrow> \<forall>b. get (gw_sessions g) b \<noteq> None \<longleftrightarrow> b \<in> set ds"
  shows "gw_sessions (syncEnd ds g) = gw_sessions g"
proof (cases "ds = []")
  case False
  with assms show ?thesis
    by (simp add: syncEnd_def Let_def set_fold_set_add fold_start_present
        filter_all_keys [where P = "\<lambda>b. b \<in> set ds"])
qed (simp add: syncEnd_def)

text \<open>A session in the map is one of the lifecycle's runs that nobody stopped.\<close>

definition gw_inv :: "gateway \<Rightarrow> bool" where
  "gw_inv g \<longleftrightarrow>
     wf_obj (gw_sessions g)
     \<and> (\<forall>b s. get (gw_sessions g) b = Some s \<longrightarrow> lc_run s \<and> \<not> lc_stopped s)
     \<and> (\<forall>(b, s) \<in> set (gw_removed g). lc_run s \<and> lc_stopped s)"

lemma not_stopped_start [simp]: "\<not> lc_stopped (start f createSession)"
  by (simp add: start_def createSession_def)

lemma lc_stopped_stopBegin [simp]: "lc_stopped (stopBegin s)"
  by (simp add: stopBegin_def)

lemma gw_inv_syncEnd:
  assumes "gw_inv g"
  shows "gw_inv (syncEnd ds g)"
proof -
  let ?st = "fold start_listed (fold set_add ds []) (gw_sessions g)"
  have run: "lc_run s" if "(b, s) \<in> set ?st" for b s
  proof -
    have "wf_obj ?st" using assms by (simp add: gw_inv_def wf_fold_start)
    with that have "get ?st b = Some s" by (simp add: wf_obj_def)
    then show ?thesis
      using assms lc_start by (auto simp: get_fold_start gw_inv_def split: if_splits)
  qed
  have "\<forall>b s. get (gw_sessions (syncEnd ds g)) b = Some s \<longrightarrow> lc_run s \<and> \<not> lc_stopped s"
    using assms lc_start by (auto simp: get_syncEnd gw_inv_def split: if_splits option.splits)
  moreover have "\<forall>(b, s) \<in> set (gw_removed (syncEnd ds g)). lc_run s \<and> lc_stopped s"
    using assms run by (auto simp: syncEnd_def Let_def gw_inv_def intro: lc_stop)
  ultimately show ?thesis using assms by (simp add: gw_inv_def wf_syncEnd)
qed

lemma gw_run_inv: "gw_run g \<Longrightarrow> gw_inv g"
proof (induction rule: gw_run.induct)
  case gw_start
  show ?case by (simp add: gw_inv_def startManager_def)
next
  case (gw_poll g)
  then show ?case by (simp add: gw_inv_def syncBegin_def)
next
  case (gw_list g a)
  then show ?case by (simp add: gw_inv_syncEnd)
next
  case (gw_event g b s s')
  then have "lc_run s'" "\<not> lc_stopped s'" by (auto simp: gw_inv_def intro: lc_step)
  with gw_event show ?case by (simp add: gw_inv_def)
next
  case (gw_late g i b s s')
  then have "(b, s) \<in> set (gw_removed g)" using nth_mem by fastforce
  with gw_late have "lc_run s'" "lc_stopped s'" by (auto simp: gw_inv_def intro: lc_step)
  with gw_late show ?case by (auto simp: gw_inv_def dest!: subsetD [OF set_update_subset_insert])
qed

section \<open>Properties\<close>

text \<open>
  Property C13. On every run of the gateway a business has at most one session in the manager,
  and that session is alive: nobody stopped it, and it is starting, waiting to reconnect or on
  a socket that has not closed. Every session taken out of the manager is stopped.
\<close>

theorem manager_sessions_live:
  assumes "gw_run g"
  shows "distinct (map fst (gw_sessions g))
    \<and> (\<forall>b s. getSession g b = Some s \<longrightarrow> \<not> lc_stopped s \<and>
          (lc_calls s \<noteq> [] \<or> lc_timer s \<noteq> None \<or> (\<exists>k. lc_sock s = Some k \<and> k \<notin> set (lc_closed s))))
    \<and> (\<forall>(b, s) \<in> set (gw_removed g). lc_stopped s)"
proof -
  have g: "gw_inv g" by (rule gw_run_inv [OF assms])
  have live: "\<not> lc_stopped s \<and>
      (lc_calls s \<noteq> [] \<or> lc_timer s \<noteq> None \<or> (\<exists>k. lc_sock s = Some k \<and> k \<notin> set (lc_closed s)))"
    if "getSession g b = Some s" for b s
  proof -
    have "lc_run s" "\<not> lc_stopped s" using g that by (simp_all add: gw_inv_def getSession_def)
    with lc_run_inv [of s] show ?thesis by (simp add: lc_inv_def)
  qed
  have "distinct (map fst (gw_sessions g))" using g by (simp add: gw_inv_def wf_obj_def)
  moreover have "\<forall>(b, s) \<in> set (gw_removed g). lc_stopped s" using g by (auto simp: gw_inv_def)
  ultimately show ?thesis using live by blast
qed

definition listing :: "jsstr list \<Rightarrow> gw_answer" where
  "listing bs = Gw_answer 200 (Some (JObj [((lat ''sessions''), JArr (map JStr bs))]))"

theorem manager_sessions_live_witness:
  "\<not> lc_stopped (start False createSession)
   \<and> getSession (syncEnd (listSessions (listing [[97]])) startManager) [97] = Some (start False createSession)"
proof -
  have "gw_run (syncEnd (listSessions (listing [[97]])) startManager)"
    by (rule gw_list [OF gw_start]) (simp add: startManager_def)
  moreover have "getSession (syncEnd (listSessions (listing [[97]])) startManager) [97] = Some (start False createSession)"
    by (simp add: getSession_def get_syncEnd startManager_def listing_def listSessions_def jget_def)
  ultimately show ?thesis using manager_sessions_live by blast
qed

text \<open>
  Property C20. One poll reconciles the sessions with the list of the backend: afterwards the
  businesses are exactly the listed ones, sessions that ran before run on untouched, new ones
  are started, unlisted ones are stopped, and a second poll with the same answer changes
  nothing. An empty list, an error answer or a request that throws leaves every session alone.
\<close>

theorem sync_reconciles:
  assumes "gw_run g"
  shows "(listSessions a \<noteq> [] \<longrightarrow> set (map fst (gw_sessions (syncEnd (listSessions a) g))) = set (listSessions a))
    \<and> (\<forall>b s. getSession g b = Some s \<and> (b \<in> set (listSessions a) \<or> listSessions a = []) \<longrightarrow>
          getSession (syncEnd (listSessions a) g) b = Some s)
    \<and> (\<forall>b \<in> set (listSessions a). getSession g b = None \<longrightarrow>
          getSession (syncEnd (listSessions a) g) b = Some (start False createSession))
    \<and> (\<forall>b s. getSession g b = Some s \<and> listSessions a \<noteq> [] \<and> b \<notin> set (listSessions a) \<longrightarrow>
          getSession (syncEnd (listSessions a) g) b = None
          \<and> (b, stopBegin s) \<in> set (gw_removed (syncEnd (listSessions a) g)))
    \<and> gw_sessions (syncEnd (listSessions a) (syncEnd (listSessions a) g)) = gw_sessions (syncEnd (listSessions a) g)
    \<and> (a = Gw_threw \<or> (\<exists>st. a = Gw_answer st None) \<longrightarrow> gw_sessions (syncEnd (listSessions a) g) = gw_sessions g)"
proof -
  let ?ds = "listSessions a"
  have keys: "set (map fst m) = {b. get m b \<noteq> None}" for m :: "(jsstr \<times> lifecycle) list"
    by (auto simp: map_of_eq_None_iff)
  have removed: "(b, stopBegin s) \<in> set (gw_removed (syncEnd ?ds g))"
    if "get (gw_sessions g) b = Some s" "?ds \<noteq> []" "b \<notin> set ?ds" for b s
  proof -
    have "get (fold start_listed (fold set_add ?ds []) (gw_sessions g)) b = Some s"
      using that by (simp add: get_fold_start)
    then have "(b, s) \<in> set (fold start_listed (fold set_add ?ds []) (gw_sessions g))" by (rule map_of_SomeD)
    with that show ?thesis by (force simp: syncEnd_def Let_def set_fold_set_add)
  qed
  have listed: "set (map fst (gw_sessions (syncEnd ?ds g))) = set ?ds" if "?ds \<noteq> []"
    unfolding keys using that by (auto simp: get_syncEnd split: option.splits)
  have again: "gw_sessions (syncEnd ?ds (syncEnd ?ds g)) = gw_sessions (syncEnd ?ds g)"
    by (rule syncEnd_sessions_stable) (simp add: get_syncEnd split: option.split)
  have quiet: "gw_sessions (syncEnd ?ds g) = gw_sessions g" if "a = Gw_threw \<or> (\<exists>st. a = Gw_answer st None)"
    by (rule syncEnd_sessions_stable) (use that in \<open>auto simp: listSessions_def jget_def\<close>)
  from removed listed again quiet show ?thesis
    unfolding getSession_def by (auto simp: get_syncEnd split: option.splits)
qed

theorem sync_reconciles_witness:
  "set (map fst (gw_sessions (syncEnd (listSessions (listing [[97], [98]])) startManager))) = {[97], [98]}"
proof -
  have "listSessions (listing [[97], [98]]) = [[97], [98]]"
    by (simp add: listing_def listSessions_def jget_def)
  with sync_reconciles [OF gw_start, of "listing [[97], [98]]"] show ?thesis by simp
qed

text \<open>
  Property C15. The route that sends is gated: a message is queued exactly when the token
  matches, business, recipient and text are not blank, and that business has a connected
  session with a socket; it goes to that business, recipient and text. The status is 401, 400
  or 503 in this order of checks and then nothing is queued; 200 or 500 only after all of them.
\<close>

theorem send_bot_gate:
  assumes collision_free: "\<And>x. sha x = sha (cfg_gatewayApiToken cfg) \<Longrightarrow> x = cfg_gatewayApiToken cfg"
    and token_set: "cfg_gatewayApiToken cfg \<noteq> []"
  shows "let b = trim (body_string body (lat ''business_id'')); to = trim (body_string body (lat ''to''));
             tx = body_string body (lat ''text''); r = send_bot sha cfg g token body sent;
             filled = (b \<noteq> [] \<and> to \<noteq> [] \<and> trim tx \<noteq> []);
             online = (\<exists>s. getSession g b = Some s \<and> lc_status s = Connected)
         in (\<forall>q. snd r = Some q \<longleftrightarrow>
               q = (b, to, tx) \<and> token = Some (cfg_gatewayApiToken cfg) \<and> filled
               \<and> (\<exists>s. getSession g b = Some s \<and> lc_status s = Connected \<and> lc_sock s \<noteq> None))
            \<and> br_status (fst r) =
               (if token \<noteq> Some (cfg_gatewayApiToken cfg) then 401 else if \<not> filled then 400
                else if \<not> online then 503
                else if sent \<noteq> None \<and> lc_sock (the (getSession g b)) \<noteq> None then 200 else 500)"
proof -
  have "gatewayTokenValid sha cfg token \<longleftrightarrow> token = Some (cfg_gatewayApiToken cfg)"
    using assms by (auto simp: gatewayTokenValid_def split: option.split)
  then show ?thesis
    unfolding Let_def send_bot_def sendText_def bot_error_def
    by (cases "getSession g (trim (body_string body (lat ''business_id'')))") (auto split: option.split)
qed

definition demo_cfg :: gw_config where
  "demo_cfg =
     \<lparr>cfg_port = Fin 3000, cfg_gatewayApiToken = [116], cfg_backendBaseUrl = [98],
      cfg_backendWebhookUrl = [98], cfg_sessionPollMs = Fin 15000, cfg_logLevel = [105]\<rparr>"

theorem send_bot_gate_witness:
  "br_status (fst (send_bot id demo_cfg startManager (Some [116])
     (Some (JObj [((lat ''business_id''), JStr [97]), ((lat ''to''), JStr [98]), ((lat ''text''), JStr [99])]))
     (Some None))) = 503"
  using send_bot_gate [of id demo_cfg
      "Some (JObj [((lat ''business_id''), JStr [97]), ((lat ''to''), JStr [98]), ((lat ''text''), JStr [99])])"
      startManager "Some [116]" "Some None"]
  by (simp add: demo_cfg_def body_string_def jget_def startManager_def getSession_def Let_def trim_def is_space_def lat_def)

text \<open>
  Credentials are lost on an unreadable answer: \<open>loadCreds\<close> throws on an error
  status only, and an answer of 200 whose body is no JSON counts as a business without
  credentials. The session starts with fresh ones, and its first save overwrites those that
  are stored.
\<close>

theorem unreadable_creds_overwritten:
  "\<exists>s. useDbAuthState decode init (auth_blob (loadCreds (Gw_answer 200 None))) (Some blob) = Some s
     \<and> au_creds s = init \<and> au_keys s = [] \<and> au_stored s = Some blob
     \<and> au_stored (putSettled 0 True (saveTimerFired encode (saveCreds c s))) = Some (encode (c, []))"
  by (simp add: useDbAuthState_def auth_blob_def loadCreds_def jget_def saveCreds_def scheduleSave_def
      saveTimerFired_def doSave_def putSettled_def)

text \<open>
  A business that is unlisted while its session starts and listed again ends up
  with two connected sockets: the session that was taken out goes on to connect, and the new
  one connects as well.
\<close>

theorem relisted_business_two_sockets:
  "\<exists>g b s r. gw_run g \<and> getSession g b = Some s \<and> lc_status s = Connected \<and> 0 \<notin> set (lc_ended s)
     \<and> (b, r) \<in> set (gw_removed g) \<and> lc_status r = Connected \<and> lc_sock r = Some 0 \<and> 0 \<notin> set (lc_ended r)"
proof -
  let ?s0 = "start False createSession" and ?up = "\<lambda>s. connectionOpen (None, None) (socketMade 0 s)"
  let ?s1 = "authLoaded 0 ?s0"
  let ?r1 = "stopEnd (stopBegin ?s1)"
  let ?g = "\<lambda>ss rs. \<lparr>gw_sessions = ss, gw_removed = rs, gw_syncing = False\<rparr>"
  note defs = socketMade_def drop_call_def authLoaded_def start_def createSession_def stopBegin_def stopEnd_def
  have ids: "listSessions (listing bs) = bs" if "[] \<notin> set bs" for bs
    using that by (induction bs) (auto simp: listing_def listSessions_def jget_def)
  have poll: "gw_run (syncEnd bs (?g ss rs))" if "gw_run (?g ss rs)" "[] \<notin> set bs" for bs ss rs
    using gw_list [OF gw_poll [OF that(1)], of "listing bs"] that(2) by (simp add: syncBegin_def ids syncEnd_def)
  have sess: "gw_run (?g (put b s' ss) rs)" if "gw_run (?g ss rs)" "get ss b = Some s" "lc_next s s'" for b s s' ss rs
    using gw_event [OF that(1), of b s s'] that by simp
  have late: "gw_run (?g ss [(b, s')])" if "gw_run (?g ss [(b, s)])" "lc_next s s'" for ss b s s'
    using gw_late [OF that(1), of 0 b s s'] that by simp
  have "gw_run (syncEnd [[97]] startManager)"
    using gw_list [OF gw_start, of "listing [[97]]"] by (simp add: startManager_def ids)
  then have "gw_run (?g [([97], ?s0)] [])"
    by (simp add: syncEnd_def Let_def startManager_def set_add_def start_listed_def)
  then have "gw_run (?g [([97], ?s1)] [])"
    using sess [of "[([97], ?s0)]" "[]" "[97]" ?s0 ?s1] nx_load [of 0 ?s0] by (simp add: defs)
  from poll [OF this, of "[[98]]"] have "gw_run (?g [([98], ?s0)] [([97], stopBegin ?s1)])"
    by (simp add: syncEnd_def Let_def set_add_def start_listed_def)
  then have "gw_run (?g [([98], ?s0)] [([97], ?r1)])" by (rule late) (simp add: nx_stopped)
  then have "gw_run (?g [([98], ?s0)] [([97], socketMade 0 ?r1)])"
    by (rule late) (rule nx_make, simp_all add: defs)
  then have "gw_run (?g [([98], ?s0)] [([97], ?up ?r1)])"
    by (rule late) (rule nx_open [of 0], simp_all add: defs)
  from poll [OF this, of "[[98], [97]]"] have "gw_run (?g [([98], ?s0), ([97], ?s0)] [([97], ?up ?r1)])"
    by (simp add: syncEnd_def Let_def set_add_def start_listed_def)
  then have "gw_run (?g [([98], ?s0), ([97], ?s1)] [([97], ?up ?r1)])"
    using sess [of "[([98], ?s0), ([97], ?s0)]" "[([97], ?up ?r1)]" "[97]" ?s0 ?s1] nx_load [of 0 ?s0] by (simp add: defs)
  then have "gw_run (?g [([98], ?s0), ([97], socketMade 0 ?s1)] [([97], ?up ?r1)])"
    using sess [of "[([98], ?s0), ([97], ?s1)]" "[([97], ?up ?r1)]" "[97]" ?s1 "socketMade 0 ?s1"] nx_make [of 0 ?s1]
    by (simp add: defs)
  then have "gw_run (?g [([98], ?s0), ([97], ?up ?s1)] [([97], ?up ?r1)])"
    using sess [of "[([98], ?s0), ([97], socketMade 0 ?s1)]" "[([97], ?up ?r1)]" "[97]" "socketMade 0 ?s1" "?up ?s1"]
      nx_open [of 0 "socketMade 0 ?s1" "(None, None)"] by (simp add: defs)
  then show ?thesis
    by (intro exI [of _ "?g [([98], ?s0), ([97], ?up ?s1)] [([97], ?up ?r1)]"] exI [of _ "[97]"]
        exI [of _ "?up ?s1"] exI [of _ "?up ?r1"])
      (simp add: getSession_def connectionOpen_def captureOwnIds_def report_def defs)
qed

end
