(* ===== verification/LeadSearch.thy ===== *)
theory LeadSearch
  imports DashTypes JsUrl React
begin

text \<open>
  Answers of a lead and the free text search over leads
  (\<open>components/dashboard/AnswerValue.tsx\<close>, \<open>dashboard/leadSearch.ts\<close>), with the server's own copy of the
  search rule (\<open>backend/app/services/leads/search.py\<close>), which filters the export.

  An answer that a component reads may be missing: it is an option. Python strings are taken
  as the same lists of code units; strings with lone surrogates cannot reach the server.
\<close>

section \<open>AnswerValue.tsx\<close>

definition fileUrl :: "jsstr \<Rightarrow> jsstr option" where
  "fileUrl fileId = map_option (\<lambda>e. (lat ''/api/leads/files/'') @ e) (encodeURIComponent fileId)"

definition fileAnswers :: "answer_value option \<Rightarrow> file_answer list" where
  "fileAnswers value =
     (case value of
        Some (AFile f) \<Rightarrow> [f]
      | Some (AFiles fs) \<Rightarrow> fs
      | _ \<Rightarrow> [])"

definition hasFileAnswer :: "answer_value option \<Rightarrow> bool" where
  "hasFileAnswer value \<longleftrightarrow> length (fileAnswers value) > 0"

definition or_else :: "jsstr option \<Rightarrow> jsstr \<Rightarrow> jsstr" where
  "or_else s d = (case s of None \<Rightarrow> d | Some x \<Rightarrow> if x = [] then d else x)"

definition text_answer :: "answer_value option \<Rightarrow> jsstr" where
  "text_answer value = (case value of Some (AText s) \<Rightarrow> s | _ \<Rightarrow> [])"

definition paperclip :: jsstr where
  "paperclip = [55357, 56526, 32]"

definition answerPreviewText :: "answer_value option \<Rightarrow> jsstr" where
  "answerPreviewText value =
     (let files = fileAnswers value in
      if length files > 0 then
        (if length files = 1 then paperclip @ or_else (map_option trim (file_name (files ! 0))) (heb ''weau'')
         else paperclip @ nat_str (length files) @ (heb '' wavim''))
      else text_answer value)"

definition isImage :: "file_answer \<Rightarrow> bool" where
  "isImage file = starts_with (lower (file_mime file)) (lat ''image/'')"

definition fileLabel :: "file_answer \<Rightarrow> jsstr" where
  "fileLabel file =
     or_else (map_option trim (file_name file)) (if isImage file then (heb ''znepd'') else (heb ''weau''))"

text \<open>A link to the file; \<open>None\<close> when the id cannot be encoded and the render throws.\<close>

definition fileChip :: "file_answer \<Rightarrow> 'e vnode option" where
  "fileChip file =
     map_option (\<lambda>href.
         if isImage file then
           El ''a'' [Attr ''href'' href, Attr ''target'' (lat ''_blank''), Attr ''title'' (fileLabel file @ (heb '' '' @ [8212] @ heb '' tzigd abecl nl@''))]
             [El ''img'' [Attr ''src'' href, Attr ''alt'' ((heb ''znepd ydlweg ylg: '') @ fileLabel file)] [],
              Txt (heb ''tzigz dznepd abecl nl@ alyepiz gcyd'')]
         else
           El ''a'' ([Attr ''href'' href] @ (if or_else (file_name file) [] = [] then []
                       else [Attr ''download'' (or_else (file_name file) [])]))
             [Txt (fileLabel file), Txt ([8212] @ heb '' dexcz dweau'')])
       (fileUrl (file_id file))"

primrec all_rendered :: "'a option list \<Rightarrow> 'a list option" where
  "all_rendered [] = Some []"
| "all_rendered (x # xs) =
     (case x of None \<Rightarrow> None | Some y \<Rightarrow> map_option (\<lambda>ys. y # ys) (all_rendered xs))"

definition answer_view :: "jsstr \<Rightarrow> answer_value option \<Rightarrow> 'e vnode option" where
  "answer_view emptyLabel value =
     (let files = fileAnswers value in
      if length files > 0 then map_option (El ''span'' []) (all_rendered (map fileChip files))
      else if text_answer value = [] then Some (El ''span'' [] [Txt emptyLabel])
      else Some (El ''span'' [] [Txt (text_answer value)]))"

section \<open>leadSearch.ts\<close>

definition norm_text :: "jsstr \<Rightarrow> jsstr" where
  "norm_text value = lower (trim value)"

definition answerHaystack :: "answer_value \<Rightarrow> jsstr list" where
  "answerHaystack value =
     (let files = fileAnswers (Some value) in
      if length files > 0 then
        filter (\<lambda>name. name \<noteq> []) (map (\<lambda>f. case file_name f of None \<Rightarrow> [] | Some n \<Rightarrow> n) files)
      else (case value of AText s \<Rightarrow> [s] | _ \<Rightarrow> []))"

fun fields_match :: "jsstr \<Rightarrow> jsstr option list \<Rightarrow> bool" where
  "fields_match needle [] = False"
| "fields_match needle (None # fs) = fields_match needle fs"
| "fields_match needle (Some f # fs) = (if has_sub (norm_text f) needle then True else fields_match needle fs)"

fun fragments_match :: "jsstr \<Rightarrow> jsstr list \<Rightarrow> bool" where
  "fragments_match needle [] = False"
| "fragments_match needle (f # fs) = (if has_sub (norm_text f) needle then True else fragments_match needle fs)"

fun answers_match :: "jsstr \<Rightarrow> (jsstr \<times> answer_value) list \<Rightarrow> bool" where
  "answers_match needle [] = False"
| "answers_match needle ((k, v) # es) =
     (if has_sub (norm_text k) needle then True
      else if fragments_match needle (answerHaystack v) then True
      else answers_match needle es)"

definition leadMatches :: "lead \<Rightarrow> jsstr \<Rightarrow> bool" where
  "leadMatches l query =
     (let needle = norm_text query in
      if needle = [] then True
      else if fields_match needle [lead_contact_name l, lead_phone l, Some (lead_name l), lead_outcome_note l] then True
      else answers_match needle (entries (lead_answers l)))"

section \<open>search.py\<close>

text \<open>\<open>str.strip\<close> and \<open>String.prototype.trim\<close> agree but for six characters.\<close>

definition py_space :: "code_unit \<Rightarrow> bool" where
  "py_space c \<longleftrightarrow> is_space c \<and> c \<noteq> 65279 \<or> 28 \<le> c \<and> c \<le> 31 \<or> c = 133"

definition py_strip :: "jsstr \<Rightarrow> jsstr" where
  "py_strip s = rev (dropWhile py_space (rev (dropWhile py_space s)))"

definition py_norm :: "jsstr option \<Rightarrow> jsstr" where
  "py_norm value = (case value of None \<Rightarrow> [] | Some s \<Rightarrow> lower (py_strip s))"

definition file_haystack :: "file_answer \<Rightarrow> jsstr list" where
  "file_haystack f = (case file_name f of None \<Rightarrow> [] | Some n \<Rightarrow> if n = [] then [] else [n])"

fun haystacks_for_value :: "answer_value \<Rightarrow> jsstr list" where
  "haystacks_for_value (AText s) = [s]"
| "haystacks_for_value (AFile f) = file_haystack f"
| "haystacks_for_value (AFiles fs) = concat (map file_haystack fs)"

definition lead_matches :: "lead \<Rightarrow> jsstr option \<Rightarrow> bool" where
  "lead_matches l query =
     (let needle = lower (py_strip (case query of None \<Rightarrow> [] | Some q \<Rightarrow> q)) in
      if needle = [] then True
      else if list_ex (\<lambda>f. has_sub (py_norm f) needle)
                [lead_contact_name l, lead_phone l, Some (lead_name l), lead_outcome_note l] then True
      else list_ex (\<lambda>(key, value). has_sub (py_norm (Some key)) needle
               \<or> list_ex (\<lambda>hay. has_sub (py_norm (Some hay)) needle) (haystacks_for_value value))
             (lead_answers l))"

section \<open>Lemmas\<close>

text \<open>Every text of a lead that a search looks at, independently of the order it does.\<close>

definition searchable :: "lead \<Rightarrow> jsstr set" where
  "searchable l =
     {s. lead_contact_name l = Some s \<or> lead_phone l = Some s \<or> lead_name l = s \<or> lead_outcome_note l = Some s}
     \<union> {s. \<exists>k v. (k, v) \<in> set (lead_answers l) \<and>
          (s = k \<or> v = AText s
           \<or> (\<exists>f. (v = AFile f \<or> (\<exists>fs. v = AFiles fs \<and> f \<in> set fs)) \<and> file_name f = Some s \<and> s \<noteq> []))}"

lemma fields_match_iff: "fields_match n fs \<longleftrightarrow> (\<exists>f. Some f \<in> set fs \<and> has_sub (norm_text f) n)"
  by (induction n fs rule: fields_match.induct) auto

lemma fragments_match_iff: "fragments_match n fs \<longleftrightarrow> (\<exists>f \<in> set fs. has_sub (norm_text f) n)"
  by (induction n fs rule: fragments_match.induct) auto

lemma answers_match_iff:
  "answers_match n es \<longleftrightarrow>
     (\<exists>x \<in> set es. \<exists>h \<in> insert (fst x) (set (answerHaystack (snd x))). has_sub (norm_text h) n)"
  by (induction n es rule: answers_match.induct) (auto simp: fragments_match_iff)

lemma in_file_haystack: "h \<in> set (file_haystack f) \<longleftrightarrow> file_name f = Some h \<and> h \<noteq> []"
  by (cases "file_name f") (simp_all add: file_haystack_def, blast)

lemma in_haystacks:
  "h \<in> set (haystacks_for_value v) \<longleftrightarrow>
     v = AText h \<or> (\<exists>f. (v = AFile f \<or> (\<exists>fs. v = AFiles fs \<and> f \<in> set fs)) \<and> file_name f = Some h \<and> h \<noteq> [])"
  by (cases v) (auto simp: in_file_haystack)

lemma in_answerHaystack:
  "h \<in> set (answerHaystack v) \<longleftrightarrow>
     v = AText h \<or> (\<exists>f. (v = AFile f \<or> (\<exists>fs. v = AFiles fs \<and> f \<in> set fs)) \<and> file_name f = Some h \<and> h \<noteq> [])"
proof (cases v)
  case (AFiles fs)
  then show ?thesis
    by (cases "fs = []") (force simp: answerHaystack_def fileAnswers_def Let_def split: option.splits)+
qed (auto simp: answerHaystack_def fileAnswers_def split: option.splits)

lemma set_answerHaystack: "set (answerHaystack v) = set (haystacks_for_value v)"
  by (rule set_eqI) (simp only: in_haystacks in_answerHaystack)

definition searched_fields :: "lead \<Rightarrow> jsstr option list" where
  "searched_fields l = [lead_contact_name l, lead_phone l, Some (lead_name l), lead_outcome_note l]"

lemma searchable_eq:
  "searchable l = {f. Some f \<in> set (searched_fields l)}
     \<union> (\<Union>x \<in> set (lead_answers l). insert (fst x) (set (haystacks_for_value (snd x))))" (is "_ = ?fs \<union> ?as")
proof -
  have "s \<in> ?as \<longleftrightarrow> (\<exists>k v. (k, v) \<in> set (lead_answers l) \<and> (s = k \<or> s \<in> set (haystacks_for_value v)))" for s
    by force
  then have "?as = {s. \<exists>k v. (k, v) \<in> set (lead_answers l) \<and> (s = k \<or> s \<in> set (haystacks_for_value v))}"
    by blast
  moreover have "?fs = {s. lead_contact_name l = Some s \<or> lead_phone l = Some s \<or> lead_name l = s \<or> lead_outcome_note l = Some s}"
    by (auto simp: searched_fields_def)
  ultimately show ?thesis unfolding searchable_def in_haystacks by simp
qed

lemma searchable_iff:
  "(\<exists>h \<in> searchable l. P h) \<longleftrightarrow>
     (\<exists>f. Some f \<in> set (searched_fields l) \<and> P f)
     \<or> (\<exists>x \<in> set (lead_answers l). \<exists>h \<in> insert (fst x) (set (haystacks_for_value (snd x))). P h)"
  unfolding searchable_eq by blast

lemma leadMatches_iff:
  "leadMatches l q \<longleftrightarrow> norm_text q = [] \<or> (\<exists>h \<in> searchable l. has_sub (norm_text h) (norm_text q))"
  unfolding leadMatches_def Let_def searchable_iff fields_match_iff answers_match_iff set_answerHaystack
    searched_fields_def [symmetric] set_entries by (simp only: if_bool_eq_conj) blast

lemma lead_matches_iff:
  "lead_matches l (Some q) \<longleftrightarrow>
     lower (py_strip q) = [] \<or> (\<exists>h \<in> searchable l. has_sub (py_norm (Some h)) (lower (py_strip q)))"
proof (cases "lower (py_strip q) = []")
  case False
  let ?n = "lower (py_strip q)"
  have none: "\<not> has_sub (py_norm None) ?n" using False by (simp add: py_norm_def)
  have fs: "list_ex (\<lambda>f. has_sub (py_norm f) ?n) fs \<longleftrightarrow> (\<exists>h. Some h \<in> set fs \<and> has_sub (py_norm (Some h)) ?n)" for fs
  proof (induction fs)
    case (Cons f fs)
    then show ?case by (cases f) (auto simp: none)
  qed simp
  have as: "list_ex (\<lambda>(key, value). has_sub (py_norm (Some key)) ?n
        \<or> list_ex (\<lambda>hay. has_sub (py_norm (Some hay)) ?n) (haystacks_for_value value)) es \<longleftrightarrow>
      (\<exists>x \<in> set es. \<exists>h \<in> insert (fst x) (set (haystacks_for_value (snd x))). has_sub (py_norm (Some h)) ?n)" for es
    by (induction es) (auto simp: list_ex_iff)
  from False show ?thesis
    unfolding lead_matches_def Let_def option.case searchable_iff searched_fields_def [symmetric] fs as
    by (simp only: if_bool_eq_conj) blast
qed (simp add: lead_matches_def)

lemma py_strip_trim: "\<forall>c \<in> set s. is_space c = py_space c \<Longrightarrow> py_strip s = trim s"
proof -
  assume a: "\<forall>c \<in> set s. is_space c = py_space c"
  have d: "dropWhile py_space t = dropWhile is_space t" if "set t \<subseteq> set s" for t
    using that a by (intro dropWhile_cong) auto
  have "set (dropWhile is_space s) \<subseteq> set s" by (auto dest: set_dropWhileD)
  then show ?thesis unfolding py_strip_def trim_def by (simp add: d)
qed

lemma norm_text_idem [simp]: "norm_text (norm_text s) = norm_text s"
  by (simp add: norm_text_def trim_lower trim_idem)

lemma twins_agree:
  assumes "\<forall>s \<in> insert q (searchable l). \<forall>c \<in> set s. is_space c = py_space c"
  shows "lead_matches l (Some q) = leadMatches l q"
proof -
  have n: "lower (py_strip q) = norm_text q" using assms by (simp add: norm_text_def py_strip_trim)
  have f: "has_sub (py_norm (Some h)) n \<longleftrightarrow> has_sub (norm_text h) n" if "h \<in> searchable l" for h n
    using assms that by (simp add: py_norm_def norm_text_def py_strip_trim)
  show ?thesis unfolding lead_matches_iff leadMatches_iff n using f by auto
qed

text \<open>A lead with a name and nothing else.\<close>

definition plain_lead :: lead where
  "plain_lead =
     \<lparr>lead_id = [49], lead_name = [102], lead_contact_name = None, lead_phone = None, lead_answers = [],
      lead_state = L_new, lead_close_reason = None, lead_outcome_note = None, lead_last_step_index = 0,
      lead_is_test = False, lead_conversation_id = None, lead_started_at = None,
      lead_last_activity_at = None, lead_submitted_at = None, lead_feed_seen_at = None\<rparr>"

section \<open>Properties\<close>

text \<open>
  The search finds exactly what it says: a lead matches when the query, trimmed
  and lower cased, is part of its name, phone, flow, outcome note, a question, a text answer or
  the name of a file, all treated the same way; nothing else of the lead is looked at. Surrounding space
  and letter case of the query do not matter, and a longer query never finds more.
\<close>

theorem search_exact:
  assumes "has_sub (norm_text q') (norm_text q)"
  shows "(leadMatches l q \<longleftrightarrow> norm_text q = [] \<or> (\<exists>h \<in> searchable l. has_sub (norm_text h) (norm_text q)))
    \<and> (leadMatches l q' \<longrightarrow> leadMatches l q)
    \<and> leadMatches l (norm_text q) = leadMatches l q"
proof -
  have "leadMatches l q" if "leadMatches l q'"
  proof (cases "norm_text q' = []")
    case True
    then have "norm_text q = []" using assms by simp
    then show ?thesis by (simp add: leadMatches_iff)
  next
    case False
    with that obtain h where "h \<in> searchable l" "has_sub (norm_text h) (norm_text q')" by (auto simp: leadMatches_iff)
    with assms show ?thesis using includes_trans by (auto simp: leadMatches_iff)
  qed
  then show ?thesis by (auto simp: leadMatches_iff)
qed

theorem search_exact_witness: "leadMatches (plain_lead\<lparr>lead_name := [102, 97]\<rparr>) [32, 70]"
proof -
  let ?l = "plain_lead\<lparr>lead_name := [102, 97]\<rparr>"
  have n: "norm_text [32, 70, 65] = [102, 97]" "norm_text [32, 70] = [102]" "norm_text [102, 97] = [102, 97]"
    by (simp_all add: norm_text_def trim_def is_space_def lower_def lower_unit_def)
  then have "has_sub (norm_text [32, 70, 65]) (norm_text [32, 70])" by (simp add: starts_with_def)
  note s = search_exact [OF this, of ?l]
  have "[102, 97] \<in> searchable ?l" by (simp add: searchable_def)
  moreover have "has_sub (norm_text [102, 97]) (norm_text [32, 70, 65])" using n by (simp add: starts_with_def)
  ultimately have "leadMatches ?l [32, 70, 65]" by (auto simp: leadMatches_iff)
  with s show ?thesis by blast
qed

text \<open>
  The search of the page and the server's copy of it agree on every lead and every
  query, as long as no text has one of the six characters on which the two trims differ.
\<close>

theorem search_twin_agrees:
  assumes "\<forall>s \<in> insert q (searchable l). \<forall>c \<in> set s. is_space c = py_space c"
  shows "lead_matches l (Some q) = leadMatches l q"
  using assms by (rule twins_agree)

theorem search_twin_agrees_witness: "lead_matches plain_lead (Some [32, 70]) = leadMatches plain_lead [32, 70]"
proof (rule search_twin_agrees)
  have "searchable plain_lead = {[102]}" by (simp add: searchable_def plain_lead_def)
  then show "\<forall>s \<in> insert [32, 70] (searchable plain_lead). \<forall>c \<in> set s. is_space c = py_space c"
    by (simp add: is_space_def py_space_def)
qed

text \<open>They do differ on the others: a query of a byte order mark finds everything on the page only.\<close>

lemma search_twins_differ: "leadMatches plain_lead [65279] \<and> \<not> lead_matches plain_lead (Some [65279])"
  by (simp add: leadMatches_def lead_matches_def norm_text_def trim_def is_space_def py_strip_def py_space_def
      py_norm_def plain_lead_def lower_def lower_unit_def starts_with_def)

end
