(* ===== verification/Chat.thy ===== *)
theory Chat
  imports Clients Dates LeadSearch
begin

text \<open>
  The chat with one customer (\<open>components/dashboard/ChatPanel.tsx\<close>, with the emoji picker of
  \<open>EmojiPicker.tsx\<close>; the caret of the text field is a parameter).

  Messages are compared by identity in the code: a message of the server is \<open>Kept\<close>, and the
  bubble that the panel adds before the server has the reply is \<open>Optimistic n\<close>, where \<open>n\<close>
  counts the bubbles made so far. \<open>cp_pending\<close> is the ref \<open>pendingRef\<close>. Every load carries the
  token of the effect run that started it and whether it was the first. Scrolling is left out.
\<close>

section \<open>State\<close>

datatype chat_entry = Kept chat_message | Optimistic nat chat_message

fun entry_message :: "chat_entry \<Rightarrow> chat_message" where
  "entry_message (Kept m) = m"
| "entry_message (Optimistic n m) = m"

record chat_panel =
  cp_messages :: "chat_entry list"
  cp_loading :: bool
  cp_loadError :: "jsstr option"
  cp_draft :: jsstr
  cp_sending :: bool
  cp_sendError :: "jsstr option"
  cp_pending :: bool
  cp_made :: nat
  cp_picker :: bool
  cp_loader :: loader

record chat_props =
  cpp_conversationId :: jsstr
  cpp_status :: conversation_status
  cpp_answers :: "answers option"
  cpp_name :: "jsstr option"
  cpp_phone :: "jsstr option"

definition MAX_REPLY :: nat where "MAX_REPLY = 2000"

definition chat_init :: chat_panel where
  "chat_init =
     \<lparr>cp_messages = [], cp_loading = True, cp_loadError = None, cp_draft = [], cp_sending = False,
      cp_sendError = None, cp_pending = False, cp_made = 0, cp_picker = False, cp_loader = new_loader\<rparr>"

section \<open>Operations\<close>

text \<open>The effect on the conversation: a first load, then a poll every four seconds.\<close>

definition chat_effect :: "chat_panel \<Rightarrow> chat_panel" where
  "chat_effect s = s\<lparr>cp_loading := True, cp_messages := [], cp_loader := rerun_effect (cp_loader s)\<rparr>"

definition chat_refreshed :: "nat \<Rightarrow> bool \<times> (js_thrown + chat_message list) \<Rightarrow> chat_panel \<Rightarrow> chat_panel" where
  "chat_refreshed t x s =
     (case x of (initial, r) \<Rightarrow>
        (let s1 =
           (case r of
              Inr ms \<Rightarrow>
                if \<not> live t (cp_loader s) \<or> cp_pending s then s
                else s\<lparr>cp_messages := map Kept ms, cp_loadError := None\<rparr>
            | Inl err \<Rightarrow>
                if \<not> live t (cp_loader s) then s
                else if initial then s\<lparr>cp_loadError := Some (toFriendlyError err (heb ''hripz dyigd pkyld.''))\<rparr>
                else s)
         in if live t (cp_loader s) \<and> initial then s1\<lparr>cp_loading := False\<rparr> else s1))"

text \<open>\<open>caret\<close> is the selection of the focused text field.\<close>

definition insertEmoji :: "(nat \<times> nat) option \<Rightarrow> jsstr \<Rightarrow> chat_panel \<Rightarrow> chat_panel" where
  "insertEmoji caret emoji s =
     (case caret of
        None \<Rightarrow> s\<lparr>cp_draft := cp_draft s @ emoji\<rparr>
      | Some (a, b) \<Rightarrow> s\<lparr>cp_draft := take a (cp_draft s) @ emoji @ drop b (cp_draft s)\<rparr>)"

text \<open>The state, and the text handed to \<open>replyToConversation\<close>.\<close>

definition chat_send :: "jsstr \<Rightarrow> chat_panel \<Rightarrow> chat_panel \<times> jsstr option" where
  "chat_send now s =
     (let txt = trim (cp_draft s) in
      if txt = [] \<or> cp_sending s then (s, None)
      else (s\<lparr>cp_sending := True, cp_sendError := None, cp_pending := True,
              cp_messages := cp_messages s
                @ [Optimistic (cp_made s) \<lparr>msg_role = R_owner, msg_body = txt, msg_at = Some now\<rparr>],
              cp_made := cp_made s + 1, cp_draft := []\<rparr>,
            Some txt))"

definition is_bubble :: "nat \<Rightarrow> chat_entry \<Rightarrow> bool" where
  "is_bubble n e = (case e of Optimistic k m \<Rightarrow> k = n | Kept m \<Rightarrow> False)"

definition send_failed :: "nat \<Rightarrow> jsstr \<Rightarrow> js_thrown \<Rightarrow> chat_panel \<Rightarrow> chat_panel" where
  "send_failed n txt err s =
     s\<lparr>cp_messages := filter (\<lambda>e. \<not> is_bubble n e) (cp_messages s), cp_draft := txt,
       cp_sendError := Some (toFriendlyError err (heb ''yligz dzbead pkyld. pqe yea.'')),
       cp_pending := False, cp_sending := False\<rparr>"

text \<open>
  After the reply: the state, whether \<open>onStatusChange\<close> is called with \<open>human\<close>, and whether
  the messages are fetched next. \<open>st\<close> is the status of the render that sent.
\<close>

definition chat_replied :: "conversation_status \<Rightarrow> nat \<Rightarrow> jsstr \<Rightarrow> js_thrown option \<Rightarrow> chat_panel \<Rightarrow> chat_panel \<times> bool \<times> bool" where
  "chat_replied st n txt r s =
     (case r of
        None \<Rightarrow> (s\<lparr>cp_pending := False\<rparr>, st \<noteq> C_human, True)
      | Some err \<Rightarrow> (send_failed n txt err s, False, False))"

definition chat_reconciled :: "nat \<Rightarrow> jsstr \<Rightarrow> (js_thrown + chat_message list) \<Rightarrow> chat_panel \<Rightarrow> chat_panel" where
  "chat_reconciled n txt r s =
     (case r of
        Inr ms \<Rightarrow> s\<lparr>cp_messages := map Kept ms, cp_pending := False, cp_sending := False\<rparr>
      | Inl err \<Rightarrow> send_failed n txt err s)"

section \<open>View\<close>

datatype chat_ui = K_type jsstr | K_picker | K_away | K_emoji jsstr | K_send

definition EMOJIS :: "jsstr list" where
  "EMOJIS =
     [([55357, 56898]), ([55357, 56832]), ([55357, 56833]), ([55357, 56841]), ([55357, 56842]), ([55357, 56845]), ([55357, 56397]), ([55357, 56399]), ([55357, 56911]), ([55357, 56490]), ([55358, 56605]), ([9996, 65039]), ([10084, 65039]), ([55357, 56613]), ([10024]), ([55356, 57225]), ([55356, 57217]), ([11088]),
      ([9989]), ([10060]), ([9200]), ([55357, 56517]), ([55357, 56542]), ([55357, 56525]), ([55357, 56492]), ([55357, 56541]), ([55357, 56481]), ([55357, 56495]), ([55357, 56837]), ([55357, 56908])]"

text \<open>
  The picker: the toggle, and while it is open the grid, Escape and a click outside. A choice
  inserts the emoji and closes it.
\<close>

definition emoji_picker :: "bool \<Rightarrow> bool \<Rightarrow> chat_ui vnode list" where
  "emoji_picker opn disabled =
     [El ''button'' [Disabled disabled, on_click K_picker, Attr ''aria-expanded'' (if opn then lat ''true'' else lat ''false''),
        Attr ''aria-label'' (heb ''deqtz @ineb'' @ [1523] @ heb ''i'')] []]
     @ shown opn
         [El ''document'' [on_click K_away] [],
          El ''menu'' [] (map (\<lambda>em. El ''button'' [on_click (K_emoji em)] [Txt em]) EMOJIS)]"

definition choose_emoji :: "(nat \<times> nat) option \<Rightarrow> jsstr \<Rightarrow> chat_panel \<Rightarrow> chat_panel" where
  "choose_emoji caret emoji s = (insertEmoji caret emoji s)\<lparr>cp_picker := False\<rparr>"

definition empty_fallback :: "(answer_value \<Rightarrow> chat_ui vnode) \<Rightarrow> chat_props \<Rightarrow> chat_ui vnode" where
  "empty_fallback av p =
     (let es = (case cpp_answers p of None \<Rightarrow> [] | Some a \<Rightarrow> entries a);
          name = or_else (cpp_name p) []; phone = or_else (cpp_phone p) []
      in if es = [] \<and> name = [] \<and> phone = [] then El ''p'' [] [Txt (heb ''@io decrez ayigd dfe rciio.'')]
         else El ''div'' []
           [Txt (heb ''txhim yp@qte''), Txt (heb ''@io znlel yigd '' @ [8212] @ heb '' ldlo dtxhim yp@qte.''),
            El ''dl'' []
              (shown (name \<noteq> []) [El ''div'' [] [Txt (heb ''ym:''), Txt name]]
               @ shown (phone \<noteq> []) [El ''div'' [] [Txt (heb ''hlteo:''), Txt phone]]
               @ map (\<lambda>(k, v). El ''div'' [] [Txt (k @ (lat '':'')), av v]) es)])"

definition chat_bubble :: "(jsstr option \<Rightarrow> jsstr) \<Rightarrow> chat_message \<Rightarrow> chat_ui vnode" where
  "chat_bubble relative m =
     (let time = relative (msg_at m) in
      case msg_role m of
        R_bot \<Rightarrow> El ''div'' [] [Txt (heb ''aeh:''), Txt (msg_body m)]
      | R_owner \<Rightarrow> El ''div'' [Attr ''align'' (lat ''end'')] ([Txt (msg_body m)] @ shown (time \<noteq> []) [Txt time])
      | R_customer \<Rightarrow> El ''div'' [Attr ''align'' (lat ''start'')] ([Txt (msg_body m)] @ shown (time \<noteq> []) [Txt time]))"

definition chat_view ::
    "(answer_value \<Rightarrow> chat_ui vnode) \<Rightarrow> (jsstr option \<Rightarrow> jsstr) \<Rightarrow> chat_props \<Rightarrow> chat_panel \<Rightarrow> chat_ui vnode list" where
  "chat_view av relative p s =
     (if cp_loading s then [Txt (heb ''hero yigd'' @ [8230])]
      else case cp_loadError s of
        Some e \<Rightarrow> [El ''Alert'' [] [Txt e]]
      | None \<Rightarrow>
          if cp_messages s = [] then [empty_fallback av p]
          else map (chat_bubble relative \<circ> entry_message) (cp_messages s))
     @ emoji_picker (cp_picker s) (cp_sending s)
     @ [El ''textarea'' [Attr ''value'' (cp_draft s), On (\<lambda>e. \<exists>v. e = K_type v \<and> length v \<le> MAX_REPLY), on_click K_send] [],
        El ''button'' [Disabled (cp_sending s \<or> trim (cp_draft s) = []), on_click K_send]
          [Txt (if cp_sending s then (heb ''yelg'' @ [8230]) else (heb ''ylg''))]]
     @ (case cp_sendError s of None \<Rightarrow> [] | Some e \<Rightarrow> [El ''p'' [Attr ''role'' (lat ''alert'')] [Txt e]])"

section \<open>Runs\<close>

interpretation chat_loads: guarded_settle cp_loader chat_refreshed
  by unfold_locales (auto simp: chat_refreshed_def Let_def split: sum.split prod.split)

text \<open>
  A reply in flight is first posted, then the messages are fetched. A run keeps the loads in
  flight, the reply in flight and every text posted so far.
\<close>

datatype send_phase = Posting nat jsstr | Fetching nat jsstr

inductive chat_run ::
    "(chat_panel \<Rightarrow> chat_ui vnode list) \<Rightarrow> chat_panel \<Rightarrow> (nat \<times> bool) list \<Rightarrow> send_phase option \<Rightarrow> jsstr list \<Rightarrow> bool"
  for view where
  cr_mount: "chat_run view (chat_effect chat_init) [(0, True)] None []"
| cr_poll: "chat_run view s ls ph ts \<Longrightarrow> cleanup (cp_loader s) = Some k \<Longrightarrow> chat_run view s (ls @ [(k, False)]) ph ts"
| cr_loaded: "chat_run view s ls ph ts \<Longrightarrow> i < length ls \<Longrightarrow> ls ! i = (k, initial) \<Longrightarrow>
    chat_run view (chat_refreshed k (initial, r) s) (take i ls @ drop (Suc i) ls) ph ts"
| cr_type: "chat_run view s ls ph ts \<Longrightarrow> fires_any (view s) (K_type v) \<Longrightarrow> chat_run view (s\<lparr>cp_draft := v\<rparr>) ls ph ts"
| cr_emoji: "chat_run view s ls ph ts \<Longrightarrow> fires_any (view s) (K_emoji em) \<Longrightarrow> chat_run view (choose_emoji caret em s) ls ph ts"
| cr_picker: "chat_run view s ls ph ts \<Longrightarrow> fires_any (view s) K_picker \<Longrightarrow> chat_run view (s\<lparr>cp_picker := \<not> cp_picker s\<rparr>) ls ph ts"
| cr_away: "chat_run view s ls ph ts \<Longrightarrow> fires_any (view s) K_away \<Longrightarrow> chat_run view (s\<lparr>cp_picker := False\<rparr>) ls ph ts"
| cr_send: "chat_run view s ls ph ts \<Longrightarrow> fires_any (view s) K_send \<Longrightarrow> chat_send now s = (s', Some txt) \<Longrightarrow>
    chat_run view s' ls (Some (Posting (cp_made s) txt)) (ts @ [txt])"
| cr_replied: "chat_run view s ls (Some (Posting n txt)) ts \<Longrightarrow> chat_replied st n txt r s = (s', flip, again) \<Longrightarrow>
    chat_run view s' ls (if again then Some (Fetching n txt) else None) ts"
| cr_fetched: "chat_run view s ls (Some (Fetching n txt)) ts \<Longrightarrow> chat_run view (chat_reconciled n txt r s) ls None ts"

definition no_bubbles :: "chat_entry list \<Rightarrow> bool" where
  "no_bubbles es \<longleftrightarrow> (\<forall>e \<in> set es. \<exists>m. e = Kept m)"

definition own_bubble :: "jsstr \<Rightarrow> nat \<Rightarrow> chat_entry \<Rightarrow> bool" where
  "own_bubble txt n e \<longleftrightarrow> (\<exists>m. e = Optimistic n m \<and> msg_role m = R_owner \<and> msg_body m = txt)"

fun phase_ok :: "send_phase option \<Rightarrow> chat_panel \<Rightarrow> bool" where
  "phase_ok None s = (\<not> cp_sending s \<and> no_bubbles (cp_messages s))"
| "phase_ok (Some (Posting n txt)) s =
     (cp_sending s \<and> cp_pending s \<and> trim txt = txt \<and> txt \<noteq> []
      \<and> (\<exists>es e. cp_messages s = es @ [e] \<and> no_bubbles es \<and> own_bubble txt n e))"
| "phase_ok (Some (Fetching n txt)) s =
     (cp_sending s \<and> \<not> cp_pending s \<and> trim txt = txt \<and> txt \<noteq> []
      \<and> (no_bubbles (cp_messages s) \<or> (\<exists>es e. cp_messages s = es @ [e] \<and> no_bubbles es \<and> own_bubble txt n e)))"

lemma no_bubbles_simps [simp]: "no_bubbles []" "no_bubbles (map Kept ms)"
  by (auto simp: no_bubbles_def)

lemma filter_no_bubbles: "no_bubbles es \<Longrightarrow> filter (\<lambda>e. \<not> is_bubble n e) es = es"
  by (auto simp: no_bubbles_def is_bubble_def intro!: filter_True)

lemma own_bubble_gone: "own_bubble txt n e \<Longrightarrow> is_bubble n e"
  by (auto simp: own_bubble_def is_bubble_def)

lemma refreshed_fields [simp]:
  "cp_sending (chat_refreshed t x s) = cp_sending s" "cp_pending (chat_refreshed t x s) = cp_pending s"
  "cp_made (chat_refreshed t x s) = cp_made s"
  by (auto simp: chat_refreshed_def Let_def split: sum.split prod.split)

lemma refreshed_messages:
  "cp_messages (chat_refreshed t x s) = cp_messages s
   \<or> \<not> cp_pending s \<and> (\<exists>ms. cp_messages (chat_refreshed t x s) = map Kept ms)"
  by (auto simp: chat_refreshed_def Let_def split: sum.split prod.split)

lemma phase_ok_refreshed: "phase_ok ph s \<Longrightarrow> phase_ok ph (chat_refreshed t x s)"
  using refreshed_messages [of t x s] by (cases "(ph, s)" rule: phase_ok.cases) auto

lemma phase_ok_failed:
  assumes "no_bubbles (cp_messages s) \<or> (\<exists>es e. cp_messages s = es @ [e] \<and> no_bubbles es \<and> own_bubble txt n e)"
  shows "phase_ok None (send_failed n txt err s)"
  using assms by (auto simp: send_failed_def filter_no_bubbles own_bubble_gone)

lemma insertEmoji_fields [simp]:
  "cp_sending (insertEmoji c em s) = cp_sending s" "cp_pending (insertEmoji c em s) = cp_pending s"
  "cp_messages (insertEmoji c em s) = cp_messages s"
  by (auto simp: insertEmoji_def split: option.split)

lemma phase_ok_emoji [simp]: "phase_ok ph (insertEmoji c em s) = phase_ok ph s"
  by (cases "(ph, s)" rule: phase_ok.cases) simp_all

lemma phase_ok_draft [simp]:
  "phase_ok ph (s\<lparr>cp_draft := v\<rparr>) = phase_ok ph s" "phase_ok ph (s\<lparr>cp_picker := b\<rparr>) = phase_ok ph s"
  by (cases "(ph, s)" rule: phase_ok.cases; simp)+

lemma phase_ok_choose_emoji [simp]: "phase_ok ph (choose_emoji c em s) = phase_ok ph s"
  by (simp add: choose_emoji_def)

lemma phase_ok_idle: "phase_ok ph s \<Longrightarrow> \<not> cp_sending s \<Longrightarrow> ph = None"
  by (cases "(ph, s)" rule: phase_ok.cases) simp_all

lemma chat_send_Some:
  "chat_send now s = (s', Some txt) \<Longrightarrow>
     txt = trim (cp_draft s) \<and> txt \<noteq> [] \<and> \<not> cp_sending s \<and> cp_sending s' \<and> cp_pending s'
     \<and> (\<exists>e. cp_messages s' = cp_messages s @ [e] \<and> own_bubble txt (cp_made s) e)"
  by (auto simp: chat_send_def Let_def own_bubble_def split: if_splits)

lemma chat_run_phase: "chat_run view s ls ph ts \<Longrightarrow> phase_ok ph s \<and> (\<forall>x \<in> set ts. trim x = x \<and> x \<noteq> [])"
proof (induction rule: chat_run.induct)
  case cr_mount
  show ?case by (simp add: chat_effect_def chat_init_def)
next
  case (cr_loaded s ls ph ts i k initial r)
  then show ?case by (simp add: phase_ok_refreshed)
next
  case (cr_send s ls ph ts now s' x)
  note s = chat_send_Some [OF cr_send(3)]
  with cr_send have "no_bubbles (cp_messages s)" using phase_ok_idle [of ph s] by auto
  with s cr_send show ?case by (auto simp: trim_idem)
next
  case (cr_replied s ls n x ts st r s' flip again)
  then show ?case by (cases r) (auto simp: chat_replied_def phase_ok_failed simp del: phase_ok.simps(1))
next
  case (cr_fetched s ls n x ts r)
  then show ?case
    by (cases r) (simp_all add: chat_reconciled_def phase_ok_failed del: phase_ok.simps(1), simp)
qed simp_all

section \<open>Properties\<close>


text \<open>A run up to the first text: the transcript arrived empty and the owner typed.\<close>

definition chat_typed :: "jsstr \<Rightarrow> chat_panel" where
  "chat_typed v = (chat_refreshed 0 (True, Inr []) (chat_effect chat_init))\<lparr>cp_draft := v\<rparr>"

lemma chat_typed_run: "length v \<le> MAX_REPLY \<Longrightarrow> chat_run (chat_view av rel p) (chat_typed v) [] None []"
  unfolding chat_typed_def using cr_loaded [OF cr_mount, of 0 0 True "chat_view av rel p" "Inr []"]
  by (intro cr_type) (simp_all add: chat_view_def)

lemma chat_typed_fields [simp]:
  "cp_draft (chat_typed v) = v" "\<not> cp_sending (chat_typed v)" "cp_messages (chat_typed v) = []"
  "cp_made (chat_typed v) = 0" "\<not> cp_picker (chat_typed v)"
  by (simp_all add: chat_typed_def chat_refreshed_def chat_effect_def chat_init_def)

lemma chat_posted_run:
  assumes "length v \<le> MAX_REPLY" "trim v \<noteq> []"
  shows "chat_run (chat_view av rel p) (fst (chat_send now (chat_typed v))) [] (Some (Posting 0 (trim v))) [trim v]"
  using cr_send [OF chat_typed_run [OF assms(1)], of av rel p now "fst (chat_send now (chat_typed v))" "trim v"] assms(2)
  by (simp add: chat_view_def chat_send_def Let_def)


text \<open>
  A reply that was delivered is reported as failed when the fetch after it fails:
  the same handler catches both, so its bubble disappears, the error is shown, and the text is
  back in the field, over whatever was typed since, where one click sends it a second time.
\<close>

theorem delivered_reply_reported_failed:
  assumes "chat_run view s ls (Some (Fetching n x)) ts"
  shows "let s' = chat_reconciled n x (Inl err) s in
      chat_run view s' ls None ts \<and> cp_sendError s' \<noteq> None \<and> cp_draft s' = x
      \<and> no_bubbles (cp_messages s') \<and> snd (chat_send now s') = Some x"
proof -
  have "phase_ok (Some (Fetching n x)) s" using chat_run_phase [OF assms] by blast
  then show ?thesis
    using cr_fetched [OF assms, of "Inl err"]
    by (auto simp: chat_reconciled_def send_failed_def chat_send_def filter_no_bubbles own_bubble_gone)
qed

theorem delivered_reply_reported_failed_witness:
  "\<exists>s. cp_draft s = [104, 105] \<and> cp_sendError s \<noteq> None \<and> snd (chat_send [] s) = Some [104, 105]"
proof -
  let ?v = "[104, 105] :: jsstr"
  let ?view = "chat_view (\<lambda>a. Txt []) (\<lambda>x. []) \<lparr>cpp_conversationId = [97], cpp_status = C_human,
      cpp_answers = None, cpp_name = None, cpp_phone = None\<rparr>"
  let ?s = "fst (chat_send [] (chat_typed ?v))"
  have t: "trim ?v = ?v" by (simp add: trim_def is_space_def)
  have "chat_run ?view ?s [] (Some (Posting 0 ?v)) [?v]"
    using chat_posted_run [of ?v] t by (simp add: MAX_REPLY_def)
  then have "chat_run ?view (?s\<lparr>cp_pending := False\<rparr>) [] (Some (Fetching 0 ?v)) [?v]"
    using cr_replied [of ?view ?s "[]" 0 ?v "[?v]" C_human None _ False True] by (simp add: chat_replied_def)
  from delivered_reply_reported_failed [OF this, of "ThrownOther []" "[]"] show ?thesis
    unfolding Let_def by blast
qed

text \<open>The emoji button is not bound by the length that the text field accepts.\<close>

lemma emoji_exceeds_limit:
  "\<exists>s x. chat_run (chat_view av rel p) s [] (Some (Posting 0 x)) [x] \<and> MAX_REPLY < length x"
proof -
  let ?v = "replicate MAX_REPLY 97" and ?e = "[55357, 56898]"
  let ?o = "(chat_typed ?v)\<lparr>cp_picker := True\<rparr>"
  let ?s = "choose_emoji None ?e ?o"
  have o: "chat_run (chat_view av rel p) ?o [] None []"
    using cr_picker [OF chat_typed_run [of ?v], of av rel p] by (simp add: chat_view_def emoji_picker_def)
  have "chat_run (chat_view av rel p) ?s [] None []"
    by (rule cr_emoji [OF o]) (simp_all add: chat_view_def emoji_picker_def EMOJIS_def)
  moreover have d: "cp_draft ?s = ?v @ ?e" "\<not> cp_sending ?s" "cp_made ?s = 0" by (simp_all add: choose_emoji_def insertEmoji_def)
  moreover have tr: "trim (?v @ ?e) = ?v @ ?e"
    by (rule trim_fixpoint) (simp_all add: MAX_REPLY_def is_space_def hd_append)
  ultimately have "chat_run (chat_view av rel p) (fst (chat_send [] ?s)) [] (Some (Posting 0 (?v @ ?e))) [?v @ ?e]"
    using cr_send [of "chat_view av rel p" ?s "[]" None "[]" "[]" "fst (chat_send [] ?s)" "?v @ ?e"]
    by (simp add: chat_view_def chat_send_def Let_def)
  then show ?thesis by (intro exI conjI) (assumption, simp)
qed

end
