(* ===== verification/Dialogs.thy ===== *)
theory Dialogs
  imports DashTypes React
begin

text \<open>
  The dialogs of the dashboard (\<open>components/dashboard/OutcomeNoteDialog.tsx\<close>,
  \<open>components/ui/Modal.tsx\<close>) and the names on its cards (\<open>components/dashboard/Avatar.tsx\<close>). Focus and keys
  are in \<open>Focus\<close>.
\<close>

section \<open>OutcomeNoteDialog.tsx\<close>

datatype outcome = O_deal | O_closed

fun outcome_status :: "outcome \<Rightarrow> lead_status" where
  "outcome_status O_deal = L_deal"
| "outcome_status O_closed = L_closed"

fun TITLES :: "outcome \<Rightarrow> jsstr" where
  "TITLES O_deal = (heb ''qineo krqwd yaevrd'')"
| "TITLES O_closed = (heb ''qbixz dtpiid'')"

datatype dialog_ui = D_type jsstr | D_escape | D_cancel | D_confirm jsstr

text \<open>The effect on \<open>open\<close>: the note is emptied whenever the dialog opens.\<close>

definition note_effect :: "bool \<Rightarrow> bool \<Rightarrow> jsstr \<Rightarrow> jsstr" where
  "note_effect was_open now_open note = (if now_open \<and> \<not> was_open then [] else note)"

definition MAX_NOTE :: nat where "MAX_NOTE = 2000"

definition outcome_dialog :: "outcome \<Rightarrow> bool \<Rightarrow> bool \<Rightarrow> jsstr option \<Rightarrow> jsstr \<Rightarrow> dialog_ui vnode list" where
  "outcome_dialog out opn saving err note =
     (if \<not> opn then []
      else
        (let trimmed = trim note; canConfirm = (length trimmed > 0 \<and> \<not> saving) in
         [El ''dialog'' [Disabled saving, on_click D_escape] [],
          El ''h2'' [] [Txt (TITLES out)],
          El ''p'' [] [Txt (heb ''nd did ayigd? lnyl: qbxpe aiheg giim a-100 '' @ [8362] @ heb '' lgecy'')],
          El ''textarea'' [Attr ''value'' note, Disabled saving, On (\<lambda>e. \<exists>v. e = D_type v \<and> length v \<le> MAX_NOTE)] []]
         @ (case err of None \<Rightarrow> [] | Some m \<Rightarrow> [El ''p'' [Attr ''role'' (lat ''alert'')] [Txt m]])
         @ [El ''button'' [Disabled saving, on_click D_cancel] [Txt (heb ''aihel'')],
            El ''button'' [Disabled (\<not> canConfirm), on_click (D_confirm trimmed)]
              [Txt (if saving then (heb ''yenx'' @ [8230]) else (heb ''@iyex''))]]))"

lemma dialog_offers:
  "fires_any (outcome_dialog out opn saving err note) e \<Longrightarrow>
     opn \<and> \<not> saving \<and>
     (case e of
        D_confirm n \<Rightarrow> n = trim note \<and> n \<noteq> []
      | D_type v \<Rightarrow> length v \<le> MAX_NOTE
      | _ \<Rightarrow> True)"
  by (auto simp: outcome_dialog_def Let_def split: if_splits option.splits)

section \<open>Modal.tsx\<close>

text \<open>Escape and the button of the title bar raise \<open>close\<close>.\<close>

definition modal :: "bool \<Rightarrow> jsstr \<Rightarrow> 'e \<Rightarrow> 'e vnode list \<Rightarrow> 'e vnode list" where
  "modal opn title close children =
     (if \<not> opn then []
      else [El ''dialog'' [on_click close]
        ([El ''h2'' [] [Txt title], El ''button'' [on_click close, Attr ''aria-label'' (heb ''qbixd'')] []] @ children)])"

lemma fires_modal [simp]:
  "fires_any (modal opn title close children) e \<longleftrightarrow> opn \<and> (e = close \<or> fires_any children e)"
  by (auto simp: modal_def)

section \<open>Avatar.tsx\<close>

text \<open>\<open>s.split(/\s+/).filter(Boolean)\<close>.\<close>

function words :: "jsstr \<Rightarrow> jsstr list" where
  "words s =
     (let r = dropWhile is_space s in
      if r = [] then [] else takeWhile (\<lambda>c. \<not> is_space c) r # words (dropWhile (\<lambda>c. \<not> is_space c) r))"
  by auto

termination
proof (relation "measure length")
  fix s r :: jsstr
  assume r: "r = dropWhile is_space s" "r \<noteq> []"
  then have "\<not> is_space (hd r)" using hd_dropWhile by metis
  with r(2) have "length (dropWhile (\<lambda>c. \<not> is_space c) r) < length r"
    by (cases r) (simp_all add: less_Suc_eq_le length_dropWhile_le)
  also have "\<dots> \<le> length s" by (simp add: r(1) length_dropWhile_le)
  finally show "(dropWhile (\<lambda>c. \<not> is_space c) r, s) \<in> measure length" by simp
qed simp

declare words.simps [simp del]

definition initials :: "jsstr \<Rightarrow> jsstr" where
  "initials name =
     (case words (trim name) of
        [] \<Rightarrow> [183]
      | [p] \<Rightarrow> take 2 p
      | p # q # ps \<Rightarrow> [hd p, hd q])"

lemma words_nonempty: "w \<in> set (words s) \<Longrightarrow> w \<noteq> [] \<and> (\<forall>c \<in> set w. \<not> is_space c)"
proof (induction s rule: words.induct)
  case (1 s)
  let ?r = "dropWhile is_space s"
  show ?case
  proof (cases "?r = []")
    case True
    then have "words s = []" by (subst words.simps) (simp only: Let_def simp_thms if_True)
    with 1(2) show ?thesis by simp
  next
    case False
    then have h: "\<not> is_space (hd ?r)" by (rule hd_dropWhile)
    have "words s = takeWhile (\<lambda>c. \<not> is_space c) ?r # words (dropWhile (\<lambda>c. \<not> is_space c) ?r)"
      using False by (subst words.simps) (simp only: Let_def if_False)
    with 1(2) consider "w = takeWhile (\<lambda>c. \<not> is_space c) ?r" | "w \<in> set (words (dropWhile (\<lambda>c. \<not> is_space c) ?r))"
      by (metis set_ConsD)
    then show ?thesis
    proof cases
      case 1
      with h False show ?thesis by (cases ?r) (auto dest: set_takeWhileD)
    next
      case 2
      with 1(1) [OF refl False] show ?thesis by simp
    qed
  qed
qed

text \<open>An avatar is never blank and has at most two units.\<close>

lemma initials_bounds: "initials name \<noteq> [] \<and> length (initials name) \<le> 2"
  using words_nonempty [of _ "trim name"]
  by (auto simp: initials_def split: list.splits)

end
