(* ===== verification/Conversations.thy ===== *)
theory Conversations
  imports Chat Dialogs
begin

text \<open>
  The inbox (\<open>pages/ConversationsPage.tsx\<close>) and one of its rows
  (\<open>components/dashboard/ConversationCard.tsx\<close>, with the tab bar of \<open>ChatTabs.tsx\<close>).

  A row's record keeps its own state and the note of its outcome dialog; its conversation and whether it
  is open come from the page. Every function after an \<open>await\<close> is an operation of its own. The call-backs a row got from the render
  in which an action started are closures: \<open>status_changed\<close> takes the filter of that render.
\<close>

section \<open>One row\<close>

record conv_card =
  cc_detail :: "conversation_detail option"
  cc_loadingDetail :: bool
  cc_detailError :: "jsstr option"
  cc_busy :: bool
  cc_actionError :: "jsstr option"
  cc_showChat :: bool
  cc_outcome :: "outcome option"
  cc_outcomeError :: "jsstr option"
  cc_note :: jsstr
  cc_loader :: loader

definition card_init :: "conversation \<Rightarrow> conv_card" where
  "card_init c =
     \<lparr>cc_detail = None, cc_loadingDetail = False, cc_detailError = None, cc_busy = False,
      cc_actionError = None, cc_showChat = (conv_status c = C_human), cc_outcome = None,
      cc_outcomeError = None, cc_note = [], cc_loader = new_loader\<rparr>"

text \<open>
  The effect on \<open>open\<close> and the id; a row that opens requests \<open>getConversation\<close>. Until the answer
  is there, and while the row is closed, its dialog is not mounted, so the note starts empty.
\<close>

definition detail_effect :: "bool \<Rightarrow> conv_card \<Rightarrow> conv_card" where
  "detail_effect opn s =
     (if opn then s\<lparr>cc_loadingDetail := True, cc_detailError := None, cc_note := [], cc_loader := rerun_effect (cc_loader s)\<rparr>
      else s\<lparr>cc_note := [], cc_loader := run_cleanup (cc_loader s)\<rparr>)"

definition detail_settled :: "nat \<Rightarrow> (js_thrown + conversation_detail) \<Rightarrow> conv_card \<Rightarrow> conv_card" where
  "detail_settled t r s =
     (if \<not> live t (cc_loader s) then s
      else
        (case r of
           Inr d \<Rightarrow> s\<lparr>cc_detail := Some d\<rparr>
         | Inl err \<Rightarrow> s\<lparr>cc_detailError := Some (toFriendlyError err (heb ''hripz txhi dyigd pkyld. pqe yea.''))\<rparr>)
          \<lparr>cc_loadingDetail := False\<rparr>)"

text \<open>The effect on the status of the conversation.\<close>

definition human_effect :: "conversation \<Rightarrow> conv_card \<Rightarrow> conv_card" where
  "human_effect c s = (if conv_status c = C_human then s\<lparr>cc_showChat := True\<rparr> else s)"

definition changeStatus :: "conversation_status \<Rightarrow> conversation \<Rightarrow> conv_card \<Rightarrow> conv_card \<times> conversation_status option" where
  "changeStatus nxt c s =
     (if cc_busy s \<or> nxt = conv_status c then (s, None)
      else (s\<lparr>cc_busy := True, cc_actionError := None\<rparr>, Some nxt))"

definition change_failed :: jsstr where
  "change_failed = (heb ''yipei nva dyigd pkyl. pqe yea.'')"

text \<open>The state, and the status handed to \<open>onStatusChange\<close>.\<close>

definition change_settled :: "(js_thrown + set_status_response) \<Rightarrow> conv_card \<Rightarrow> conv_card \<times> conversation_status option" where
  "change_settled r s =
     (case r of
        Inr res \<Rightarrow> ((if ss_status res = C_human then s\<lparr>cc_showChat := True\<rparr> else s)\<lparr>cc_busy := False\<rparr>, Some (ss_status res))
      | Inl err \<Rightarrow> (s\<lparr>cc_actionError := Some (toFriendlyError err change_failed), cc_busy := False\<rparr>, None))"

text \<open>
  Confirming an outcome: the first call it makes, on the attached lead or else on the
  conversation itself.
\<close>

datatype outcome_call = Save_lead jsstr lead_status jsstr | Close_conversation

definition cc_lead :: "conv_card \<Rightarrow> lead option" where
  "cc_lead s = (case cc_detail s of None \<Rightarrow> None | Some d \<Rightarrow> det_lead d)"

definition confirmOutcome :: "jsstr \<Rightarrow> conversation \<Rightarrow> conv_card \<Rightarrow> conv_card \<times> outcome_call option" where
  "confirmOutcome note c s =
     (case cc_outcome s of
        None \<Rightarrow> (s, None)
      | Some out \<Rightarrow>
          if cc_busy s \<or> conv_status c = C_closed then (s, None)
          else (s\<lparr>cc_busy := True, cc_outcomeError := None\<rparr>,
                Some (case cc_lead s of
                    Some l \<Rightarrow> Save_lead (lead_id l) (outcome_status out) note
                  | None \<Rightarrow> Close_conversation)))"

text \<open>After the lead was saved: whether the conversation is closed next.\<close>

definition lead_saved :: "js_thrown option \<Rightarrow> conv_card \<Rightarrow> conv_card \<times> bool" where
  "lead_saved r s =
     (case r of
        None \<Rightarrow> (s, True)
      | Some err \<Rightarrow> (s\<lparr>cc_outcomeError := Some (toFriendlyError err change_failed), cc_busy := False\<rparr>, False))"

definition close_settled :: "(js_thrown + set_status_response) \<Rightarrow> conv_card \<Rightarrow> conv_card \<times> conversation_status option" where
  "close_settled r s =
     (case r of
        Inr res \<Rightarrow> (s\<lparr>cc_outcome := None, cc_busy := False\<rparr>, Some (ss_status res))
      | Inl err \<Rightarrow> (s\<lparr>cc_outcomeError := Some (toFriendlyError err change_failed), cc_busy := False\<rparr>, None))"

definition takeOver :: "conversation \<Rightarrow> conv_card \<Rightarrow> conv_card \<times> conversation_status option" where
  "takeOver c s =
     (if conv_status c \<noteq> C_human then changeStatus C_human c s else (s\<lparr>cc_showChat := True\<rparr>, None))"

definition openOutcome :: "outcome \<Rightarrow> conv_card \<Rightarrow> conv_card" where
  "openOutcome out s =
     s\<lparr>cc_outcomeError := None, cc_outcome := Some out, cc_note := note_effect (cc_outcome s \<noteq> None) True (cc_note s)\<rparr>"

definition cancelOutcome :: "conv_card \<Rightarrow> conv_card" where
  "cancelOutcome s = (if cc_busy s then s else s\<lparr>cc_outcome := None\<rparr>)"

section \<open>The title of a row\<close>

definition ends_with :: "jsstr \<Rightarrow> jsstr \<Rightarrow> bool" where
  "ends_with s suf \<longleftrightarrow> length suf \<le> length s \<and> drop (length s - length suf) s = suf"

definition trimmed :: "jsstr option \<Rightarrow> jsstr" where
  "trimmed s = (case s of None \<Rightarrow> [] | Some x \<Rightarrow> trim x)"

definition displayName :: "conversation \<Rightarrow> jsstr" where
  "displayName c =
     (let name = trimmed (conv_contact_name c); phone = trimmed (conv_phone c);
          local = takeWhile (\<lambda>u. u \<noteq> 64) (conv_id c)
      in if name \<noteq> [] then name
         else if phone \<noteq> [] then phone
         else if list_all is_digit local \<and> 9 \<le> length local \<and> length local \<le> 15 \<and> \<not> ends_with (conv_id c) (lat ''@lid'')
         then local
         else (heb ''lweg ll@ ym''))"

section \<open>The view of a row\<close>

datatype conv_ui =
    V_toggle
  | V_take_over
  | V_outcome outcome
  | V_to_bot
  | V_dialog dialog_ui

fun status_label :: "conversation_status \<Rightarrow> jsstr" where
  "status_label C_bot = (heb ''aeh'')"
| "status_label C_waiting = (heb ''dnzpd lpvib'')"
| "status_label C_human = (heb ''pvib @peyi'')"
| "status_label C_closed = (heb ''qbex'')"

definition unread_pill :: "nat \<Rightarrow> jsstr" where
  "unread_pill n = (if 99 < n then (lat ''99+'') else nat_str n)"

definition row_header :: "(jsstr option \<Rightarrow> jsstr) \<Rightarrow> (jsstr option \<Rightarrow> jsstr) \<Rightarrow> conversation \<Rightarrow> conv_ui vnode" where
  "row_header list_time full_time c =
     El ''button''
       [on_click V_toggle,
        Attr ''aria-label'' ((heb ''yigd rm '') @ displayName c @
          (if 0 < conv_unread c then (lat '', '') @ nat_str (conv_unread c) @ (heb '' decrez yl@ pwx@e'') else []))]
       [El ''Avatar'' [] [Txt (initials (displayName c))], Txt (displayName c), Txt (status_label (conv_status c)),
        Txt (or_else (conv_preview c) (heb ''@io decrez rciio'')),
        El ''span'' [Attr ''title'' (full_time (conv_last_activity_at c))] [Txt (list_time (conv_last_activity_at c))],
        El ''span'' [] (shown (0 < conv_unread c) [Txt (unread_pill (conv_unread c))])]"

definition lead_block :: "(answer_value \<Rightarrow> conv_ui vnode) \<Rightarrow> lead option \<Rightarrow> conv_ui vnode list" where
  "lead_block av ol =
     (case ol of
        None \<Rightarrow> [El ''p'' [] [Txt (heb ''l@ nyeij lic lyigd dfe.'')]]
      | Some l \<Rightarrow>
          [Txt (or_else (lead_contact_name l) (heb ''lic ll@ ym''))]
          @ shown (or_else (lead_phone l) [] \<noteq> []) [Txt (or_else (lead_phone l) [])]
          @ (case closeReasonMeta (lead_close_reason l) of None \<Rightarrow> [] | Some m \<Rightarrow> [El ''Badge'' [] [Txt (fst m)]])
          @ (if entries (lead_answers l) \<noteq> [] then
               [El ''dl'' [] (map (\<lambda>(k, v).
                  El ''div'' [Attr ''title'' (answerPreviewText (Some v))] [Txt k, av v]) (entries (lead_answers l)))]
             else [Txt (heb ''rciio l@ p@qte txhim.'')]))"

definition row_actions :: "conversation \<Rightarrow> conv_card \<Rightarrow> conv_ui vnode" where
  "row_actions c s =
     El ''group'' []
       ([El ''button'' [Disabled (cc_busy s), on_click V_take_over]
           [Txt (if cc_busy s \<and> conv_status c \<noteq> C_human then (heb ''nraix'' @ [8230]) else (heb ''lyigd rm dlweg''))]]
        @ shown (conv_status c \<noteq> C_closed)
            [El ''button'' [Disabled (cc_busy s), on_click (V_outcome O_deal)] [Txt (heb ''aevrd rqwd'')],
             El ''button'' [Disabled (cc_busy s), on_click (V_outcome O_closed)] [Txt (heb ''qbixz tpiid'')]]
        @ shown (conv_status c = C_human)
            [El ''button'' [Disabled (cc_busy s), on_click V_to_bot] [Txt (heb ''dgfx laeh'')]])"

text \<open>The chat of the row is the component \<open>ChatPanel\<close>, with state and events of its own.\<close>

definition row_view ::
    "(answer_value \<Rightarrow> conv_ui vnode) \<Rightarrow> (jsstr option \<Rightarrow> jsstr) \<Rightarrow> (jsstr option \<Rightarrow> jsstr) \<Rightarrow> conversation \<Rightarrow> bool \<Rightarrow> conv_card
     \<Rightarrow> conv_ui vnode list" where
  "row_view av list_time full_time c opn s =
     [row_header list_time full_time c]
     @ shown opn
         (if cc_loadingDetail s then [Txt (heb ''hero txhi yigd'' @ [8230])]
          else case cc_detailError s of
            Some e \<Rightarrow> [El ''p'' [Attr ''role'' (lat ''alert'')] [Txt e]]
          | None \<Rightarrow>
              lead_block av (cc_lead s) @ [row_actions c s]
              @ (case cc_actionError s of None \<Rightarrow> [] | Some e \<Rightarrow> [El ''p'' [Attr ''role'' (lat ''alert'')] [Txt e]])
              @ shown (cc_showChat s) [El ''ChatPanel'' [Attr ''id'' (conv_id c)] []]
              @ map (view_in V_dialog)
                  (outcome_dialog (case cc_outcome s of None \<Rightarrow> O_deal | Some x \<Rightarrow> x) (cc_outcome s \<noteq> None) (cc_busy s)
                     (cc_outcomeError s) (cc_note s)))"

section \<open>Runs of a row\<close>

interpretation row_detail: guarded_settle cc_loader detail_settled
  by unfold_locales (auto simp: detail_settled_def split: sum.split)

text \<open>
  What a row sends, newest first: \<open>Sent_close x\<close> closes after the lead \<open>x\<close> was saved,
  or closes a conversation without a lead.
\<close>

datatype row_call = Sent_status conversation_status | Sent_lead jsstr lead_status jsstr | Sent_close "jsstr option"

datatype row_phase = Idle | Changing | Saving_lead jsstr | Closing

text \<open>What an event of the view does: the new state, the calls it makes, the new phase.\<close>

fun on_dialog :: "conversation \<Rightarrow> dialog_ui \<Rightarrow> conv_card \<Rightarrow> conv_card \<times> row_call option \<times> row_phase option" where
  "on_dialog c (D_type v) s = (s\<lparr>cc_note := v\<rparr>, None, None)"
| "on_dialog c D_escape s = (cancelOutcome s, None, None)"
| "on_dialog c D_cancel s = (cancelOutcome s, None, None)"
| "on_dialog c (D_confirm n) s =
     (case confirmOutcome n c s of
        (s', None) \<Rightarrow> (s', None, None)
      | (s', Some (Save_lead l st note)) \<Rightarrow> (s', Some (Sent_lead l st note), Some (Saving_lead l))
      | (s', Some Close_conversation) \<Rightarrow> (s', Some (Sent_close None), Some Closing))"

definition status_call ::
    "conv_card \<times> conversation_status option \<Rightarrow> conv_card \<times> row_call option \<times> row_phase option" where
  "status_call x = (fst x, map_option Sent_status (snd x), map_option (\<lambda>st. Changing) (snd x))"

fun on_row :: "conversation \<Rightarrow> conv_ui \<Rightarrow> conv_card \<Rightarrow> conv_card \<times> row_call option \<times> row_phase option" where
  "on_row c V_toggle s = (s, None, None)"
| "on_row c V_take_over s = status_call (takeOver c s)"
| "on_row c (V_outcome out) s = (openOutcome out s, None, None)"
| "on_row c V_to_bot s = status_call (changeStatus C_bot c s)"
| "on_row c (V_dialog d) s = on_dialog c d s"

definition push :: "'a option \<Rightarrow> 'a list \<Rightarrow> 'a list" where
  "push x xs = (case x of None \<Rightarrow> xs | Some y \<Rightarrow> y # xs)"

inductive row_run ::
    "(conversation \<Rightarrow> bool \<Rightarrow> conv_card \<Rightarrow> conv_ui vnode list) \<Rightarrow> conversation \<Rightarrow> bool \<Rightarrow> conv_card \<Rightarrow> row_phase \<Rightarrow> row_call list \<Rightarrow> bool"
  for view where
  rr_mount: "row_run view c opn (human_effect c (detail_effect opn (card_init c))) Idle []"
| rr_props: "row_run view c opn s ph cs \<Longrightarrow> conv_id c' = conv_id c \<Longrightarrow>
    row_run view c' opn' (human_effect c' (if opn' = opn then s else detail_effect opn' s)) ph cs"
| rr_detail: "row_run view c opn s ph cs \<Longrightarrow> row_run view c opn (detail_settled t r s) ph cs"
| rr_ui: "row_run view c opn s ph cs \<Longrightarrow> fires_any (view c opn s) e \<Longrightarrow> on_row c e s = (s', call, ph') \<Longrightarrow>
    row_run view c opn s' (case ph' of None \<Rightarrow> ph | Some p \<Rightarrow> p) (push call cs)"
| rr_changed: "row_run view c opn s Changing cs \<Longrightarrow> row_run view c opn (fst (change_settled r s)) Idle cs"
| rr_saved: "row_run view c opn s (Saving_lead l) cs \<Longrightarrow> lead_saved r s = (s', close) \<Longrightarrow>
    row_run view c opn s' (if close then Closing else Idle) (if close then Sent_close (Some l) # cs else cs)"
| rr_closed: "row_run view c opn s Closing cs \<Longrightarrow> row_run view c opn (fst (close_settled r s)) Idle cs"

fun calls_ok :: "row_call list \<Rightarrow> bool" where
  "calls_ok [] = True"
| "calls_ok (Sent_status st # cs) = calls_ok cs"
| "calls_ok (Sent_lead l st n # cs) =
     (n \<noteq> [] \<and> trim n = n \<and> length n \<le> MAX_NOTE \<and> st \<in> {L_deal, L_closed} \<and> calls_ok cs)"
| "calls_ok (Sent_close None # cs) = calls_ok cs"
| "calls_ok (Sent_close (Some l) # cs) = ((\<exists>st n cs'. cs = Sent_lead l st n # cs') \<and> calls_ok cs)"

definition row_inv :: "conv_card \<Rightarrow> row_phase \<Rightarrow> row_call list \<Rightarrow> bool" where
  "row_inv s ph cs \<longleftrightarrow>
     (cc_busy s \<longleftrightarrow> ph \<noteq> Idle) \<and> length (cc_note s) \<le> MAX_NOTE \<and> calls_ok cs
     \<and> (\<forall>l. ph = Saving_lead l \<longrightarrow> (\<exists>st n cs'. cs = Sent_lead l st n # cs'))"

lemma row_inv_same:
  "cc_busy s' = cc_busy s \<Longrightarrow> length (cc_note s') \<le> length (cc_note s) \<Longrightarrow> row_inv s ph cs \<Longrightarrow> row_inv s' ph cs"
  by (simp add: row_inv_def)

lemma row_keeps [simp]:
  "cc_busy (detail_effect opn s) = cc_busy s" "length (cc_note (detail_effect opn s)) \<le> length (cc_note s)"
  "cc_busy (detail_settled t r s) = cc_busy s" "cc_note (detail_settled t r s) = cc_note s"
  "cc_busy (human_effect c s) = cc_busy s" "cc_note (human_effect c s) = cc_note s"
  "cc_busy (openOutcome out s) = cc_busy s" "length (cc_note (openOutcome out s)) \<le> length (cc_note s)"
  "cc_busy (cancelOutcome s) = cc_busy s" "cc_note (cancelOutcome s) = cc_note s"
  by (auto simp: detail_effect_def detail_settled_def human_effect_def openOutcome_def note_effect_def cancelOutcome_def
      split: sum.split)

lemma settled_fields [simp]:
  "\<not> cc_busy (fst (change_settled r s))" "cc_note (fst (change_settled r s)) = cc_note s"
  "\<not> cc_busy (fst (close_settled r s))" "cc_note (fst (close_settled r s)) = cc_note s"
  by (auto simp: change_settled_def close_settled_def split: sum.split)

lemma status_call_inv:
  assumes "row_inv s ph cs" "status_call (changeStatus nxt c s) = (s', call, ph')"
  shows "row_inv s' (case ph' of None \<Rightarrow> ph | Some p \<Rightarrow> p) (push call cs)"
  using assms by (auto simp: status_call_def changeStatus_def row_inv_def push_def split: if_splits)

lemma length_trim_note: "length v \<le> MAX_NOTE \<Longrightarrow> length (trim v) \<le> MAX_NOTE"
  using length_trim_le [of v] by simp

lemma confirm_inv:
  assumes "row_inv s ph cs" "n = trim (cc_note s)" "n \<noteq> []" "on_dialog c (D_confirm n) s = (s', call, ph')"
  shows "row_inv s' (case ph' of None \<Rightarrow> ph | Some p \<Rightarrow> p) (push call cs)"
proof -
  have "length n \<le> MAX_NOTE" "trim n = n" using assms(1,2) by (simp_all add: row_inv_def length_trim_note trim_idem)
  moreover have "outcome_status out \<in> {L_deal, L_closed}" for out by (cases out) simp_all
  ultimately show ?thesis
    using assms(1,3,4)
    by (auto simp: confirmOutcome_def row_inv_def push_def split: option.splits if_splits)
qed

lemma lead_block_quiet: "\<forall>a e. \<not> fires (av a) e \<Longrightarrow> \<not> fires_any (lead_block av ol) e"
  by (cases ol) (auto simp: lead_block_def fires_any_map split: option.split)

lemma actions_no_dialog [simp]: "\<not> fires (row_actions c s) (V_dialog e)"
  by (auto simp: row_actions_def)

lemma header_no_dialog [simp]: "\<not> fires (row_header lt ft c) (V_dialog e)"
  by (auto simp: row_header_def)

lemma row_offers:
  assumes "\<forall>a e. \<not> fires (av a) e" "fires_any (row_view av lt ft c opn s) (V_dialog e)"
  shows "\<exists>out m. fires_any (outcome_dialog out (cc_outcome s \<noteq> None) (cc_busy s) m (cc_note s)) e"
proof -
  have "fires_any (outcome_dialog (case cc_outcome s of None \<Rightarrow> O_deal | Some x \<Rightarrow> x) (cc_outcome s \<noteq> None) (cc_busy s)
      (cc_outcomeError s) (cc_note s)) e"
    using assms(2) lead_block_quiet [OF assms(1), of "cc_lead s" "V_dialog e"]
    by (cases "cc_detailError s"; cases "cc_actionError s")
      (simp_all add: row_view_def fires_any_view_in split: if_splits)
  then show ?thesis by blast
qed

lemma row_step_inv:
  assumes "row_inv s ph cs" "on_row c e s = (s', call, ph')"
    and "\<And>d. e = V_dialog d \<Longrightarrow> \<exists>out m. fires_any (outcome_dialog out (cc_outcome s \<noteq> None) (cc_busy s) m (cc_note s)) d"
  shows "row_inv s' (case ph' of None \<Rightarrow> ph | Some p \<Rightarrow> p) (push call cs)"
proof (cases e)
  case V_take_over
  show ?thesis
  proof (cases "conv_status c = C_human")
    case True
    with assms(1,2) V_take_over show ?thesis
      by (auto simp: takeOver_def status_call_def push_def row_inv_def)
  next
    case False
    with assms V_take_over show ?thesis by (intro status_call_inv) (auto simp: takeOver_def)
  qed
next
  case V_to_bot
  with assms show ?thesis by (intro status_call_inv) auto
next
  case (V_dialog d)
  then obtain out m where f: "fires_any (outcome_dialog out (cc_outcome s \<noteq> None) (cc_busy s) m (cc_note s)) d"
    using assms(3) by blast
  show ?thesis
  proof (cases d)
    case (D_confirm n)
    with dialog_offers [OF f] have "n = trim (cc_note s)" "n \<noteq> []" by auto
    with assms V_dialog D_confirm show ?thesis by (intro confirm_inv) auto
  next
    case (D_type v)
    with assms(1,2) V_dialog dialog_offers [OF f] show ?thesis by (auto simp: row_inv_def push_def)
  qed (use assms(1,2) V_dialog in \<open>auto simp: push_def intro: row_inv_same\<close>)
qed (use assms(1,2) in \<open>auto simp: push_def intro: row_inv_same\<close>)

lemma row_run_inv:
  assumes "row_run (row_view av lt ft) c opn s ph cs" "\<forall>a e. \<not> fires (av a) e"
  shows "row_inv s ph cs"
  using assms(1)
proof (induction rule: row_run.induct)
  case (rr_mount c opn)
  then show ?case by (simp add: row_inv_def card_init_def detail_effect_def)
next
  case (rr_props c opn s ph cs c' opn')
  then show ?case
    using row_inv_same [of "human_effect c' (detail_effect opn' s)" s] row_inv_same [of "human_effect c' s" s]
    by (cases "opn' = opn") (simp_all only: if_True if_False row_keeps simp_thms order_refl)
next
  case (rr_detail c opn s ph cs t r)
  then show ?case by (intro row_inv_same [of "detail_settled t r s" s]) simp_all
next
  case (rr_ui c opn s ph cs e s' call ph')
  show ?case
    using rr_ui(4) rr_ui(3) by (rule row_step_inv) (use rr_ui(2) row_offers [OF assms(2)] in blast)
next
  case (rr_changed c opn s cs r)
  then show ?case by (simp add: row_inv_def)
next
  case (rr_saved c opn s l cs r s' close)
  then show ?case by (cases r) (auto simp: lead_saved_def row_inv_def)
next
  case (rr_closed c opn s cs r)
  then show ?case by (simp add: row_inv_def)
qed

section \<open>The page\<close>

record convs_page =
  cv_filter :: "conversation_status option"
  cv_list :: "conversation list option"
  cv_loading :: bool
  cv_error :: "jsstr option"
  cv_openId :: "jsstr option"
  cv_loader :: loader

text \<open>\<open>focusId\<close> is the id of the deep link. \<open>None\<close> as a filter is \<open>'all'\<close>, which no tab offers.\<close>

definition FILTER_TABS :: "conversation_status list" where
  "FILTER_TABS = [C_waiting, C_bot, C_human, C_closed]"

definition convs_load :: "convs_page \<Rightarrow> convs_page" where
  "convs_load s = s\<lparr>cv_loading := True, cv_error := None\<rparr>"

definition convs_mount :: "jsstr option \<Rightarrow> convs_page" where
  "convs_mount focusId =
     convs_load
       \<lparr>cv_filter = Some C_waiting, cv_list = None, cv_loading = True, cv_error = None,
        cv_openId = (if focusId = Some [] then None else focusId), cv_loader = rerun_effect new_loader\<rparr>"

definition convs_request :: "convs_page \<Rightarrow> http_request" where
  "convs_request s = getConversations (cv_filter s)"

text \<open>Choosing a tab reruns the effect if the filter changes; the button loads outside the effect.\<close>

definition setFilter :: "conversation_status \<Rightarrow> convs_page \<Rightarrow> convs_page" where
  "setFilter f s =
     (if cv_filter s = Some f then s
      else convs_load (s\<lparr>cv_filter := Some f, cv_loader := rerun_effect (cv_loader s)\<rparr>))"

definition convs_refresh :: "convs_page \<Rightarrow> convs_page" where
  "convs_refresh s = convs_load (s\<lparr>cv_loader := begin_load (cv_loader s)\<rparr>)"

definition convs_settled :: "nat \<Rightarrow> (js_thrown + conversation list) \<Rightarrow> convs_page \<Rightarrow> convs_page" where
  "convs_settled t r s =
     (if \<not> live t (cv_loader s) then s
      else
        (case r of
           Inr cs \<Rightarrow> s\<lparr>cv_list := Some cs\<rparr>
         | Inl err \<Rightarrow> s\<lparr>cv_error := Some (toFriendlyError err (heb ''hripz dyigez pkyld. pqe yea.''))\<rparr>)
          \<lparr>cv_loading := False\<rparr>)"

definition status_changed :: "conversation_status option \<Rightarrow> jsstr \<Rightarrow> conversation_status \<Rightarrow> convs_page \<Rightarrow> convs_page" where
  "status_changed f i st s =
     s\<lparr>cv_list := map_option
         (\<lambda>cs. filter (\<lambda>c. f = None \<or> f = Some (conv_status c))
                 (map (\<lambda>c. if conv_id c = i then c\<lparr>conv_status := st\<rparr> else c) cs))
         (cv_list s)\<rparr>"

definition toggle_row :: "jsstr \<Rightarrow> convs_page \<Rightarrow> convs_page" where
  "toggle_row i s =
     (if cv_openId s = Some i then s\<lparr>cv_openId := None\<rparr>
      else s\<lparr>cv_openId := Some i,
             cv_list := map_option (map (\<lambda>c. if conv_id c = i then c\<lparr>conv_unread := 0\<rparr> else c)) (cv_list s)\<rparr>)"

datatype page_ui = W_refresh | W_filter conversation_status | W_row jsstr conv_ui

definition tab_count :: "convs_page \<Rightarrow> conversation_status \<Rightarrow> nat option" where
  "tab_count s f =
     (if Some f = cv_filter s
      then Some (sum_list (map conv_unread (case cv_list s of None \<Rightarrow> [] | Some cs \<Rightarrow> cs)))
      else None)"

definition chat_tabs :: "convs_page \<Rightarrow> page_ui vnode" where
  "chat_tabs s =
     El ''tablist'' [] (map (\<lambda>f.
       El ''button'' [Attr ''aria-selected'' (if cv_filter s = Some f then (lat ''true'') else (lat ''false'')), on_click (W_filter f)]
         ([Txt (case f of C_waiting \<Rightarrow> (heb ''nnzipez'') | C_bot \<Rightarrow> (heb ''aeh'') | C_human \<Rightarrow> (heb ''pvib'') | C_closed \<Rightarrow> (heb ''qbexez''))]
          @ (case tab_count s f of None \<Rightarrow> [] | Some n \<Rightarrow> shown (n \<noteq> 0) [Txt (unread_pill n)])))
       FILTER_TABS)"

text \<open>The arrow keys of the tab bar, which is laid out from right to left.\<close>

datatype tab_key = Key_left | Key_right | Key_home | Key_end

definition tab_step :: "nat \<Rightarrow> nat \<Rightarrow> tab_key \<Rightarrow> nat" where
  "tab_step n i k =
     (case k of
        Key_left \<Rightarrow> if i = n - 1 then 0 else i + 1
      | Key_right \<Rightarrow> if i = 0 then n - 1 else i - 1
      | Key_home \<Rightarrow> 0
      | Key_end \<Rightarrow> n - 1)"

definition convs_view :: "(conversation \<Rightarrow> bool \<Rightarrow> conv_ui vnode list) \<Rightarrow> convs_page \<Rightarrow> page_ui vnode list" where
  "convs_view row s =
     [Txt (heb ''yigez''), El ''button'' [Disabled (cv_loading s), on_click W_refresh] [Txt (heb ''xrpeo'')], chat_tabs s]
     @ (if cv_loading s then [Txt (heb ''hero yigez'' @ [8230])]
        else case cv_error s of
          Some e \<Rightarrow> [El ''Alert'' [] [Txt e]]
        | None \<Rightarrow>
            (case cv_list s of
               Some (c # cs) \<Rightarrow>
                 [El ''ul'' [] (map (\<lambda>x. El ''li'' []
                    (map (view_in (W_row (conv_id x))) (row x (cv_openId s = Some (conv_id x))))) (c # cs))]
             | _ \<Rightarrow> [El ''p'' [] [Txt (heb ''@io yigez trilez kxbr.'')]]))"

interpretation convs_loads: guarded_settle cv_loader convs_settled
  by unfold_locales (auto simp: convs_settled_def split: sum.split)

text \<open>
  Runs of the page: the loads in flight with the filter they asked for, whose answer has that
  status only, and the status changes in flight with the filter of the render they started in.
\<close>

inductive page_run ::
    "convs_page \<Rightarrow> (nat \<times> conversation_status option) list \<Rightarrow> (conversation_status option \<times> jsstr) list \<Rightarrow> bool" where
  pr_mount: "page_run (convs_mount focus) [(0, Some C_waiting)] []"
| pr_filter: "page_run s ls cs \<Longrightarrow> f \<in> set FILTER_TABS \<Longrightarrow> cv_filter s \<noteq> Some f \<Longrightarrow>
    page_run (setFilter f s) (ls @ [(next_tok (cv_loader s), Some f)]) cs"
| pr_refresh: "page_run s ls cs \<Longrightarrow> \<not> cv_loading s \<Longrightarrow>
    page_run (convs_refresh s) (ls @ [(next_tok (cv_loader s), cv_filter s)]) cs"
| pr_settled: "page_run s ls cs \<Longrightarrow> i < length ls \<Longrightarrow> ls ! i = (k, f) \<Longrightarrow>
    (\<And>x c. r = Inr x \<Longrightarrow> c \<in> set x \<Longrightarrow> f = None \<or> f = Some (conv_status c)) \<Longrightarrow>
    page_run (convs_settled k r s) (drop_index i ls) cs"
| pr_toggle: "page_run s ls cs \<Longrightarrow> \<not> cv_loading s \<Longrightarrow> page_run (toggle_row i s) ls cs"
| pr_change: "page_run s ls cs \<Longrightarrow> \<not> cv_loading s \<Longrightarrow> cv_list s = Some xs \<Longrightarrow> x \<in> set xs \<Longrightarrow>
    cv_openId s = Some (conv_id x) \<Longrightarrow> page_run s ls (cs @ [(cv_filter s, conv_id x)])"
| pr_changed: "page_run s ls cs \<Longrightarrow> j < length cs \<Longrightarrow> cs ! j = (f, i) \<Longrightarrow>
    page_run (status_changed f i st s) ls (drop_index j cs)"

section \<open>Properties\<close>

lemma calls_ok_lead:
  "calls_ok cs \<Longrightarrow> Sent_lead l st n \<in> set cs \<Longrightarrow> n \<noteq> [] \<and> trim n = n \<and> length n \<le> MAX_NOTE \<and> st \<in> {L_deal, L_closed}"
  by (induction cs rule: calls_ok.induct) auto

lemma calls_ok_close:
  "calls_ok cs \<Longrightarrow> i < length cs \<Longrightarrow> cs ! i = Sent_close (Some l) \<Longrightarrow>
     Suc i < length cs \<and> (\<exists>st n. cs ! Suc i = Sent_lead l st n)"
proof (induction cs arbitrary: i rule: calls_ok.induct)
  case (5 x cs)
  then show ?case by (cases i) auto
qed (auto simp: nth_Cons split: nat.splits)


definition demo_conv :: "nat \<Rightarrow> conversation_status \<Rightarrow> conversation" where
  "demo_conv i st =
     \<lparr>conv_id = [i], conv_status = st, conv_last_activity_at = None, conv_preview = None,
      conv_assigned_user_id = None, conv_unread = 0, conv_contact_name = None, conv_phone = None\<rparr>"

definition demo_detail :: "nat \<Rightarrow> conversation_detail" where
  "demo_detail i =
     \<lparr>det_conversation_id = [i], det_status = C_human, det_lead = Some plain_lead, det_messages = []\<rparr>"

abbreviation demo_row :: "conversation \<Rightarrow> bool \<Rightarrow> conv_card \<Rightarrow> conv_ui vnode list" where
  "demo_row \<equiv> row_view (\<lambda>a. Txt []) (\<lambda>x. []) (\<lambda>x. [])"

definition demo_card :: conv_card where
  "demo_card = detail_settled 0 (Inr (demo_detail 97)) (human_effect (demo_conv 97 C_human) (detail_effect True (card_init (demo_conv 97 C_human))))"

lemma demo_card_facts [simp]:
  "cc_detail demo_card = Some (demo_detail 97)" "\<not> cc_loadingDetail demo_card" "cc_detailError demo_card = None"
  "\<not> cc_busy demo_card" "cc_actionError demo_card = None" "cc_outcome demo_card = None" "cc_note demo_card = []"
  by (simp_all add: demo_card_def detail_settled_def human_effect_def detail_effect_def card_init_def demo_conv_def)


text \<open>
  A status change that ends after the owner went to another tab empties that tab:
  the call-back still filters by the tab it started in. On the schedule shown the tab of the bot
  has a conversation, the change of another one arrives, and the page says that there is none.
\<close>

theorem late_status_change_empties_tab:
  "\<exists>s ls. page_run s ls [(Some C_waiting, [97])] \<and> cv_filter s = Some C_bot \<and> cv_list s = Some [demo_conv 98 C_bot]
    \<and> \<not> cv_loading s \<and> cv_error s = None
    \<and> (let s' = status_changed (Some C_waiting) [97] C_human s in
         page_run s' ls [] \<and> cv_filter s' = Some C_bot \<and> cv_list s' = Some []
         \<and> El ''p'' [] [Txt (heb ''@io yigez trilez kxbr.'')] \<in> set (convs_view row s'))"
proof -
  let ?a = "demo_conv 97 C_waiting" and ?b = "demo_conv 98 C_bot"
  let ?s0 = "convs_mount None"
  let ?s1 = "convs_settled 0 (Inr [?a]) ?s0"
  let ?s2 = "toggle_row [97] ?s1"
  let ?s3 = "setFilter C_bot ?s2"
  let ?s4 = "convs_settled 1 (Inr [?b]) ?s3"
  note defs = convs_mount_def convs_load_def convs_settled_def toggle_row_def setFilter_def demo_conv_def live_def
    rerun_effect_def run_cleanup_def begin_load_def new_loader_def Let_def
  have s1: "cv_list ?s1 = Some [?a]" "\<not> cv_loading ?s1" "cv_openId ?s1 = None" "cv_filter ?s1 = Some C_waiting"
    by (simp_all add: defs)
  have "page_run ?s1 (drop_index 0 [(0, Some C_waiting)]) []"
    by (rule pr_settled [OF pr_mount, where f = "Some C_waiting"]) (auto simp: demo_conv_def)
  then have "page_run ?s2 [] []" using pr_toggle s1(2) by (simp add: drop_index_def)
  then have "page_run ?s2 [] [(Some C_waiting, [97])]"
    using pr_change [of ?s2 "[]" "[]" "[?a]" ?a] by (simp add: defs)
  then have "page_run ?s3 [(1, Some C_bot)] [(Some C_waiting, [97])]"
    using pr_filter [of ?s2 "[]" "[(Some C_waiting, [97])]" C_bot] by (simp add: defs FILTER_TABS_def)
  then have "page_run ?s4 (drop_index 0 [(1, Some C_bot)]) [(Some C_waiting, [97])]"
    by (rule pr_settled [where f = "Some C_bot"]) (auto simp: demo_conv_def)
  then have r: "page_run ?s4 [] [(Some C_waiting, [97])]" by (simp add: drop_index_def)
  moreover have s4: "cv_filter ?s4 = Some C_bot" "cv_list ?s4 = Some [?b]" "\<not> cv_loading ?s4" "cv_error ?s4 = None"
    by (simp_all add: defs)
  moreover have "page_run (status_changed (Some C_waiting) [97] C_human ?s4) [] []"
    using pr_changed [OF r, of 0 "Some C_waiting" "[97]" C_human] by (simp add: drop_index_def)
  moreover have "cv_list (status_changed (Some C_waiting) [97] C_human ?s4) = Some []"
    using s4(2) by (simp add: status_changed_def demo_conv_def)
  ultimately show ?thesis
    by (intro exI [of _ ?s4] exI [of _ "[]"]) (simp add: status_changed_def convs_view_def)
qed

text \<open>
  The load of the refresh button is never cancelled: when it ends after another tab
  was loaded, its conversations replace those of that tab, and the page shows waiting
  conversations under the tab of the bot.
\<close>

theorem refresh_shows_other_tab:
  "\<exists>s. page_run s [] [] \<and> cv_filter s = Some C_bot \<and> cv_list s = Some [demo_conv 97 C_waiting] \<and> \<not> cv_loading s"
proof -
  let ?a = "demo_conv 97 C_waiting"
  let ?s1 = "convs_settled 0 (Inr [?a]) (convs_mount None)"
  let ?s2 = "convs_refresh ?s1"
  let ?s3 = "setFilter C_bot ?s2"
  let ?s4 = "convs_settled 2 (Inr []) ?s3"
  let ?s5 = "convs_settled 1 (Inr [?a]) ?s4"
  note defs = convs_mount_def convs_load_def convs_settled_def convs_refresh_def setFilter_def live_def
    rerun_effect_def run_cleanup_def begin_load_def new_loader_def Let_def
  have "page_run ?s1 (drop_index 0 [(0, Some C_waiting)]) []"
    by (rule pr_settled [OF pr_mount, where f = "Some C_waiting"]) (auto simp: demo_conv_def)
  then have "page_run ?s2 [(1, Some C_waiting)] []"
    using pr_refresh [of ?s1 "[]" "[]"] by (simp add: drop_index_def defs)
  then have "page_run ?s3 [(1, Some C_waiting), (2, Some C_bot)] []"
    using pr_filter [of ?s2 "[(1, Some C_waiting)]" "[]" C_bot] by (simp add: defs FILTER_TABS_def eval_nat_numeral)
  then have "page_run ?s4 (drop_index 1 [(1, Some C_waiting), (2, Some C_bot)]) []"
    by (rule pr_settled [where f = "Some C_bot"]) simp_all
  then have "page_run ?s4 [(1, Some C_waiting)] []" by (simp add: drop_index_def)
  then have "page_run ?s5 (drop_index 0 [(1, Some C_waiting)]) []"
    by (rule pr_settled [where f = "Some C_waiting"]) (auto simp: demo_conv_def)
  then have "page_run ?s5 [] []" by (simp add: drop_index_def)
  moreover have "cv_filter ?s5 = Some C_bot" "cv_list ?s5 = Some [?a]" "\<not> cv_loading ?s5" by (simp_all add: defs)
  ultimately show ?thesis by blast
qed

lemma superseded_tab_ignored:
  "loader_ok (cv_loader s) \<Longrightarrow> cleanup (cv_loader s) = Some k \<Longrightarrow> cv_filter s \<noteq> Some f \<Longrightarrow>
     convs_settled k r (setFilter f s) = setFilter f s"
  by (rule convs_loads.superseded [where s = s]) (simp_all add: setFilter_def convs_load_def)

text \<open>The title of a row never shows the raw id of the chat.\<close>

lemma displayName_readable:
  assumes "trimmed (conv_contact_name c) = []" "trimmed (conv_phone c) = []"
  shows "64 \<notin> set (displayName c) \<and> displayName c \<noteq> [] \<and> (ends_with (conv_id c) (lat ''@lid'') \<longrightarrow> displayName c = (heb ''lweg ll@ ym''))"
  using assms by (auto simp: displayName_def Let_def js_lit heb_def heb_unit_def dest: set_takeWhileD)

end
