(* ===== verification/Leads.thy ===== *)
theory Leads
  imports ClientLaws Dialogs LeadSearch "HOL-Library.List_Lexorder"
begin

text \<open>
  The leads of the dashboard: the page (\<open>pages/LeadsPage.tsx\<close>) and one card
  (\<open>components/dashboard/LeadCard.tsx\<close>). Formatting of times is a parameter; scrolling to a
  highlighted card is left out, as are the icons and the KPI card's markup.
\<close>

section \<open>One card\<close>

record lead_card =
  lc_saving :: "outcome option"
  lc_actionError :: "jsstr option"
  lc_showDelete :: bool
  lc_deleting :: bool
  lc_deleteError :: "jsstr option"
  lc_outcome :: "outcome option"
  lc_outcomeError :: "jsstr option"
  lc_note :: jsstr
  lc_showChat :: bool
  lc_openingChat :: bool
  lc_chatStatus :: conversation_status

definition lead_card_init :: lead_card where
  "lead_card_init =
     \<lparr>lc_saving = None, lc_actionError = None, lc_showDelete = False, lc_deleting = False, lc_deleteError = None,
      lc_outcome = None, lc_outcomeError = None, lc_note = [], lc_showChat = False, lc_openingChat = False,
      lc_chatStatus = C_human\<rparr>"

datatype lead_ui =
    U_chat
  | U_outcome outcome
  | U_delete
  | U_close_delete
  | U_cancel_delete
  | U_confirm_delete
  | U_dialog dialog_ui

text \<open>The state, and the request an action makes. An id that cannot be encoded makes the call throw.\<close>

definition confirmDelete :: "lead \<Rightarrow> lead_card \<Rightarrow> lead_card \<times> http_request option" where
  "confirmDelete l s = (s\<lparr>lc_deleting := True, lc_deleteError := None\<rparr>, deleteLead (lead_id l))"

text \<open>Settling: the state, and whether \<open>onDelete\<close> is called.\<close>

definition delete_settled :: "js_thrown option \<Rightarrow> lead_card \<Rightarrow> lead_card \<times> bool" where
  "delete_settled r s =
     (case r of
        None \<Rightarrow> (s\<lparr>lc_showDelete := False, lc_deleting := False\<rparr>, True)
      | Some err \<Rightarrow> (s\<lparr>lc_deleteError := Some (heb ''dngiwd pkyld. pqe yea.''), lc_deleting := False\<rparr>, False))"

definition openInAppChat :: "lead \<Rightarrow> lead_card \<Rightarrow> lead_card \<times> http_request option" where
  "openInAppChat l s =
     (let cid = or_else (lead_conversation_id l) [] in
      if cid = [] then (s, None)
      else if lc_showChat s then (s\<lparr>lc_showChat := False\<rparr>, None)
      else (s\<lparr>lc_openingChat := True, lc_actionError := None\<rparr>, getConversation cid))"

definition chat_opened :: "(js_thrown + conversation_detail) \<Rightarrow> lead_card \<Rightarrow> lead_card" where
  "chat_opened r s =
     s\<lparr>lc_chatStatus := (case r of Inr d \<Rightarrow> det_status d | Inl err \<Rightarrow> C_human), lc_openingChat := False, lc_showChat := True\<rparr>"

definition confirm_outcome :: "jsstr \<Rightarrow> lead \<Rightarrow> lead_card \<Rightarrow> lead_card \<times> http_request option" where
  "confirm_outcome note l s =
     (case lc_outcome s of
        None \<Rightarrow> (s, None)
      | Some out \<Rightarrow>
          (s\<lparr>lc_saving := Some out, lc_outcomeError := None\<rparr>,
           setLeadStatus (lead_id l) (outcome_status out) (Some note)))"

definition outcome_settled :: "js_thrown option \<Rightarrow> lead_card \<Rightarrow> lead_card \<times> bool" where
  "outcome_settled r s =
     (case r of
        None \<Rightarrow> (s\<lparr>lc_outcome := None, lc_saving := None\<rparr>, True)
      | Some err \<Rightarrow>
          (s\<lparr>lc_outcomeError := Some (toFriendlyError err (heb ''rckeo dqhheq pkyl. pqe yea.'')), lc_saving := None\<rparr>, False))"

fun on_lead :: "lead \<Rightarrow> lead_ui \<Rightarrow> lead_card \<Rightarrow> lead_card \<times> http_request option" where
  "on_lead l U_chat s = openInAppChat l s"
| "on_lead l (U_outcome out) s =
     (s\<lparr>lc_outcomeError := None, lc_outcome := Some out, lc_note := note_effect (lc_outcome s \<noteq> None) True (lc_note s)\<rparr>, None)"
| "on_lead l U_delete s = (s\<lparr>lc_deleteError := None, lc_showDelete := True\<rparr>, None)"
| "on_lead l U_close_delete s = (if lc_deleting s then s else s\<lparr>lc_showDelete := False\<rparr>, None)"
| "on_lead l U_cancel_delete s = (s\<lparr>lc_showDelete := False\<rparr>, None)"
| "on_lead l U_confirm_delete s = confirmDelete l s"
| "on_lead l (U_dialog (D_type v)) s = (s\<lparr>lc_note := v\<rparr>, None)"
| "on_lead l (U_dialog (D_confirm n)) s = confirm_outcome n l s"
| "on_lead l (U_dialog d) s = (if lc_saving s = None then s\<lparr>lc_outcome := None\<rparr> else s, None)"

fun lead_label :: "lead_status \<Rightarrow> jsstr" where
  "lead_label L_new = (heb ''gcy'')"
| "lead_label L_in_progress = (heb ''tzeg'')"
| "lead_label L_abandoned = (heb ''pphy'')"
| "lead_label L_deal = (heb ''aevrd rqwd'')"
| "lead_label L_closed = (heb ''lic qbex'')"

text \<open>The initials of this card: first units of the first two words, a dash without any.\<close>

definition card_initials :: "jsstr option \<Rightarrow> jsstr" where
  "card_initials name =
     (let is = map hd (take 2 (words (trim (or_else name [])))) in if is = [] then [8212] else is)"

definition lead_body :: "(answer_value \<Rightarrow> lead_ui vnode) \<Rightarrow> (jsstr option \<Rightarrow> jsstr) \<Rightarrow> lead \<Rightarrow> lead_ui vnode list" where
  "lead_body av relative l =
     [Txt (card_initials (lead_contact_name l)), Txt (or_else (lead_contact_name l) (heb ''lic ll@ ym'')),
      Txt (lead_name l @ (if lead_state l = L_abandoned then (heb '' '' @ [183] @ heb '' rvx ayla '') @ int_str (lead_last_step_index l + 1) else [])
           @ (if lead_is_test l then (heb '' '' @ [183] @ heb '' aciwd'') else []))]
     @ (case closeReasonMeta (lead_close_reason l) of None \<Rightarrow> [] | Some m \<Rightarrow> [El ''Badge'' [] [Txt (fst m)]])
     @ [El ''Badge'' [] [Txt (lead_label (lead_state l))]]
     @ (if entries (lead_answers l) \<noteq> [] then
          [El ''dl'' [] (map (\<lambda>(k, v).
             El ''div'' [Attr ''title'' (answerPreviewText (Some v))] [Txt k, av v]) (entries (lead_answers l)))]
        else [Txt (heb ''rciio l@ p@qte txhim.'')])
     @ shown (or_else (lead_phone l) [] \<noteq> []) [Txt ((heb ''hlteo: '') @ or_else (lead_phone l) [])]
     @ shown (or_else (lead_started_at l) [] \<noteq> []) [Txt ((heb ''dzgil: '') @ relative (lead_started_at l))]
     @ (if or_else (lead_submitted_at l) [] \<noteq> [] then [Txt ((heb ''deylm: '') @ relative (lead_submitted_at l))]
        else shown (or_else (lead_last_activity_at l) [] \<noteq> [])
          [Txt ((heb ''trilez @gxepd: '') @ relative (lead_last_activity_at l))])
     @ shown (or_else (lead_outcome_note l) [] \<noteq> []) [Txt (heb ''qikem dhitel''), Txt (or_else (lead_outcome_note l) [])]"

definition lead_actions :: "lead \<Rightarrow> lead_card \<Rightarrow> lead_ui vnode list" where
  "lead_actions l s =
     shown (or_else (lead_conversation_id l) [] \<noteq> [])
       [El ''button'' [Disabled (lc_openingChat s), on_click U_chat]
          [Txt (if lc_openingChat s then (heb ''tezg'' @ [8230]) else (heb ''v'' @ [39] @ heb ''@h a@tliwvid''))]]
     @ shown (lead_state l \<noteq> L_deal)
       [El ''button'' [Disabled (lc_saving s \<noteq> None), on_click (U_outcome O_deal)]
          [Txt (if lc_saving s = Some O_deal then (heb ''nrcko'' @ [8230]) else (heb ''aevrd rqwd''))]]
     @ shown (lead_state l \<noteq> L_closed)
       [El ''button'' [Disabled (lc_saving s \<noteq> None), on_click (U_outcome O_closed)]
          [Txt (if lc_saving s = Some O_closed then (heb ''nrcko'' @ [8230]) else (heb ''lic qbex''))]]
     @ [El ''button'' [Disabled (lc_saving s \<noteq> None \<or> lc_deleting s), on_click U_delete] [Txt (heb ''ngw'')]]"

definition delete_dialog :: "lead \<Rightarrow> lead_card \<Rightarrow> lead_ui vnode list" where
  "delete_dialog l s =
     modal (lc_showDelete s) (heb ''ngiwz lic lvnizez'') U_close_delete
       ([Txt (heb ''d@m lngew @z dlic yl''), Txt (or_else (lead_contact_name l) (heb ''lic ll@ ym'')), Txt (heb ''lvnizez? l@ pizo lygfx.'')]
        @ (case lc_deleteError s of None \<Rightarrow> [] | Some e \<Rightarrow> [El ''p'' [Attr ''role'' (lat ''alert'')] [Txt e]])
        @ [El ''button'' [Disabled (lc_deleting s), on_click U_cancel_delete] [Txt (heb ''aihel'')],
           El ''button'' [Disabled (lc_deleting s), on_click U_confirm_delete]
             [Txt (if lc_deleting s then (heb ''negw'' @ [8230]) else (heb ''ko, ngw lvnizez''))]])"

definition lead_card_view ::
    "(answer_value \<Rightarrow> lead_ui vnode) \<Rightarrow> (jsstr option \<Rightarrow> jsstr) \<Rightarrow> lead \<Rightarrow> lead_card \<Rightarrow> lead_ui vnode list" where
  "lead_card_view av relative l s =
     lead_body av relative l @ lead_actions l s
     @ (case lc_actionError s of None \<Rightarrow> [] | Some e \<Rightarrow> [El ''p'' [Attr ''role'' (lat ''alert'')] [Txt e]])
     @ delete_dialog l s
     @ map (view_in U_dialog)
         (outcome_dialog (case lc_outcome s of None \<Rightarrow> O_deal | Some x \<Rightarrow> x) (lc_outcome s \<noteq> None) (lc_saving s \<noteq> None)
            (lc_outcomeError s) (lc_note s))
     @ shown (lc_showChat s \<and> or_else (lead_conversation_id l) [] \<noteq> [])
         [El ''ChatPanel'' [Attr ''id'' (or_else (lead_conversation_id l) [])] []]"

section \<open>The page\<close>

record leads_page =
  lp_highlight :: "jsstr option"
  lp_status :: lead_status_filter
  lp_flow :: jsstr
  lp_query :: jsstr
  lp_leads :: "lead list option"
  lp_abandoned :: "lead list"
  lp_loading :: bool
  lp_error :: "jsstr option"
  lp_loader :: loader

definition flowParam :: "leads_page \<Rightarrow> jsstr option" where
  "flowParam s = (if lp_flow s = (lat ''all'') then None else Some (lp_flow s))"

definition leads_load :: "leads_page \<Rightarrow> leads_page" where
  "leads_load s = s\<lparr>lp_loading := True, lp_error := None\<rparr>"

definition opts_of :: "lead_status_filter \<Rightarrow> jsstr option \<Rightarrow> leads_opts" where
  "opts_of st fl = \<lparr>lo_period = None, lo_status = Some st, lo_flow = fl, lo_includeTest = None\<rparr>"

text \<open>The two requests of a load, made together; its result is both lists or the first error.\<close>

definition leads_requests :: "leads_page \<Rightarrow> http_request list" where
  "leads_requests s = [getLeads (opts_of (lp_status s) (flowParam s)), getLeads (opts_of F_abandoned (flowParam s))]"

definition leads_mount :: "jsstr option \<Rightarrow> leads_page" where
  "leads_mount highlight =
     leads_load
       \<lparr>lp_highlight = highlight,
        lp_status = (if or_else highlight [] \<noteq> [] then F_all else F_in_progress), lp_flow = (lat ''all''), lp_query = [],
        lp_leads = None, lp_abandoned = [], lp_loading = True, lp_error = None, lp_loader = rerun_effect new_loader\<rparr>"

definition leads_settled :: "nat \<Rightarrow> (js_thrown + lead list \<times> lead list) \<Rightarrow> leads_page \<Rightarrow> leads_page" where
  "leads_settled t r s =
     (if \<not> live t (lp_loader s) then s
      else
        (case r of
           Inr (main, aband) \<Rightarrow> s\<lparr>lp_leads := Some main, lp_abandoned := aband\<rparr>
         | Inl err \<Rightarrow> s\<lparr>lp_error := Some (toFriendlyError err (heb ''hripz dlicim pkyld. pqe yea.''))\<rparr>)
          \<lparr>lp_loading := False\<rparr>)"

text \<open>The effect runs again when the status or the flow changes; a card's call-back loads outside it.\<close>

definition leads_effect :: "leads_page \<Rightarrow> leads_page \<Rightarrow> leads_page" where
  "leads_effect s s' =
     (if lp_status s' = lp_status s \<and> flowParam s' = flowParam s then s'
      else leads_load (s'\<lparr>lp_loader := rerun_effect (lp_loader s')\<rparr>))"

definition leads_refresh :: "leads_page \<Rightarrow> leads_page" where
  "leads_refresh s = leads_load (s\<lparr>lp_loader := begin_load (lp_loader s)\<rparr>)"

definition highlight_done :: "leads_page \<Rightarrow> leads_page" where
  "highlight_done s = s\<lparr>lp_highlight := None\<rparr>"

datatype leads_ui =
    P_status lead_status_filter
  | P_flow jsstr
  | P_query jsstr
  | P_clear
  | P_export
  | P_lead jsstr lead_ui

definition on_leads :: "leads_ui \<Rightarrow> leads_page \<Rightarrow> leads_page" where
  "on_leads e s =
     (case e of
        P_status st \<Rightarrow> leads_effect s (s\<lparr>lp_status := st\<rparr>)
      | P_flow f \<Rightarrow> leads_effect s (s\<lparr>lp_flow := f\<rparr>)
      | P_query q \<Rightarrow> s\<lparr>lp_query := q\<rparr>
      | P_clear \<Rightarrow> s\<lparr>lp_query := []\<rparr>
      | P_export \<Rightarrow> s
      | P_lead i u \<Rightarrow> s)"

section \<open>What the page derives\<close>

definition lead_list :: "leads_page \<Rightarrow> lead list" where
  "lead_list s = (case lp_leads s of None \<Rightarrow> [] | Some ls \<Rightarrow> ls)"

definition flowOptions :: "leads_page \<Rightarrow> (jsstr \<times> jsstr) list" where
  "flowOptions s =
     ((lat ''all''), (heb ''kl dnqlelim''))
     # map (\<lambda>n. (n, n)) (sort (remdups (map lead_name (lead_list s @ lp_abandoned s))))"

definition trimmedQuery :: "leads_page \<Rightarrow> jsstr" where
  "trimmedQuery s = trim (lp_query s)"

definition searching :: "leads_page \<Rightarrow> bool" where
  "searching s \<longleftrightarrow> trimmedQuery s \<noteq> []"

definition visibleLeads :: "leads_page \<Rightarrow> lead list option" where
  "visibleLeads s =
     (if searching s then Some (filter (\<lambda>l. leadMatches l (trimmedQuery s)) (lead_list s)) else lp_leads s)"

definition visible_list :: "leads_page \<Rightarrow> lead list" where
  "visible_list s = (case visibleLeads s of None \<Rightarrow> [] | Some ls \<Rightarrow> ls)"

record lead_counts =
  n_completed :: "nat option"
  n_open :: "nat option"
  n_abandoned :: nat

definition counts :: "leads_page \<Rightarrow> lead_counts" where
  "counts s =
     (let all = (if lp_status s = F_all then Some (lead_list s) else None);
          count = (\<lambda>st. map_option (\<lambda>ls. length (filter (\<lambda>l. lead_state l = st) ls)) all)
      in \<lparr>n_completed = count L_new, n_open = count L_in_progress, n_abandoned = length (lp_abandoned s)\<rparr>)"

definition exportDisabled :: "leads_page \<Rightarrow> bool" where
  "exportDisabled s \<longleftrightarrow> lp_loading s \<or> lp_error s \<noteq> None \<and> lp_error s \<noteq> Some [] \<or> visible_list s = []"

definition export_url :: "leads_page \<Rightarrow> jsstr" where
  "export_url s =
     leadsExportUrl (opts_of (lp_status s) (flowParam s)) (if trimmedQuery s = [] then None else Some (trimmedQuery s))"

section \<open>The view of the page\<close>

definition STATUS_SEGMENTS :: "(lead_status_filter \<times> jsstr) list" where
  "STATUS_SEGMENTS =
     [(F_in_progress, (heb ''tzegim'')), (F_new, (heb ''lic ylm'')), (F_deal, (heb ''aevrd rqwd'')), (F_closed, (heb ''pqbxe'')),
      (F_abandoned, (heb ''phye'')), (F_all, (heb ''dkel''))]"

definition segmented_control :: "('a \<times> jsstr) list \<Rightarrow> 'a \<Rightarrow> ('a \<Rightarrow> 'e) \<Rightarrow> 'e vnode" where
  "segmented_control segs value f =
     El ''radiogroup'' [] (map (\<lambda>(v, label).
       El ''button'' [Attr ''role'' (lat ''radio''), Attr ''aria-checked'' (if v = value then (lat ''true'') else (lat ''false'')), on_click (f v)]
         [Txt label]) segs)"

definition select_view :: "jsstr \<Rightarrow> (jsstr \<times> jsstr) list \<Rightarrow> jsstr \<Rightarrow> (jsstr \<Rightarrow> 'e) \<Rightarrow> 'e vnode" where
  "select_view label options value f =
     El ''label'' [] [Txt label,
       El ''select'' [Attr ''value'' value, On (\<lambda>e. \<exists>o' \<in> set options. e = f (fst o'))]
         (map (\<lambda>o'. El ''option'' [Attr ''value'' (fst o')] [Txt (snd o')]) options)]"

definition stat_card :: "nat \<Rightarrow> jsstr \<Rightarrow> 'e vnode" where
  "stat_card n label = El ''div'' [] [Txt (nat_str n), Txt label]"

definition kpi_cards :: "leads_page \<Rightarrow> leads_ui vnode list" where
  "kpi_cards s =
     (case n_completed (counts s) of
        None \<Rightarrow> []
      | Some n \<Rightarrow>
          [stat_card n (heb ''lic ylm''), stat_card (case n_open (counts s) of None \<Rightarrow> 0 | Some k \<Rightarrow> k) (heb ''tzegim''),
           stat_card (n_abandoned (counts s)) (heb ''pphye'')])"

definition leads_list_view :: "(lead \<Rightarrow> lead_ui vnode list) \<Rightarrow> leads_page \<Rightarrow> leads_ui vnode list" where
  "leads_list_view cardv s =
     (if lp_loading s then [Txt (heb ''hero licim'' @ [8230])]
      else case lp_error s of
        Some e \<Rightarrow> [El ''Alert'' [] [Txt e]]
      | None \<Rightarrow>
          if visible_list s \<noteq> [] then
            [El ''ul'' [] (map (\<lambda>l. El ''li'' [] (map (view_in (P_lead (lead_id l))) (cardv l))) (visible_list s))]
          else if searching s then
            [Txt ((heb ''l@ pnv@e licim raex '') @ [34] @ trimmedQuery s @ [34]),
             El ''button'' [on_click P_clear] [Txt (heb ''pwd gitey'')]]
          else [Txt (heb ''@io licim ldvbd aqipeo dpekgi.'')])"

definition leads_view :: "(lead \<Rightarrow> lead_ui vnode list) \<Rightarrow> leads_page \<Rightarrow> leads_ui vnode list" where
  "leads_view cardv s =
     [Txt (heb ''licim'')] @ kpi_cards s
     @ [segmented_control STATUS_SEGMENTS (lp_status s) P_status,
        select_view (heb ''qipeo lti nqlel'') (flowOptions s) (lp_flow s) P_flow,
        field_view (heb ''gitey'') (lp_query s) P_query]
     @ shown (lp_query s \<noteq> []) [El ''button'' [Attr ''aria-label'' (heb ''piwei dgitey''), on_click P_clear] []]
     @ [El ''button'' [Disabled (exportDisabled s), on_click P_export] [Txt (heb ''iive@ l@wql'')]]
     @ shown (exportDisabled s) [Txt (heb ''@io licim liive@ azvebd dpekgiz'')]
     @ shown (searching s \<and> \<not> lp_loading s \<and> lp_error s = None \<and> lp_leads s \<noteq> None)
         [Txt ((heb ''nvib '') @ nat_str (length (visible_list s)) @ (heb '' nzej '') @ nat_str (length (lead_list s)) @ (heb '' licim''))]
     @ leads_list_view cardv s
     @ [Txt (heb ''wiyexi dwavim aweau ptzgim actcto ecexyim ldiez ngeaxim lgyaeo.'')]"

section \<open>Lemmas\<close>

interpretation leads_loads: guarded_settle lp_loader leads_settled
  by unfold_locales (auto simp: leads_settled_def split: sum.split prod.split)

lemma kpi_quiet [simp]: "\<not> fires_any (kpi_cards s) e"
  by (simp add: kpi_cards_def stat_card_def split: option.split)

lemma fires_segmented: "fires (segmented_control segs v f) e \<longleftrightarrow> (\<exists>x \<in> set segs. e = f (fst x))"
  by (simp add: segmented_control_def fires_any_map case_prod_beta)

lemma fires_select: "fires (select_view lb os v f) e \<longleftrightarrow> (\<exists>x \<in> set os. e = f (fst x))"
  by (auto simp: select_view_def fires_any_map)

lemma list_view_no_export [simp]: "\<not> fires_any (leads_list_view cardv s) P_export"
proof (cases "lp_error s")
  case None
  then show ?thesis by (auto simp: leads_list_view_def fires_any_map fires_view_in fires_any_iff)
qed (simp add: leads_list_view_def)

lemma export_offered: "fires_any (leads_view cardv s) P_export \<longleftrightarrow> \<not> exportDisabled s"
  by (auto simp: leads_view_def fires_segmented fires_select)

lemma lead_body_quiet: "\<forall>a e. \<not> fires (av a) e \<Longrightarrow> \<not> fires_any (lead_body av rel l) e"
  by (auto simp: lead_body_def fires_any_map split: option.split)

section \<open>Properties\<close>


definition demo_leads :: leads_page where
  "demo_leads = (leads_settled 0 (Inr ([plain_lead, plain_lead\<lparr>lead_name := [122]\<rparr>], [])) (leads_mount None))\<lparr>lp_query := [32, 70]\<rparr>"

lemma demo_leads_fields [simp]:
  "lp_loading demo_leads = False" "lp_error demo_leads = None" "lp_flow demo_leads = (lat ''all'')" "lp_status demo_leads = F_in_progress"
  "trimmedQuery demo_leads = [70]" "lead_list demo_leads = [plain_lead, plain_lead\<lparr>lead_name := [122]\<rparr>]"
  by (simp_all add: demo_leads_def leads_settled_def leads_mount_def leads_load_def trimmedQuery_def trim_def is_space_def
      lead_list_def or_else_def)

lemma demo_leads_visible [simp]: "visible_list demo_leads = [plain_lead]"
  by (simp add: visible_list_def visibleLeads_def searching_def leadMatches_def plain_lead_def norm_text_def
      trim_def is_space_def lower_def lower_unit_def starts_with_def)


text \<open>
  Property C11. What a card sends: it deletes only through the confirmation that is on the
  screen and while no deletion is in flight, and it marks a lead only as a deal or closed, with
  a note that is not blank and trimmed, while no other save is in flight. Nothing else it
  offers changes the lead.
\<close>

theorem lead_card_requests_safe:
  assumes "fires_any (lead_card_view av rel l s) e" "\<forall>a e. \<not> fires (av a) e" "on_lead l e s = (s', Some rq)"
  shows "(e = U_confirm_delete \<and> lc_showDelete s \<and> \<not> lc_deleting s \<and> deleteLead (lead_id l) = Some rq \<and> lc_deleting s')
    \<or> (e = U_chat \<and> req_method rq = GET)
    \<or> (\<exists>out n. e = U_dialog (D_confirm n) \<and> lc_outcome s = Some out \<and> lc_saving s = None \<and> n \<noteq> [] \<and> trim n = n
         \<and> setLeadStatus (lead_id l) (outcome_status out) (Some n) = Some rq \<and> lc_saving s' = Some out)"
proof (cases e)
  case U_chat
  with assms(3) have "getConversation (or_else (lead_conversation_id l) []) = Some rq"
    by (auto simp: openInAppChat_def Let_def split: if_splits)
  then have "req_method rq = GET" by (auto simp: getConversation_def with_component_def api_get_def request_def)
  with U_chat show ?thesis by simp
next
  case U_confirm_delete
  with assms(1) lead_body_quiet [OF assms(2)] have "lc_showDelete s" "\<not> lc_deleting s"
    by (auto simp: lead_card_view_def lead_actions_def delete_dialog_def fires_any_view_in split: option.splits)
  with U_confirm_delete assms(3) show ?thesis by (auto simp: confirmDelete_def)
next
  case (U_dialog d)
  with assms(1) lead_body_quiet [OF assms(2)]
  have "fires_any (outcome_dialog (case lc_outcome s of None \<Rightarrow> O_deal | Some x \<Rightarrow> x) (lc_outcome s \<noteq> None)
      (lc_saving s \<noteq> None) (lc_outcomeError s) (lc_note s)) d"
    by (auto simp: lead_card_view_def lead_actions_def delete_dialog_def fires_any_view_in split: option.splits)
  note offered = dialog_offers [OF this]
  with U_dialog assms(3) show ?thesis
    by (cases d) (auto simp: confirm_outcome_def trim_idem)
qed (use assms(3) in auto)

theorem lead_card_requests_safe_witness:
  "\<exists>rq. setLeadStatus [49] L_deal (Some [111]) = Some rq \<and> req_method rq = PATCH"
proof -
  let ?s = "lead_card_init\<lparr>lc_outcome := Some O_deal, lc_note := [111]\<rparr>"
  have t: "trim [111] = [111]" by (simp add: trim_def is_space_def)
  obtain rq where rq: "setLeadStatus [49] L_deal (Some [111]) = Some rq" "req_method rq = PATCH"
    by (simp add: setLeadStatus_def with_component_def encodeURIComponent_def api_patch_def request_def is_high_def is_low_def)
  have "fires_any (lead_card_view (\<lambda>a. Txt []) (\<lambda>x. []) plain_lead ?s) (U_dialog (D_confirm [111]))"
    using t by (simp add: lead_card_view_def fires_any_view_in outcome_dialog_def lead_card_init_def Let_def)
  moreover have "on_lead plain_lead (U_dialog (D_confirm [111])) ?s
      = (?s\<lparr>lc_saving := Some O_deal, lc_outcomeError := None\<rparr>, Some rq)"
    using rq(1) by (simp add: confirm_outcome_def plain_lead_def)
  ultimately have "setLeadStatus (lead_id plain_lead) L_deal (Some [111]) = Some rq"
    using lead_card_requests_safe [of "\<lambda>a. Txt []" "\<lambda>x. []" plain_lead ?s "U_dialog (D_confirm [111])"] by auto
  with rq(2) show ?thesis by (auto simp: plain_lead_def)
qed

text \<open>
  The KPI cards of the page count the wrong list: as soon as "all" is chosen they
  show counts taken from the leads of the filter that was left, and when the load of all leads
  fails they keep showing them. Here one complete lead is counted although there are none of
  that kind in the list it was taken from, which is the list of closed ones.
\<close>

theorem kpi_counts_other_filter:
  "\<exists>s. lp_status s = F_closed \<and> lp_leads s = Some [plain_lead\<lparr>lead_state := L_closed\<rparr>] \<and> \<not> lp_loading s
     \<and> (let s1 = on_leads (P_status F_all) s; s2 = leads_settled 1 (Inl (ThrownOther [])) s1 in
          lp_loading s1 \<and> n_completed (counts s1) = Some 0
          \<and> \<not> lp_loading s2 \<and> lp_status s2 = F_all \<and> n_completed (counts s2) = Some 0 \<and> lp_error s2 \<noteq> None)"
proof -
  let ?s = "leads_settled 0 (Inr ([plain_lead\<lparr>lead_state := L_closed\<rparr>], [])) ((leads_mount None)\<lparr>lp_status := F_closed\<rparr>)"
  show ?thesis
    by (rule exI [of _ ?s])
      (simp add: leads_settled_def leads_mount_def leads_load_def on_leads_def leads_effect_def counts_def lead_list_def
        live_def rerun_effect_def run_cleanup_def begin_load_def new_loader_def Let_def flowParam_def plain_lead_def)
qed

end
