(* ===== verification/Home.thy ===== *)
theory Home
  imports Conversations Leads Controls
begin

text \<open>
  The home page (\<open>pages/DashboardHome.tsx\<close>) with its activity feed
  (\<open>components/dashboard/ActivityFeed.tsx\<close>), and the unread badge
  (\<open>dashboard/UnreadContext.tsx\<close>). \<open>relativeTime\<close> and \<open>fullDateTime\<close> are
  parameters of the views, and so is the publish toggle, which \<open>Controls\<close> models.
\<close>

section \<open>Reading a link\<close>

text \<open>\<open>useSearchParams()[0].get(name)\<close> on the page that a link leads to.\<close>

definition search_param :: "jsstr \<Rightarrow> jsstr \<Rightarrow> jsstr option" where
  "search_param name url = map_of (form_parse (tl (dropWhile (\<lambda>c. c \<noteq> 63) url))) name"

section \<open>ActivityFeed.tsx\<close>

definition MAX_ITEMS :: nat where "MAX_ITEMS = 8"

text \<open>\<open>for (const ch of name)\<close> goes over code points; a lone surrogate is one of its own.\<close>

fun points :: "jsstr \<Rightarrow> nat list" where
  "points [] = []"
| "points [c] = [c]"
| "points (c # d # s) =
     (if is_high c \<and> is_low d then (65536 + (c - 55296) * 1024 + (d - 56320)) # points s
      else c # points (d # s))"

definition avatarColor :: "jsstr \<Rightarrow> nat" where
  "avatarColor name = foldl (\<lambda>sum c. (sum + c) mod 9973) 0 (points name) mod 5"

definition feed_initials :: "jsstr \<Rightarrow> jsstr" where
  "feed_initials name =
     (case words (trim name) of
        [] \<Rightarrow> (heb ''l'')
      | [p] \<Rightarrow> take 2 p
      | p # q # ps \<Rightarrow> [hd p, hd q])"

fun STATUS_CHIP :: "lead_status \<Rightarrow> jsstr" where
  "STATUS_CHIP L_new = (heb ''lic gcy'')"
| "STATUS_CHIP L_in_progress = (heb ''azdlij'')"
| "STATUS_CHIP L_abandoned = (heb ''pphy'')"
| "STATUS_CHIP L_deal = (heb ''tpid deylnd'')"
| "STATUS_CHIP L_closed = (heb ''pqbx'')"

definition leadDisplayName :: "lead \<Rightarrow> jsstr" where
  "leadDisplayName l = or_else (lead_contact_name l) (heb ''lic ll@ ym'')"

definition leadTimestamp :: "lead \<Rightarrow> jsstr option" where
  "leadTimestamp l =
     (case lead_submitted_at l of
        Some t \<Rightarrow> Some t
      | None \<Rightarrow> (case lead_last_activity_at l of Some t \<Rightarrow> Some t | None \<Rightarrow> lead_started_at l))"

definition feed_visible :: "lead list \<Rightarrow> lead list" where
  "feed_visible ls = take MAX_ITEMS (filter (\<lambda>l. lead_feed_seen_at l = None) ls)"

definition feed_link :: "lead \<Rightarrow> jsstr option" where
  "feed_link l = map_option (\<lambda>e. (lat ''/leads?highlight='') @ e) (encodeURIComponent (lead_id l))"

datatype home_ui = H_period period | H_seen jsstr | H_all_seen | H_go jsstr

definition feed_item :: "(jsstr \<Rightarrow> jsstr) \<Rightarrow> lead \<Rightarrow> home_ui vnode option" where
  "feed_item relative l =
     (let name = leadDisplayName l; at' = or_else (leadTimestamp l) [] in
      map_option (\<lambda>href.
        El ''li'' []
          [El ''a'' [Attr ''href'' href, on_click (H_go href)]
             ([Txt (feed_initials name), Txt name]
              @ shown (or_else (lead_phone l) [] \<noteq> []) [Txt (or_else (lead_phone l) [])]
              @ shown (lead_name l \<noteq> []) [Txt (lead_name l)]
              @ [Txt (STATUS_CHIP (lead_state l))]),
           El ''span'' []
             (shown (at' \<noteq> []) [Txt (relative at')]
              @ [El ''button'' [on_click (H_seen (lead_id l)), Attr ''aria-label'' ((heb ''qno kpwx@: '') @ name)] []])])
      (feed_link l))"

definition feed_view :: "(jsstr \<Rightarrow> jsstr) \<Rightarrow> lead list \<Rightarrow> home_ui vnode list option" where
  "feed_view relative ls =
     (let visible = feed_visible ls in
      map_option (\<lambda>items.
        [Txt (heb ''dzx@ez'')] @ shown (length visible > 1) [El ''button'' [on_click H_all_seen] [Txt (heb ''qno dkl kpwx@'')]]
        @ (if length visible > 0 then [El ''ul'' [] items] else [Txt (heb ''@io dzx@ez gcyez.'')]))
      (all_rendered (map (feed_item relative) visible)))"

section \<open>DashboardHome.tsx\<close>

datatype alert_kind = Cancelled | Rescheduled

record booking_alert =
  ba_booking_id :: jsstr
  ba_kind :: alert_kind
  ba_at :: "jsstr option"
  ba_client_name :: "jsstr option"
  ba_service_name :: "jsstr option"
  ba_scheduled_at :: "jsstr option"

record home =
  hm_period :: period
  hm_stats :: "dashboard_stats option"
  hm_loading :: bool
  hm_error :: "jsstr option"
  hm_recent :: "lead list"
  hm_waiting :: "conversation list"
  hm_alerts :: "booking_alert list"
  hm_published :: "bool option"
  hm_loader :: loader

definition PERIOD_SEGMENTS :: "(period \<times> jsstr) list" where
  "PERIOD_SEGMENTS = [(All_time, (heb ''dkl'')), (Month, (heb ''dgecy'')), (Week, (heb ''dyaer''))]"

text \<open>The first render, after its effects have started their five loads.\<close>

definition home_mount :: home where
  "home_mount =
     \<lparr>hm_period = Week, hm_stats = None, hm_loading = True, hm_error = None, hm_recent = [],
      hm_waiting = [], hm_alerts = [], hm_published = None, hm_loader = rerun_effect new_loader\<rparr>"

definition loadStats_request :: "home \<Rightarrow> http_request" where
  "loadStats_request s = getDashboard (Some (hm_period s)) None"

definition setPeriod :: "period \<Rightarrow> home \<Rightarrow> home" where
  "setPeriod p s =
     (if p = hm_period s then s
      else s\<lparr>hm_period := p, hm_loading := True, hm_error := None, hm_loader := rerun_effect (hm_loader s)\<rparr>)"

definition stats_settled :: "nat \<Rightarrow> (js_thrown + dashboard_stats) \<Rightarrow> home \<Rightarrow> home" where
  "stats_settled t r s =
     (if \<not> live t (hm_loader s) then s
      else case r of
        Inr res \<Rightarrow> s\<lparr>hm_stats := Some res, hm_loading := False\<rparr>
      | Inl err \<Rightarrow> s\<lparr>hm_error := Some (toFriendlyError err (heb ''hripz dpzepim pkyld. pqe yea.'')), hm_loading := False\<rparr>)"

definition recent_settled :: "(js_thrown + lead list) \<Rightarrow> home \<Rightarrow> home" where
  "recent_settled r s = s\<lparr>hm_recent := (case r of Inr ls \<Rightarrow> ls | Inl err \<Rightarrow> [])\<rparr>"

definition waiting_settled :: "(js_thrown + conversation list) \<Rightarrow> home \<Rightarrow> home" where
  "waiting_settled r s = s\<lparr>hm_waiting := (case r of Inr cs \<Rightarrow> cs | Inl err \<Rightarrow> [])\<rparr>"

definition alerts_settled :: "(js_thrown + booking_alert list) \<Rightarrow> home \<Rightarrow> home" where
  "alerts_settled r s = s\<lparr>hm_alerts := (case r of Inr as' \<Rightarrow> as' | Inl err \<Rightarrow> [])\<rparr>"

definition published_settled :: "(js_thrown + bool) \<Rightarrow> home \<Rightarrow> home" where
  "published_settled r s = s\<lparr>hm_published := (case r of Inr b \<Rightarrow> Some b | Inl err \<Rightarrow> None)\<rparr>"

definition set_seen :: "jsstr option \<Rightarrow> lead \<Rightarrow> lead" where
  "set_seen v l = l\<lparr>lead_feed_seen_at := v\<rparr>"

definition onMarkSeen :: "jsstr \<Rightarrow> jsstr \<Rightarrow> home \<Rightarrow> home \<times> http_request option" where
  "onMarkSeen now i s =
     (s\<lparr>hm_recent := map (\<lambda>l. if lead_id l = i then set_seen (Some now) l else l) (hm_recent s)\<rparr>, markLeadSeen i)"

definition markSeenFailed :: "jsstr \<Rightarrow> home \<Rightarrow> home" where
  "markSeenFailed i s =
     s\<lparr>hm_recent := map (\<lambda>l. if lead_id l = i then set_seen None l else l) (hm_recent s)\<rparr>"

definition onMarkAllSeen :: "jsstr \<Rightarrow> home \<Rightarrow> home \<times> http_request" where
  "onMarkAllSeen now s =
     (s\<lparr>hm_recent := map (\<lambda>l. if lead_feed_seen_at l = None then set_seen (Some now) l else l) (hm_recent s)\<rparr>,
      markAllLeadsSeen)"

text \<open>When it fails the leads are loaded again; when that fails too nothing changes.\<close>

definition markAllFailed_request :: http_request where
  "markAllFailed_request = getLeads (opts_of F_all None)"

definition reload_settled :: "(js_thrown + lead list) \<Rightarrow> home \<Rightarrow> home" where
  "reload_settled r s = (case r of Inr ls \<Rightarrow> s\<lparr>hm_recent := ls\<rparr> | Inl err \<Rightarrow> s)"

definition waiting_link :: "conversation \<Rightarrow> jsstr option" where
  "waiting_link c =
     map_option (\<lambda>e. (lat ''/conversations?status=waiting&conversation='') @ e) (encodeURIComponent (conv_id c))"

definition waiting_item :: "(jsstr \<Rightarrow> jsstr) \<Rightarrow> conversation \<Rightarrow> home_ui vnode option" where
  "waiting_item relative c =
     map_option (\<lambda>href.
       El ''li'' [] [El ''a'' [Attr ''href'' href, on_click (H_go href)]
         ([Txt (heb ''lweg nnzio lpvib''), Txt (or_else (conv_preview c) (conv_id c))]
          @ (let t = or_else (conv_last_activity_at c) [] in shown (t \<noteq> []) [Txt (relative t)]))])
     (waiting_link c)"

fun join_nonempty :: "jsstr list \<Rightarrow> jsstr" where
  "join_nonempty [] = []"
| "join_nonempty (x # xs) =
     (if x = [] then join_nonempty xs
      else if join_nonempty xs = [] then x else x @ ([32, 183, 32]) @ join_nonempty xs)"

definition alert_item :: "(jsstr \<Rightarrow> jsstr) \<Rightarrow> (jsstr \<Rightarrow> jsstr) \<Rightarrow> booking_alert \<Rightarrow> home_ui vnode" where
  "alert_item relative fullDate a =
     El ''li'' [] [El ''a'' [Attr ''href'' (lat ''/appointments''), on_click (H_go (lat ''/appointments''))]
       ([Txt ((if ba_kind a = Cancelled then (heb ''lweg aihl tbiyd'') else (heb ''lweg yipd nerc tbiyd''))
              @ (case or_else (ba_client_name a) [] of [] \<Rightarrow> [] | n \<Rightarrow> ([32, 183, 32]) @ n)),
         Txt (join_nonempty [or_else (ba_service_name a) [],
                (case or_else (ba_scheduled_at a) [] of [] \<Rightarrow> [] | t \<Rightarrow> fullDate t)])]
        @ (let t = or_else (ba_at a) [] in shown (t \<noteq> []) [Txt (relative t)]))]"

definition firstName :: "jsstr \<Rightarrow> jsstr" where
  "firstName s = takeWhile (\<lambda>c. c \<noteq> 32) s"

definition stats_cards :: "dashboard_stats \<Rightarrow> home_ui vnode list" where
  "stats_cards st =
     map (\<lambda>(n, label). El ''div'' [] [Txt (int_str n), Txt label])
       [(st_started st, (heb ''dzgile'')), (st_abandoned st, (heb ''pphye'')), (st_completed st, (heb ''deylne'')), (st_meetings st, (heb ''tbiyez''))]"

definition home_view ::
    "(jsstr \<Rightarrow> jsstr) \<Rightarrow> (jsstr \<Rightarrow> jsstr) \<Rightarrow> jsstr option \<Rightarrow> jsstr option \<Rightarrow> (bool \<Rightarrow> home_ui vnode list) \<Rightarrow> home
     \<Rightarrow> home_ui vnode list option" where
  "home_view relative fullDate user business toggle s =
     (case all_rendered (map (waiting_item relative) (hm_waiting s)) of
        None \<Rightarrow> None
      | Some waits \<Rightarrow>
          map_option (\<lambda>feed.
            [Txt ((heb ''ylem'') @ (case or_else user [] of [] \<Rightarrow> [] | n \<Rightarrow> (lat '', '') @ firstName n) @ (lat '' '' @ [55357, 56395]))]
            @ shown (or_else business [] \<noteq> []) [Txt (or_else business [])]
            @ (case hm_published s of None \<Rightarrow> [] | Some b \<Rightarrow> toggle b)
            @ [segmented_control PERIOD_SEGMENTS (hm_period s) H_period]
            @ (if hm_loading s then [El ''Spinner'' [] []]
               else case hm_error s of
                 Some e \<Rightarrow> [El ''Alert'' [] [Txt e]]
               | None \<Rightarrow> (case hm_stats s of None \<Rightarrow> [] | Some st \<Rightarrow> stats_cards st))
            @ shown (waits \<noteq> []) [Txt (heb ''ngkim lj''), Txt (nat_str (length waits)), El ''ul'' [] waits]
            @ shown (hm_alerts s \<noteq> [])
                [Txt (heb ''rckepi tbiyez''), Txt (nat_str (length (hm_alerts s))),
                 El ''ul'' [] (map (alert_item relative fullDate) (hm_alerts s))]
            @ feed)
          (feed_view relative (hm_recent s)))"

section \<open>UnreadContext.tsx\<close>

text \<open>\<open>ur_mounted\<close> is the ref \<open>mountedRef\<close>: one flag for all requests, not one per effect run.\<close>

record unread =
  ur_authed :: bool
  ur_total :: nat
  ur_mounted :: bool

definition unread_refresh :: "unread \<Rightarrow> http_request option" where
  "unread_refresh s = (if ur_authed s then Some (getConversations None) else None)"

definition unread_settled :: "(js_thrown + nat) \<Rightarrow> unread \<Rightarrow> unread" where
  "unread_settled r s = (case r of Inr n \<Rightarrow> if ur_mounted s then s\<lparr>ur_total := n\<rparr> else s | Inl err \<Rightarrow> s)"

text \<open>The effect: on the first render, and after the clean-up whenever \<open>authed\<close> changes.\<close>

definition unread_effect :: "unread \<Rightarrow> unread" where
  "unread_effect s = (let s1 = s\<lparr>ur_mounted := True\<rparr> in if \<not> ur_authed s then s1\<lparr>ur_total := 0\<rparr> else s1)"

definition unread_mount :: "bool \<Rightarrow> unread" where
  "unread_mount a = unread_effect \<lparr>ur_authed = a, ur_total = 0, ur_mounted = True\<rparr>"

definition authed_changed :: "bool \<Rightarrow> unread \<Rightarrow> unread" where
  "authed_changed a s =
     (if a = ur_authed s then s else unread_effect (s\<lparr>ur_authed := a, ur_mounted := False\<rparr>))"

text \<open>
  Runs: the number of requests in flight, which a refresh (on a timer, by the effect, or by the
  conversations page) raises by one.
\<close>

inductive unread_run :: "unread \<Rightarrow> nat \<Rightarrow> bool" where
  ur_mount: "unread_run (unread_mount a) 0"
| ur_ask: "unread_run s k \<Longrightarrow> unread_refresh s = Some rq \<Longrightarrow> unread_run s (Suc k)"
| ur_answer: "unread_run s (Suc k) \<Longrightarrow> unread_run (unread_settled r s) k"
| ur_authed: "unread_run s k \<Longrightarrow> unread_run (authed_changed a s) k"


section \<open>Lemmas\<close>

lemma avatarColor_bound: "avatarColor name < 5"
  by (simp add: avatarColor_def)

lemma fires_all_rendered:
  "all_rendered (map f xs) = Some vs \<Longrightarrow> fires_any vs e \<longleftrightarrow> (\<exists>x \<in> set xs. \<exists>v. f x = Some v \<and> fires v e)"
  by (induction xs arbitrary: vs) (auto split: option.splits)

lemma all_rendered_each: "all_rendered (map f xs) = Some vs \<Longrightarrow> x \<in> set xs \<Longrightarrow> \<exists>v. f x = Some v"
  by (induction xs arbitrary: vs) (auto split: option.splits)

lemma feed_item_fires:
  "feed_item relative l = Some v \<Longrightarrow> fires v e \<longleftrightarrow> e = H_seen (lead_id l) \<or> (\<exists>u. feed_link l = Some u \<and> e = H_go u)"
  by (auto simp: feed_item_def Let_def)

lemma feed_fires:
  assumes "feed_view relative ls = Some vs"
  shows "fires_any vs e \<longleftrightarrow>
    (\<exists>l \<in> set (feed_visible ls). e = H_seen (lead_id l) \<or> (\<exists>u. feed_link l = Some u \<and> e = H_go u))
    \<or> e = H_all_seen \<and> 1 < length (feed_visible ls)"
proof -
  obtain items where i: "all_rendered (map (feed_item relative) (feed_visible ls)) = Some items"
    and vs: "vs = [Txt (heb ''dzx@ez'')] @ shown (length (feed_visible ls) > 1) [El ''button'' [on_click H_all_seen] [Txt (heb ''qno dkl kpwx@'')]]
        @ (if length (feed_visible ls) > 0 then [El ''ul'' [] items] else [Txt (heb ''@io dzx@ez gcyez.'')])"
    using assms by (auto simp: feed_view_def Let_def)
  have r: "\<exists>v. feed_item relative l = Some v" if "l \<in> set (feed_visible ls)" for l
    using all_rendered_each [OF i that] .
  have "fires_any items e \<longleftrightarrow> (\<exists>l \<in> set (feed_visible ls). e = H_seen (lead_id l) \<or> (\<exists>u. feed_link l = Some u \<and> e = H_go u))"
    unfolding fires_all_rendered [OF i] using r feed_item_fires by blast
  then show ?thesis unfolding vs by (cases "feed_visible ls") auto
qed

lemma set_feed_visible: "l \<in> set (feed_visible ls) \<Longrightarrow> l \<in> set ls \<and> lead_feed_seen_at l = None"
  by (auto simp: feed_visible_def dest: in_set_takeD)

lemma set_seen_simps [simp]:
  "lead_id (set_seen v l) = lead_id l" "lead_feed_seen_at (set_seen v l) = v" "set_seen w (set_seen v l) = set_seen w l"
  by (simp_all add: set_seen_def)

lemma set_seen_same: "lead_feed_seen_at l = v \<Longrightarrow> set_seen v l = l"
  by (auto simp: set_seen_def)

lemma undo_seen:
  assumes "\<forall>x \<in> set ls. lead_id x = i \<longrightarrow> lead_feed_seen_at x = None"
  shows "map (\<lambda>x. if lead_id x = i then set_seen None x else x)
    (map (\<lambda>x. if lead_id x = i then set_seen (Some now) x else x) ls) = ls"
  using assms by (induction ls) (simp_all add: set_seen_same)

lemma filter_map_seen:
  "filter (\<lambda>l. lead_feed_seen_at l = None) (map (\<lambda>l. if P l then set_seen (Some now) l else l) ls)
   = filter (\<lambda>l. lead_feed_seen_at l = None \<and> \<not> P l) ls"
  by (induction ls) auto

lemma form_decode_component:
  assumes "encodeURIComponent s = Some e" "wf_units s"
  shows "form_decode e = s"
proof -
  have "43 \<notin> set e" using encode_safe [OF assms, of 43] by (auto simp: uri_unreserved_def is_alnum_def)
  then have "plus_to_space e = e" by (induction e) (auto simp: plus_to_space_def)
  then have "form_decode e = decodeURIComponent e" by (simp add: form_decode_def decodeURIComponent_def)
  with decode_encode [OF assms] show ?thesis by simp
qed

lemma component_no_sep:
  "encodeURIComponent s = Some e \<Longrightarrow> wf_units s \<Longrightarrow> c \<in> set e \<Longrightarrow> c \<noteq> 38 \<and> c \<noteq> 61"
  using encode_safe [of s e c] by (auto simp: uri_unreserved_def is_alnum_def)

lemma last_param_read:
  assumes "encodeURIComponent s = Some e" "wf_units s" "38 \<notin> set k" "61 \<notin> set k"
    and "p = [] \<or> (\<exists>r. p = r @ [38] \<and> 38 \<notin> set r \<and> form_decode (takeWhile (\<lambda>c. c \<noteq> 61) r) \<noteq> n)"
    and "form_decode k = n" "63 \<notin> set path"
  shows "search_param n (path @ [63] @ p @ k @ [61] @ e) = Some s"
proof -
  have d: "tl (dropWhile (\<lambda>c. c \<noteq> 63) (path @ [63] @ p @ k @ [61] @ e)) = p @ k @ [61] @ e"
    using assms(7) by (auto simp: dropWhile_append)
  have ns: "38 \<notin> set (k @ [61] @ e)" using assms(3) component_no_sep [OF assms(1,2)] by auto
  have "takeWhile (\<lambda>c. c \<noteq> 61) (k @ 61 # e) = k" "dropWhile (\<lambda>c. c \<noteq> 61) (k @ 61 # e) = 61 # e"
    using assms(4) by (simp_all add: takeWhile_tail takeWhile_append dropWhile_append)
  then have pp: "form_parse_pair (k @ [61] @ e) = (n, s)"
    using form_decode_component [OF assms(1,2)] assms(6) by (simp add: form_parse_pair_def)
  have one: "form_parse (k @ [61] @ e) = [(n, s)]" using ns pp by (simp add: form_parse_def split_on_none)
  from assms(5) show ?thesis
  proof
    assume "p = []"
    with d one show ?thesis by (simp add: search_param_def)
  next
    assume "\<exists>r. p = r @ [38] \<and> 38 \<notin> set r \<and> form_decode (takeWhile (\<lambda>c. c \<noteq> 61) r) \<noteq> n"
    then obtain r where r: "p = r @ [38]" "38 \<notin> set r" "form_decode (takeWhile (\<lambda>c. c \<noteq> 61) r) \<noteq> n" by blast
    then have "split_on 38 (r @ 38 # (k @ [61] @ e)) = r # split_on 38 (k @ [61] @ e)" by (intro split_on_append)
    then have "form_parse (p @ k @ [61] @ e) = (if r = [] then [] else [form_parse_pair r]) @ [(n, s)]"
      using one r(1) by (simp add: form_parse_def)
    with d r(3) show ?thesis by (auto simp: search_param_def form_parse_pair_def)
  qed
qed

section \<open>Properties\<close>

text \<open>
  The links of the home page lead where they say: the card of a waiting
  conversation opens the inbox with that row expanded in the tab of waiting conversations, and a
  notification opens the list of all leads with that lead highlighted, whatever characters the
  ids have.
\<close>

theorem deep_links_land:
  assumes "waiting_link c = Some u" "wf_units (conv_id c)" "conv_id c \<noteq> []"
    and "feed_link l = Some v" "wf_units (lead_id l)" "lead_id l \<noteq> []"
  shows "cv_openId (convs_mount (search_param (lat ''conversation'') u)) = Some (conv_id c)
    \<and> cv_filter (convs_mount (search_param (lat ''conversation'') u)) = Some C_waiting
    \<and> lp_highlight (leads_mount (search_param (lat ''highlight'') v)) = Some (lead_id l)
    \<and> lp_status (leads_mount (search_param (lat ''highlight'') v)) = F_all"
proof -
  obtain e where e: "encodeURIComponent (conv_id c) = Some e" "u = (lat ''/conversations?status=waiting&conversation='') @ e"
    using assms(1) by (auto simp: waiting_link_def)
  obtain f where f: "encodeURIComponent (lead_id l) = Some f" "v = (lat ''/leads?highlight='') @ f"
    using assms(4) by (auto simp: feed_link_def)
  have "search_param (lat ''conversation'') ((lat ''/conversations'') @ [63] @ ((lat ''status=waiting'') @ [38]) @ (lat ''conversation'') @ [61] @ e) = Some (conv_id c)"
    by (rule last_param_read [OF e(1) assms(2)]) (simp_all add: js_lit form_decode_def plus_to_space_def utf16_def)
  moreover have "search_param (lat ''highlight'') ((lat ''/leads'') @ [63] @ [] @ (lat ''highlight'') @ [61] @ f) = Some (lead_id l)"
    by (rule last_param_read [OF f(1) assms(5)]) (simp_all add: js_lit form_decode_def plus_to_space_def utf16_def)
  ultimately show ?thesis
    using e(2) f(2) assms(3,6) by (simp add: js_lit convs_mount_def convs_load_def leads_mount_def leads_load_def or_else_def)
qed

theorem deep_links_land_witness:
  "\<exists>u. waiting_link (demo_conv 97 C_waiting) = Some u
     \<and> cv_openId (convs_mount (search_param (lat ''conversation'') u)) = Some [97]"
proof -
  have e: "encodeURIComponent [97] = Some [97]" "encodeURIComponent [49] = Some [49]"
    by (simp_all add: encodeURIComponent_def is_high_def is_low_def utf8_def enc_byte_def uri_unreserved_def is_alnum_def)
  then have "waiting_link (demo_conv 97 C_waiting) = Some ((lat ''/conversations?status=waiting&conversation='') @ [97])"
    by (simp add: waiting_link_def demo_conv_def)
  moreover have "feed_link plain_lead = Some ((lat ''/leads?highlight='') @ [49])" using e by (simp add: feed_link_def plain_lead_def)
  ultimately show ?thesis
    using deep_links_land [of "demo_conv 97 C_waiting" _ plain_lead]
    by (simp add: demo_conv_def wf_units_def plain_lead_def)
qed

text \<open>
  Dismissing notifications: the feed shows at most eight leads, none of them
  dismissed; a dismissed one disappears at once and the others stay in their order; when the server
  refuses, the page is exactly as before; dismissing all leaves an empty feed.
\<close>

theorem feed_dismissal:
  assumes "feed_view relative (hm_recent s) = Some vs" "fires_any vs (H_seen i)" "distinct (map lead_id (hm_recent s))"
  shows "length (feed_visible (hm_recent s)) \<le> 8
    \<and> feed_visible (hm_recent (fst (onMarkSeen now i s)))
        = take 8 (filter (\<lambda>l. lead_feed_seen_at l = None \<and> lead_id l \<noteq> i) (hm_recent s))
    \<and> markSeenFailed i (fst (onMarkSeen now i s)) = s
    \<and> feed_visible (hm_recent (fst (onMarkAllSeen now s))) = []"
proof -
  obtain l where l: "l \<in> set (hm_recent s)" "lead_feed_seen_at l = None" "lead_id l = i"
    using assms(2) feed_fires [OF assms(1)] set_feed_visible by fastforce
  have "map (\<lambda>x. if lead_id x = i then set_seen None x else x)
      (map (\<lambda>x. if lead_id x = i then set_seen (Some now) x else x) (hm_recent s)) = hm_recent s"
  proof (rule undo_seen, intro ballI impI)
    fix x assume "x \<in> set (hm_recent s)" "lead_id x = i"
    with assms(3) l have "x = l" by (simp add: distinct_map inj_on_def)
    with l(2) show "lead_feed_seen_at x = None" by simp
  qed
  moreover have "filter (\<lambda>x. lead_feed_seen_at x = None) (map (\<lambda>x. if lead_feed_seen_at x = None then set_seen (Some now) x else x) (hm_recent s)) = []"
    by (simp only: filter_map_seen) (auto simp: filter_empty_conv)
  ultimately show ?thesis
    by (simp add: feed_visible_def MAX_ITEMS_def onMarkSeen_def onMarkAllSeen_def markSeenFailed_def filter_map_seen conj_commute)
qed

theorem feed_dismissal_witness:
  "markSeenFailed [49] (fst (onMarkSeen [50] [49] (recent_settled (Inr [plain_lead]) home_mount)))
     = recent_settled (Inr [plain_lead]) home_mount"
proof -
  let ?s = "recent_settled (Inr [plain_lead]) home_mount"
  have r: "hm_recent ?s = [plain_lead]" by (simp add: recent_settled_def)
  have vis: "feed_visible (hm_recent ?s) = [plain_lead]"
    by (simp only: r) (simp add: feed_visible_def MAX_ITEMS_def plain_lead_def)
  have "encodeURIComponent [49] = Some [49]"
    by (simp add: encodeURIComponent_def is_high_def is_low_def utf8_def enc_byte_def uri_unreserved_def is_alnum_def)
  then have "\<exists>vs. feed_view (\<lambda>x. x) [plain_lead] = Some vs"
    by (simp add: feed_view_def feed_visible_def MAX_ITEMS_def feed_item_def feed_link_def plain_lead_def Let_def)
  then obtain vs where vs: "feed_view (\<lambda>x. x) (hm_recent ?s) = Some vs" using r by auto
  moreover have "fires_any vs (H_seen [49])"
    using feed_fires [OF vs, of "H_seen [49]"] by (simp only: vis) (simp add: plain_lead_def)
  ultimately show ?thesis using feed_dismissal [of "\<lambda>x. x" ?s vs "[49]" "[50]"] r by simp
qed

text \<open>
  Two dismissals can undo each other: when one lead's dismissal fails after all were dismissed,
  the lead is shown as new again although the server has it as seen.
\<close>

lemma failed_dismissal_undoes_all:
  "\<exists>s. feed_visible (hm_recent (markSeenFailed [49] (fst (onMarkAllSeen now (fst (onMarkSeen now [49] s)))))) \<noteq> []"
  by (rule exI [of _ "recent_settled (Inr [plain_lead]) home_mount"])
    (simp add: recent_settled_def onMarkSeen_def onMarkAllSeen_def markSeenFailed_def feed_visible_def MAX_ITEMS_def plain_lead_def)

text \<open>
  The count of unread messages outlives the session it belongs to: the flag that
  guards late answers is one for all requests and the effect sets it again at once, so the answer to a request
  made before the owner logged out is shown after it.
\<close>

theorem stale_badge_after_logout:
  "\<exists>s. unread_run s 0 \<and> \<not> ur_authed s \<and> unread_refresh s = None \<and> ur_total s = 7"
proof -
  let ?s0 = "unread_mount True"
  let ?s1 = "authed_changed False ?s0"
  note defs = unread_mount_def unread_effect_def authed_changed_def unread_settled_def unread_refresh_def Let_def
  have "unread_run ?s0 1" using ur_ask [OF ur_mount, of True] by (simp add: defs)
  then have "unread_run ?s1 (Suc 0)" using ur_authed [of ?s0 1 False] by simp
  then have "unread_run (unread_settled (Inr 7) ?s1) 0" by (rule ur_answer)
  moreover have "\<not> ur_authed (unread_settled (Inr 7) ?s1)" "ur_total (unread_settled (Inr 7) ?s1) = 7"
    by (simp_all add: defs)
  ultimately show ?thesis by (intro exI [of _ "unread_settled (Inr 7) ?s1"]) (simp add: unread_refresh_def)
qed

end
