(* ===== verification/WhatsApp.thy ===== *)
theory WhatsApp
  imports Clients ClientLaws LeadSearch
begin

text \<open>
  The page that connects WhatsApp (\<open>pages/WhatsAppPage.tsx\<close>) with its cards
  (\<open>components/whatsapp/\<close>) and \<open>lib/waLink.ts\<close>. No request of the page is ever cancelled, so every answer
  is applied whenever it arrives; a run keeps the requests in flight. The counter \<open>rowSeq\<close> of the
  module is part of the state.
\<close>

section \<open>Digits\<close>

text \<open>\<open>raw.replace(/\D/g, '')\<close>.\<close>

definition digitsOnly :: "jsstr \<Rightarrow> jsstr" where
  "digitsOnly raw = filter is_digit raw"

definition formatPhone :: "jsstr \<Rightarrow> jsstr" where
  "formatPhone phone = (let digits = digitsOnly phone in if digits = [] then phone else [43] @ digits)"

definition waLink :: "jsstr option \<Rightarrow> jsstr option" where
  "waLink phone =
     (if or_else phone [] = [] then None
      else
        (let digits = digitsOnly (or_else phone []) in
         if digits = [] then None
         else Some ((lat ''https://wa.me/'') @ (if starts_with digits [48] then (lat ''972'') @ drop 1 digits else digits))))"

lemma digitsOnly_simps [simp]: "digitsOnly [] = []" "digitsOnly (digitsOnly s) = digitsOnly s"
  by (simp_all add: digitsOnly_def)

text \<open>A chat link, when there is one, is one path segment of digits that does not start with a zero.\<close>

lemma waLink_digits:
  "waLink p = Some u \<Longrightarrow> \<exists>d. u = (lat ''https://wa.me/'') @ d \<and> d \<noteq> [] \<and> hd d \<noteq> 48 \<and> (\<forall>c \<in> set d. is_digit c)"
proof -
  assume "waLink p = Some u"
  then obtain ds where ds: "ds = digitsOnly (or_else p [])" "ds \<noteq> []"
    and u: "u = (lat ''https://wa.me/'') @ (if starts_with ds [48] then (lat ''972'') @ drop 1 ds else ds)"
    by (auto simp: waLink_def Let_def split: if_splits)
  have dig: "\<forall>c \<in> set ds. is_digit c" by (simp add: ds(1) digitsOnly_def)
  show ?thesis
  proof (cases "starts_with ds [48]")
    case True
    with u dig show ?thesis by (auto simp: js_lit is_digit_def dest: in_set_dropD)
  next
    case False
    with ds(2) have "hd ds \<noteq> 48" by (cases ds) (simp_all add: starts_with_def)
    with u dig ds(2) False show ?thesis by auto
  qed
qed

section \<open>The page\<close>

record wa_page =
  wp_status :: "whatsapp_status option"
  wp_qr :: "whatsapp_qr option"
  wp_loading :: bool
  wp_error :: "jsstr option"
  wp_linking :: bool
  wp_linkError :: "jsstr option"

definition wa_init :: wa_page where
  "wa_init = \<lparr>wp_status = None, wp_qr = None, wp_loading = True, wp_error = None, wp_linking = False, wp_linkError = None\<rparr>"

text \<open>A request in flight: a read of the status, a read of the code for a status or link, a link.\<close>

datatype wa_call = Read_status bool | Read_qr "bool option" | Link_call

definition refreshStatus :: "bool \<Rightarrow> wa_page \<Rightarrow> wa_page \<times> wa_call list" where
  "refreshStatus silent s =
     ((if silent then s else s\<lparr>wp_loading := True, wp_error := None\<rparr>), [Read_status silent])"

text \<open>The \<open>finally\<close> of a status read (\<open>Some silent\<close>) or of a link (\<open>None\<close>).\<close>

definition wa_finally :: "bool option \<Rightarrow> wa_page \<Rightarrow> wa_page" where
  "wa_finally origin s =
     (case origin of
        Some silent \<Rightarrow> if silent then s else s\<lparr>wp_loading := False\<rparr>
      | None \<Rightarrow> s\<lparr>wp_linking := False\<rparr>)"

definition refreshQr :: "bool option \<Rightarrow> whatsapp_status \<Rightarrow> wa_page \<Rightarrow> wa_page \<times> wa_call list" where
  "refreshQr origin current s =
     (if wa_connected current then (wa_finally origin (s\<lparr>wp_qr := None\<rparr>), [])
      else (s, [Read_qr origin]))"

definition status_answered :: "bool \<Rightarrow> (js_thrown + whatsapp_status) \<Rightarrow> wa_page \<Rightarrow> wa_page \<times> wa_call list" where
  "status_answered silent r s =
     (case r of
        Inr nxt \<Rightarrow>
          (let s1 = s\<lparr>wp_status := Some nxt\<rparr>; s2 = (if silent then s1 else s1\<lparr>wp_error := None\<rparr>)
           in refreshQr (Some silent) nxt s2)
      | Inl err \<Rightarrow>
          (wa_finally (Some silent)
             (if silent then s else s\<lparr>wp_error := Some (toFriendlyError err (heb ''hripz nva dgiaex pkyld. pqe yea.''))\<rparr>), []))"

definition qr_answered :: "bool option \<Rightarrow> (js_thrown + whatsapp_qr) \<Rightarrow> wa_page \<Rightarrow> wa_page" where
  "qr_answered origin r s =
     wa_finally origin (s\<lparr>wp_qr := (case r of Inr q \<Rightarrow> Some q | Inl err \<Rightarrow> None)\<rparr>)"

definition handleLink :: "wa_page \<Rightarrow> wa_page \<times> wa_call list" where
  "handleLink s = (if wp_linking s then (s, []) else (s\<lparr>wp_linking := True, wp_linkError := None\<rparr>, [Link_call]))"

definition link_answered :: "(js_thrown + whatsapp_status) \<Rightarrow> wa_page \<Rightarrow> wa_page \<times> wa_call list" where
  "link_answered r s =
     (case r of
        Inr nxt \<Rightarrow> refreshQr None nxt (s\<lparr>wp_status := Some nxt\<rparr>)
      | Inl err \<Rightarrow>
          (wa_finally None (s\<lparr>wp_linkError := Some (toFriendlyError err (heb ''ynixz dgiaex pkyld. pqe yea.''))\<rparr>), []))"

fun wa_call_request :: "wa_call \<Rightarrow> http_request" where
  "wa_call_request (Read_status silent) = getStatus"
| "wa_call_request (Read_qr origin) = getQr"
| "wa_call_request Link_call = link"

section \<open>Its view\<close>

datatype wa_ui = Y_refresh | Y_start

definition connected_view :: "jsstr option \<Rightarrow> 'e vnode list" where
  "connected_view phone =
     [Txt (heb ''ngeax'')]
     @ shown (or_else phone [] \<noteq> []) [Txt ((heb ''dnqtx dngeax: '') @ formatPhone (or_else phone []))]
     @ [Txt (heb ''dee@hq@t yl drqw ngeax. daeh iwal decrez eirpd @ehenhiz '' @ [8212] @ heb '' azp@i ydaeh ntexqm.'')]"

definition qr_url :: "whatsapp_qr option \<Rightarrow> jsstr" where
  "qr_url q = (case q of None \<Rightarrow> [] | Some x \<Rightarrow> or_else (qr_data_url x) [])"

definition connect_view :: "whatsapp_qr option \<Rightarrow> bool \<Rightarrow> bool \<Rightarrow> 'e \<Rightarrow> 'e vnode list" where
  "connect_view q linked starting onStart =
     [Txt (heb ''l@ ngeax''),
      (if qr_url q \<noteq> [] then El ''img'' [Attr ''src'' (qr_url q), Attr ''alt'' (heb ''wec QR lgiaex dee@hq@t. qxwe @eze ndhlteo kci lgax @z dgyaeo.'')] []
       else if linked then El ''status'' [] [Txt ((heb ''nkipim @z dgiaex'' @ [8230])), Txt (heb ''wec QR ietir k@o arec xbr.'')]
       else El ''status'' [] [Txt (heb ''lgve '' @ [34] @ heb ''dzgax'' @ [34] @ heb '' kci livex wec QR lqxiwd.'')]),
      El ''ol'' [] [Txt (heb ''1. tzge @z W'' @ lat ''hatsApp '' @ heb ''ahlteo.''), Txt (heb ''2. dikpqe ldbcxez '' @ [8592] @ heb '' nkyixim nweyxim.''),
        Txt (heb ''3. dwiye '' @ [34] @ heb ''wiyex nkyix'' @ [34] @ heb '' eqxwe @z dwec ynetir k@o.'')]]
     @ shown (\<not> linked) [El ''button'' [Disabled starting, on_click onStart] [Txt (if starting then (heb ''nzgax'' @ [8230]) else (heb ''dzgax''))]]"

definition is_connected :: "wa_page \<Rightarrow> bool" where
  "is_connected s = (case wp_status s of None \<Rightarrow> False | Some st \<Rightarrow> wa_connected st)"

definition is_linked :: "wa_page \<Rightarrow> bool" where
  "is_linked s = (case wp_status s of None \<Rightarrow> False | Some st \<Rightarrow> wa_linked st)"

definition status_card :: "wa_page \<Rightarrow> wa_ui vnode list" where
  "status_card s =
     (if wp_loading s \<and> wp_status s = None then [El ''Spinner'' [] [Txt (heb ''hero nva giaex'' @ [8230])]]
      else if or_else (wp_error s) [] \<noteq> [] then [El ''Alert'' [] [Txt (or_else (wp_error s) [])]]
      else if is_connected s then connected_view (case wp_status s of None \<Rightarrow> None | Some st \<Rightarrow> wa_phone st)
      else connect_view (wp_qr s) (is_linked s) (wp_linking s) Y_start)"

definition test_mode_card :: "'e vnode list" where
  "test_mode_card =
     [Txt (heb ''@ij aecwim?''), Txt (heb ''kci lacew: txqne @z daeh (aaepd daeh), e@f ylge lrvnkm decrd aee@hq@t '' @ [8212] @ heb '' daeh irpd.''),
      El ''a'' [Attr ''href'' (lat ''/bot-builder'')] [Txt (heb ''laepd daeh eltxqem'')]]"

definition wa_view :: "wa_page \<Rightarrow> wa_ui vnode list" where
  "wa_view s =
     [Txt (heb ''ee@hq@t''), El ''button'' [Disabled (wp_loading s), on_click Y_refresh] [Txt (heb ''xrpeo'')],
      Txt (heb ''gaxe @z gyaeo dee@hq@t yl drqw kci ydaeh iekl lwal decrez elrpez llwegez ylkm.'')]
     @ shown ((case wp_status s of None \<Rightarrow> None | Some st \<Rightarrow> wa_error st) = Some (lat ''phone_conflict''))
         [El ''Alert'' [] [Txt (heb ''dnqtx yqxwzm kax ngeax lrqw @gx anrxkz, elko dgiaex pcgd. kl nqtx ee@hq@t ikel ldiez ngeax lrqw @gc alac '' @ [8212] @ heb '' qxwe @z dwec rm nqtx @gx.'')]]
     @ status_card s
     @ shown (or_else (wp_linkError s) [] \<noteq> []) [El ''Alert'' [] [Txt (or_else (wp_linkError s) [])]]
     @ test_mode_card"

text \<open>Runs: the page and its requests in flight, answered in any order.\<close>

inductive wa_run :: "wa_page \<Rightarrow> wa_call list \<Rightarrow> bool" where
  wa_mount: "refreshStatus False wa_init = (s, cs) \<Longrightarrow> wa_run s cs"
| wa_poll: "wa_run s cs \<Longrightarrow> refreshStatus True s = (s', cs') \<Longrightarrow> wa_run s' (cs @ cs')"
| wa_click_refresh: "wa_run s cs \<Longrightarrow> fires_any (wa_view s) Y_refresh \<Longrightarrow> refreshStatus False s = (s', cs') \<Longrightarrow> wa_run s' (cs @ cs')"
| wa_click_start: "wa_run s cs \<Longrightarrow> fires_any (wa_view s) Y_start \<Longrightarrow> handleLink s = (s', cs') \<Longrightarrow> wa_run s' (cs @ cs')"
| wa_status: "wa_run s cs \<Longrightarrow> i < length cs \<Longrightarrow> cs ! i = Read_status silent \<Longrightarrow> status_answered silent r s = (s', cs') \<Longrightarrow>
    wa_run s' (drop_index i cs @ cs')"
| wa_qr: "wa_run s cs \<Longrightarrow> i < length cs \<Longrightarrow> cs ! i = Read_qr origin \<Longrightarrow> wa_run (qr_answered origin r s) (drop_index i cs)"
| wa_link: "wa_run s cs \<Longrightarrow> i < length cs \<Longrightarrow> cs ! i = Link_call \<Longrightarrow> link_answered r s = (s', cs') \<Longrightarrow>
    wa_run s' (drop_index i cs @ cs')"


section \<open>TestNumbersCard.tsx\<close>

definition MAX_TEST_NUMBERS :: nat where "MAX_TEST_NUMBERS = 5"

record number_row =
  row_key :: nat
  row_phone :: jsstr
  row_label :: jsstr

record numbers_card =
  nc_rows :: "number_row list"
  nc_rowSeq :: nat
  nc_loading :: bool
  nc_loadError :: "jsstr option"
  nc_saving :: bool
  nc_saveError :: "jsstr option"
  nc_saved :: bool
  nc_validationError :: "jsstr option"

definition makeRow :: "nat \<Rightarrow> test_number \<Rightarrow> number_row" where
  "makeRow seq v = \<lparr>row_key = seq + 1, row_phone = tn_phone v, row_label = or_else (tn_label v) []\<rparr>"

definition blank_number :: test_number where
  "blank_number = \<lparr>tn_phone = [], tn_label = None\<rparr>"

text \<open>Rows are replaced as a whole: by the loaded numbers, or one blank row when there are none.\<close>

definition set_rows :: "test_number list \<Rightarrow> numbers_card \<Rightarrow> numbers_card" where
  "set_rows ns s =
     (let vs = (if length ns > 0 then ns else [blank_number]) in
      s\<lparr>nc_rows := mapi (\<lambda>i v. makeRow (nc_rowSeq s + i) v) vs, nc_rowSeq := nc_rowSeq s + length vs\<rparr>)"

definition numbers_init :: "nat \<Rightarrow> numbers_card" where
  "numbers_init seq =
     \<lparr>nc_rows = [], nc_rowSeq = seq, nc_loading = True, nc_loadError = None, nc_saving = False,
      nc_saveError = None, nc_saved = False, nc_validationError = None\<rparr>"

definition numbers_loaded :: "(js_thrown + test_number list) \<Rightarrow> numbers_card \<Rightarrow> numbers_card" where
  "numbers_loaded r s =
     (case r of
        Inr ns \<Rightarrow> set_rows ns s
      | Inl err \<Rightarrow> s\<lparr>nc_loadError := Some (toFriendlyError err (heb ''hripz nqtxi daciwd pkyld. pqe yea.''))\<rparr>)
     \<lparr>nc_loading := False\<rparr>"

definition patchRow :: "nat \<Rightarrow> (number_row \<Rightarrow> number_row) \<Rightarrow> numbers_card \<Rightarrow> numbers_card" where
  "patchRow k patch s =
     s\<lparr>nc_rows := map (\<lambda>r. if row_key r = k then patch r else r) (nc_rows s), nc_saved := False, nc_validationError := None\<rparr>"

definition addRow :: "numbers_card \<Rightarrow> numbers_card" where
  "addRow s =
     (if length (nc_rows s) \<ge> MAX_TEST_NUMBERS then s\<lparr>nc_validationError := Some (heb ''@tyx ldeqis rc 5 nqtxim.'')\<rparr>
      else s\<lparr>nc_rows := nc_rows s @ [makeRow (nc_rowSeq s) blank_number], nc_rowSeq := nc_rowSeq s + 1,
             nc_saved := False, nc_validationError := None\<rparr>)"

definition removeRow :: "nat \<Rightarrow> numbers_card \<Rightarrow> numbers_card" where
  "removeRow k s =
     (let nxt = filter (\<lambda>r. row_key r \<noteq> k) (nc_rows s) in
      (if length nxt > 0 then s\<lparr>nc_rows := nxt\<rparr>
       else s\<lparr>nc_rows := [makeRow (nc_rowSeq s) blank_number], nc_rowSeq := nc_rowSeq s + 1\<rparr>)
      \<lparr>nc_saved := False, nc_validationError := None\<rparr>)"

definition row_filled :: "number_row \<Rightarrow> bool" where
  "row_filled r \<longleftrightarrow> trim (row_phone r) \<noteq> [] \<or> trim (row_label r) \<noteq> []"

definition row_item :: "number_row \<Rightarrow> test_number" where
  "row_item r =
     \<lparr>tn_phone = digitsOnly (row_phone r), tn_label = (if trim (row_label r) = [] then None else Some (trim (row_label r)))\<rparr>"

definition onSave :: "numbers_card \<Rightarrow> numbers_card \<times> http_request option" where
  "onSave s =
     (if nc_saving s then (s, None)
      else
        (let s1 = s\<lparr>nc_validationError := None, nc_saveError := None, nc_saved := False\<rparr>;
             filled = filter row_filled (nc_rows s)
         in if length filled > MAX_TEST_NUMBERS then (s1\<lparr>nc_validationError := Some (heb ''@tyx lynex rc 5 nqtxim.'')\<rparr>, None)
            else if list_ex (\<lambda>r. digitsOnly (row_phone r) = []) filled then
              (s1\<lparr>nc_validationError := Some (heb ''nqtx l@ zwio. dfipe qtxez alac, atexnh aipl@eni (lnyl 972501234567).'')\<rparr>, None)
            else (s1\<lparr>nc_saving := True\<rparr>, Some (setTestNumbers (map row_item filled)))))"

definition save_answered :: "(js_thrown + test_number list) \<Rightarrow> numbers_card \<Rightarrow> numbers_card" where
  "save_answered r s =
     (case r of
        Inr ns \<Rightarrow> (set_rows ns s)\<lparr>nc_saved := True\<rparr>
      | Inl err \<Rightarrow> s\<lparr>nc_saveError := Some (toFriendlyError err (heb ''ynixz nqtxi daciwd pkyld. pqe yea.''))\<rparr>)
     \<lparr>nc_saving := False\<rparr>"

datatype numbers_ui = N_phone nat jsstr | N_label nat jsstr | N_remove nat | N_add | N_save

definition row_fields :: "nat \<Rightarrow> number_row \<Rightarrow> numbers_ui vnode" where
  "row_fields i r =
     El ''li'' []
       [field_view ((heb ''nqtx '') @ nat_str (i + 1)) (row_phone r) (N_phone (row_key r)),
        field_view (heb ''ym (l@ gead)'') (row_label r) (N_label (row_key r)),
        El ''button'' [on_click (N_remove (row_key r)), Attr ''aria-label'' ((heb ''dqxz nqtx '') @ nat_str (i + 1))] [Txt (heb ''dqxd'')]]"

definition numbers_view :: "numbers_card \<Rightarrow> numbers_ui vnode list" where
  "numbers_view s =
     (let atCap = (length (nc_rows s) \<ge> MAX_TEST_NUMBERS) in
      [Txt (heb ''nqtxim laciwd (rc 5)''),
       Txt (heb ''xw dnqtxim d@ld (edv'' @ [1523] @ heb ''@h rm rvnkm) iwale zyeaez ndaeh '' @ [8212] @ heb '' ef@z xw kydaeh ntexqm. kl nqtx @gx iwal nrpd ywh (l@ ziylg zyead).'')]
      @ (if nc_loading s then [El ''Spinner'' [] [Txt (heb ''hero nqtxi aciwd'' @ [8230])]]
         else if or_else (nc_loadError s) [] \<noteq> [] then [El ''Alert'' [] [Txt (or_else (nc_loadError s) [])]]
         else
           [El ''ul'' [] (mapi row_fields (nc_rows s)),
            El ''button'' [Disabled atCap, on_click N_add] [Txt (heb ''deqtz nqtx'')],
            El ''button'' [Disabled (nc_saving s), on_click N_save] [Txt (if nc_saving s then (heb ''yenx'' @ [8230]) else (heb ''ynixd''))]]
           @ shown atCap [Txt (heb ''dbrzm lnwqinem yl 5 nqtxim.'')]
           @ (if or_else (nc_validationError s) [] \<noteq> [] then [El ''Alert'' [] [Txt (or_else (nc_validationError s) [])]]
              else if or_else (nc_saveError s) [] \<noteq> [] then [El ''Alert'' [] [Txt (or_else (nc_saveError s) [])]]
              else shown (nc_saved s) [El ''Alert'' [] [Txt (heb ''dnqtxim pynxe.'')]])))"

fun on_numbers :: "numbers_ui \<Rightarrow> numbers_card \<Rightarrow> numbers_card \<times> http_request option" where
  "on_numbers (N_phone k v) s = (patchRow k (\<lambda>r. r\<lparr>row_phone := v\<rparr>) s, None)"
| "on_numbers (N_label k v) s = (patchRow k (\<lambda>r. r\<lparr>row_label := v\<rparr>) s, None)"
| "on_numbers (N_remove k) s = (removeRow k s, None)"
| "on_numbers N_add s = (addRow s, None)"
| "on_numbers N_save s = onSave s"

text \<open>Runs: whether the load and a save are in flight, and every save sent so far.\<close>

inductive numbers_run :: "numbers_card \<Rightarrow> bool \<Rightarrow> bool \<Rightarrow> http_request list \<Rightarrow> bool" where
  nr_mount: "numbers_run (numbers_init seq) True False []"
| nr_loaded: "numbers_run s True sv rqs \<Longrightarrow> numbers_run (numbers_loaded r s) False sv rqs"
| nr_event: "numbers_run s ld sv rqs \<Longrightarrow> fires_any (numbers_view s) e \<Longrightarrow> on_numbers e s = (s', None) \<Longrightarrow>
    numbers_run s' ld sv rqs"
| nr_save: "numbers_run s ld sv rqs \<Longrightarrow> fires_any (numbers_view s) e \<Longrightarrow> on_numbers e s = (s', Some rq) \<Longrightarrow>
    numbers_run s' ld True (rqs @ [rq])"
| nr_saved: "numbers_run s ld True rqs \<Longrightarrow> numbers_run (save_answered r s) ld False rqs"


section \<open>Lemmas\<close>

definition link_calls :: "wa_call list \<Rightarrow> nat" where
  "link_calls cs = length (filter (\<lambda>c. c = Link_call \<or> c = Read_qr None) cs)"

definition load_calls :: "wa_call list \<Rightarrow> nat" where
  "load_calls cs = length (filter (\<lambda>c. c = Read_status False \<or> c = Read_qr (Some False)) cs)"

lemma calls_simps [simp]:
  "link_calls [] = 0" "load_calls [] = 0"
  "link_calls (c # cs) = (if c = Link_call \<or> c = Read_qr None then 1 else 0) + link_calls cs"
  "load_calls (c # cs) = (if c = Read_status False \<or> c = Read_qr (Some False) then 1 else 0) + load_calls cs"
  "link_calls (cs @ ds) = link_calls cs + link_calls ds" "load_calls (cs @ ds) = load_calls cs + load_calls ds"
  by (simp_all add: link_calls_def load_calls_def)

lemma calls_drop:
  assumes "i < length cs"
  shows "link_calls cs = link_calls [cs ! i] + link_calls (drop_index i cs)"
    "load_calls cs = load_calls [cs ! i] + load_calls (drop_index i cs)"
proof -
  have "cs = take i cs @ cs ! i # drop (Suc i) cs" using assms by (simp add: id_take_nth_drop [symmetric])
  then have "link_calls cs = link_calls (take i cs @ [cs ! i] @ drop (Suc i) cs)"
    "load_calls cs = load_calls (take i cs @ [cs ! i] @ drop (Suc i) cs)" by simp_all
  then show "link_calls cs = link_calls [cs ! i] + link_calls (drop_index i cs)"
    "load_calls cs = load_calls [cs ! i] + load_calls (drop_index i cs)"
    unfolding drop_index_def by simp_all
qed

definition wa_ok :: "wa_page \<Rightarrow> wa_call list \<Rightarrow> bool" where
  "wa_ok s cs \<longleftrightarrow> link_calls cs = of_bool (wp_linking s) \<and> load_calls cs = of_bool (wp_loading s)"

lemma wa_offers:
  "fires_any (wa_view s) Y_refresh \<longleftrightarrow> \<not> wp_loading s"
  "fires_any (wa_view s) Y_start \<Longrightarrow> \<not> wp_linking s \<and> \<not> is_connected s \<and> \<not> is_linked s"
  by (auto simp: wa_view_def status_card_def connect_view_def connected_view_def test_mode_card_def split: if_splits)

lemma wa_run_ok: "wa_run s cs \<Longrightarrow> wa_ok s cs"
proof (induction rule: wa_run.induct)
  case (wa_mount s cs)
  then show ?case by (auto simp: wa_ok_def refreshStatus_def wa_init_def)
next
  case (wa_poll s cs s' cs')
  then show ?case by (auto simp: wa_ok_def refreshStatus_def)
next
  case (wa_click_refresh s cs s' cs')
  then show ?case by (auto simp: wa_ok_def refreshStatus_def wa_offers)
next
  case (wa_click_start s cs s' cs')
  then show ?case by (auto simp: wa_ok_def handleLink_def split: if_splits)
next
  case (wa_status s cs i silent r s' cs')
  with calls_drop [OF wa_status(2)] show ?case
    by (cases r; cases "wp_loading s") (auto simp: wa_ok_def status_answered_def refreshQr_def wa_finally_def Let_def split: if_splits)
next
  case (wa_qr s cs i origin r)
  with calls_drop [OF wa_qr(2)] show ?case
    by (cases origin; cases "wp_loading s"; cases "wp_linking s") (auto simp: wa_ok_def qr_answered_def wa_finally_def split: if_splits)
next
  case (wa_link s cs i r s' cs')
  with calls_drop [OF wa_link(2)] show ?case
    by (cases r; cases "wp_linking s") (auto simp: wa_ok_def link_answered_def refreshQr_def wa_finally_def split: if_splits)
qed

lemma list_ex_no_digit: "list_ex (\<lambda>r. digitsOnly (row_phone r) = []) rs \<longleftrightarrow> (\<exists>r \<in> set rs. digitsOnly (row_phone r) = [])"
  by (simp add: list_ex_iff)

definition number_ok :: "test_number \<Rightarrow> bool" where
  "number_ok n \<longleftrightarrow> tn_phone n \<noteq> [] \<and> (\<forall>c \<in> set (tn_phone n). is_digit c)
     \<and> (\<forall>l. tn_label n = Some l \<longrightarrow> l \<noteq> [] \<and> trim l = l)"

lemma row_item_ok: "digitsOnly (row_phone r) \<noteq> [] \<Longrightarrow> number_ok (row_item r)"
  by (auto simp: number_ok_def row_item_def digitsOnly_def trim_idem)

lemma onSave_Some:
  assumes "onSave s = (s', Some rq)"
  shows "\<exists>ns. rq = setTestNumbers ns \<and> length ns \<le> MAX_TEST_NUMBERS \<and> (\<forall>n \<in> set ns. number_ok n)
    \<and> \<not> nc_saving s \<and> nc_saving s' \<and> nc_rows s' = nc_rows s \<and> nc_rowSeq s' = nc_rowSeq s"
  using assms
  by (intro exI [of _ "map row_item (filter row_filled (nc_rows s))"])
    (auto simp: onSave_def Let_def list_ex_no_digit row_item_ok split: if_splits)

definition keys_ok :: "numbers_card \<Rightarrow> bool" where
  "keys_ok s \<longleftrightarrow> distinct (map row_key (nc_rows s)) \<and> (\<forall>r \<in> set (nc_rows s). row_key r \<le> nc_rowSeq s)"

lemma keys_ok_cong: "nc_rows t = nc_rows s \<Longrightarrow> nc_rowSeq t = nc_rowSeq s \<Longrightarrow> keys_ok t = keys_ok s"
  by (simp add: keys_ok_def)

lemma keys_ok_set_rows: "keys_ok (set_rows ns s)"
proof -
  have "map row_key (mapi (\<lambda>i v. makeRow (n + i) v) vs) = map (\<lambda>i. n + i + 1) [0..<length vs]" for n vs
    by (simp add: mapi_eq_map_enum makeRow_def)
  moreover have "inj_on (\<lambda>i. n + i + 1) A" for n :: nat and A by (simp add: inj_on_def)
  ultimately have "distinct (map row_key (nc_rows (set_rows ns s)))" by (simp add: set_rows_def Let_def distinct_map)
  then show ?thesis by (auto simp: keys_ok_def set_rows_def Let_def set_mapi makeRow_def)
qed

lemma keys_ok_addRow: "keys_ok s \<Longrightarrow> keys_ok (addRow s)"
  by (auto simp: keys_ok_def addRow_def makeRow_def)

lemma keys_ok_removeRow: "keys_ok s \<Longrightarrow> keys_ok (removeRow k s)"
  by (auto simp: keys_ok_def removeRow_def makeRow_def Let_def distinct_map_filter)

lemma keys_ok_patchRow: "keys_ok s \<Longrightarrow> (\<And>r. row_key (f r) = row_key r) \<Longrightarrow> keys_ok (patchRow k f s)"
  by (auto simp: keys_ok_def patchRow_def comp_def if_distrib cong: map_cong if_cong)

lemma keys_ok_onSave: "keys_ok s \<Longrightarrow> keys_ok (fst (onSave s))"
  by (rule keys_ok_cong [THEN iffD2]) (simp_all add: onSave_def Let_def)

lemma keys_ok_event: "keys_ok s \<Longrightarrow> keys_ok (fst (on_numbers e s))"
  by (cases e) (simp_all add: keys_ok_addRow keys_ok_removeRow keys_ok_patchRow keys_ok_onSave)

lemma numbers_saving_kept: "on_numbers e s = (s', None) \<Longrightarrow> nc_saving s' = nc_saving s"
  by (cases e) (auto simp: addRow_def removeRow_def patchRow_def onSave_def Let_def split: if_splits)

lemma saving_set_rows [simp]: "nc_saving (set_rows ns s) = nc_saving s"
  by (simp add: set_rows_def Let_def)

lemma loaded_ok: "keys_ok s \<Longrightarrow> keys_ok (numbers_loaded r s) \<and> nc_saving (numbers_loaded r s) = nc_saving s"
  using keys_ok_set_rows [of "projr r" s] by (cases r) (simp_all add: numbers_loaded_def keys_ok_def)

lemma answered_ok: "keys_ok s \<Longrightarrow> keys_ok (save_answered r s) \<and> \<not> nc_saving (save_answered r s)"
  using keys_ok_set_rows [of "projr r" s] by (cases r) (simp_all add: save_answered_def keys_ok_def)

lemma numbers_run_ok:
  "numbers_run s ld sv rqs \<Longrightarrow> keys_ok s \<and> nc_saving s = sv
     \<and> (\<forall>rq \<in> set rqs. \<exists>ns. rq = setTestNumbers ns \<and> length ns \<le> MAX_TEST_NUMBERS \<and> (\<forall>n \<in> set ns. number_ok n))"
proof (induction rule: numbers_run.induct)
  case (nr_mount seq)
  show ?case by (simp add: keys_ok_def numbers_init_def)
next
  case (nr_loaded s sv rqs r)
  then show ?case using loaded_ok [of s r] by simp
next
  case (nr_event s ld sv rqs e s')
  then show ?case using keys_ok_event [of s e] numbers_saving_kept [of e s s'] by simp
next
  case (nr_save s ld sv rqs e s' rq)
  then have e: "onSave s = (s', Some rq)" by (cases e) auto
  from onSave_Some [OF e] keys_ok_onSave [of s] e nr_save show ?case by auto
next
  case (nr_saved s ld rqs r)
  then show ?case using answered_ok [of s r] by simp
qed


section \<open>Properties\<close>

text \<open>
  Property C23. On every run of the connect page, however its answers interleave with the
  polls: the flags tell exactly which requests are in flight, so at most one connect request
  and one foreground load run at a time, and "connect" is offered only while the account
  is neither connected nor linked and no connect request is in flight.
\<close>

theorem connect_page_safe:
  assumes "wa_run s cs"
  shows "link_calls cs = of_bool (wp_linking s)
    \<and> load_calls cs = of_bool (wp_loading s)
    \<and> (fires_any (wa_view s) Y_start \<longrightarrow>
         link_calls cs = 0 \<and> \<not> is_connected s \<and> \<not> is_linked s \<and> snd (handleLink s) = [Link_call])
    \<and> (wp_linking s \<longrightarrow> handleLink s = (s, []))"
  using wa_run_ok [OF assms] wa_offers(2) [of s] by (auto simp: wa_ok_def handleLink_def)

definition unlinked_status :: whatsapp_status where
  "unlinked_status = \<lparr>wa_linked = False, wa_connected = False, wa_phone = None, wa_gateway_status = [], wa_error = None\<rparr>"

definition connected_status :: whatsapp_status where
  "connected_status = \<lparr>wa_linked = True, wa_connected = True, wa_phone = None, wa_gateway_status = [], wa_error = None\<rparr>"

lemma demo_status_simps [simp]:
  "wa_connected unlinked_status = False" "wa_linked unlinked_status = False" "wa_connected connected_status = True"
  "wa_linked connected_status = True" "wa_phone connected_status = None"
  by (simp_all add: unlinked_status_def connected_status_def)

lemma wa_mounted: "wa_run wa_init [Read_status False]"
  by (rule wa_mount) (simp add: refreshStatus_def wa_init_def)

lemma wa_first: "wa_run (fst (status_answered False r wa_init)) (snd (status_answered False r wa_init))"
  using wa_status [OF wa_mounted, of 0 False r] by (simp add: drop_index_def prod_eq_iff)

theorem connect_page_safe_witness:
  "snd (handleLink (wa_init\<lparr>wp_status := Some unlinked_status\<rparr>)) = [Link_call]
   \<and> link_calls [Read_qr (Some False)] = 0"
proof -
  let ?s = "wa_init\<lparr>wp_status := Some unlinked_status\<rparr>"
  have "wa_run ?s [Read_qr (Some False)]"
    using wa_first [of "Inr unlinked_status"]
    by (simp add: status_answered_def refreshQr_def wa_init_def)
  moreover have "fires_any (wa_view ?s) Y_start"
    by (simp add: wa_view_def status_card_def connect_view_def is_connected_def is_linked_def wa_init_def or_else_def)
  ultimately show ?thesis using connect_page_safe [of ?s "[Read_qr (Some False)]"] by blast
qed

text \<open>
  When the first load fails, the page shows its error for ever: the polls go on
  and succeed, the page knows that it is connected, and still shows the error, because a
  poll does not clear it.
\<close>

theorem load_error_outlives_polls:
  "\<exists>s m. wa_run s [] \<and> is_connected s \<and> m \<noteq> [] \<and>
     (\<forall>rs. status_card (fold (\<lambda>r s. fst (status_answered True r s)) rs s) = [El ''Alert'' [] [Txt m]])"
proof -
  let ?m = "toFriendlyError (ThrownOther []) (heb ''hripz nva dgiaex pkyld. pqe yea.'')"
  let ?s1 = "fst (status_answered False (Inl (ThrownOther [])) wa_init)"
  let ?s = "fst (status_answered True (Inr connected_status) ?s1)"
  have f: "wp_error ?s = Some ?m" "\<not> wp_loading ?s" "is_connected ?s"
    by (simp_all add: status_answered_def refreshQr_def wa_finally_def wa_init_def is_connected_def)
  have m: "?m \<noteq> []" by (simp add: toFriendlyError_def js_lit)
  have "wa_run ?s1 []" using wa_first [of "Inl (ThrownOther [])"] by (simp add: status_answered_def)
  then have "wa_run ?s1 [Read_status True]" using wa_poll [of ?s1 "[]"] by (simp add: refreshStatus_def)
  then have "wa_run ?s []"
    using wa_status [of ?s1 "[Read_status True]" 0 True "Inr connected_status" ?s "[]"]
    by (simp add: drop_index_def status_answered_def refreshQr_def wa_finally_def)
  moreover have "wp_error (fold (\<lambda>r s. fst (status_answered True r s)) rs ?s) = Some ?m
      \<and> \<not> wp_loading (fold (\<lambda>r s. fst (status_answered True r s)) rs ?s)" for rs
  proof -
    have "wp_error (fst (status_answered True r s)) = wp_error s \<and> wp_loading (fst (status_answered True r s)) = wp_loading s" for r s
      by (cases r) (simp_all add: status_answered_def refreshQr_def wa_finally_def Let_def)
    then have "wp_error (fold (\<lambda>r s. fst (status_answered True r s)) rs s) = wp_error s
      \<and> wp_loading (fold (\<lambda>r s. fst (status_answered True r s)) rs s) = wp_loading s" for s
      by (induction rs arbitrary: s) auto
    with f show ?thesis by simp
  qed
  ultimately show ?thesis using f m by (intro exI [of _ ?s] exI [of _ ?m]) (simp add: status_card_def or_else_def)
qed

text \<open>
  A code that was cleared comes back: the read of the code is still in flight when
  the account connects, its answer is stored over the cleared one, and as soon as the
  account disconnects that old code is what the owner is told to scan.
\<close>

theorem stale_code_returns:
  "\<exists>s. wa_run s [] \<and> is_connected s \<and> qr_url (wp_qr s) = [1]
     \<and> (let s' = fst (status_answered True (Inr unlinked_status) s) in
          \<not> is_connected s' \<and> (\<exists>alt. El ''img'' [Attr ''src'' [1], alt] [] \<in> set (status_card s')))"
proof -
  let ?q = "\<lparr>qr_status = [], qr_data_url = Some [1]\<rparr>"
  let ?s1 = "fst (status_answered False (Inr unlinked_status) wa_init)"
  let ?s2 = "fst (status_answered True (Inr connected_status) ?s1)"
  let ?s = "qr_answered (Some False) (Inr ?q) ?s2"
  have "wa_run ?s1 [Read_qr (Some False)]"
    using wa_first [of "Inr unlinked_status"] by (simp add: status_answered_def refreshQr_def)
  then have "wa_run ?s1 [Read_qr (Some False), Read_status True]"
    using wa_poll [of ?s1 "[Read_qr (Some False)]"] by (simp add: refreshStatus_def)
  then have "wa_run ?s2 [Read_qr (Some False)]"
    using wa_status [of ?s1 "[Read_qr (Some False), Read_status True]" 1 True "Inr connected_status" ?s2 "[]"]
    by (simp add: drop_index_def status_answered_def refreshQr_def wa_finally_def)
  then have "wa_run ?s []" using wa_qr [of ?s2 "[Read_qr (Some False)]" 0 "Some False" "Inr ?q"] by (simp add: drop_index_def)
  then show ?thesis
    by (intro exI [of _ ?s])
      (auto simp: status_answered_def refreshQr_def wa_finally_def qr_answered_def is_connected_def qr_url_def or_else_def
        wa_init_def status_card_def connect_view_def Let_def)
qed


definition demo_numbers :: numbers_card where
  "demo_numbers = patchRow 1 (\<lambda>r. r\<lparr>row_phone := [43, 57]\<rparr>) (numbers_loaded (Inr []) (numbers_init 0))"

lemma demo_numbers_simps [simp]:
  "nc_rows demo_numbers = [\<lparr>row_key = 1, row_phone = [43, 57], row_label = []\<rparr>]" "nc_rowSeq demo_numbers = 1"
  "\<not> nc_saving demo_numbers" "\<not> nc_loading demo_numbers" "nc_loadError demo_numbers = None"
  by (simp_all add: demo_numbers_def patchRow_def numbers_loaded_def numbers_init_def set_rows_def mapi_def makeRow_def
      blank_number_def or_else_def)

lemma demo_numbers_run: "numbers_run demo_numbers False False []"
proof -
  let ?s = "numbers_loaded (Inr []) (numbers_init 0)"
  have "numbers_run ?s False False []" by (rule nr_loaded [OF nr_mount])
  moreover have "fires_any (numbers_view ?s) (N_phone 1 [43, 57])"
    by (simp add: numbers_view_def numbers_loaded_def numbers_init_def set_rows_def mapi_def makeRow_def blank_number_def
        or_else_def row_fields_def Let_def)
  ultimately show ?thesis unfolding demo_numbers_def by (rule nr_event) simp
qed

definition demo_number :: test_number where
  "demo_number = \<lparr>tn_phone = [57], tn_label = None\<rparr>"

lemma demo_numbers_save:
  "onSave demo_numbers = (demo_numbers\<lparr>nc_validationError := None, nc_saveError := None, nc_saved := False, nc_saving := True\<rparr>,
     Some (setTestNumbers [demo_number]))"
  by (simp add: onSave_def row_filled_def row_item_def trim_def is_space_def digitsOnly_def is_digit_def MAX_TEST_NUMBERS_def
      demo_number_def)

lemma numbers_saving_run: "numbers_run (fst (onSave demo_numbers)) False True [setTestNumbers [demo_number]]"
  using nr_save [OF demo_numbers_run, of N_save "fst (onSave demo_numbers)" "setTestNumbers [demo_number]"]
  by (simp add: demo_numbers_save numbers_view_def or_else_def Let_def)


text \<open>
  What the owner types while a save is in flight is lost: the rows stay editable, the
  answer replaces them all, and the page says that the numbers are saved.
\<close>

theorem edit_during_save_lost:
  "\<exists>s rqs. numbers_run s False True rqs \<and> (\<exists>r \<in> set (nc_rows s). row_phone r = [56])
     \<and> (let s' = save_answered (Inr [demo_number]) s in
          nc_saved s' \<and> (\<forall>r \<in> set (nc_rows s'). row_phone r \<noteq> [56])
          \<and> (\<forall>rq \<in> set rqs. rq = setTestNumbers [demo_number]))"
proof -
  let ?s1 = "fst (onSave demo_numbers)"
  let ?s = "patchRow 1 (\<lambda>r. r\<lparr>row_phone := [56]\<rparr>) ?s1"
  have "fires_any (numbers_view ?s1) (N_phone 1 [56])"
    by (simp add: demo_numbers_save numbers_view_def or_else_def Let_def mapi_def row_fields_def)
  then have "numbers_run ?s False True [setTestNumbers [demo_number]]" by (rule nr_event [OF numbers_saving_run]) simp
  then show ?thesis
    by (intro exI [of _ ?s] exI [of _ "[setTestNumbers [demo_number]]"])
      (simp add: demo_numbers_save patchRow_def save_answered_def set_rows_def Let_def mapi_def makeRow_def demo_number_def)
qed

end
