(* ===== verification/BookingSetup.thy ===== *)
theory BookingSetup
  imports Clients ClientLaws LeadSearch BookingViews JsNumber
begin

text \<open>
  What an owner edits about bookings: opening hours
  (\<open>components/booking/WorkingHoursEditor.tsx\<close>), rules (\<open>AvailabilityRulesEditor.tsx\<close>), services
  (\<open>ServicesEditor.tsx\<close>), the settings around them (\<open>BookingSettingsPanel.tsx\<close>) and the calendar
  connection (\<open>GoogleConnectPanel.tsx\<close>). The answers of \<open>window.confirm\<close> are arguments.
\<close>

section \<open>WorkingHoursEditor.tsx\<close>

definition WEEKDAYS :: "(jsstr \<times> jsstr) list" where
  "WEEKDAYS =
     [((lat ''0''), (heb ''x@yeo'')), ((lat ''1''), (heb ''ypi'')), ((lat ''2''), (heb ''yliyi'')), ((lat ''3''), (heb ''xairi'')), ((lat ''4''), (heb ''gniyi'')), ((lat ''5''), (heb ''yiyi'')), ((lat ''6''), (heb ''yaz''))]"

datatype range_end = At_start | At_end

definition day_ranges :: "working_hours \<Rightarrow> jsstr \<Rightarrow> hours_range list" where
  "day_ranges value dayKey = (case map_of value dayKey of None \<Rightarrow> [] | Some rs \<Rightarrow> rs)"

definition setDay :: "jsstr \<Rightarrow> hours_range list \<Rightarrow> working_hours \<Rightarrow> working_hours" where
  "setDay dayKey ranges value = put dayKey ranges value"

definition addRange :: "jsstr \<Rightarrow> working_hours \<Rightarrow> working_hours" where
  "addRange dayKey value =
     setDay dayKey (day_ranges value dayKey @ [\<lparr>hr_s = (lat ''09:00''), hr_e = (lat ''17:00'')\<rparr>]) value"

definition removeRange :: "jsstr \<Rightarrow> nat \<Rightarrow> working_hours \<Rightarrow> working_hours" where
  "removeRange dayKey idx value = setDay dayKey (drop_index idx (day_ranges value dayKey)) value"

definition set_end :: "range_end \<Rightarrow> jsstr \<Rightarrow> hours_range \<Rightarrow> hours_range" where
  "set_end field v r = (case field of At_start \<Rightarrow> r\<lparr>hr_s := v\<rparr> | At_end \<Rightarrow> r\<lparr>hr_e := v\<rparr>)"

definition updateRange :: "jsstr \<Rightarrow> nat \<Rightarrow> range_end \<Rightarrow> jsstr \<Rightarrow> working_hours \<Rightarrow> working_hours" where
  "updateRange dayKey idx field v value =
     setDay dayKey (mapi (\<lambda>i r. if i = idx then set_end field v r else r) (day_ranges value dayKey)) value"

datatype hours_ui = R_add jsstr | R_remove jsstr nat | R_update jsstr nat range_end jsstr

fun on_hours :: "hours_ui \<Rightarrow> working_hours \<Rightarrow> working_hours" where
  "on_hours (R_add d) w = addRange d w"
| "on_hours (R_remove d i) w = removeRange d i w"
| "on_hours (R_update d i f v) w = updateRange d i f v w"

definition range_view :: "jsstr \<Rightarrow> jsstr \<Rightarrow> nat \<Rightarrow> hours_range \<Rightarrow> hours_ui vnode" where
  "range_view key label idx r =
     El ''div'' []
       [field_view (label @ (heb '' '' @ [8211] @ heb '' yrz dzgld '') @ nat_str (idx + 1)) (hr_s r) (R_update key idx At_start),
        field_view (label @ (heb '' '' @ [8211] @ heb '' yrz qiem '') @ nat_str (idx + 1)) (hr_e r) (R_update key idx At_end),
        El ''button'' [on_click (R_remove key idx), Attr ''aria-label'' ((heb ''dqx heeg yrez n'') @ label)] []]"

definition hours_view :: "working_hours \<Rightarrow> hours_ui vnode" where
  "hours_view value =
     El ''ul'' [] (map (\<lambda>(key, label).
       (let ranges = day_ranges value key in
        El ''li'' []
          ([Txt label] @ shown (ranges = []) [Txt (heb ''qbex'')] @ mapi (range_view key label) ranges
           @ [El ''button'' [on_click (R_add key)] [Txt (heb ''deqs heeg yrez'')]]))) WEEKDAYS)"

section \<open>AvailabilityRulesEditor.tsx\<close>

definition num :: "jsstr \<Rightarrow> js_num" where
  "num v = (let n = str_number v in if is_finite n \<and> \<not> negative n then n else Fin 0)"

datatype rules_ui = Set_notice jsstr | Set_buffer jsstr | Set_ahead jsstr | Set_meet bool

fun on_rules :: "rules_ui \<Rightarrow> booking_settings \<Rightarrow> booking_settings" where
  "on_rules (Set_notice v) s = s\<lparr>bs_min_notice_minutes := num v\<rparr>"
| "on_rules (Set_buffer v) s = s\<lparr>bs_buffer_minutes := num v\<rparr>"
| "on_rules (Set_ahead v) s = s\<lparr>bs_max_days_ahead := num v\<rparr>"
| "on_rules (Set_meet b) s = s\<lparr>bs_meet_enabled := b\<rparr>"

text \<open>\<open>num_str\<close> is \<open>String\<close> on numbers.\<close>

definition rules_view :: "(js_num \<Rightarrow> jsstr) \<Rightarrow> booking_settings \<Rightarrow> rules_ui vnode list" where
  "rules_view num_str s =
     [field_view (heb ''dzx@d newcnz (cwez)'') (num_str (bs_min_notice_minutes s)) Set_notice,
      field_view (heb ''nxeeg aio tbiyez (cwez)'') (num_str (bs_buffer_minutes s)) Set_buffer,
      field_view (heb ''waird rc (inim wcind)'') (num_str (bs_max_days_ahead s)) Set_ahead,
      El ''input'' [Attr ''checked'' (if bs_meet_enabled s then (lat ''true'') else (lat ''false'')), On (\<lambda>e. \<exists>b. e = Set_meet b)] [],
      Txt (heb ''vxs wiyex G'' @ lat ''oogle Meet '' @ heb ''lkl tbiyd''),
      Txt (heb ''cexy giaex lieno G'' @ lat ''oogle. '' @ heb ''@m l@ ngeax, dtbiyez rciio pwarez '' @ [8212] @ heb '' tyeh ali M'' @ lat ''eet.'')]"

section \<open>ServicesEditor.tsx\<close>

datatype price_input = No_price | Price int | Bad_price

definition parsePrice :: "jsstr \<Rightarrow> price_input" where
  "parsePrice raw =
     (let trimmed = trim raw in
      if trimmed = [] then No_price
      else
        (let n = str_number trimmed in
         if \<not> is_integer n \<or> negative n then Bad_price
         else case n of Fin r \<Rightarrow> Price \<lfloor>r\<rfloor> | _ \<Rightarrow> Bad_price))"

fun price_value :: "price_input \<Rightarrow> int option" where
  "price_value (Price n) = Some n"
| "price_value _ = None"

definition bad_price_message :: jsstr where
  "bad_price_message = (heb ''dngix giia ldiez nqtx ylm @i-ylili ('' @ [8362] @ heb '').'')"

record services_editor =
  se_newName :: jsstr
  se_newDuration :: jsstr
  se_newDescription :: jsstr
  se_newPrice :: jsstr
  se_adding :: bool
  se_error :: "jsstr option"
  se_busyId :: "jsstr option"

definition services_init :: services_editor where
  "services_init =
     \<lparr>se_newName = [], se_newDuration = (lat ''30''), se_newDescription = [], se_newPrice = [], se_adding = False,
      se_error = None, se_busyId = None\<rparr>"

definition none_if_empty :: "jsstr \<Rightarrow> jsstr option" where
  "none_if_empty s = (if s = [] then None else Some s)"

definition service_add :: "services_editor \<Rightarrow> services_editor \<times> http_request option" where
  "service_add s =
     (let name = trim (se_newName s); duration = str_number (se_newDuration s) in
      if name = [] \<or> \<not> is_finite duration \<or> \<not> positive duration then
        (s\<lparr>se_error := Some (heb ''iy ldfio ym yixez enyj fno gieai.'')\<rparr>, None)
      else
        (let price = parsePrice (se_newPrice s) in
         if price = Bad_price then (s\<lparr>se_error := Some bad_price_message\<rparr>, None)
         else
           (s\<lparr>se_adding := True, se_error := None\<rparr>,
            Some (createService
              \<lparr>sc_name = name, sc_duration_minutes = duration, sc_active = Sent True,
               sc_description = Sent (none_if_empty (trim (se_newDescription s))), sc_price = Sent (price_value price)\<rparr>))))"

text \<open>The state, and whether \<open>onChanged\<close> is called.\<close>

definition add_settled :: "js_thrown option \<Rightarrow> services_editor \<Rightarrow> services_editor \<times> bool" where
  "add_settled r s =
     (case r of
        None \<Rightarrow> (s\<lparr>se_newName := [], se_newDuration := (lat ''30''), se_newDescription := [], se_newPrice := [], se_adding := False\<rparr>, True)
      | Some err \<Rightarrow> (s\<lparr>se_error := Some (toFriendlyError err (heb ''deqtz dyixez pkyld. pqe yea.'')), se_adding := False\<rparr>, False))"

definition service_patch :: "jsstr \<Rightarrow> service_update \<Rightarrow> services_editor \<Rightarrow> services_editor \<times> http_request option" where
  "service_patch i body s = (s\<lparr>se_busyId := Some i, se_error := None\<rparr>, updateService i body)"

definition service_remove :: "bool \<Rightarrow> service_item \<Rightarrow> services_editor \<Rightarrow> services_editor \<times> http_request option" where
  "service_remove confirmed svc s =
     (if \<not> confirmed then (s, None)
      else (s\<lparr>se_busyId := Some (svc_id svc), se_error := None\<rparr>, deleteService (svc_id svc)))"

text \<open>\<open>fallback\<close> is the message of \<open>patch\<close> or of \<open>remove\<close>.\<close>

definition change_finished :: "jsstr \<Rightarrow> js_thrown option \<Rightarrow> services_editor \<Rightarrow> services_editor \<times> bool" where
  "change_finished fallback r s =
     (case r of
        None \<Rightarrow> (s\<lparr>se_busyId := None\<rparr>, True)
      | Some err \<Rightarrow> (s\<lparr>se_error := Some (toFriendlyError err fallback), se_busyId := None\<rparr>, False))"

text \<open>One row: its own drafts, started from the service.\<close>

record service_row =
  sr_name :: jsstr
  sr_duration :: jsstr
  sr_description :: jsstr
  sr_price :: jsstr

definition service_row_init :: "service_item \<Rightarrow> service_row" where
  "service_row_init svc =
     \<lparr>sr_name = svc_name svc, sr_duration = int_str (svc_duration_minutes svc),
      sr_description = (case svc_description svc of None \<Rightarrow> [] | Some d \<Rightarrow> d),
      sr_price = (case svc_price svc of None \<Rightarrow> [] | Some p \<Rightarrow> int_str p)\<rparr>"

definition currentDesc :: "service_item \<Rightarrow> jsstr" where
  "currentDesc svc = (case svc_description svc of None \<Rightarrow> [] | Some d \<Rightarrow> d)"

definition same_duration :: "service_item \<Rightarrow> service_row \<Rightarrow> bool" where
  "same_duration svc r \<longleftrightarrow> str_number (sr_duration r) = Fin (of_int (svc_duration_minutes svc))"

definition row_dirty :: "service_item \<Rightarrow> service_row \<Rightarrow> bool" where
  "row_dirty svc r \<longleftrightarrow>
     (let dur = str_number (sr_duration r); price = parsePrice (sr_price r) in
      trim (sr_name r) \<noteq> svc_name svc
      \<or> is_finite dur \<and> positive dur \<and> \<not> same_duration svc r
      \<or> trim (sr_description r) \<noteq> currentDesc svc
      \<or> price \<noteq> Bad_price \<and> price_value price \<noteq> svc_price svc)"

definition row_valid :: "service_row \<Rightarrow> bool" where
  "row_valid r \<longleftrightarrow>
     (let dur = str_number (sr_duration r) in
      length (trim (sr_name r)) > 0 \<and> is_finite dur \<and> positive dur \<and> parsePrice (sr_price r) \<noteq> Bad_price)"

text \<open>The body handed to \<open>onSave\<close>; \<open>None\<close> when the price is bad and \<open>onError\<close> is called.\<close>

definition row_save :: "service_item \<Rightarrow> service_row \<Rightarrow> service_update option" where
  "row_save svc r =
     (let price = parsePrice (sr_price r) in
      if price = Bad_price then None
      else Some
        \<lparr>su_name = (if trim (sr_name r) \<noteq> svc_name svc then Sent (trim (sr_name r)) else Omitted),
         su_duration_minutes = (if \<not> same_duration svc r then Sent (str_number (sr_duration r)) else Omitted),
         su_active = Omitted,
         su_description = (if trim (sr_description r) \<noteq> currentDesc svc then Sent (none_if_empty (trim (sr_description r))) else Omitted),
         su_price = (if price_value price \<noteq> svc_price svc then Sent (price_value price) else Omitted)\<rparr>)"

definition toggle_body :: "service_item \<Rightarrow> service_update" where
  "toggle_body svc =
     \<lparr>su_name = Omitted, su_duration_minutes = Omitted, su_active = Sent (\<not> svc_active svc), su_description = Omitted,
      su_price = Omitted\<rparr>"

datatype row_ui = Row_name jsstr | Row_duration jsstr | Row_price jsstr | Row_description jsstr | Row_toggle | Row_save | Row_delete

fun edit_row :: "row_ui \<Rightarrow> service_row \<Rightarrow> service_row" where
  "edit_row (Row_name v) r = r\<lparr>sr_name := v\<rparr>"
| "edit_row (Row_duration v) r = r\<lparr>sr_duration := v\<rparr>"
| "edit_row (Row_price v) r = r\<lparr>sr_price := v\<rparr>"
| "edit_row (Row_description v) r = r\<lparr>sr_description := v\<rparr>"
| "edit_row _ r = r"

definition service_row_view :: "service_item \<Rightarrow> bool \<Rightarrow> service_row \<Rightarrow> row_ui vnode" where
  "service_row_view svc busy r =
     El ''li'' []
       [limited_field (heb ''ym dyixez'') (sr_name r) (Some 120) busy Row_name,
        limited_field (heb ''nyj (cwez)'') (sr_duration r) None busy Row_duration,
        limited_field (heb ''ngix '' @ [8362]) (sr_price r) None busy Row_price,
        El ''input'' [Attr ''checked'' (if svc_active svc then (lat ''true'') else (lat ''false'')), Disabled busy, on_click Row_toggle] [],
        Txt (heb ''tril''),
        limited_field (heb ''zi@ex'') (sr_description r) (Some 500) busy Row_description,
        El ''button'' [Disabled (busy \<or> \<not> row_dirty svc r \<or> \<not> row_valid r), on_click Row_save] [Txt (if busy then (heb ''yenx'' @ [8230]) else (heb ''ynex''))],
        El ''button'' [Disabled busy, on_click Row_delete, Attr ''aria-label'' ((heb ''ngw @z dyixez '') @ svc_name svc)] []]"

datatype services_ui = S_name jsstr | S_duration jsstr | S_price jsstr | S_description jsstr | S_add | S_row jsstr row_ui

definition services_view :: "service_item list \<Rightarrow> (jsstr \<Rightarrow> service_row) \<Rightarrow> services_editor \<Rightarrow> services_ui vnode list" where
  "services_view services rows s =
     (case or_else (se_error s) [] of [] \<Rightarrow> [] | e \<Rightarrow> [El ''p'' [Attr ''role'' (lat ''alert'')] [Txt e]])
     @ (if length services > 0 then
          [El ''ul'' [] (map (\<lambda>svc. view_in (S_row (svc_id svc))
             (service_row_view svc (se_busyId s = Some (svc_id svc)) (rows (svc_id svc)))) services)]
        else [Txt (heb ''rciio @io yixezim. deqite @z dyixez dx@yeo lnhd.'')])
     @ [limited_field (heb ''ym dyixez'') (se_newName s) (Some 120) False S_name,
        limited_field (heb ''nyj (cwez)'') (se_newDuration s) None False S_duration,
        limited_field (heb ''ngix '' @ [8362] @ heb '' (l@ gead)'') (se_newPrice s) None False S_price,
        limited_field (heb ''zi@ex (l@ gead)'') (se_newDescription s) (Some 500) False S_description,
        El ''button'' [Disabled (se_adding s), on_click S_add] [Txt (if se_adding s then (heb ''neqis'' @ [8230]) else (heb ''deqs yixez''))]]"


section \<open>BookingSettingsPanel.tsx\<close>

definition WELCOME_MAX :: nat where "WELCOME_MAX = 600"

definition welcomeAiError :: "js_thrown \<Rightarrow> jsstr" where
  "welcomeAiError err =
     (case err of
        ThrownApi e \<Rightarrow>
          if err_status e = 503 then (heb ''refx d-AI @ipe fnio kxbr (l@ debcx). pqe yea n@egx iezx.'')
          else if err_status e = 502 then (heb ''refx d-AI l@ fnio fnpiz. pqe yea arec xbr.'')
          else toFriendlyError err (heb ''piqeg ddecrd pkyl. pqe yea.'')
      | _ \<Rightarrow> toFriendlyError err (heb ''piqeg ddecrd pkyl. pqe yea.''))"

definition publicBookingUrl :: "jsstr \<Rightarrow> jsstr \<Rightarrow> jsstr" where
  "publicBookingUrl origin slug = origin @ (lat ''/book/'') @ slug"

record setup_panel =
  sp_settings :: "booking_settings option"
  sp_services :: "service_item list"
  sp_loading :: bool
  sp_error :: "jsstr option"
  sp_saving :: bool
  sp_saveError :: "jsstr option"
  sp_saved :: bool
  sp_generating :: bool
  sp_genError :: "jsstr option"
  sp_loader :: loader

definition setup_mount :: setup_panel where
  "setup_mount =
     \<lparr>sp_settings = None, sp_services = [], sp_loading = True, sp_error = None, sp_saving = False, sp_saveError = None,
      sp_saved = False, sp_generating = False, sp_genError = None, sp_loader = rerun_effect new_loader\<rparr>"

definition setup_requests :: "http_request list" where
  "setup_requests = [getBookingSettings, getServices]"

definition setup_loaded :: "nat \<Rightarrow> (js_thrown + booking_settings \<times> service_item list) \<Rightarrow> setup_panel \<Rightarrow> setup_panel" where
  "setup_loaded t r s =
     (if \<not> live t (sp_loader s) then s
      else (case r of
              Inr (st, svcs) \<Rightarrow> s\<lparr>sp_settings := Some st, sp_services := svcs\<rparr>
            | Inl err \<Rightarrow> s\<lparr>sp_error := Some (toFriendlyError err (heb ''hripz ddbcxez pkyld. pqe yea.''))\<rparr>)
           \<lparr>sp_loading := False\<rparr>)"

definition services_reloaded :: "(js_thrown + service_item list) \<Rightarrow> setup_panel \<Rightarrow> setup_panel" where
  "services_reloaded r s = (case r of Inr svcs \<Rightarrow> s\<lparr>sp_services := svcs\<rparr> | Inl err \<Rightarrow> s)"

definition patchSettings :: "(booking_settings \<Rightarrow> booking_settings) \<Rightarrow> setup_panel \<Rightarrow> setup_panel" where
  "patchSettings f s = s\<lparr>sp_settings := map_option f (sp_settings s), sp_saved := False\<rparr>"

definition settings_update :: "booking_settings \<Rightarrow> booking_settings_update" where
  "settings_update st =
     \<lparr>bsu_working_hours = bs_working_hours st, bsu_min_notice_minutes = bs_min_notice_minutes st,
      bsu_buffer_minutes = bs_buffer_minutes st, bsu_max_days_ahead = bs_max_days_ahead st,
      bsu_meet_enabled = bs_meet_enabled st,
      bsu_welcome_message = none_if_empty (trim (or_else (bs_welcome_message st) []))\<rparr>"

definition settings_save :: "setup_panel \<Rightarrow> setup_panel \<times> http_request option" where
  "settings_save s =
     (case sp_settings s of
        None \<Rightarrow> (s, None)
      | Some st \<Rightarrow> (s\<lparr>sp_saving := True, sp_saveError := None, sp_saved := False\<rparr>, Some (updateBookingSettings (settings_update st))))"

definition settings_saved :: "(js_thrown + booking_settings) \<Rightarrow> setup_panel \<Rightarrow> setup_panel" where
  "settings_saved r s =
     (case r of
        Inr st \<Rightarrow> s\<lparr>sp_settings := Some st, sp_saved := True\<rparr>
      | Inl err \<Rightarrow> s\<lparr>sp_saveError := Some (toFriendlyError err (heb ''ynixz ddbcxez pkyld. pqe yea.''))\<rparr>)
     \<lparr>sp_saving := False\<rparr>"

definition generateWelcome :: "setup_panel \<Rightarrow> setup_panel \<times> http_request" where
  "generateWelcome s = (s\<lparr>sp_generating := True, sp_genError := None\<rparr>, generateWelcomeMessage None)"

definition welcome_generated :: "(js_thrown + jsstr) \<Rightarrow> setup_panel \<Rightarrow> setup_panel" where
  "welcome_generated r s =
     (case r of
        Inr m \<Rightarrow> patchSettings (\<lambda>st. st\<lparr>bs_welcome_message := Some (take WELCOME_MAX m)\<rparr>) s
      | Inl err \<Rightarrow> s\<lparr>sp_genError := Some (welcomeAiError err)\<rparr>)
     \<lparr>sp_generating := False\<rparr>"

definition previewServices :: "service_item list \<Rightarrow> public_service list" where
  "previewServices services =
     map (\<lambda>v. \<lparr>ps_id = svc_id v, ps_name = svc_name v, ps_duration_minutes = svc_duration_minutes v,
        ps_description = svc_description v, ps_price = svc_price v\<rparr>) (filter svc_active services)"

datatype setup_ui = B_welcome jsstr | B_generate | B_save | B_rules rules_ui | B_hours hours_ui | B_services services_ui

text \<open>
  The view: the services with the preview, or the details, of which \<open>link_card\<close>, \<open>details\<close> and
  \<open>google\<close> are the parts that keep their own state.
\<close>

definition settings_form :: "(js_num \<Rightarrow> jsstr) \<Rightarrow> booking_settings \<Rightarrow> setup_panel \<Rightarrow> setup_ui vnode list" where
  "settings_form num_str st s =
     [Txt (heb ''decrz tzigd''),
      limited_field (heb ''hwqh dtzigd'') (or_else (bs_welcome_message st) []) (Some WELCOME_MAX) (sp_generating s) B_welcome,
      El ''button'' [Disabled (sp_generating s), on_click B_generate] [Txt (if sp_generating s then (heb ''npqg'' @ [8230]) else (heb ''pqg rm AI''))]]
     @ (case or_else (sp_genError s) [] of [] \<Rightarrow> [] | e \<Rightarrow> [El ''Alert'' [] [Txt e]])
     @ [Txt (heb ''yrez trilez efnipez'')]
     @ shown (sp_saved s) [Txt (heb ''pynx'')]
     @ [El ''button'' [Disabled (sp_saving s), on_click B_save] [Txt (if sp_saving s then (heb ''yenx'' @ [8230]) else (heb ''ynex dbcxez''))]]
     @ (case or_else (sp_saveError s) [] of [] \<Rightarrow> [] | e \<Rightarrow> [El ''Alert'' [] [Txt e]])
     @ map (view_in B_rules) (rules_view num_str st)
     @ [view_in B_hours (hours_view (bs_working_hours st))]"

definition setup_view ::
    "(js_num \<Rightarrow> jsstr) \<Rightarrow> jsstr \<Rightarrow> bool \<Rightarrow> (public_service list \<Rightarrow> setup_ui vnode list) \<Rightarrow> setup_ui vnode list
     \<Rightarrow> (jsstr \<Rightarrow> service_row) \<Rightarrow> services_editor \<Rightarrow> setup_panel \<Rightarrow> setup_ui vnode list" where
  "setup_view num_str origin services_tab preview details rows ed s =
     (if sp_loading s then [El ''Spinner'' [] [Txt (heb ''hero dbcxez'' @ [8230])]]
      else if or_else (sp_error s) [] \<noteq> [] then [El ''Alert'' [] [Txt (or_else (sp_error s) [])]]
      else case sp_settings s of
        None \<Rightarrow> []
      | Some st \<Rightarrow>
          if services_tab then
            [Txt (heb ''yixezim''), Txt (heb ''kl yixez ednyj yle '' @ [8212] @ heb '' dlweg aegx yixez e@f yrd tpeid.'')]
            @ map (view_in B_services) (services_view (sp_services s) rows ed)
            @ [Txt (heb ''zvebd nwcind'')] @ preview (previewServices (sp_services s))
          else
            [Txt (heb ''wiyex lwairz zex''), El ''code'' [] [Txt (publicBookingUrl origin (bs_slug st))],
             El ''a'' [Attr ''href'' (publicBookingUrl origin (bs_slug st))] [Txt (heb ''tzg'')]]
            @ details @ settings_form num_str st s)"

fun on_settings :: "setup_ui \<Rightarrow> setup_panel \<Rightarrow> setup_panel \<times> http_request option" where
  "on_settings (B_welcome v) s = (patchSettings (\<lambda>st. st\<lparr>bs_welcome_message := Some v\<rparr>) s, None)"
| "on_settings B_generate s = (let (s', rq) = generateWelcome s in (s', Some rq))"
| "on_settings B_save s = settings_save s"
| "on_settings (B_rules e) s = (patchSettings (on_rules e) s, None)"
| "on_settings (B_hours e) s = (patchSettings (\<lambda>st. st\<lparr>bs_working_hours := on_hours e (bs_working_hours st)\<rparr>) s, None)"
| "on_settings (B_services e) s = (s, None)"

section \<open>GoogleConnectPanel.tsx\<close>

record google_panel =
  gp_status :: "(bool \<times> jsstr option) option"
  gp_loading :: bool
  gp_busy :: bool
  gp_error :: "jsstr option"
  gp_returnFlag :: "jsstr option"
  gp_loader :: loader

text \<open>The first render with the \<open>google\<close> parameter of the URL, which the effect reads and removes.\<close>

definition google_mount :: "jsstr option \<Rightarrow> google_panel" where
  "google_mount flag =
     \<lparr>gp_status = None, gp_loading = True, gp_busy = False, gp_error = None,
      gp_returnFlag = (if flag \<in> {Some (lat ''connected''), Some (lat ''error'')} then flag else None),
      gp_loader = rerun_effect new_loader\<rparr>"

definition google_loaded :: "nat \<Rightarrow> (js_thrown + bool \<times> jsstr option) \<Rightarrow> google_panel \<Rightarrow> google_panel" where
  "google_loaded t r s =
     (if \<not> live t (gp_loader s) then s
      else (case r of
              Inr st \<Rightarrow> s\<lparr>gp_status := Some st\<rparr>
            | Inl err \<Rightarrow> s\<lparr>gp_error := Some (toFriendlyError err (heb ''hripz nva G'' @ lat ''oogle '' @ heb ''pkyld.''))\<rparr>)
           \<lparr>gp_loading := False\<rparr>)"

definition google_connect :: "google_panel \<Rightarrow> google_panel \<times> http_request" where
  "google_connect s = (s\<lparr>gp_busy := True, gp_error := None\<rparr>, getGoogleConnectUrl)"

text \<open>The state, and the address the browser is sent to.\<close>

definition connect_answered :: "(js_thrown + jsstr) \<Rightarrow> google_panel \<Rightarrow> google_panel \<times> jsstr option" where
  "connect_answered r s =
     (case r of
        Inr url \<Rightarrow> (s, Some url)
      | Inl err \<Rightarrow>
          (s\<lparr>gp_error := Some (case err of
                ThrownApi e \<Rightarrow> if err_status e = 503 then (heb ''giaex lieno G'' @ lat ''oogle '' @ heb ''@ipe fnio kxbr. tpe lznikd.'')
                             else toFriendlyError err (heb ''tzigz dgiaex l-G'' @ lat ''oogle '' @ heb ''pkyld. pqe yea.'')
              | _ \<Rightarrow> toFriendlyError err (heb ''tzigz dgiaex l-G'' @ lat ''oogle '' @ heb ''pkyld. pqe yea.'')),
             gp_busy := False\<rparr>, None))"

definition google_disconnect :: "bool \<Rightarrow> google_panel \<Rightarrow> google_panel \<times> http_request option" where
  "google_disconnect confirmed s =
     (if \<not> confirmed then (s, None) else (s\<lparr>gp_busy := True, gp_error := None\<rparr>, Some disconnectGoogle))"

text \<open>After it the status is loaded again, outside the effect; the Boolean says so.\<close>

definition disconnect_answered :: "js_thrown option \<Rightarrow> google_panel \<Rightarrow> google_panel \<times> bool" where
  "disconnect_answered r s =
     (case r of
        None \<Rightarrow> (s\<lparr>gp_loading := True, gp_loader := begin_load (gp_loader s), gp_busy := False\<rparr>, True)
      | Some err \<Rightarrow> (s\<lparr>gp_error := Some (toFriendlyError err (heb ''dpizew pkyl. pqe yea.'')), gp_busy := False\<rparr>, False))"

datatype google_ui = G_connect | G_disconnect

definition google_view :: "google_panel \<Rightarrow> google_ui vnode list" where
  "google_view s =
     shown (gp_returnFlag s = Some (lat ''connected'')) [El ''Alert'' [] [Txt (heb ''ieno G'' @ lat ''oogle '' @ heb ''geax advlgd.'')]]
     @ shown (gp_returnFlag s = Some (lat ''error'')) [El ''Alert'' [] [Txt (heb ''giaex ieno G'' @ lat ''oogle '' @ heb ''pkyl. pqe yea.'')]]
     @ (case or_else (gp_error s) [] of [] \<Rightarrow> [] | e \<Rightarrow> [El ''Alert'' [] [Txt e]])
     @ (if gp_loading s then [El ''Spinner'' [] [Txt (heb ''aecw giaex l-G'' @ lat ''oogle'' @ [8230])]]
        else case gp_status s of
          Some (True, email) \<Rightarrow>
            [Txt ((heb ''ngeax'') @ (case or_else email [] of [] \<Rightarrow> [] | e \<Rightarrow> (lat '' ('') @ e @ (lat '')''))),
             El ''button'' [Disabled (gp_busy s), on_click G_disconnect] [Txt (if gp_busy s then (heb ''npzw'' @ [8230]) else (heb ''pzw''))]]
        | _ \<Rightarrow>
            [El ''button'' [Disabled (gp_busy s), on_click G_connect] [Txt (if gp_busy s then (heb ''tezg'' @ [8230]) else (heb ''gax G'' @ lat ''oogle Calendar''))],
             Txt (heb ''kyngeax, kl tbiyd gcyd zieevx aieno G'' @ lat ''oogle '' @ heb ''ylkm, edlweg iwal dfnpd lniil.'')])"


section \<open>Lemmas\<close>

lemma day_ranges_setDay [simp]: "day_ranges (setDay d rs w) k = (if k = d then rs else day_ranges w k)"
  by (simp add: day_ranges_def setDay_def)

lemma none_if_empty_simps [simp]:
  "none_if_empty s = None \<longleftrightarrow> s = []" "none_if_empty s = Some x \<longleftrightarrow> s = x \<and> x \<noteq> []"
  by (auto simp: none_if_empty_def)

lemma or_else_none_if_empty [simp]: "or_else (none_if_empty s) [] = s"
  by (simp add: none_if_empty_def or_else_def)

lemma parsePrice_nonneg: "parsePrice raw = Price n \<Longrightarrow> 0 \<le> n"
  by (auto simp: parsePrice_def Let_def negative_def split: if_splits js_num.splits)

lemma price_value_nonneg: "price_value (parsePrice raw) = Some n \<Longrightarrow> 0 \<le> n"
  by (cases "parsePrice raw") (auto simp: parsePrice_nonneg)

lemma is_integer_of_int [simp]: "is_integer (Fin (of_int n))" "is_integer (Fin (of_nat m))"
  unfolding is_integer_def by simp_all

text \<open>Opening a row changes nothing: the printed price and duration of a service read back.\<close>

lemma trim_nat_str: "trim (nat_str n) = nat_str n"
proof -
  have ne: "nat_str n \<noteq> []" by (subst nat_str.simps) simp
  then show ?thesis
    using nat_str_digits hd_in_set [OF ne] last_in_set [OF ne] digit_no_space by (intro trim_fixpoint) blast+
qed

lemma parsePrice_int_str: "0 \<le> p \<Longrightarrow> parsePrice (int_str p) = Price p"
proof -
  assume p: "0 \<le> p"
  have "nat_str n \<noteq> []" for n by (subst nat_str.simps) simp
  with p show ?thesis
    by (simp add: int_str_def parsePrice_def trim_nat_str str_number_nat_str negative_def Let_def)
qed

lemma fresh_row_clean:
  assumes "trim (svc_name svc) = svc_name svc" "trim (currentDesc svc) = currentDesc svc"
    and "0 \<le> svc_duration_minutes svc" "\<forall>p. svc_price svc = Some p \<longrightarrow> 0 \<le> p"
  shows "\<not> row_dirty svc (service_row_init svc)"
proof -
  have "same_duration svc (service_row_init svc)"
    using assms(3) by (simp add: same_duration_def service_row_init_def int_str_def str_number_nat_str)
  moreover have "price_value (parsePrice (sr_price (service_row_init svc))) = svc_price svc"
    using assms(4) by (cases "svc_price svc") (simp_all add: service_row_init_def parsePrice_int_str, simp add: parsePrice_def trim_def)
  ultimately show ?thesis
    using assms(1,2) by (simp add: row_dirty_def service_row_init_def currentDesc_def Let_def)
qed

lemma num_ok: "is_finite (num v) \<and> \<not> negative (num v)"
  by (simp add: num_def is_finite_def negative_def Let_def)

definition settings_ok :: "booking_settings \<Rightarrow> bool" where
  "settings_ok st \<longleftrightarrow>
     (\<forall>n \<in> {bs_min_notice_minutes st, bs_buffer_minutes st, bs_max_days_ahead st}. is_finite n \<and> \<not> negative n)
     \<and> length (or_else (bs_welcome_message st) []) \<le> WELCOME_MAX"

definition panel_ok :: "setup_panel \<Rightarrow> bool" where
  "panel_ok s \<longleftrightarrow> (\<forall>st. sp_settings s = Some st \<longrightarrow> settings_ok st)"

lemma settings_ok_rules: "settings_ok st \<Longrightarrow> settings_ok (on_rules e st)"
  using num_ok by (cases e) (auto simp: settings_ok_def)

lemma settings_ok_hours [simp]: "settings_ok (st\<lparr>bs_working_hours := w\<rparr>) = settings_ok st"
  by (simp add: settings_ok_def)

lemma settings_ok_welcome: "settings_ok st \<Longrightarrow> length m \<le> WELCOME_MAX \<Longrightarrow> settings_ok (st\<lparr>bs_welcome_message := Some m\<rparr>)"
  by (auto simp: settings_ok_def or_else_def)

definition update_ok :: "booking_settings_update \<Rightarrow> bool" where
  "update_ok u \<longleftrightarrow>
     (\<forall>n \<in> {bsu_min_notice_minutes u, bsu_buffer_minutes u, bsu_max_days_ahead u}. is_finite n \<and> \<not> negative n)
     \<and> (\<forall>m. bsu_welcome_message u = Some m \<longrightarrow> m \<noteq> [] \<and> trim m = m \<and> length m \<le> WELCOME_MAX)"

lemma update_ok_of: "settings_ok st \<Longrightarrow> update_ok (settings_update st)"
  using length_trim_le [of "or_else (bs_welcome_message st) []"]
  by (auto simp: settings_ok_def update_ok_def settings_update_def trim_idem)

section \<open>Runs\<close>

text \<open>
  A run of the settings: whether the load, the generation and a save are in flight, and every request
  made by the owner. The server's settings are \<open>settings_ok\<close>.
\<close>

inductive setup_run ::
    "(setup_panel \<Rightarrow> setup_ui vnode list) \<Rightarrow> setup_panel \<Rightarrow> bool \<Rightarrow> bool \<Rightarrow> bool \<Rightarrow> http_request list \<Rightarrow> bool"
  for view where
  su_mount: "setup_run view setup_mount True False False []"
| su_loaded: "setup_run view s True gn sv rqs \<Longrightarrow> (\<forall>st svcs. r = Inr (st, svcs) \<longrightarrow> settings_ok st) \<Longrightarrow>
    setup_run view (setup_loaded 0 r s) False gn sv rqs"
| su_reloaded: "setup_run view s ld gn sv rqs \<Longrightarrow> setup_run view (services_reloaded r s) ld gn sv rqs"
| su_event: "setup_run view s ld gn sv rqs \<Longrightarrow> fires_any (view s) e \<Longrightarrow> on_settings e s = (s', None) \<Longrightarrow> setup_run view s' ld gn sv rqs"
| su_request: "setup_run view s ld gn sv rqs \<Longrightarrow> fires_any (view s) e \<Longrightarrow> on_settings e s = (s', Some rq) \<Longrightarrow>
    setup_run view s' ld (gn \<or> e = B_generate) (sv \<or> e = B_save) (rqs @ [rq])"
| su_generated: "setup_run view s ld True sv rqs \<Longrightarrow> setup_run view (welcome_generated r s) ld False sv rqs"
| su_saved: "setup_run view s ld gn True rqs \<Longrightarrow> (\<forall>st. r = Inr st \<longrightarrow> settings_ok st) \<Longrightarrow>
    setup_run view (settings_saved r s) ld gn False rqs"

lemma details_offers:
  "fires_any (setup_view ns og False pv [] rows ed s) e \<Longrightarrow>
     \<not> sp_loading s \<and> (\<exists>st. sp_settings s = Some st)
     \<and> (case e of
          B_welcome v \<Rightarrow> length v \<le> WELCOME_MAX \<and> \<not> sp_generating s
        | B_generate \<Rightarrow> \<not> sp_generating s
        | B_save \<Rightarrow> \<not> sp_saving s
        | B_services x \<Rightarrow> False
        | _ \<Rightarrow> True)"
  by (auto simp: setup_view_def settings_form_def fires_any_view_in fires_view_in split: if_splits option.splits list.splits)

lemma event_keeps_ok:
  assumes "panel_ok s" "on_settings e s = (s', rq)" "\<forall>v. e = B_welcome v \<longrightarrow> length v \<le> WELCOME_MAX"
  shows "panel_ok s'"
  using assms
  by (cases e) (auto simp: panel_ok_def patchSettings_def generateWelcome_def settings_save_def Let_def
      settings_ok_rules settings_ok_welcome split: option.splits)

lemma event_flags:
  "on_settings e s = (s', rq) \<Longrightarrow> sp_loader s' = sp_loader s
     \<and> sp_saving s' = (sp_saving s \<or> e = B_save \<and> sp_settings s \<noteq> None)
     \<and> sp_generating s' = (sp_generating s \<or> e = B_generate)"
  by (cases e) (auto simp: patchSettings_def generateWelcome_def settings_save_def Let_def split: option.splits)

definition request_ok :: "http_request \<Rightarrow> bool" where
  "request_ok rq \<longleftrightarrow> rq = generateWelcomeMessage None \<or> (\<exists>u. rq = updateBookingSettings u \<and> update_ok u)"

lemma event_request_ok: "panel_ok s \<Longrightarrow> on_settings e s = (s', Some rq) \<Longrightarrow> request_ok rq \<and> (e = B_generate \<or> e = B_save \<and> sp_settings s \<noteq> None)"
  by (cases e) (auto simp: request_ok_def generateWelcome_def settings_save_def panel_ok_def Let_def update_ok_of split: option.splits)

lemma setup_run_ok:
  assumes "setup_run (setup_view ns og False pv [] rows ed) s ld gn sv rqs"
  shows "panel_ok s \<and> sp_saving s = sv \<and> sp_generating s = gn \<and> (\<forall>rq \<in> set rqs. request_ok rq)"
  using assms
proof (induction rule: setup_run.induct)
  case su_mount
  show ?case by (simp add: panel_ok_def setup_mount_def)
next
  case (su_loaded s gn sv rqs r)
  then show ?case by (cases r) (auto simp: setup_loaded_def panel_ok_def)
next
  case (su_reloaded s ld gn sv rqs r)
  then show ?case by (cases r) (auto simp: services_reloaded_def panel_ok_def)
next
  case (su_event s ld gn sv rqs e s')
  note o = details_offers [OF su_event(2)]
  have "e \<noteq> B_generate" "e = B_save \<longrightarrow> sp_settings s = None"
    using su_event(3) by (auto simp: generateWelcome_def settings_save_def split: option.splits)
  moreover have "\<forall>v. e = B_welcome v \<longrightarrow> length v \<le> WELCOME_MAX" using o by auto
  then have "panel_ok s'" using su_event event_keeps_ok [of s e s' None] by blast
  ultimately show ?case using o su_event event_flags [of e s s' None] by auto
next
  case (su_request s ld gn sv rqs e s' rq)
  note o = details_offers [OF su_request(2)]
  have "\<forall>v. e = B_welcome v \<longrightarrow> length v \<le> WELCOME_MAX" using o by auto
  then have "panel_ok s'" using su_request event_keeps_ok [of s e s' "Some rq"] by blast
  with o su_request event_flags [of e s s' "Some rq"] event_request_ok [of s e s' rq]
  show ?case by auto
next
  case (su_generated s ld sv rqs r)
  then show ?case
    by (cases r) (auto simp: welcome_generated_def patchSettings_def panel_ok_def settings_ok_welcome)
next
  case (su_saved s ld gn rqs r)
  then show ?case by (cases r) (auto simp: settings_saved_def panel_ok_def)
qed

text \<open>A run of the services: the updates in flight, by the id of their service.\<close>

inductive services_run :: "service_item list \<Rightarrow> (jsstr \<Rightarrow> service_row) \<Rightarrow> services_editor \<Rightarrow> jsstr list \<Rightarrow> bool"
  for services rows where
  sv_start: "services_run services rows services_init []"
| sv_toggle: "services_run services rows s fl \<Longrightarrow> svc \<in> set services \<Longrightarrow>
    fires_any (services_view services rows s) (S_row (svc_id svc) Row_toggle) \<Longrightarrow>
    service_patch (svc_id svc) (toggle_body svc) s = (s', Some rq) \<Longrightarrow> services_run services rows s' (fl @ [svc_id svc])"
| sv_finished: "services_run services rows s fl \<Longrightarrow> i < length fl \<Longrightarrow>
    services_run services rows (fst (change_finished m r s)) (drop_index i fl)"


section \<open>Properties\<close>

text \<open>
  Property C17. Everything the owner sends from the settings is well formed, on every run: the
  three rules are finite numbers that are not negative, whatever was typed; the welcome message is
  \<open>null\<close> or a trimmed text of at most 600 characters that is not blank, whether it was typed or
  generated; and at most one save is in flight.
\<close>

theorem settings_sent_valid:
  assumes "setup_run (setup_view num_str origin False preview [] rows ed) s ld gn sv rqs"
  shows "(\<forall>rq \<in> set rqs. rq = generateWelcomeMessage None \<or> (\<exists>u. rq = updateBookingSettings u \<and> update_ok u))
    \<and> sp_saving s = sv
    \<and> (sv \<longrightarrow> \<not> fires_any (setup_view num_str origin False preview [] rows ed s) B_save)
    \<and> (\<forall>st. sp_settings s = Some st \<longrightarrow> settings_ok st)"
proof -
  have "\<not> fires_any (setup_view num_str origin False preview [] rows ed s) B_save" if "sp_saving s"
    using details_offers [of num_str origin preview rows ed s B_save] that by auto
  with setup_run_ok [OF assms] show ?thesis by (auto simp: request_ok_def panel_ok_def)
qed

definition demo_settings :: booking_settings where
  "demo_settings =
     \<lparr>bs_slug = [115], bs_timezone = [], bs_working_hours = [], bs_min_notice_minutes = Fin 60,
      bs_buffer_minutes = Fin 0, bs_max_days_ahead = Fin 30, bs_meet_enabled = True, bs_welcome_message = Some [32]\<rparr>"

lemma demo_settings_ok [simp]: "settings_ok demo_settings"
  by (simp add: settings_ok_def demo_settings_def is_finite_def negative_def or_else_def WELCOME_MAX_def)

abbreviation demo_setup :: "setup_panel \<Rightarrow> setup_ui vnode list" where
  "demo_setup \<equiv> setup_view (\<lambda>n. []) [] False (\<lambda>ps. []) [] (\<lambda>i. \<lparr>sr_name = [], sr_duration = [], sr_description = [], sr_price = []\<rparr>) services_init"

definition demo_loaded :: setup_panel where
  "demo_loaded = setup_loaded 0 (Inr (demo_settings, [])) setup_mount"

lemma demo_loaded_simps [simp]:
  "sp_settings demo_loaded = Some demo_settings" "\<not> sp_loading demo_loaded" "sp_error demo_loaded = None" "\<not> sp_saving demo_loaded"
  by (simp_all add: demo_loaded_def setup_loaded_def setup_mount_def)

lemma demo_loaded_run: "setup_run demo_setup demo_loaded False False False []"
  unfolding demo_loaded_def by (rule su_loaded [OF su_mount]) simp

lemma demo_offers_save [simp]:
  "sp_settings s = Some st \<Longrightarrow> \<not> sp_loading s \<Longrightarrow> sp_error s = None \<Longrightarrow> \<not> sp_saving s \<Longrightarrow> fires_any (demo_setup s) B_save"
  by (simp add: setup_view_def settings_form_def or_else_def)

definition demo_saving :: setup_panel where
  "demo_saving = fst (settings_save demo_loaded)"

lemma demo_saving_simps [simp]:
  "sp_settings demo_saving = Some demo_settings" "\<not> sp_loading demo_saving" "sp_error demo_saving = None" "sp_saving demo_saving"
  by (simp_all add: demo_saving_def settings_save_def)

lemma demo_saving_run:
  "setup_run demo_setup demo_saving False False True [updateBookingSettings (settings_update demo_settings)]"
  using su_request [OF demo_loaded_run, of B_save demo_saving "updateBookingSettings (settings_update demo_settings)"]
  by (simp add: demo_saving_def settings_save_def)

theorem settings_sent_valid_witness: "\<not> fires_any (demo_setup demo_saving) B_save"
  using settings_sent_valid [OF demo_saving_run] by blast

text \<open>
  What the owner edits while the settings are being saved is lost: the form stays
  editable, the answer replaces the whole draft, and the page says "saved".
\<close>

theorem settings_edit_lost_while_saving:
  "\<exists>s rqs. setup_run demo_setup s False False True rqs
     \<and> (\<exists>st. sp_settings s = Some st \<and> \<not> bs_meet_enabled st)
     \<and> (let s' = settings_saved (Inr demo_settings) s in
          setup_run demo_setup s' False False False rqs
          \<and> sp_saved s' \<and> (\<exists>st. sp_settings s' = Some st \<and> bs_meet_enabled st))"
proof -
  let ?s = "patchSettings (on_rules (Set_meet False)) demo_saving"
  have "fires_any (demo_setup demo_saving) (B_rules (Set_meet False))"
    by (simp add: setup_view_def settings_form_def fires_any_view_in rules_view_def or_else_def) blast
  then have r: "setup_run demo_setup ?s False False True [updateBookingSettings (settings_update demo_settings)]"
    by (rule su_event [OF demo_saving_run]) simp
  have "setup_run demo_setup (settings_saved (Inr demo_settings) ?s) False False False [updateBookingSettings (settings_update demo_settings)]"
    by (rule su_saved [OF r]) simp
  moreover have "\<exists>st. sp_settings ?s = Some st \<and> \<not> bs_meet_enabled st" by (simp add: patchSettings_def)
  moreover have "sp_saved (settings_saved (Inr demo_settings) ?s)"
    "\<exists>st. sp_settings (settings_saved (Inr demo_settings) ?s) = Some st \<and> bs_meet_enabled st"
    by (simp_all add: settings_saved_def demo_settings_def)
  ultimately show ?thesis using r unfolding Let_def by blast
qed

text \<open>
  Editing opening hours: only the day that is edited changes; a new range is the last
  of its day; removing it gives the hours before; changing an end of a range changes that end
  only; and the editor offers the seven days and no other key.
\<close>

theorem working_hours_edits:
  "(k \<noteq> d \<longrightarrow> day_ranges (addRange d w) k = day_ranges w k
      \<and> day_ranges (removeRange d i w) k = day_ranges w k \<and> day_ranges (updateRange d i f v w) k = day_ranges w k)
   \<and> length (day_ranges (addRange d w) d) = length (day_ranges w d) + 1
   \<and> day_ranges (removeRange d (length (day_ranges w d)) (addRange d w)) = day_ranges w
   \<and> (\<forall>j. j < length (day_ranges w d) \<longrightarrow>
        day_ranges (updateRange d i f v w) d ! j = (if j = i then set_end f v (day_ranges w d ! j) else day_ranges w d ! j))
   \<and> hr_e (set_end At_start v r) = hr_e r \<and> hr_s (set_end At_end v r) = hr_s r
   \<and> (fires (hours_view w) e \<longrightarrow> set (keys (on_hours e w)) \<subseteq> set (keys w) \<union> set (map fst WEEKDAYS))"
proof -
  have "fires (hours_view w) e \<Longrightarrow> set (keys (on_hours e w)) \<subseteq> set (keys w) \<union> set (map fst WEEKDAYS)"
  proof -
    assume "fires (hours_view w) e"
    then obtain kl where kl: "kl \<in> set WEEKDAYS"
      and e: "e = R_add (fst kl) \<or> (\<exists>i. e = R_remove (fst kl) i) \<or> (\<exists>i g x. e = R_update (fst kl) i g x)"
      by (auto simp: hours_view_def fires_any_map fires_any_mapi range_view_def Let_def case_prod_beta)
    then obtain rs where "on_hours e w = put (fst kl) rs w"
      by (auto simp: addRange_def removeRange_def updateRange_def setDay_def)
    then have "set (keys (on_hours e w)) = insert (fst kl) (set (keys w))" by simp
    with imageI [OF kl, of fst] show ?thesis by (simp only: set_map) blast
  qed
  moreover have "day_ranges (removeRange d (length (day_ranges w d)) (addRange d w)) = day_ranges w"
    by (rule ext) (simp add: removeRange_def addRange_def drop_index_def)
  ultimately show ?thesis
    by (auto simp: addRange_def removeRange_def updateRange_def set_end_def)
qed

theorem working_hours_edits_witness:
  "day_ranges (removeRange [48] 0 (addRange [48] [])) [49] = []
   \<and> set (keys (on_hours (R_add [48]) [])) \<subseteq> set (map fst WEEKDAYS)"
proof -
  have "fires (hours_view []) (R_add [48])"
    by (simp add: hours_view_def WEEKDAYS_def js_lit day_ranges_def mapi_def Let_def)
  with working_hours_edits [of "[49]" "[48]" "[]" 0 At_start "[]" _ "R_add [48]"]
    working_hours_edits [of "[49]" "[48]" "addRange [48] []" 0 At_start "[]" _ "R_add [48]"]
  show ?thesis by (auto simp: day_ranges_def)
qed

definition applied :: "'a \<Rightarrow> 'a field \<Rightarrow> 'a" where
  "applied old f = (case f of Omitted \<Rightarrow> old | Sent v \<Rightarrow> v)"

text \<open>
  Saving a service sends the difference and nothing else: a field is left out exactly
  when its draft is the value of the service; applying what is sent gives the drafts; the active
  flag is not touched; and something is always sent, with a positive duration and a price that
  is not negative.
\<close>

theorem service_row_saves_difference:
  assumes "fires (service_row_view svc busy r) Row_save"
  shows "\<exists>b. row_save svc r = Some b \<and> \<not> busy
    \<and> su_active b = Omitted
    \<and> \<not> (su_name b = Omitted \<and> su_duration_minutes b = Omitted \<and> su_description b = Omitted \<and> su_price b = Omitted)
    \<and> applied (svc_name svc) (su_name b) = trim (sr_name r) \<and> trim (sr_name r) \<noteq> []
    \<and> applied (Fin (of_int (svc_duration_minutes svc))) (su_duration_minutes b) = str_number (sr_duration r)
    \<and> positive (str_number (sr_duration r)) \<and> is_finite (str_number (sr_duration r))
    \<and> or_else (applied (svc_description svc) (su_description b)) [] = trim (sr_description r)
    \<and> applied (svc_price svc) (su_price b) = price_value (parsePrice (sr_price r))
    \<and> (\<forall>p. su_price b = Sent (Some p) \<longrightarrow> 0 \<le> p)"
proof -
  have d: "row_dirty svc r" "row_valid r" "\<not> busy" using assms by (auto simp: service_row_view_def)
  then have np: "parsePrice (sr_price r) \<noteq> Bad_price" by (simp add: row_valid_def Let_def)
  then obtain b where b: "row_save svc r = Some b" by (simp add: row_save_def Let_def)
  have "or_else (svc_description svc) [] = currentDesc svc"
    by (simp add: or_else_def currentDesc_def split: option.splits)
  moreover have "\<forall>p. su_price b = Sent (Some p) \<longrightarrow> 0 \<le> p"
    using b np price_value_nonneg [of "sr_price r"] by (auto simp: row_save_def Let_def split: if_splits)
  ultimately show ?thesis
    using b d np by (auto simp: row_save_def row_dirty_def row_valid_def Let_def applied_def same_duration_def)
qed

definition demo_service :: "nat \<Rightarrow> service_item" where
  "demo_service i =
     \<lparr>svc_id = [i], svc_name = [65], svc_duration_minutes = 30, svc_active = True, svc_description = None, svc_price = None,
      svc_created_at = []\<rparr>"

theorem service_row_saves_difference_witness:
  "\<exists>b. row_save (demo_service 49) \<lparr>sr_name = [66, 32], sr_duration = [51, 48], sr_description = [], sr_price = []\<rparr> = Some b
     \<and> applied [65] (su_name b) = [66]"
proof -
  let ?r = "\<lparr>sr_name = [66, 32], sr_duration = [51, 48], sr_description = [], sr_price = []\<rparr>"
  have t: "trim [66, 32] = [66]" "trim [51, 48] = [51, 48]" "trim [] = []" by (simp_all add: trim_def is_space_def)
  have "str_number [51, 48] = Fin 30" using str_number_nat_str [of 30] by (simp add: nat_str.simps [of 30] nat_str.simps [of 3])
  then have "fires (service_row_view (demo_service 49) False ?r) Row_save"
    using t by (simp add: service_row_view_def row_dirty_def row_valid_def demo_service_def parsePrice_def is_finite_def positive_def Let_def)
  from service_row_saves_difference [OF this] t show ?thesis by (auto simp: demo_service_def)
qed

text \<open>
  The lock on the row that is being saved is lost: one id remembers the busy row, so
  an update of a second service unlocks the first one while its update is still in flight, and
  the same service can be updated twice at the same time.
\<close>

theorem same_service_updated_twice:
  "\<exists>s. services_run [demo_service 49, demo_service 50] rows s [[49], [50], [49]]
     \<and> se_busyId s = Some [49] \<and> fires_any (services_view [demo_service 49, demo_service 50] rows s) (S_row [50] Row_toggle)"
proof -
  let ?svcs = "[demo_service 49, demo_service 50]"
  let ?s = "\<lambda>i. services_init\<lparr>se_busyId := Some [i], se_error := None\<rparr>"
  have "encodeURIComponent [49] = Some [49]" "encodeURIComponent [50] = Some [50]"
    by (simp_all add: encodeURIComponent_def is_high_def is_low_def utf8_def enc_byte_def uri_unreserved_def is_alnum_def)
  then have e: "encodeURIComponent [i] = Some [i]" if "i \<in> {49, 50}" for i :: nat using that by auto
  have p: "\<exists>rq. service_patch [i] body s = (s\<lparr>se_busyId := Some [i], se_error := None\<rparr>, Some rq)" if "i \<in> {49, 50}" for i body s
    using e [OF that] by (simp add: service_patch_def updateService_def with_component_def)
  have v: "fires_any (services_view ?svcs rows s) (S_row [i] Row_toggle)" if "i \<in> {49, 50}" "se_busyId s \<noteq> Some [i]" for i s
    using that by (auto simp: services_view_def fires_view_in service_row_view_def demo_service_def split: list.splits)
  have step: "services_run ?svcs rows (s\<lparr>se_busyId := Some [i], se_error := None\<rparr>) (fl @ [[i]])"
    if a: "services_run ?svcs rows s fl" "i \<in> {49, 50}" "se_busyId s \<noteq> Some [i]" for s fl i
  proof -
    obtain rq where "service_patch [i] (toggle_body (demo_service i)) s = (s\<lparr>se_busyId := Some [i], se_error := None\<rparr>, Some rq)"
      using p [OF a(2)] by blast
    then show ?thesis
      using sv_toggle [OF a(1), of "demo_service i" "s\<lparr>se_busyId := Some [i], se_error := None\<rparr>" rq] v [OF a(2,3)] a(2)
      by (auto simp: demo_service_def)
  qed
  have "services_run ?svcs rows (?s 49) [[49]]" using step [OF sv_start, of 49] by (simp add: services_init_def)
  from step [OF this, of 50] have "services_run ?svcs rows (?s 50) [[49], [50]]" by (simp add: services_init_def)
  from step [OF this, of 49] have "services_run ?svcs rows (?s 49) [[49], [50], [49]]" by (simp add: services_init_def)
  with v [of 50 "?s 49"] show ?thesis by (intro exI [of _ "?s 49"]) simp
qed

end
