(* ===== verification/BookingDesk.thy ===== *)
theory BookingDesk
  imports Clients ClientLaws Dates LeadSearch React
begin

text \<open>
  Managing one booking: \<open>components/booking/DatePicker.tsx\<close>, \<open>components/booking/RescheduleDialog.tsx\<close>,
  \<open>components/booking/BookingCard.tsx\<close> for the owner and \<open>pages/PublicManagePage.tsx\<close> for the customer.

  The day picker is a library component: \<open>picks\<close> says which days it may report, given the first
  and the last day it is asked for and the selected one; that it reports days of that range only
  is a hypothesis of the theorems (\<open>picker_ok\<close>).
\<close>

section \<open>DatePicker.tsx\<close>

type_synonym day_picker = "civil \<Rightarrow> civil option \<Rightarrow> civil option \<Rightarrow> civil \<Rightarrow> bool"

definition picker_ok :: "day_picker \<Rightarrow> bool" where
  "picker_ok picks \<longleftrightarrow>
     (\<forall>lo hi sel d. picks lo hi sel d \<longrightarrow> valid_civil d \<and> lo \<le> d \<and> (\<forall>h. hi = Some h \<longrightarrow> d \<le> h))"

text \<open>
  \<open>addDays(today, n)\<close> of \<open>bookingDates.ts\<close> for a number \<open>n\<close>: the \<open>Date\<close> constructor drops the
  fraction of the day, and a day that is not finite makes an invalid \<open>Date\<close> (\<open>None\<close>).
\<close>

definition num_trunc :: "rat \<Rightarrow> int" where
  "num_trunc r = (if 0 \<le> r then \<lfloor>r\<rfloor> else \<lceil>r\<rceil>)"

definition last_day :: "civil \<Rightarrow> js_num \<Rightarrow> civil option" where
  "last_day now n =
     (case n of
        Fin r \<Rightarrow> Some (newDate (year now) (int (month0 now)) (num_trunc (of_nat (day now) + r)))
      | _ \<Rightarrow> None)"

definition date_picker :: "day_picker \<Rightarrow> civil \<Rightarrow> jsstr \<Rightarrow> (jsstr \<Rightarrow> 'e) \<Rightarrow> js_num \<Rightarrow> 'e vnode" where
  "date_picker picks now value f maxDaysAhead =
     (let today = todayMidnight now;
          selected = (if value \<noteq> [] then fromDateString value else None)
      in El ''DayPicker''
           [On (\<lambda>e. \<exists>d. picks today (last_day today maxDaysAhead) selected d \<and> e = f (toDateString d))] [])"

section \<open>RescheduleDialog.tsx\<close>

record resched =
  rs_date :: jsstr
  rs_time :: jsstr

datatype resched_ui = Rs_date jsstr | Rs_time jsstr | Rs_escape | Rs_cancel | Rs_confirm jsstr jsstr

definition resched_init :: resched where
  "resched_init = \<lparr>rs_date = [], rs_time = []\<rparr>"

text \<open>The effect on \<open>open\<close>: the fields are emptied whenever the dialog opens.\<close>

definition resched_effect :: "bool \<Rightarrow> bool \<Rightarrow> resched \<Rightarrow> resched" where
  "resched_effect was_open now_open s =
     (if now_open \<noteq> was_open \<and> now_open then s\<lparr>rs_date := [], rs_time := []\<rparr> else s)"

definition canConfirm :: "bool \<Rightarrow> resched \<Rightarrow> bool" where
  "canConfirm saving s \<longleftrightarrow> rs_date s \<noteq> [] \<and> rs_time s \<noteq> [] \<and> \<not> saving"

definition resched_dialog ::
  "day_picker \<Rightarrow> civil \<Rightarrow> js_num \<Rightarrow> bool \<Rightarrow> bool \<Rightarrow> jsstr option \<Rightarrow> resched \<Rightarrow> resched_ui vnode list"
where
  "resched_dialog picks now maxDaysAhead opn saving err s =
     (if \<not> opn then []
      else
        [El ''dialog'' [Disabled saving, on_click Rs_escape] [],
         El ''h2'' [] [Txt (heb ''wairz nerc gcy'')],
         date_picker picks now (rs_date s) Rs_date maxDaysAhead,
         El ''label'' [] [Txt (heb ''yrd'')],
         El ''input'' [Attr ''type'' (lat ''time''), Attr ''value'' (rs_time s), Disabled saving, On (\<lambda>e. \<exists>t. e = Rs_time t)] []]
        @ (case err of None \<Rightarrow> [] | Some m \<Rightarrow> shown (m \<noteq> []) [El ''p'' [Attr ''role'' (lat ''alert'')] [Txt m]])
        @ [El ''button'' [Disabled saving, on_click Rs_cancel] [Txt (heb ''aihel'')],
           El ''button'' [Disabled (\<not> canConfirm saving s), on_click (Rs_confirm (rs_date s) (rs_time s))]
             [Txt (if saving then (heb ''yenx'' @ [8230]) else (heb ''@iyex nerc''))]])"

definition resched_typed :: "resched_ui \<Rightarrow> resched \<Rightarrow> resched" where
  "resched_typed e s =
     (case e of Rs_date d \<Rightarrow> s\<lparr>rs_date := d\<rparr> | Rs_time t \<Rightarrow> s\<lparr>rs_time := t\<rparr> | _ \<Rightarrow> s)"

lemma resched_offers:
  "fires_any (resched_dialog picks now maxd opn saving err s) e \<Longrightarrow>
     opn \<and>
     (case e of
        Rs_date x \<Rightarrow> \<exists>d sel. picks (todayMidnight now) (last_day (todayMidnight now) maxd) sel d \<and> x = toDateString d
      | Rs_confirm d t \<Rightarrow> \<not> saving \<and> d = rs_date s \<and> t = rs_time s \<and> d \<noteq> [] \<and> t \<noteq> []
      | _ \<Rightarrow> \<not> saving)"
  by (cases err; cases opn; cases saving; cases "rs_date s = []")
    (auto simp: resched_dialog_def date_picker_def canConfirm_def Let_def, blast+)

text \<open>A request whose URL cannot be built throws inside the \<open>try\<close> of its caller.\<close>

definition launch :: "('s \<Rightarrow> 's) \<Rightarrow> 's \<times> http_request option \<Rightarrow> 's \<times> http_request option" where
  "launch caught x = (case snd x of None \<Rightarrow> (caught (fst x), None) | Some rq \<Rightarrow> x)"

definition uri_error :: js_thrown where
  "uri_error = ThrownOther (lat ''URIError'')"

definition is_status :: "nat \<Rightarrow> js_thrown \<Rightarrow> bool" where
  "is_status n t = (case t of ThrownApi e \<Rightarrow> err_status e = n | ThrownOther m \<Rightarrow> False)"

section \<open>BookingCard.tsx\<close>

fun BOOKING_STATUS_META :: "booking_status \<Rightarrow> jsstr" where
  "BOOKING_STATUS_META B_pending = (heb ''nnzio'')"
| "BOOKING_STATUS_META B_confirmed = (heb ''n@eyx'')"
| "BOOKING_STATUS_META B_completed = (heb ''deylm'')"
| "BOOKING_STATUS_META B_cancelled = (heb ''aehl'')"

record booking_card =
  bc_busy :: bool
  bc_error :: "jsstr option"
  bc_showReschedule :: bool
  bc_rescheduling :: bool
  bc_rescheduleError :: "jsstr option"
  bc_fields :: resched

definition booking_card_init :: booking_card where
  "booking_card_init =
     \<lparr>bc_busy = False, bc_error = None, bc_showReschedule = False, bc_rescheduling = False,
      bc_rescheduleError = None, bc_fields = resched_init\<rparr>"

text \<open>Settling: the state, and whether \<open>onChanged\<close> is called.\<close>

definition status_patched :: "js_thrown option \<Rightarrow> booking_card \<Rightarrow> booking_card \<times> bool" where
  "status_patched r s =
     (case r of
        None \<Rightarrow> (s\<lparr>bc_busy := False\<rparr>, True)
      | Some err \<Rightarrow> (s\<lparr>bc_error := Some (toFriendlyError err (heb ''rckeo dtbiyd pkyl. pqe yea.'')), bc_busy := False\<rparr>, False))"

definition setStatus :: "booking_item \<Rightarrow> booking_status \<Rightarrow> booking_card \<Rightarrow> booking_card \<times> http_request option" where
  "setStatus b status s =
     launch (\<lambda>s. fst (status_patched (Some uri_error) s))
       (s\<lparr>bc_busy := True, bc_error := None\<rparr>,
        patchBooking (bk_id b) \<lparr>bp_status = Sent status, bp_date = Omitted, bp_time = Omitted\<rparr>)"

definition reschedule_patched :: "js_thrown option \<Rightarrow> booking_card \<Rightarrow> booking_card \<times> bool" where
  "reschedule_patched r s =
     (case r of
        None \<Rightarrow> (s\<lparr>bc_showReschedule := False, bc_rescheduling := False\<rparr>, True)
      | Some err \<Rightarrow>
          (s\<lparr>bc_rescheduleError := Some
               (if is_status 409 err then (heb ''dnerc dfd kax zteq. agxe nerc @gx.'')
                else toFriendlyError err (heb ''yipei dnerc pkyl. pqe yea.'')),
             bc_rescheduling := False\<rparr>, False))"

definition reschedule :: "booking_item \<Rightarrow> jsstr \<Rightarrow> jsstr \<Rightarrow> booking_card \<Rightarrow> booking_card \<times> http_request option" where
  "reschedule b d t s =
     launch (\<lambda>s. fst (reschedule_patched (Some uri_error) s))
       (s\<lparr>bc_rescheduling := True, bc_rescheduleError := None\<rparr>,
        patchBooking (bk_id b) \<lparr>bp_status = Omitted, bp_date = Sent d, bp_time = Sent t\<rparr>)"

definition booking_active :: "booking_item \<Rightarrow> bool" where
  "booking_active b \<longleftrightarrow> bk_status b = B_pending \<or> bk_status b = B_confirmed"

datatype booking_ui = BK_status booking_status | BK_open | BK_dialog resched_ui

definition open_reschedule :: "booking_card \<Rightarrow> booking_card" where
  "open_reschedule s =
     s\<lparr>bc_rescheduleError := None, bc_showReschedule := True,
       bc_fields := resched_effect (bc_showReschedule s) True (bc_fields s)\<rparr>"

definition cancel_reschedule :: "booking_card \<Rightarrow> booking_card" where
  "cancel_reschedule s = (if bc_rescheduling s then s else s\<lparr>bc_showReschedule := False\<rparr>)"

definition on_booking :: "booking_item \<Rightarrow> booking_ui \<Rightarrow> booking_card \<Rightarrow> booking_card \<times> http_request option" where
  "on_booking b e s =
     (case e of
        BK_status st \<Rightarrow> setStatus b st s
      | BK_open \<Rightarrow> (open_reschedule s, None)
      | BK_dialog (Rs_confirm d t) \<Rightarrow> reschedule b d t s
      | BK_dialog Rs_escape \<Rightarrow> (cancel_reschedule s, None)
      | BK_dialog Rs_cancel \<Rightarrow> (cancel_reschedule s, None)
      | BK_dialog x \<Rightarrow> (s\<lparr>bc_fields := resched_typed x (bc_fields s)\<rparr>, None))"

definition labelled :: "jsstr \<Rightarrow> jsstr option \<Rightarrow> 'e vnode list" where
  "labelled label v = shown (or_else v [] \<noteq> []) [El ''dt'' [] [Txt label], El ''dd'' [] [Txt (or_else v [])]]"

definition booking_view ::
  "(jsstr option \<Rightarrow> jsstr) \<Rightarrow> day_picker \<Rightarrow> civil \<Rightarrow> js_num \<Rightarrow> booking_item \<Rightarrow> booking_card \<Rightarrow> booking_ui vnode list"
where
  "booking_view full picks now maxd b s =
     [El ''p'' [] ([Txt (if or_else (bk_service_name b) [] \<noteq> [] then or_else (bk_service_name b) [] else (heb ''tbiyd''))]
        @ shown (bk_is_test b) [Txt ([183] @ heb '' aciwd'')]),
      El ''p'' [] [Txt (full (Some (bk_scheduled_at b)) @ (lat '' '' @ [183] @ lat '' '') @ int_str (bk_duration_minutes b) @ (heb '' cw'' @ [1523]))],
      El ''Badge'' [] [Txt (BOOKING_STATUS_META (bk_status b))]]
     @ labelled (heb ''ym'') (bk_client_name b) @ labelled (heb ''hlteo'') (bk_client_phone b) @ labelled (heb ''@iniil'') (bk_client_email b)
     @ shown (or_else (bk_notes b) [] \<noteq> []) [El ''p'' [] [Txt (heb ''drxez: ''), Txt (or_else (bk_notes b) [])]]
     @ shown (or_else (bk_meet_link b) [] \<noteq> [])
         [El ''a'' [Attr ''href'' (or_else (bk_meet_link b) [])] [Txt (heb ''dvhxs l-G'' @ lat ''oogle Meet'')]]
     @ shown (or_else (bk_lead_id b) [] \<noteq> []) [El ''a'' [Attr ''href'' (lat ''/leads'')] [Txt (heb ''vtiid alic dnweyx'')]]
     @ shown (bk_status b = B_pending) [El ''button'' [on_click (BK_status B_confirmed), Disabled (bc_busy s)] [Txt (heb ''@yx'')]]
     @ shown (booking_active b)
         [El ''button'' [on_click BK_open, Disabled (bc_busy s)] [Txt (heb ''ypd nerc'')],
          El ''button'' [on_click (BK_status B_completed), Disabled (bc_busy s)] [Txt (heb ''deylm'')],
          El ''button'' [on_click (BK_status B_cancelled), Disabled (bc_busy s)] [Txt (heb ''ahl'')]]
     @ (case bc_error s of None \<Rightarrow> [] | Some m \<Rightarrow> shown (m \<noteq> []) [El ''p'' [Attr ''role'' (lat ''alert'')] [Txt m]])
     @ map (view_in BK_dialog)
         (resched_dialog picks now maxd (bc_showReschedule s) (bc_rescheduling s) (bc_rescheduleError s) (bc_fields s))"

text \<open>Runs of a card: what is offered, and its requests answered in any order.\<close>

datatype patch_call = Status_call | Move_call

fun call_of :: "booking_ui \<Rightarrow> patch_call" where
  "call_of (BK_status st) = Status_call"
| "call_of BK_open = Move_call"
| "call_of (BK_dialog x) = Move_call"

inductive booking_run ::
  "(booking_card \<Rightarrow> booking_ui vnode list) \<Rightarrow> booking_item \<Rightarrow> booking_card \<Rightarrow> patch_call list \<Rightarrow> http_request list \<Rightarrow> bool"
  for view b
where
  bk_mount: "booking_run view b booking_card_init [] []"
| bk_event: "booking_run view b s cs rqs \<Longrightarrow> fires_any (view s) e \<Longrightarrow> on_booking b e s = (s', rq) \<Longrightarrow>
    booking_run view b s' (cs @ map (\<lambda>_. call_of e) (opt_list rq)) (rqs @ opt_list rq)"
| bk_status_done: "booking_run view b s cs rqs \<Longrightarrow> Status_call \<in> set cs \<Longrightarrow>
    booking_run view b (fst (status_patched r s)) (remove1 Status_call cs) rqs"
| bk_move_done: "booking_run view b s cs rqs \<Longrightarrow> Move_call \<in> set cs \<Longrightarrow>
    booking_run view b (fst (reschedule_patched r s)) (remove1 Move_call cs) rqs"

definition bookable :: "civil \<Rightarrow> js_num \<Rightarrow> civil \<Rightarrow> bool" where
  "bookable now maxd d \<longleftrightarrow>
     valid_civil d \<and> todayMidnight now \<le> d \<and> (\<forall>h. last_day (todayMidnight now) maxd = Some h \<longrightarrow> d \<le> h)"

definition chosen_ok :: "civil \<Rightarrow> js_num \<Rightarrow> resched \<Rightarrow> bool" where
  "chosen_ok now maxd f \<longleftrightarrow> rs_date f \<noteq> [] \<longrightarrow> (\<exists>d. bookable now maxd d \<and> rs_date f = toDateString d)"

definition card_ok :: "civil \<Rightarrow> js_num \<Rightarrow> booking_item \<Rightarrow> booking_card \<Rightarrow> patch_call list \<Rightarrow> bool" where
  "card_ok now maxd b s cs \<longleftrightarrow>
     distinct cs \<and> (bc_busy s \<longleftrightarrow> Status_call \<in> set cs) \<and> (bc_rescheduling s \<longleftrightarrow> Move_call \<in> set cs)
     \<and> (bc_showReschedule s \<longrightarrow> booking_active b)
     \<and> chosen_ok now maxd (bc_fields s)"

definition status_patch :: "booking_status \<Rightarrow> booking_patch" where
  "status_patch st = \<lparr>bp_status = Sent st, bp_date = Omitted, bp_time = Omitted\<rparr>"

definition move_patch :: "jsstr \<Rightarrow> jsstr \<Rightarrow> booking_patch" where
  "move_patch d t = \<lparr>bp_status = Omitted, bp_date = Sent d, bp_time = Sent t\<rparr>"

definition patch_ok :: "civil \<Rightarrow> js_num \<Rightarrow> booking_item \<Rightarrow> http_request \<Rightarrow> bool" where
  "patch_ok now maxd b rq \<longleftrightarrow>
     booking_active b \<and>
     ((\<exists>st. patchBooking (bk_id b) (status_patch st) = Some rq \<and> st \<noteq> B_pending
         \<and> (st = B_confirmed \<longrightarrow> bk_status b = B_pending))
      \<or> (\<exists>d t. patchBooking (bk_id b) (move_patch (toDateString d) t) = Some rq \<and> bookable now maxd d \<and> t \<noteq> []))"

lemma booking_offers:
  assumes "fires_any (booking_view full picks now maxd b s) e"
  shows "booking_active b \<and> \<not> bc_busy s \<and>
      (case e of BK_status st \<Rightarrow> st \<noteq> B_pending \<and> (st = B_confirmed \<longrightarrow> bk_status b = B_pending) | BK_open \<Rightarrow> True | BK_dialog x \<Rightarrow> False)
    \<or> (\<exists>x. e = BK_dialog x \<and> fires_any (resched_dialog picks now maxd (bc_showReschedule s) (bc_rescheduling s) (bc_rescheduleError s) (bc_fields s)) x)"
  using assms
  by (cases "bc_error s") (auto simp: booking_view_def labelled_def fires_any_view_in booking_active_def)

lemma picked_bookable:
  "picker_ok picks \<Longrightarrow> picks (todayMidnight now) (last_day (todayMidnight now) maxd) sel d \<Longrightarrow> bookable now maxd d"
  by (auto simp: picker_ok_def bookable_def)

lemma chosen_ok_simps [simp]:
  "chosen_ok now maxd resched_init"
  "chosen_ok now maxd f \<Longrightarrow> chosen_ok now maxd (resched_effect w n f)"
  "chosen_ok now maxd (f\<lparr>rs_time := t\<rparr>) = chosen_ok now maxd f"
  by (auto simp: chosen_ok_def resched_init_def resched_effect_def)

lemma chosen_typed:
  assumes "picker_ok picks" "fires_any (resched_dialog picks now maxd opn saving err f) x" "chosen_ok now maxd f"
  shows "chosen_ok now maxd (resched_typed x f)"
  using resched_offers [OF assms(2)] picked_bookable [OF assms(1)] assms(3)
  by (cases x) (auto simp: resched_typed_def chosen_ok_def, blast+)

lemma confirmed_day:
  assumes "fires_any (resched_dialog picks now maxd opn saving err f) (Rs_confirm d t)" "chosen_ok now maxd f"
  shows "opn \<and> \<not> saving \<and> t \<noteq> [] \<and> (\<exists>y. bookable now maxd y \<and> d = toDateString y)"
  using resched_offers [OF assms(1)] assms(2) by (auto simp: chosen_ok_def)

lemma launch_calls:
  "launch f (s, rq) = (s', rq') \<Longrightarrow> rq' = rq \<and> s' = (case rq of None \<Rightarrow> f s | Some x \<Rightarrow> s)"
  by (auto simp: launch_def split: option.splits)

lemma card_event:
  assumes ok: "card_ok now maxd b s cs" and p: "picker_ok picks"
    and f: "fires_any (booking_view full picks now maxd b s) e" and o: "on_booking b e s = (s', rq)"
  shows "card_ok now maxd b s' (cs @ map (\<lambda>_. call_of e) (opt_list rq)) \<and> (\<forall>x. rq = Some x \<longrightarrow> patch_ok now maxd b x)"
  using booking_offers [OF f]
proof
  assume a: "booking_active b \<and> \<not> bc_busy s \<and>
      (case e of BK_status st \<Rightarrow> st \<noteq> B_pending \<and> (st = B_confirmed \<longrightarrow> bk_status b = B_pending) | BK_open \<Rightarrow> True | BK_dialog x \<Rightarrow> False)"
  show ?thesis
  proof (cases e)
    case (BK_status st)
    with o have "patchBooking (bk_id b) (status_patch st) = rq"
      "s' = (case rq of None \<Rightarrow> fst (status_patched (Some uri_error) (s\<lparr>bc_busy := True, bc_error := None\<rparr>)) | Some x \<Rightarrow> s\<lparr>bc_busy := True, bc_error := None\<rparr>)"
      by (auto simp: on_booking_def setStatus_def status_patch_def dest!: launch_calls)
    with a ok BK_status show ?thesis
      by (cases rq) (auto simp: card_ok_def status_patched_def patch_ok_def)
  next
    case BK_open
    with o a ok show ?thesis
      by (auto simp: on_booking_def open_reschedule_def card_ok_def)
  qed (use a in auto)
next
  assume "\<exists>x. e = BK_dialog x \<and> fires_any (resched_dialog picks now maxd (bc_showReschedule s) (bc_rescheduling s) (bc_rescheduleError s) (bc_fields s)) x"
  then obtain x where x: "e = BK_dialog x"
    and g: "fires_any (resched_dialog picks now maxd (bc_showReschedule s) (bc_rescheduling s) (bc_rescheduleError s) (bc_fields s)) x"
    by auto
  show ?thesis
  proof (cases x)
    case (Rs_date d)
    with ok o x chosen_typed [OF p g] show ?thesis by (auto simp: on_booking_def card_ok_def)
  next
    case (Rs_time t)
    with ok o x chosen_typed [OF p g] show ?thesis by (auto simp: on_booking_def card_ok_def)
  next
    case (Rs_confirm d t)
    from ok have "chosen_ok now maxd (bc_fields s)" by (simp add: card_ok_def)
    with confirmed_day g Rs_confirm obtain y where c: "bc_showReschedule s" "\<not> bc_rescheduling s" "t \<noteq> []"
      "bookable now maxd y" "d = toDateString y" by meson
    from o x Rs_confirm have r: "patchBooking (bk_id b) (move_patch d t) = rq"
      "s' = (case rq of None \<Rightarrow> fst (reschedule_patched (Some uri_error) (s\<lparr>bc_rescheduling := True, bc_rescheduleError := None\<rparr>))
             | Some x \<Rightarrow> s\<lparr>bc_rescheduling := True, bc_rescheduleError := None\<rparr>)"
      by (auto simp: on_booking_def reschedule_def move_patch_def dest!: launch_calls)
    with c ok x show ?thesis
      by (cases rq) (auto simp: card_ok_def reschedule_patched_def patch_ok_def)
  qed (use ok o x in \<open>auto simp: on_booking_def cancel_reschedule_def card_ok_def\<close>)
qed

lemma card_settled:
  assumes "card_ok now maxd b s cs"
  shows "Status_call \<in> set cs \<Longrightarrow> card_ok now maxd b (fst (status_patched r s)) (remove1 Status_call cs)"
    and "Move_call \<in> set cs \<Longrightarrow> card_ok now maxd b (fst (reschedule_patched r s)) (remove1 Move_call cs)"
  using assms by (auto simp: card_ok_def status_patched_def reschedule_patched_def split: option.splits)

lemma booking_run_ok:
  assumes "booking_run view b s cs rqs" and v: "view = booking_view full picks now maxd b" and p: "picker_ok picks"
  shows "card_ok now maxd b s cs \<and> (\<forall>x \<in> set rqs. patch_ok now maxd b x)"
  using assms(1)
proof (induction rule: booking_run.induct)
  case bk_mount
  show ?case by (simp add: card_ok_def booking_card_init_def)
next
  case (bk_event s cs rqs e s' rq)
  with v card_event [OF _ p, of now maxd b s cs full e s' rq] show ?case by (cases rq) auto
qed (auto intro: card_settled)


text \<open>A booking that waits for the owner.\<close>

definition pending_booking :: booking_item where
  "pending_booking =
     \<lparr>bk_id = [49], bk_service_id = None, bk_service_name = None, bk_lead_id = None, bk_client_name = None,
      bk_client_phone = None, bk_client_email = None, bk_scheduled_at = [], bk_duration_minutes = 30,
      bk_status = B_pending, bk_notes = None, bk_google_event_id = None, bk_meet_link = None,
      bk_is_test = False, bk_created_at = [], bk_updated_at = []\<rparr>"

lemma encode_one: "encodeURIComponent [49] = Some [49]"
  by (simp add: encodeURIComponent_def is_high_def is_low_def utf8_def enc_byte_def uri_unreserved_def is_alnum_def)


section \<open>PublicManagePage.tsx\<close>

datatype manage_kind = M_cancelled | M_rescheduled

record manage_response =
  mr_booking_id :: jsstr
  mr_status :: booking_status
  mr_scheduled_at :: jsstr

record manage_page =
  mg_busy :: bool
  mg_error :: "jsstr option"
  mg_done :: "(manage_kind \<times> manage_response) option"
  mg_showReschedule :: bool
  mg_rescheduling :: bool
  mg_rescheduleError :: "jsstr option"
  mg_fields :: resched

definition manage_init :: manage_page where
  "manage_init =
     \<lparr>mg_busy = False, mg_error = None, mg_done = None, mg_showReschedule = False,
      mg_rescheduling = False, mg_rescheduleError = None, mg_fields = resched_init\<rparr>"

definition no_such_booking :: jsstr where
  "no_such_booking = (heb ''dwiyex @ipe zwio @e ydzex kax @ipe wiim.'')"

definition cancel_settled :: "(js_thrown + manage_response) \<Rightarrow> manage_page \<Rightarrow> manage_page" where
  "cancel_settled r s =
     (case r of
        Inr res \<Rightarrow> s\<lparr>mg_done := Some (M_cancelled, res)\<rparr>
      | Inl err \<Rightarrow>
          s\<lparr>mg_error := Some (if is_status 404 err then no_such_booking
             else toFriendlyError err (heb ''aihel dzex pkyl. pqe yea.''))\<rparr>)\<lparr>mg_busy := False\<rparr>"

text \<open>\<open>answer\<close> is that of \<open>window.confirm\<close>.\<close>

definition manage_cancel :: "jsstr \<Rightarrow> jsstr \<Rightarrow> bool \<Rightarrow> manage_page \<Rightarrow> manage_page \<times> http_request option" where
  "manage_cancel slug token answer s =
     (if \<not> answer then (s, None)
      else launch (cancel_settled (Inl uri_error))
        (s\<lparr>mg_busy := True, mg_error := None\<rparr>, cancelPublicBooking slug token))"

definition move_settled :: "(js_thrown + manage_response) \<Rightarrow> manage_page \<Rightarrow> manage_page" where
  "move_settled r s =
     (case r of
        Inr res \<Rightarrow> s\<lparr>mg_showReschedule := False, mg_done := Some (M_rescheduled, res)\<rparr>
      | Inl err \<Rightarrow>
          s\<lparr>mg_rescheduleError := Some
              (if is_status 409 err then (heb ''dnerc dfd zteq. agxe nerc @gx.'')
               else if is_status 404 err then no_such_booking
               else toFriendlyError err (heb ''yipei dnerc pkyl. pqe yea.''))\<rparr>)\<lparr>mg_rescheduling := False\<rparr>"

definition manage_move :: "jsstr \<Rightarrow> jsstr \<Rightarrow> jsstr \<Rightarrow> jsstr \<Rightarrow> manage_page \<Rightarrow> manage_page \<times> http_request option" where
  "manage_move slug token d t s =
     launch (move_settled (Inl uri_error))
       (s\<lparr>mg_rescheduling := True, mg_rescheduleError := None\<rparr>, reschedulePublicBooking slug token d t)"

datatype manage_ui = MG_cancel bool | MG_open | MG_dialog resched_ui

definition manage_close :: "manage_page \<Rightarrow> manage_page" where
  "manage_close s = (if mg_rescheduling s then s else s\<lparr>mg_showReschedule := False\<rparr>)"

definition on_manage :: "jsstr \<Rightarrow> jsstr \<Rightarrow> manage_ui \<Rightarrow> manage_page \<Rightarrow> manage_page \<times> http_request option" where
  "on_manage slug token e s =
     (case e of
        MG_cancel answer \<Rightarrow> manage_cancel slug token answer s
      | MG_open \<Rightarrow>
          (s\<lparr>mg_rescheduleError := None, mg_showReschedule := True,
             mg_fields := resched_effect (mg_showReschedule s) True (mg_fields s)\<rparr>, None)
      | MG_dialog (Rs_confirm d t) \<Rightarrow> manage_move slug token d t s
      | MG_dialog Rs_escape \<Rightarrow> (manage_close s, None)
      | MG_dialog Rs_cancel \<Rightarrow> (manage_close s, None)
      | MG_dialog x \<Rightarrow> (s\<lparr>mg_fields := resched_typed x (mg_fields s)\<rparr>, None))"

definition DEFAULT_DAYS_AHEAD :: js_num where "DEFAULT_DAYS_AHEAD = Fin 30"

definition manage_view ::
  "(jsstr option \<Rightarrow> jsstr) \<Rightarrow> day_picker \<Rightarrow> civil \<Rightarrow> jsstr \<Rightarrow> manage_page \<Rightarrow> manage_ui vnode list"
where
  "manage_view full picks now slug s =
     (case mg_done s of
        Some (k, res) \<Rightarrow>
          [El ''h1'' [] [Txt (if k = M_cancelled then (heb ''dzex aehl'') else (heb ''dnerc recko''))]]
          @ shown (k = M_rescheduled) [El ''p'' [] [Txt (full (Some (mr_scheduled_at res)))]]
          @ [El ''a'' [Attr ''href'' ((lat ''/book/'') @ slug)] [Txt (heb ''wairz zex gcy'')]]
      | None \<Rightarrow>
          [El ''h1'' [] [Txt (heb ''pidel dzex ylkm'')], El ''p'' [] [Txt (heb ''agxe treld: yipei nerc @e aihel.'')]]
          @ (case mg_error s of None \<Rightarrow> [] | Some m \<Rightarrow> shown (m \<noteq> []) [El ''Alert'' [] [Txt m]])
          @ [El ''button'' [on_click MG_open, Disabled (mg_busy s)] [Txt (heb ''yipei nerc'')],
             El ''button'' [On (\<lambda>e. \<exists>a. e = MG_cancel a), Disabled (mg_busy s)]
               [Txt (if mg_busy s then (heb ''nahl'' @ [8230]) else (heb ''aihel dzex''))]]
          @ map (view_in MG_dialog)
              (resched_dialog picks now DEFAULT_DAYS_AHEAD (mg_showReschedule s) (mg_rescheduling s) (mg_rescheduleError s) (mg_fields s)))"

fun manage_call_of :: "manage_ui \<Rightarrow> patch_call" where
  "manage_call_of (MG_cancel a) = Status_call"
| "manage_call_of MG_open = Move_call"
| "manage_call_of (MG_dialog x) = Move_call"

inductive manage_run ::
  "(manage_page \<Rightarrow> manage_ui vnode list) \<Rightarrow> jsstr \<Rightarrow> jsstr \<Rightarrow> manage_page \<Rightarrow> patch_call list \<Rightarrow> http_request list \<Rightarrow> bool"
  for view slug token
where
  mg_mount: "manage_run view slug token manage_init [] []"
| mg_event: "manage_run view slug token s cs rqs \<Longrightarrow> fires_any (view s) e \<Longrightarrow> on_manage slug token e s = (s', rq) \<Longrightarrow>
    manage_run view slug token s' (cs @ map (\<lambda>_. manage_call_of e) (opt_list rq)) (rqs @ opt_list rq)"
| mg_cancel_done: "manage_run view slug token s cs rqs \<Longrightarrow> Status_call \<in> set cs \<Longrightarrow>
    manage_run view slug token (cancel_settled r s) (remove1 Status_call cs) rqs"
| mg_move_done: "manage_run view slug token s cs rqs \<Longrightarrow> Move_call \<in> set cs \<Longrightarrow>
    manage_run view slug token (move_settled r s) (remove1 Move_call cs) rqs"

definition manage_ok :: "civil \<Rightarrow> manage_page \<Rightarrow> patch_call list \<Rightarrow> bool" where
  "manage_ok now s cs \<longleftrightarrow>
     distinct cs \<and> (mg_busy s \<longleftrightarrow> Status_call \<in> set cs) \<and> (mg_rescheduling s \<longleftrightarrow> Move_call \<in> set cs)
     \<and> chosen_ok now DEFAULT_DAYS_AHEAD (mg_fields s)"

definition manage_request_ok :: "civil \<Rightarrow> jsstr \<Rightarrow> jsstr \<Rightarrow> http_request \<Rightarrow> bool" where
  "manage_request_ok now slug token rq \<longleftrightarrow>
     cancelPublicBooking slug token = Some rq
     \<or> (\<exists>d t. reschedulePublicBooking slug token (toDateString d) t = Some rq \<and> bookable now DEFAULT_DAYS_AHEAD d \<and> t \<noteq> [])"

lemma manage_offers:
  assumes "fires_any (manage_view full picks now slug s) e"
  shows "mg_done s = None \<and>
    ((e = MG_open \<or> (\<exists>a. e = MG_cancel a)) \<and> \<not> mg_busy s
     \<or> (\<exists>x. e = MG_dialog x \<and> fires_any (resched_dialog picks now DEFAULT_DAYS_AHEAD (mg_showReschedule s) (mg_rescheduling s) (mg_rescheduleError s) (mg_fields s)) x))"
  using assms
  by (cases "mg_done s"; cases "mg_error s") (auto simp: manage_view_def fires_any_view_in)

lemma manage_event:
  assumes ok: "manage_ok now s cs" and p: "picker_ok picks"
    and f: "fires_any (manage_view full picks now slug s) e" and o: "on_manage slug token e s = (s', rq)"
  shows "manage_ok now s' (cs @ map (\<lambda>_. manage_call_of e) (opt_list rq)) \<and> (\<forall>x. rq = Some x \<longrightarrow> manage_request_ok now slug token x)"
proof (cases e)
  case (MG_cancel a)
  with manage_offers [OF f] have nb: "\<not> mg_busy s" by auto
  show ?thesis
  proof (cases a)
    case True
    with MG_cancel o have r: "cancelPublicBooking slug token = rq"
      "s' = (case rq of None \<Rightarrow> cancel_settled (Inl uri_error) (s\<lparr>mg_busy := True, mg_error := None\<rparr>) | Some x \<Rightarrow> s\<lparr>mg_busy := True, mg_error := None\<rparr>)"
      by (auto simp: on_manage_def manage_cancel_def dest!: launch_calls)
    with nb ok MG_cancel show ?thesis
      by (cases rq) (auto simp: manage_ok_def cancel_settled_def manage_request_ok_def)
  qed (use MG_cancel o ok in \<open>auto simp: on_manage_def manage_cancel_def\<close>)
next
  case MG_open
  with o ok show ?thesis by (auto simp: on_manage_def manage_ok_def)
next
  case (MG_dialog x)
  with manage_offers [OF f] have g: "fires_any (resched_dialog picks now DEFAULT_DAYS_AHEAD (mg_showReschedule s) (mg_rescheduling s) (mg_rescheduleError s) (mg_fields s)) x"
    by auto
  show ?thesis
  proof (cases x)
    case (Rs_date d)
    with ok o MG_dialog chosen_typed [OF p g] show ?thesis by (auto simp: on_manage_def manage_ok_def)
  next
    case (Rs_time t)
    with ok o MG_dialog chosen_typed [OF p g] show ?thesis by (auto simp: on_manage_def manage_ok_def)
  next
    case (Rs_confirm d t)
    from ok have "chosen_ok now DEFAULT_DAYS_AHEAD (mg_fields s)" by (simp add: manage_ok_def)
    with confirmed_day g Rs_confirm obtain y where c: "\<not> mg_rescheduling s" "t \<noteq> []"
      "bookable now DEFAULT_DAYS_AHEAD y" "d = toDateString y" by meson
    from o MG_dialog Rs_confirm have r: "reschedulePublicBooking slug token d t = rq"
      "s' = (case rq of None \<Rightarrow> move_settled (Inl uri_error) (s\<lparr>mg_rescheduling := True, mg_rescheduleError := None\<rparr>)
             | Some x \<Rightarrow> s\<lparr>mg_rescheduling := True, mg_rescheduleError := None\<rparr>)"
      by (auto simp: on_manage_def manage_move_def dest!: launch_calls)
    with c ok MG_dialog show ?thesis
      by (cases rq) (auto simp: manage_ok_def move_settled_def manage_request_ok_def)
  qed (use ok o MG_dialog in \<open>auto simp: on_manage_def manage_close_def manage_ok_def\<close>)
qed

lemma manage_run_ok:
  assumes "manage_run view slug token s cs rqs" and v: "view = manage_view full picks now slug" and p: "picker_ok picks"
  shows "manage_ok now s cs \<and> (\<forall>x \<in> set rqs. manage_request_ok now slug token x)"
  using assms(1)
proof (induction rule: manage_run.induct)
  case mg_mount
  show ?case by (simp add: manage_ok_def manage_init_def)
next
  case (mg_event s cs rqs e s' rq)
  with v manage_event [OF _ p, of now s cs full slug e token s' rq] show ?case by (cases rq) auto
qed (auto simp: manage_ok_def cancel_settled_def move_settled_def split: sum.splits)



end
