(* ===== verification/BookingsBoard.thy ===== *)
theory BookingsBoard
  imports BookingDesk Conversations Leads "HOL-Library.Multiset"
begin

text \<open>
  The owner's bookings (\<open>components/booking/BookingsPanel.tsx\<close>), their calendar
  (\<open>components/booking/BookingsCalendar.tsx\<close>) and the tabs around them (\<open>pages/AppointmentsPage.tsx\<close>).

  The calendar works with a date library (\<open>date-fns\<close>), which is a parameter: \<open>date_fns_ok\<close> is what its
  documentation says of the functions that are used. A \<open>Date\<close> is its local day; \<open>local\<close> reads a time
  stamp as its local day and its milliseconds, \<open>None\<close> being an invalid \<open>Date\<close>.
\<close>

section \<open>The date library\<close>

record date_fns =
  df_addDays :: "civil \<Rightarrow> int \<Rightarrow> civil"
  df_addWeeks :: "civil \<Rightarrow> int \<Rightarrow> civil"
  df_addMonths :: "civil \<Rightarrow> int \<Rightarrow> civil"
  df_eachDayOfInterval :: "civil \<Rightarrow> civil \<Rightarrow> civil list"
  df_startOfWeek :: "civil \<Rightarrow> civil"
  df_endOfWeek :: "civil \<Rightarrow> civil"
  df_startOfMonth :: "civil \<Rightarrow> civil"
  df_endOfMonth :: "civil \<Rightarrow> civil"
  df_isSameDay :: "civil \<Rightarrow> civil \<Rightarrow> bool"
  df_isSameMonth :: "civil \<Rightarrow> civil \<Rightarrow> bool"
  df_format :: "civil \<Rightarrow> jsstr \<Rightarrow> jsstr"
  df_format_he :: "civil \<Rightarrow> jsstr \<Rightarrow> jsstr"

definition ISO_DAY :: jsstr where "ISO_DAY = (lat ''yyyy-MM-dd'')"

definition date_fns_ok :: "date_fns \<Rightarrow> bool" where
  "date_fns_ok df \<longleftrightarrow>
     (\<forall>a b. valid_civil a \<and> valid_civil b \<longrightarrow>
        (\<forall>n. df_addDays df a n = plus_days a n \<and> df_addWeeks df a n = plus_days a (7 * n))
        \<and> (\<forall>n. valid_civil (df_addMonths df a n))
        \<and> df_startOfWeek df a = plus_days a (- getDay a) \<and> df_endOfWeek df a = plus_days a (6 - getDay a)
        \<and> df_startOfMonth df a = Civil (year a) (month0 a) 1
        \<and> df_endOfMonth df a = Civil (year a) (month0 a) (month_days (year a) (month0 a))
        \<and> (day_num a \<le> day_num b \<longrightarrow>
             df_eachDayOfInterval df a b = map (\<lambda>i. plus_days a (int i)) [0..<nat (day_num b - day_num a) + 1])
        \<and> (df_isSameDay df a b \<longleftrightarrow> a = b)
        \<and> (df_isSameMonth df a b \<longleftrightarrow> year a = year b \<and> month0 a = month0 b)
        \<and> (df_format df a ISO_DAY = df_format df b ISO_DAY \<longleftrightarrow> a = b))"

section \<open>BookingsCalendar.tsx\<close>

datatype cal_view = V_day | V_week | V_month

definition HEB_DOW :: "jsstr list" where
  "HEB_DOW = [(heb ''@''), (heb ''a''), (heb ''b''), (heb ''c''), (heb ''d''), (heb ''e''), (heb ''y'')]"

definition VIEWS :: "(cal_view \<times> jsstr) list" where
  "VIEWS = [(V_day, (heb ''iem'')), (V_week, (heb ''yaer'')), (V_month, (heb ''gecy''))]"

type_synonym local_date = "jsstr \<Rightarrow> (civil \<times> int) option"

definition dayKey :: "date_fns \<Rightarrow> civil \<Rightarrow> jsstr" where
  "dayKey df d = df_format df d ISO_DAY"

record calendar =
  ca_view :: cal_view
  ca_cursor :: civil

definition calendar_init :: "civil \<Rightarrow> calendar" where
  "calendar_init selectedDay = \<lparr>ca_view = V_month, ca_cursor = selectedDay\<rparr>"

text \<open>\<open>None\<close>: \<open>format\<close> throws on an invalid \<open>Date\<close>.\<close>

fun countByDay :: "date_fns \<Rightarrow> local_date \<Rightarrow> booking_item list \<Rightarrow> nat obj \<Rightarrow> nat obj option" where
  "countByDay df local [] m = Some m"
| "countByDay df local (b # bs) m =
     (if bk_status b = B_cancelled then countByDay df local bs m
      else case local (bk_scheduled_at b) of
          None \<Rightarrow> None
        | Some (d, t) \<Rightarrow>
            (let k = dayKey df d in
             countByDay df local bs (put k ((case get m k of None \<Rightarrow> 0 | Some n \<Rightarrow> n) + 1) m)))"

text \<open>Each handler: the state, and the day handed to \<open>onSelectDay\<close>.\<close>

definition changeView :: "civil \<Rightarrow> cal_view \<Rightarrow> calendar \<Rightarrow> calendar" where
  "changeView selectedDay nxt s =
     (if nxt = V_day then s\<lparr>ca_view := nxt, ca_cursor := selectedDay\<rparr> else s\<lparr>ca_view := nxt\<rparr>)"

definition step_cal :: "date_fns \<Rightarrow> int \<Rightarrow> calendar \<Rightarrow> calendar \<times> civil option" where
  "step_cal df dir s =
     (case ca_view s of
        V_day \<Rightarrow> (let nxt = df_addDays df (ca_cursor s) dir in (s\<lparr>ca_cursor := nxt\<rparr>, Some nxt))
      | V_month \<Rightarrow> (s\<lparr>ca_cursor := df_addMonths df (ca_cursor s) dir\<rparr>, None)
      | V_week \<Rightarrow> (s\<lparr>ca_cursor := df_addWeeks df (ca_cursor s) dir\<rparr>, None))"

definition pickDay :: "civil \<Rightarrow> calendar \<Rightarrow> calendar \<times> civil option" where
  "pickDay d s = (s\<lparr>ca_cursor := d\<rparr>, Some d)"

datatype cal_ui = Ca_view cal_view | Ca_step int | Ca_pick civil

definition on_calendar :: "date_fns \<Rightarrow> civil \<Rightarrow> cal_ui \<Rightarrow> calendar \<Rightarrow> calendar \<times> civil option" where
  "on_calendar df selectedDay e s =
     (case e of
        Ca_view v \<Rightarrow> (changeView selectedDay v s, None)
      | Ca_step dir \<Rightarrow> step_cal df dir s
      | Ca_pick d \<Rightarrow> pickDay d s)"

definition day_label :: jsstr where "day_label = (lat ''EEEE, d '' @ heb ''a'' @ lat ''MMMM'')"

definition cal_label :: "date_fns \<Rightarrow> calendar \<Rightarrow> jsstr" where
  "cal_label df s =
     (case ca_view s of
        V_month \<Rightarrow> df_format_he df (ca_cursor s) (lat ''LLLL yyyy'')
      | V_week \<Rightarrow>
          df_format_he df (df_startOfWeek df (ca_cursor s)) (lat ''d MMM'') @ (lat '' '' @ [8211] @ lat '' '')
          @ df_format_he df (df_endOfWeek df (ca_cursor s)) (lat ''d MMM'')
      | V_day \<Rightarrow> df_format_he df (ca_cursor s) day_label)"

definition cal_cells :: "date_fns \<Rightarrow> calendar \<Rightarrow> civil list" where
  "cal_cells df s =
     (case ca_view s of
        V_day \<Rightarrow> []
      | V_month \<Rightarrow>
          df_eachDayOfInterval df (df_startOfWeek df (df_startOfMonth df (ca_cursor s)))
            (df_endOfWeek df (df_endOfMonth df (ca_cursor s)))
      | V_week \<Rightarrow>
          df_eachDayOfInterval df (df_startOfWeek df (ca_cursor s)) (df_endOfWeek df (ca_cursor s)))"

definition cell_count :: "date_fns \<Rightarrow> nat obj \<Rightarrow> civil \<Rightarrow> nat" where
  "cell_count df m d = (case get m (dayKey df d) of None \<Rightarrow> 0 | Some n \<Rightarrow> n)"

definition cal_cell :: "date_fns \<Rightarrow> nat obj \<Rightarrow> civil \<Rightarrow> calendar \<Rightarrow> civil \<Rightarrow> cal_ui vnode" where
  "cal_cell df m selectedDay s d =
     (let count = cell_count df m d in
      El ''button''
        [on_click (Ca_pick d),
         Attr ''aria-pressed'' (if df_isSameDay df d selectedDay then (lat ''true'') else (lat ''false'')),
         Attr ''aria-label'' (df_format_he df d (lat ''EEEE d MMMM'')
           @ (if count \<noteq> 0 then (lat '', '') @ nat_str count @ (heb '' tbiyez'') else []))]
        (Txt (df_format df d (lat ''d'')) # shown (count > 0) [Txt (nat_str count)]))"

definition bookings_calendar ::
  "date_fns \<Rightarrow> local_date \<Rightarrow> booking_item list \<Rightarrow> civil \<Rightarrow> calendar \<Rightarrow> cal_ui vnode list option"
where
  "bookings_calendar df local bs selectedDay s =
     map_option (\<lambda>m.
       map (\<lambda>(v, label). El ''button''
           [on_click (Ca_view v), Attr ''aria-selected'' (if v = ca_view s then (lat ''true'') else (lat ''false''))] [Txt label]) VIEWS
       @ [El ''button'' [on_click (Ca_step 1), Attr ''aria-label'' (heb ''da@'')] [],
          El ''span'' [] [Txt (cal_label df s)],
          El ''button'' [on_click (Ca_step (- 1)), Attr ''aria-label'' (heb ''dwecm'')] []]
       @ shown (ca_view s \<noteq> V_day)
           (map (\<lambda>d. El ''div'' [] [Txt d]) HEB_DOW @ map (cal_cell df m selectedDay s) (cal_cells df s)
            @ [Txt (lat '' 1'' @ [8211] @ lat ''2''), Txt (lat '' 3+'')]))
       (countByDay df local bs [])"

section \<open>BookingsPanel.tsx\<close>

text \<open>The filter \<open>'all'\<close> is \<open>None\<close>.\<close>

definition FILTERS :: "(booking_status option \<times> jsstr) list" where
  "FILTERS =
     [(None, (heb ''dkel'')), (Some B_pending, (heb ''nnzipez'')), (Some B_confirmed, (heb ''n@eyxez'')),
      (Some B_completed, (heb ''deylne'')), (Some B_cancelled, (heb ''aehle''))]"

record bookings_panel =
  bn_filter :: "booking_status option"
  bn_bookings :: "booking_item list option"
  bn_selectedDay :: civil
  bn_maxDaysAhead :: js_num
  bn_loading :: bool
  bn_error :: "jsstr option"
  bn_loader :: loader
  bn_calendar :: "calendar option"

definition panel_ready :: "bookings_panel \<Rightarrow> bool" where
  "panel_ready s \<longleftrightarrow> \<not> bn_loading s \<and> or_else (bn_error s) [] = []"

definition panel_bookings :: "bookings_panel \<Rightarrow> booking_item list" where
  "panel_bookings s = (case bn_bookings s of None \<Rightarrow> [] | Some bs \<Rightarrow> bs)"

text \<open>The calendar is drawn only when the list is: it is created anew whenever it comes back.\<close>

definition panel_commit :: "bookings_panel \<Rightarrow> bookings_panel" where
  "panel_commit s =
     s\<lparr>bn_calendar :=
        (if panel_ready s
         then Some (case bn_calendar s of None \<Rightarrow> calendar_init (bn_selectedDay s) | Some c \<Rightarrow> c)
         else None)\<rparr>"

definition bookings_load :: "bookings_panel \<Rightarrow> bookings_panel" where
  "bookings_load s = s\<lparr>bn_loading := True, bn_error := None\<rparr>"

definition bookings_request :: "booking_status option \<Rightarrow> http_request" where
  "bookings_request status =
     getBookings \<lparr>bo_status = status, bo_from = None, bo_to = None, bo_includeTest = Some True\<rparr>"

definition panel_mount :: "civil \<Rightarrow> bookings_panel" where
  "panel_mount now = panel_commit (bookings_load
     \<lparr>bn_filter = None, bn_bookings = None, bn_selectedDay = now, bn_maxDaysAhead = Fin 30, bn_loading = True,
      bn_error = None, bn_loader = rerun_effect new_loader, bn_calendar = None\<rparr>)"

text \<open>Choosing another filter reruns the effect; \<open>onChanged\<close> of a card loads outside of it.\<close>

definition panel_filter :: "booking_status option \<Rightarrow> bookings_panel \<Rightarrow> bookings_panel" where
  "panel_filter f s =
     (if bn_filter s = f then s
      else panel_commit (bookings_load (s\<lparr>bn_filter := f, bn_loader := rerun_effect (bn_loader s)\<rparr>)))"

definition panel_changed :: "bookings_panel \<Rightarrow> bookings_panel" where
  "panel_changed s = panel_commit (bookings_load (s\<lparr>bn_loader := begin_load (bn_loader s)\<rparr>))"

definition bookings_settled :: "nat \<Rightarrow> (js_thrown + booking_item list) \<Rightarrow> bookings_panel \<Rightarrow> bookings_panel" where
  "bookings_settled t r s =
     (if \<not> live t (bn_loader s) then s
      else panel_commit
        ((case r of
            Inr bs \<Rightarrow> s\<lparr>bn_bookings := Some bs\<rparr>
          | Inl err \<Rightarrow> s\<lparr>bn_error := Some (toFriendlyError err (heb ''hripz dtbiyez pkyld. pqe yea.''))\<rparr>)
         \<lparr>bn_loading := False\<rparr>))"

definition max_days_settled :: "(js_thrown + booking_settings) \<Rightarrow> bookings_panel \<Rightarrow> bookings_panel" where
  "max_days_settled r s = (case r of Inr st \<Rightarrow> s\<lparr>bn_maxDaysAhead := bs_max_days_ahead st\<rparr> | Inl err \<Rightarrow> s)"

definition panel_calendar :: "date_fns \<Rightarrow> cal_ui \<Rightarrow> bookings_panel \<Rightarrow> bookings_panel" where
  "panel_calendar df e s =
     (case bn_calendar s of
        None \<Rightarrow> s
      | Some c \<Rightarrow>
          (let (c', picked) = on_calendar df (bn_selectedDay s) e c in
           s\<lparr>bn_calendar := Some c', bn_selectedDay := (case picked of None \<Rightarrow> bn_selectedDay s | Some d \<Rightarrow> d)\<rparr>))"

definition on_day :: "date_fns \<Rightarrow> local_date \<Rightarrow> civil \<Rightarrow> booking_item \<Rightarrow> bool" where
  "on_day df local d b = (case local (bk_scheduled_at b) of None \<Rightarrow> False | Some (x, t) \<Rightarrow> df_isSameDay df x d)"

definition time_of :: "local_date \<Rightarrow> booking_item \<Rightarrow> int" where
  "time_of local b = (case local (bk_scheduled_at b) of None \<Rightarrow> 0 | Some (x, t) \<Rightarrow> t)"

definition dayBookings :: "date_fns \<Rightarrow> local_date \<Rightarrow> booking_item list \<Rightarrow> civil \<Rightarrow> booking_item list" where
  "dayBookings df local bs selectedDay = sort_key (time_of local) (filter (on_day df local selectedDay) bs)"

datatype panel_ui = Bn_filter "booking_status option" | Bn_calendar cal_ui | Bn_card jsstr booking_ui

definition panel_view ::
  "date_fns \<Rightarrow> local_date \<Rightarrow> (booking_item \<Rightarrow> booking_ui vnode list) \<Rightarrow> bookings_panel \<Rightarrow> panel_ui vnode list option"
where
  "panel_view df local cardv s =
     map_option (\<lambda>v. segmented_control FILTERS (bn_filter s) Bn_filter # v)
       (if bn_loading s then Some [El ''Spinner'' [] [Txt (heb ''hero tbiyez'' @ [8230])]]
        else if or_else (bn_error s) [] \<noteq> [] then Some [El ''Alert'' [] [Txt (or_else (bn_error s) [])]]
        else case bn_calendar s of
            None \<Rightarrow> Some []
          | Some c \<Rightarrow>
             map_option (\<lambda>cal.
               (let day_bs = dayBookings df local (panel_bookings s) (bn_selectedDay s) in
                map (view_in Bn_calendar) cal
                @ [El ''h3'' [] [Txt (df_format_he df (bn_selectedDay s) day_label),
                     Txt (([183] @ lat '' '') @ nat_str (length day_bs) @ (heb '' tbiyez''))]]
                @ (if length day_bs > 0
                   then map (\<lambda>b. El ''li'' [] (map (view_in (Bn_card (bk_id b))) (cardv b))) day_bs
                   else [El ''p'' [] [Txt (heb ''@io tbiyez aiem fd. agxe iem @gx aleg lnrld.'')]])))
               (bookings_calendar df local (panel_bookings s) (bn_selectedDay s) c))"

interpretation bookings_loads: guarded_settle bn_loader bookings_settled
  by unfold_locales (auto simp: bookings_settled_def panel_commit_def split: sum.split)

section \<open>AppointmentsPage.tsx\<close>

datatype appt_tab = Tb_bookings | Tb_settings | Tb_design | Tb_services

definition TABS :: "(appt_tab \<times> jsstr \<times> bool) list" where
  "TABS =
     [(Tb_bookings, (heb ''tbiyez''), False), (Tb_settings, (heb ''txhi drqw efnipez''), True),
      (Tb_design, (heb ''znepez erivea''), True), (Tb_services, (heb ''dyixezim ydrqw nvir''), True)]"

definition starts_setup :: "nat \<Rightarrow> bool" where
  "starts_setup i \<longleftrightarrow> snd (snd (TABS ! i)) \<and> (i = 0 \<or> \<not> snd (snd (TABS ! (i - 1))))"

definition appointments_view :: "(appt_tab \<Rightarrow> 'e vnode list) \<Rightarrow> (appt_tab \<Rightarrow> 'e) \<Rightarrow> appt_tab \<Rightarrow> 'e vnode list" where
  "appointments_view panel setTab tab =
     [El ''h1'' [] [Txt (heb ''pidel tbiyez'')],
      El ''tablist'' [] (concat (mapi (\<lambda>i (t, label, setup).
        shown (starts_setup i) [El ''span'' [] [Txt (heb ''dwnz drnec drqwi'')]]
        @ [El ''button'' [on_click (setTab t), Attr ''aria-selected'' (if t = tab then (lat ''true'') else (lat ''false''))] [Txt label]]) TABS)),
      El ''tabpanel'' [] (panel tab)]"

section \<open>Lemmas\<close>

lemma date_fns_okD:
  assumes "date_fns_ok df" "valid_civil a"
  shows "df_addDays df a n = plus_days a n" "df_addWeeks df a n = plus_days a (7 * n)" "valid_civil (df_addMonths df a n)"
    "df_startOfWeek df a = plus_days a (- getDay a)" "df_endOfWeek df a = plus_days a (6 - getDay a)"
    "df_startOfMonth df a = Civil (year a) (month0 a) 1"
    "df_endOfMonth df a = Civil (year a) (month0 a) (month_days (year a) (month0 a))"
  using assms unfolding date_fns_ok_def by blast+

lemma date_fns_ok2:
  assumes "date_fns_ok df" "valid_civil a" "valid_civil b"
  shows "day_num a \<le> day_num b \<Longrightarrow>
      df_eachDayOfInterval df a b = map (\<lambda>i. plus_days a (int i)) [0..<nat (day_num b - day_num a) + 1]"
    "df_isSameDay df a b \<longleftrightarrow> a = b"
    "dayKey df a = dayKey df b \<longleftrightarrow> a = b"
  using assms unfolding date_fns_ok_def dayKey_def by blast+

lemma interval_days:
  assumes "date_fns_ok df" "valid_civil a" "valid_civil b" "day_num a \<le> day_num b"
  defines "ds \<equiv> df_eachDayOfInterval df a b"
  shows "length ds = nat (day_num b - day_num a) + 1"
    and "i < length ds \<Longrightarrow> valid_civil (ds ! i) \<and> day_num (ds ! i) = day_num a + int i"
    and "valid_civil d \<Longrightarrow> day_num a \<le> day_num d \<Longrightarrow> day_num d \<le> day_num b \<Longrightarrow> d \<in> set ds"
proof -
  have ds: "ds = map (\<lambda>i. plus_days a (int i)) [0..<nat (day_num b - day_num a) + 1]"
    unfolding ds_def using date_fns_ok2(1) [OF assms(1-4)] .
  show len: "length ds = nat (day_num b - day_num a) + 1" by (simp add: ds)
  have el: "valid_civil (ds ! i) \<and> day_num (ds ! i) = day_num a + int i" if "i < length ds" for i
  proof -
    have "ds ! i = plus_days a (int i)" using that by (simp add: ds del: upt_Suc)
    then show ?thesis using plus_days_valid [OF assms(2), of "int i"] by simp
  qed
  then show "i < length ds \<Longrightarrow> valid_civil (ds ! i) \<and> day_num (ds ! i) = day_num a + int i" .
  show "d \<in> set ds" if d: "valid_civil d" "day_num a \<le> day_num d" "day_num d \<le> day_num b"
  proof -
    let ?i = "nat (day_num d - day_num a)"
    have i: "?i < length ds" using d by (simp add: len)
    with el [OF i] d have "valid_civil (ds ! ?i) \<and> day_num (ds ! ?i) = day_num d" by simp
    then have "ds ! ?i = d" using day_num_inj d(1) by blast
    with i show ?thesis by (metis nth_mem)
  qed
qed

lemma day_num_month: "day_num (Civil y m d) = day_num (Civil y m 1) + int d - 1"
  by (simp add: day_num_def)

text \<open>The first and the last day of the grid.\<close>

definition grid_start :: "calendar \<Rightarrow> civil" where
  "grid_start s =
     (let a = (if ca_view s = V_month then Civil (year (ca_cursor s)) (month0 (ca_cursor s)) 1 else ca_cursor s)
      in plus_days a (- getDay a))"

definition grid_end :: "calendar \<Rightarrow> civil" where
  "grid_end s =
     (let c = ca_cursor s;
          a = (if ca_view s = V_month then Civil (year c) (month0 c) (month_days (year c) (month0 c)) else c)
      in plus_days a (6 - getDay a))"

lemma grid_bounds:
  assumes "valid_civil (ca_cursor s)"
  shows "valid_civil (grid_start s)" "valid_civil (grid_end s)"
    "(day_num (grid_start s) + 4) mod 7 = 0" "(day_num (grid_end s) + 4) mod 7 = 6"
    "ca_view s \<noteq> V_month \<Longrightarrow> day_num (grid_end s) = day_num (grid_start s) + 6"
    "ca_view s = V_month \<Longrightarrow> day_num (grid_end s) - day_num (grid_start s) \<in> {27..42}"
    "valid_civil d \<Longrightarrow> (if ca_view s = V_month then year d = year (ca_cursor s) \<and> month0 d = month0 (ca_cursor s) else d = ca_cursor s)
       \<Longrightarrow> day_num (grid_start s) \<le> day_num d \<and> day_num d \<le> day_num (grid_end s)"
proof -
  let ?c = "ca_cursor s" and ?y = "year (ca_cursor s)" and ?m = "month0 (ca_cursor s)"
  let ?M = "month_days ?y ?m"
  define lo where "lo = (if ca_view s = V_month then Civil ?y ?m 1 else ?c)"
  define hi where "hi = (if ca_view s = V_month then Civil ?y ?m ?M else ?c)"
  have M: "28 \<le> ?M" "?M \<le> 31" by (rule month_days_range)+
  have v: "valid_civil lo" "valid_civil hi" using assms M by (auto simp: lo_def hi_def valid_civil_def)
  have gs: "grid_start s = plus_days lo (- getDay lo)" "grid_end s = plus_days hi (6 - getDay hi)"
    by (auto simp: grid_start_def grid_end_def lo_def hi_def Let_def)
  note ps = plus_days_valid [OF v(1), of "- getDay lo"] plus_days_valid [OF v(2), of "6 - getDay hi"]
  show "valid_civil (grid_start s)" "valid_civil (grid_end s)" using ps by (simp_all add: gs)
  have dn: "day_num (grid_start s) = day_num lo - getDay lo" "day_num (grid_end s) = day_num hi + 6 - getDay hi"
    using ps by (simp_all add: gs)
  have g: "getDay lo = (day_num lo + 4) mod 7" "getDay hi = (day_num hi + 4) mod 7" by (simp_all add: getDay_def)
  show "(day_num (grid_start s) + 4) mod 7 = 0" "(day_num (grid_end s) + 4) mod 7 = 6"
    unfolding dn g by presburger+
  show "day_num (grid_end s) = day_num (grid_start s) + 6" if "ca_view s \<noteq> V_month"
    using that by (simp add: dn lo_def hi_def)
  have "day_num hi = day_num lo + int ?M - 1" if "ca_view s = V_month"
    using that day_num_month [of ?y ?m ?M] by (simp add: lo_def hi_def)
  with M show "day_num (grid_end s) - day_num (grid_start s) \<in> {27..42}" if "ca_view s = V_month"
    using that getDay_range [of lo] getDay_range [of hi] by (simp add: dn)
  assume d: "valid_civil d" "if ca_view s = V_month then year d = ?y \<and> month0 d = ?m else d = ?c"
  have "day_num lo \<le> day_num d \<and> day_num d \<le> day_num hi"
  proof (cases "ca_view s = V_month")
    case True
    with d obtain k where k: "d = Civil ?y ?m k" "1 \<le> k" "k \<le> ?M"
      by (cases d) (auto simp: valid_civil_def)
    with True show ?thesis using day_num_month [of ?y ?m k] day_num_month [of ?y ?m ?M]
      by (simp add: lo_def hi_def)
  qed (use d in \<open>simp add: lo_def hi_def\<close>)
  then show "day_num (grid_start s) \<le> day_num d \<and> day_num d \<le> day_num (grid_end s)"
    using getDay_range [of lo] getDay_range [of hi] by (simp add: dn)
qed

lemma whole_weeks: "(x + 4) mod 7 = 0 \<Longrightarrow> (y + 4) mod 7 = 6 \<Longrightarrow> \<exists>q. (y :: int) - x + 1 = 7 * q"
  by presburger

lemma cal_cells_grid:
  assumes "date_fns_ok df" "valid_civil (ca_cursor s)" "ca_view s \<noteq> V_day"
  shows "cal_cells df s = df_eachDayOfInterval df (grid_start s) (grid_end s)"
proof -
  let ?c = "ca_cursor s"
  have "valid_civil (Civil (year ?c) (month0 ?c) 1)" "valid_civil (Civil (year ?c) (month0 ?c) (month_days (year ?c) (month0 ?c)))"
    using assms(2) month_days_range [of "year ?c" "month0 ?c"] by (auto simp: valid_civil_def)
  with assms show ?thesis
    by (cases "ca_view s") (simp_all add: cal_cells_def grid_start_def grid_end_def date_fns_okD Let_def)
qed

text \<open>
  The grid of the calendar: it consists of whole weeks that begin on Sunday, one in
  the week view and four to six in the month view; its days follow each other, each under
  its own weekday; and it has every day of the month, or the day it is built around.
\<close>

theorem calendar_grid:
  assumes "date_fns_ok df" "valid_civil (ca_cursor s)" "ca_view s \<noteq> V_day"
  shows "\<exists>k. length (cal_cells df s) = 7 * k \<and> (if ca_view s = V_month then 4 \<le> k \<and> k \<le> 6 else k = 1)
    \<and> (\<forall>i < 7 * k. valid_civil (cal_cells df s ! i) \<and> getDay (cal_cells df s ! i) = int (i mod 7)
         \<and> day_num (cal_cells df s ! i) = day_num (cal_cells df s ! 0) + int i)
    \<and> (\<forall>d. valid_civil d \<and> (if ca_view s = V_month then year d = year (ca_cursor s) \<and> month0 d = month0 (ca_cursor s) else d = ca_cursor s)
         \<longrightarrow> d \<in> set (cal_cells df s))"
proof -
  let ?a = "grid_start s" and ?b = "grid_end s"
  note g = grid_bounds [OF assms(2)]
  have le: "day_num ?a \<le> day_num ?b" using g(5,6) by (cases "ca_view s = V_month") auto
  note iv = interval_days [OF assms(1) g(1,2) le, folded cal_cells_grid [OF assms]]
  from whole_weeks [OF g(3,4)] obtain q where q: "day_num ?b - day_num ?a + 1 = 7 * q" by blast
  let ?k = "nat q"
  have k: "if ca_view s = V_month then 4 \<le> ?k \<and> ?k \<le> 6 else ?k = 1"
    using g(5,6) q by (auto split: if_splits)
  have k0: "0 \<le> q" using le q by linarith
  have len: "length (cal_cells df s) = 7 * ?k" using iv(1) q k0 le by (simp add: nat_eq_iff)
  have el: "valid_civil (cal_cells df s ! i) \<and> day_num (cal_cells df s ! i) = day_num ?a + int i" if "i < 7 * ?k" for i
    using iv(2) that len by simp
  moreover have "getDay (cal_cells df s ! i) = int (i mod 7)" if "i < 7 * ?k" for i
    using el [OF that] g(3) mod_add_left_eq [of "day_num ?a + 4" 7 "int i"]
    by (simp add: getDay_def zmod_int algebra_simps)
  moreover have "0 < 7 * ?k" using k by (auto split: if_splits)
  ultimately have "\<forall>i < 7 * ?k. valid_civil (cal_cells df s ! i) \<and> getDay (cal_cells df s ! i) = int (i mod 7)
         \<and> day_num (cal_cells df s ! i) = day_num (cal_cells df s ! 0) + int i" by auto
  with len k show ?thesis using iv(3) g(7) by blast
qed

text \<open>A library that does what is documented, on a day in 2026.\<close>

definition demo_df :: date_fns where
  "demo_df =
     \<lparr>df_addDays = plus_days, df_addWeeks = (\<lambda>d n. plus_days d (7 * n)), df_addMonths = (\<lambda>d n. d),
      df_eachDayOfInterval = (\<lambda>a b. map (\<lambda>i. plus_days a (int i)) [0..<nat (day_num b - day_num a) + 1]),
      df_startOfWeek = (\<lambda>d. plus_days d (- getDay d)), df_endOfWeek = (\<lambda>d. plus_days d (6 - getDay d)),
      df_startOfMonth = (\<lambda>d. Civil (year d) (month0 d) 1),
      df_endOfMonth = (\<lambda>d. Civil (year d) (month0 d) (month_days (year d) (month0 d))),
      df_isSameDay = (=), df_isSameMonth = (\<lambda>a b. year a = year b \<and> month0 a = month0 b),
      df_format = (\<lambda>d p. [nat (year d), nat (- year d), month0 d, day d]), df_format_he = (\<lambda>d p. [])\<rparr>"

lemma demo_df_ok: "date_fns_ok demo_df"
proof -
  have "[nat (year a), nat (- year a), month0 a, day a] = [nat (year b), nat (- year b), month0 b, day b] \<longleftrightarrow> a = b" for a b
    by (cases a; cases b) auto
  then show ?thesis unfolding date_fns_ok_def demo_df_def by simp
qed

lemma calendar_grid_witness:
  "\<exists>k. length (cal_cells demo_df (calendar_init (Civil 2026 1 5))) = 7 * k \<and> 4 \<le> k \<and> k \<le> 6
     \<and> Civil 2026 1 28 \<in> set (cal_cells demo_df (calendar_init (Civil 2026 1 5)))"
proof -
  have v: "valid_civil (Civil 2026 1 5)" "valid_civil (Civil 2026 1 28)" by (simp_all add: valid_civil_def month_days_def leap_def)
  have m: "ca_cursor (calendar_init (Civil 2026 1 5)) = Civil 2026 1 5" "ca_view (calendar_init (Civil 2026 1 5)) = V_month"
    by (simp_all add: calendar_init_def)
  from calendar_grid [OF demo_df_ok, of "calendar_init (Civil 2026 1 5)"] m v show ?thesis by auto
qed

text \<open>The comment "6 weeks for month" does not hold: February 2026 has four.\<close>

lemma february_2026_has_four_weeks: "length (cal_cells demo_df (calendar_init (Civil 2026 1 5))) = 28"
proof -
  let ?s = "calendar_init (Civil 2026 1 5)"
  have v: "valid_civil (ca_cursor ?s)" by (simp add: calendar_init_def valid_civil_def month_days_def leap_def)
  have g: "grid_start ?s = Civil 2026 1 1" "grid_end ?s = Civil 2026 1 28"
    by (simp_all add: grid_start_def grid_end_def calendar_init_def plus_days_def getDay_def day_num_def day_from_year_def
        month_days_def leap_def)
  have "day_num (Civil 2026 1 28) = day_num (Civil 2026 1 1) + 27" by (simp add: day_num_def)
  with interval_days(1) [OF demo_df_ok grid_bounds(1,2) [OF v]] cal_cells_grid [OF demo_df_ok v] g
  show ?thesis by (simp add: calendar_init_def)
qed

section \<open>The counts and the list\<close>

definition days_valid :: "local_date \<Rightarrow> bool" where
  "days_valid local \<longleftrightarrow> (\<forall>x d t. local x = Some (d, t) \<longrightarrow> valid_civil d)"

lemma countByDay_count:
  assumes "date_fns_ok df" "days_valid local" "valid_civil d" "countByDay df local bs m = Some m'"
  shows "cell_count df m' d = cell_count df m d + length (filter (\<lambda>b. bk_status b \<noteq> B_cancelled \<and> on_day df local d b) bs)"
  using assms(4)
proof (induction bs arbitrary: m)
  case (Cons b bs)
  show ?case
  proof (cases "bk_status b = B_cancelled")
    case False
    with Cons.prems obtain x u where x: "local (bk_scheduled_at b) = Some (x, u)" by (auto split: option.splits)
    with assms(2) have v: "valid_civil x" by (auto simp: days_valid_def)
    have "dayKey df d = dayKey df x \<longleftrightarrow> d = x" "df_isSameDay df x d \<longleftrightarrow> x = d"
      using date_fns_ok2 [OF assms(1)] v assms(3) by blast+
    with Cons.IH Cons.prems False x show ?thesis
      by (auto simp: Let_def on_day_def cell_count_def)
  qed (use Cons in simp)
qed simp

lemma countByDay_throws:
  "countByDay df local bs m = None \<longleftrightarrow> (\<exists>b \<in> set bs. bk_status b \<noteq> B_cancelled \<and> local (bk_scheduled_at b) = None)"
  by (induction bs arbitrary: m) (auto simp: Let_def split: option.splits)

text \<open>
  Property C39. The number on a day of the calendar is the number of bookings that are not
  cancelled in the list shown when that day is picked; the list has every booking of that day
  once, in the order of their times; and the calendar fails to draw exactly when the time
  stamp of a booking that is not cancelled cannot be read.
\<close>

theorem day_counts_match:
  assumes "date_fns_ok df" "days_valid local" "valid_civil d"
  shows "(\<forall>m. countByDay df local bs [] = Some m \<longrightarrow>
        cell_count df m d = length (filter (\<lambda>b. bk_status b \<noteq> B_cancelled) (dayBookings df local bs d)))
    \<and> mset (dayBookings df local bs d) = {#b \<in># mset bs. on_day df local d b#}
    \<and> sorted (map (time_of local) (dayBookings df local bs d))
    \<and> (bookings_calendar df local bs sel s = None \<longleftrightarrow>
        (\<exists>b \<in> set bs. bk_status b \<noteq> B_cancelled \<and> local (bk_scheduled_at b) = None))"
proof -
  have "length (filter P (dayBookings df local bs d)) = length (filter (\<lambda>b. P b \<and> on_day df local d b) bs)" for P
  proof -
    have "mset (filter P (dayBookings df local bs d)) = mset (filter P (filter (on_day df local d) bs))"
      unfolding dayBookings_def by (simp only: mset_filter mset_sort)
    then have "length (filter P (dayBookings df local bs d)) = length (filter P (filter (on_day df local d) bs))"
      by (metis size_mset)
    then show ?thesis by (simp add: conj_commute)
  qed
  with countByDay_count [OF assms, of bs "[]"] show ?thesis
    by (simp add: cell_count_def bookings_calendar_def countByDay_throws dayBookings_def mset_filter)
qed

lemma day_counts_match_witness:
  "cell_count demo_df [([2026, 0, 0, 5], 1)] (Civil 2026 0 5) = 1"
proof -
  let ?local = "\<lambda>x. Some (Civil 2026 0 5, 0)"
  let ?bs = "[pending_booking, pending_booking\<lparr>bk_status := B_cancelled\<rparr>]"
  have v: "valid_civil (Civil 2026 0 5)" by (simp add: valid_civil_def month_days_def)
  then have d: "days_valid ?local" by (simp add: days_valid_def)
  have "countByDay demo_df ?local ?bs [] = Some [([2026, 0, 0, 5], 1)]"
    by (simp add: pending_booking_def dayKey_def demo_df_def)
  moreover have "dayBookings demo_df ?local ?bs (Civil 2026 0 5) = ?bs"
    by (simp add: dayBookings_def on_day_def time_of_def demo_df_def)
  ultimately show ?thesis
    using day_counts_match [OF demo_df_ok d v, of ?bs] by (simp add: pending_booking_def)
qed

section \<open>Runs of the panel\<close>

text \<open>
  The loads in flight with the filter they ask for, and the changes in flight with the filter
  their card was drawn under: that is the filter its \<open>onChanged\<close> loads.
\<close>

inductive panel_run ::
  "date_fns \<Rightarrow> bookings_panel \<Rightarrow> (nat \<times> booking_status option) list \<Rightarrow> booking_status option list \<Rightarrow> bool"
  for df
where
  bn_start: "valid_civil now \<Longrightarrow> panel_run df (panel_mount now) [(0, None)] []"
| bn_filter: "panel_run df s pend chg \<Longrightarrow> f \<in> fst ` set FILTERS \<Longrightarrow> bn_filter s \<noteq> f \<Longrightarrow>
    panel_run df (panel_filter f s) (pend @ [(next_tok (bn_loader s), f)]) chg"
| bn_patch: "panel_run df s pend chg \<Longrightarrow> panel_ready s \<Longrightarrow> panel_run df s pend (chg @ [bn_filter s])"
| bn_changed: "panel_run df s pend chg \<Longrightarrow> i < length chg \<Longrightarrow>
    panel_run df (panel_changed s) (pend @ [(next_tok (bn_loader s), chg ! i)]) (drop_index i chg)"
| bn_answer: "panel_run df s pend chg \<Longrightarrow> i < length pend \<Longrightarrow> pend ! i = (t, f) \<Longrightarrow>
    (\<And>bs b. r = Inr bs \<Longrightarrow> b \<in> set bs \<Longrightarrow> f = None \<or> f = Some (bk_status b)) \<Longrightarrow>
    panel_run df (bookings_settled t r s) (drop_index i pend) chg"
| bn_days: "panel_run df s pend chg \<Longrightarrow> panel_run df (max_days_settled r s) pend chg"
| bn_cal: "panel_run df s pend chg \<Longrightarrow> bn_calendar s = Some c \<Longrightarrow>
    bookings_calendar df local (panel_bookings s) (bn_selectedDay s) c = Some v \<Longrightarrow> fires_any v e \<Longrightarrow>
    panel_run df (panel_calendar df e s) pend chg"

definition panel_ok :: "bookings_panel \<Rightarrow> bool" where
  "panel_ok s \<longleftrightarrow>
     (bn_calendar s \<noteq> None \<longleftrightarrow> panel_ready s) \<and> valid_civil (bn_selectedDay s)
     \<and> (\<forall>c. bn_calendar s = Some c \<longrightarrow> valid_civil (ca_cursor c) \<and> (ca_view c = V_day \<longrightarrow> ca_cursor c = bn_selectedDay s))"

lemma panel_commit_ok:
  assumes "valid_civil (bn_selectedDay s)"
    "\<And>c. bn_calendar s = Some c \<Longrightarrow> valid_civil (ca_cursor c) \<and> (ca_view c = V_day \<longrightarrow> ca_cursor c = bn_selectedDay s)"
  shows "panel_ok (panel_commit s)"
  using assms by (auto simp: panel_ok_def panel_commit_def panel_ready_def calendar_init_def split: option.splits)

lemma panel_ok_commit:
  "panel_ok s \<Longrightarrow> bn_selectedDay s' = bn_selectedDay s \<Longrightarrow> bn_calendar s' = bn_calendar s \<Longrightarrow> panel_ok (panel_commit s')"
  by (rule panel_commit_ok) (auto simp: panel_ok_def)

lemma calendar_event_ok:
  assumes "date_fns_ok df" "valid_civil sel" "valid_civil (ca_cursor c)" "ca_view c = V_day \<longrightarrow> ca_cursor c = sel"
    and "bookings_calendar df local bs sel c = Some v" "fires_any v e" "on_calendar df sel e c = (c', p)"
  defines "sel' \<equiv> (case p of None \<Rightarrow> sel | Some d \<Rightarrow> d)"
  shows "valid_civil sel' \<and> valid_civil (ca_cursor c') \<and> (ca_view c' = V_day \<longrightarrow> ca_cursor c' = sel')"
proof -
  have pick: "valid_civil d" if "e = Ca_pick d" for d
  proof -
    from assms(5,6) that have s: "ca_view c \<noteq> V_day" "d \<in> set (cal_cells df c)"
      by (auto simp: bookings_calendar_def fires_any_map VIEWS_def cal_cell_def Let_def)
    from calendar_grid [OF assms(1,3) s(1)] s(2) show ?thesis by (auto simp: in_set_conv_nth)
  qed
  show ?thesis
  proof (cases e)
    case (Ca_view x)
    with assms(2-4,7) show ?thesis by (auto simp: sel'_def on_calendar_def changeView_def)
  next
    case (Ca_step k)
    have "valid_civil (plus_days (ca_cursor c) n)" for n using plus_days_valid [OF assms(3)] by blast
    with Ca_step assms(2-4,7) date_fns_okD [OF assms(1,3)] show ?thesis
      by (cases "ca_view c") (auto simp: sel'_def on_calendar_def step_cal_def Let_def)
  next
    case (Ca_pick d)
    with pick assms(4,7) show ?thesis by (auto simp: sel'_def on_calendar_def pickDay_def)
  qed
qed

lemma panel_run_ok:
  assumes "panel_run df s pend chg" "date_fns_ok df"
  shows "panel_ok s"
  using assms(1)
proof (induction rule: panel_run.induct)
  case (bn_start now)
  then show ?case unfolding panel_mount_def by (intro panel_commit_ok) (auto simp: bookings_load_def)
next
  case (bn_filter s pend chg f)
  then show ?case by (simp add: panel_filter_def panel_ok_commit [of s] bookings_load_def)
next
  case (bn_changed s pend chg i)
  then show ?case by (simp add: panel_changed_def panel_ok_commit [of s] bookings_load_def)
next
  case (bn_answer s pend chg i t f r)
  then show ?case by (cases r) (simp_all add: bookings_settled_def panel_ok_commit [of s])
next
  case (bn_days s pend chg r)
  then show ?case by (auto simp: max_days_settled_def panel_ok_def panel_ready_def split: sum.splits)
next
  case (bn_cal s pend chg c local v e)
  obtain c' p where c': "on_calendar df (bn_selectedDay s) e c = (c', p)" by (cases "on_calendar df (bn_selectedDay s) e c")
  from bn_cal have "valid_civil (bn_selectedDay s)" "valid_civil (ca_cursor c)"
    "ca_view c = V_day \<longrightarrow> ca_cursor c = bn_selectedDay s" by (auto simp: panel_ok_def)
  from calendar_event_ok [OF assms(2) this bn_cal.hyps(3,4) c'] bn_cal c' show ?case
    by (auto simp: panel_ok_def panel_calendar_def panel_ready_def)
qed

text \<open>
  The bookings page on every run: the calendar is there exactly when the list is; all
  its days are real; and in the day view the day it names is the day whose bookings are listed
  below, so stepping through the days moves the list along.
\<close>

theorem panel_day_view:
  assumes "panel_run df s pend chg" "date_fns_ok df"
  shows "(panel_ready s \<longleftrightarrow> bn_calendar s \<noteq> None) \<and> valid_civil (bn_selectedDay s)
    \<and> (\<forall>c. bn_calendar s = Some c \<longrightarrow> valid_civil (ca_cursor c)
         \<and> (ca_view c = V_day \<longrightarrow> ca_cursor c = bn_selectedDay s
             \<and> bn_selectedDay (panel_calendar df (Ca_step 1) s) = plus_days (bn_selectedDay s) 1))"
proof -
  note ok = panel_run_ok [OF assms]
  show ?thesis
    using ok date_fns_okD(1) [OF assms(2)]
    by (auto simp: panel_ok_def panel_calendar_def on_calendar_def step_cal_def Let_def)
qed

lemma panel_day_view_witness:
  "\<exists>s c. panel_run demo_df s [] [] \<and> bn_calendar s = Some c \<and> ca_cursor c = Civil 2026 0 5 \<and> panel_ready s"
proof -
  let ?d = "Civil 2026 0 5"
  let ?s = "bookings_settled 0 (Inr []) (panel_mount ?d)"
  have "panel_run demo_df ?s (drop_index 0 [(0, None)]) []"
    by (rule bn_answer [OF bn_start]) (simp_all add: valid_civil_def month_days_def)
  then have r: "panel_run demo_df ?s [] []" by (simp add: drop_index_def)
  have c: "bn_calendar ?s = Some (calendar_init ?d)"
    by (simp add: bookings_settled_def panel_mount_def panel_commit_def bookings_load_def panel_ready_def or_else_def)
  from panel_day_view [OF r demo_df_ok] c r show ?thesis
    by (intro exI [of _ ?s] exI [of _ "calendar_init ?d"]) (simp add: calendar_init_def)
qed

text \<open>Every change of a booking resets the calendar: it leaves the tree while the list reloads.\<close>

lemma change_resets_calendar:
  assumes "loader_ok (bn_loader s)"
  shows "bn_calendar (bookings_settled (next_tok (bn_loader s)) (Inr bs) (panel_changed s)) = Some (calendar_init (bn_selectedDay s))"
  using begin_new_live [OF assms]
  by (simp add: bookings_settled_def panel_changed_def panel_commit_def bookings_load_def panel_ready_def or_else_def)

text \<open>
  A change that is answered after the filter was switched reloads the list of the filter it was
  made under, and that load is never cancelled: the page shows bookings of another status.
\<close>

lemma late_change_shows_other_filter:
  "\<exists>s. panel_run demo_df s [] [] \<and> bn_filter s = Some B_cancelled \<and> bn_bookings s = Some [pending_booking] \<and> panel_ready s"
proof -
  let ?a = pending_booking and ?d = "Civil 2026 0 5"
  let ?s1 = "bookings_settled 0 (Inr [?a]) (panel_mount ?d)"
  let ?s2 = "panel_filter (Some B_cancelled) ?s1"
  let ?s3 = "bookings_settled 1 (Inr []) ?s2"
  let ?s4 = "panel_changed ?s3"
  let ?s5 = "bookings_settled 2 (Inr [?a]) ?s4"
  note defs = panel_mount_def panel_commit_def bookings_load_def bookings_settled_def panel_filter_def panel_changed_def
    panel_ready_def or_else_def live_def rerun_effect_def run_cleanup_def begin_load_def new_loader_def Let_def
  have "panel_run demo_df ?s1 (drop_index 0 [(0, None)]) []"
    by (rule bn_answer [OF bn_start, where f = None]) (simp_all add: valid_civil_def month_days_def)
  then have "panel_run demo_df ?s1 [] [None]"
    using bn_patch [of demo_df ?s1 "[]" "[]"] by (simp add: drop_index_def defs)
  then have "panel_run demo_df ?s2 [(1, Some B_cancelled)] [None]"
    using bn_filter [of demo_df ?s1 "[]" "[None]" "Some B_cancelled"] by (simp add: defs FILTERS_def)
  then have "panel_run demo_df ?s3 (drop_index 0 [(1, Some B_cancelled)]) [None]"
    by (rule bn_answer [where f = "Some B_cancelled"]) simp_all
  then have "panel_run demo_df ?s4 [(2, None)] []"
    using bn_changed [of demo_df ?s3 "[]" "[None]" 0] by (simp add: drop_index_def defs eval_nat_numeral)
  then have "panel_run demo_df ?s5 (drop_index 0 [(2, None)]) []"
    by (rule bn_answer [where f = None]) auto
  then have "panel_run demo_df ?s5 [] []" by (simp add: drop_index_def)
  moreover have "bn_filter ?s5 = Some B_cancelled" "bn_bookings ?s5 = Some [?a]" "panel_ready ?s5" by (simp_all add: defs)
  ultimately show ?thesis by blast
qed

end
