(* ===== verification/PageTheme.thy ===== *)
theory PageTheme
  imports JsPrelude
begin

text \<open>
  The palettes of the public business page (\<open>components/booking/public/pageTheme.ts\<close>): the table, the look-up
  that never fails, the corner radius and the style variables made of them.

  The comments of the table promise that its colours can be read. The second half states that promise with
  the contrast ratio of the Web Content Accessibility Guidelines 2 (relative luminance of sRGB colours)
  and proves it for every palette.
\<close>

section \<open>The table\<close>

record page_palette =
  pal_key :: jsstr
  pal_label :: jsstr
  pal_primary :: jsstr
  pal_onPrimary :: jsstr
  pal_bg :: jsstr
  pal_surface :: jsstr
  pal_text :: jsstr
  pal_muted :: jsstr
  pal_border :: jsstr

record page_theme =
  th_palette :: "jsstr option"
  th_radius :: "js_num option"

definition DEFAULT_RADIUS :: int where "DEFAULT_RADIUS = 22"
definition MIN_RADIUS :: int where "MIN_RADIUS = 0"
definition MAX_RADIUS :: int where "MAX_RADIUS = 40"

definition PAGE_PALETTES :: "page_palette list" where
  "PAGE_PALETTES =
    [
     \<lparr>pal_key = (lat ''leaf''), pal_label = (heb ''ixew hari''), pal_primary = (lat ''#4f7a15''), pal_onPrimary = (lat ''#ffffff''), pal_bg = (lat ''#ece9e1''),
      pal_surface = (lat ''#ffffff''), pal_text = (lat ''#1b2e0c''), pal_muted = (lat ''#5b6b4a''), pal_border = (lat ''#d8e2c6'')\<rparr>,
     \<lparr>pal_key = (lat ''ocean''), pal_label = (heb ''kgel @ewiipeq''), pal_primary = (lat ''#0369a1''), pal_onPrimary = (lat ''#ffffff''), pal_bg = (lat ''#eff6fb''),
      pal_surface = (lat ''#ffffff''), pal_text = (lat ''#0f172a''), pal_muted = (lat ''#51667e''), pal_border = (lat ''#cfe1ef'')\<rparr>,
     \<lparr>pal_key = (lat ''sand''), pal_label = (heb ''gel ewxm''), pal_primary = (lat ''#a16207''), pal_onPrimary = (lat ''#ffffff''), pal_bg = (lat ''#faf7f0''),
      pal_surface = (lat ''#ffffff''), pal_text = (lat ''#292524''), pal_muted = (lat ''#78716c''), pal_border = (lat ''#e7e0d2'')\<rparr>,
     \<lparr>pal_key = (lat ''lavender''), pal_label = (heb ''qbel rxtili''), pal_primary = (lat ''#7c3aed''), pal_onPrimary = (lat ''#ffffff''), pal_bg = (lat ''#f5f3ff''),
      pal_surface = (lat ''#ffffff''), pal_text = (lat ''#2e1065''), pal_muted = (lat ''#5b21b6''), pal_border = (lat ''#ddd6fe'')\<rparr>,
     \<lparr>pal_key = (lat ''mono''), pal_label = (heb ''ygex'' @ [1470] @ heb ''lao wl@qi''), pal_primary = (lat ''#1f2937''), pal_onPrimary = (lat ''#ffffff''), pal_bg = (lat ''#f4f4f5''),
      pal_surface = (lat ''#ffffff''), pal_text = (lat ''#111827''), pal_muted = (lat ''#5b6472''), pal_border = (lat ''#e0e2e6'')\<rparr>,
     \<lparr>pal_key = (lat ''blackgold''), pal_label = (heb ''ygex efda''), pal_primary = (lat ''#d4af37''), pal_onPrimary = (lat ''#17130a''), pal_bg = (lat ''#0b0b0d''),
      pal_surface = (lat ''#17171b''), pal_text = (lat ''#f6f2e8''), pal_muted = (lat ''#a89f8c''), pal_border = (lat ''#2b2b32'')\<rparr>,
     \<lparr>pal_key = (lat ''crimson''), pal_label = (heb ''@xbno etgm''), pal_primary = (lat ''#e11d48''), pal_onPrimary = (lat ''#ffffff''), pal_bg = (lat ''#1c1917''),
      pal_surface = (lat ''#292524''), pal_text = (lat ''#fafaf9''), pal_muted = (lat ''#a8a29e''), pal_border = (lat ''#3b3633'')\<rparr>,
     \<lparr>pal_key = (lat ''navy''), pal_label = (heb ''piiai etlhipd''), pal_primary = (lat ''#d8c38a''), pal_onPrimary = (lat ''#101a2c''), pal_bg = (lat ''#0f172a''),
      pal_surface = (lat ''#1b2942''), pal_text = (lat ''#eaf0f8''), pal_muted = (lat ''#94a5bf''), pal_border = (lat ''#2d3f5d'')\<rparr>,
     \<lparr>pal_key = (lat ''urban''), pal_label = (heb ''kzem @exapi''), pal_primary = (lat ''#f97316''), pal_onPrimary = (lat ''#1a0f05''), pal_bg = (lat ''#18181b''),
      pal_surface = (lat ''#242428''), pal_text = (lat ''#fafafa''), pal_muted = (lat ''#a1a1aa''), pal_border = (lat ''#35353c'')\<rparr>,
     \<lparr>pal_key = (lat ''cocoa''), pal_label = (heb ''ww@e eynpz''), pal_primary = (lat ''#e0a45c''), pal_onPrimary = (lat ''#2a1608''), pal_bg = (lat ''#241610''),
      pal_surface = (lat ''#33231a''), pal_text = (lat ''#f7ebdc''), pal_muted = (lat ''#c0a085''), pal_border = (lat ''#463122'')\<rparr>]"

definition DEFAULT_PALETTE :: page_palette where
  "DEFAULT_PALETTE = PAGE_PALETTES ! 0"

definition resolvePalette :: "page_theme option \<Rightarrow> page_palette" where
  "resolvePalette theme =
     (let key = (case theme of None \<Rightarrow> [] | Some t \<Rightarrow> (case th_palette t of None \<Rightarrow> [] | Some k \<Rightarrow> k)) in
      if key = [] then DEFAULT_PALETTE
      else case find (\<lambda>p. pal_key p = key) PAGE_PALETTES of None \<Rightarrow> DEFAULT_PALETTE | Some p \<Rightarrow> p)"

text \<open>\<open>Math.round\<close> rounds halves up.\<close>

definition js_round :: "rat \<Rightarrow> int" where
  "js_round r = \<lfloor>r + 1 / 2\<rfloor>"

definition resolveRadius :: "page_theme option \<Rightarrow> int" where
  "resolveRadius theme =
     (case Option.bind theme th_radius of
        Some (Fin r) \<Rightarrow> min MAX_RADIUS (max MIN_RADIUS (js_round r))
      | _ \<Rightarrow> DEFAULT_RADIUS)"

definition paletteVarsFor :: "page_palette \<Rightarrow> int \<Rightarrow> (jsstr \<times> jsstr) list" where
  "paletteVarsFor p radius =
     [((lat ''--bp-primary''), pal_primary p), ((lat ''--bp-on-primary''), pal_onPrimary p), ((lat ''--bp-bg''), pal_bg p),
      ((lat ''--bp-surface''), pal_surface p), ((lat ''--bp-text''), pal_text p), ((lat ''--bp-muted''), pal_muted p),
      ((lat ''--bp-border''), pal_border p), ((lat ''--bp-radius''), nat_str (nat radius) @ (lat ''px''))]"

definition paletteVars :: "page_theme option \<Rightarrow> (jsstr \<times> jsstr) list" where
  "paletteVars theme =
     (let p = resolvePalette theme in
      [((lat ''--bp-primary''), pal_primary p), ((lat ''--bp-on-primary''), pal_onPrimary p), ((lat ''--bp-bg''), pal_bg p),
       ((lat ''--bp-surface''), pal_surface p), ((lat ''--bp-text''), pal_text p), ((lat ''--bp-muted''), pal_muted p),
       ((lat ''--bp-border''), pal_border p), ((lat ''--bp-radius''), nat_str (nat (resolveRadius theme)) @ (lat ''px''))])"

section \<open>Contrast\<close>

definition hex_val :: "code_unit \<Rightarrow> int" where
  "hex_val c = (if 97 \<le> c then int c - 87 else int c - 48)"

definition channel :: "nat \<Rightarrow> jsstr \<Rightarrow> int" where
  "channel i colour = 16 * hex_val (colour ! (2 * i + 1)) + hex_val (colour ! (2 * i + 2))"

definition linear :: "int \<Rightarrow> real" where
  "linear c =
     (if real_of_int c / 255 \<le> 3928 / 100000 then real_of_int c / 255 / (1292 / 100)
      else ((real_of_int c / 255 + 55 / 1000) / (1055 / 1000)) powr (12 / 5))"

definition luminance :: "jsstr \<Rightarrow> real" where
  "luminance col =
     2126 / 10000 * linear (channel 0 col) + 7152 / 10000 * linear (channel 1 col) + 722 / 10000 * linear (channel 2 col)"

definition contrast :: "jsstr \<Rightarrow> jsstr \<Rightarrow> real" where
  "contrast a b = (max (luminance a) (luminance b) + 5 / 100) / (min (luminance a) (luminance b) + 5 / 100)"

lemma powr_fifth: "0 < x \<Longrightarrow> (x powr (12 / 5)) ^ 5 = (x :: real) ^ 12"
proof -
  assume pos: "0 < x"
  have "(x powr (12 / 5)) ^ 5 = (x powr (12 / 5)) powr (real 5)" using pos by (simp only: powr_realpow powr_gt_zero)
  also have "\<dots> = x powr (12 / 5 * real 5)" by (simp only: powr_powr)
  also have "\<dots> = x powr (real 12)" by simp
  also have "\<dots> = x ^ 12" using pos by (simp only: powr_realpow)
  finally show ?thesis .
qed

text \<open>
  A certificate: each channel value \<open>c\<close> of the table with bounds \<open>l\<close> and \<open>u\<close> of its linear value in
  units of \<open>2 ^ -12\<close>, found through bounds \<open>a\<close> and \<open>a + 1\<close> of the base of the power in units of \<open>2 ^ -11\<close>.
  \<open>lin_ok\<close> is the check that makes it a proof.
\<close>

definition lin_table :: "(int \<times> int \<times> int \<times> int) list" where
  "lin_table =
    [
     (3, 0, 3, 4), (5, 0, 6, 7), (7, 0, 8, 9), (8, 0, 9, 10), (10, 0, 12, 13), (11, 190, 13, 14),
     (12, 198, 15, 16), (13, 205, 16, 17), (15, 220, 19, 20), (16, 228, 21, 22), (17, 236, 22, 24),
     (19, 251, 26, 27), (21, 266, 30, 31), (22, 274, 32, 34), (23, 281, 34, 36), (24, 289, 37, 38),
     (25, 297, 39, 41), (26, 304, 42, 43), (27, 312, 44, 46), (28, 319, 47, 48), (29, 327, 50, 51),
     (31, 342, 55, 57), (33, 357, 61, 63), (35, 373, 68, 70), (36, 380, 71, 73), (37, 388, 75, 77),
     (39, 403, 82, 84), (40, 411, 86, 88), (41, 418, 90, 91), (42, 426, 94, 96), (44, 441, 102, 104),
     (46, 456, 111, 112), (51, 495, 135, 137), (55, 525, 156, 157), (58, 548, 173, 174), (66, 609, 222, 224),
     (72, 654, 264, 266), (74, 670, 280, 282), (79, 708, 320, 322), (81, 723, 336, 338), (91, 799, 427, 430),
     (92, 807, 438, 440), (98, 852, 499, 501), (100, 868, 521, 524), (101, 875, 532, 534),
     (102, 883, 543, 546), (105, 906, 578, 580), (107, 921, 601, 604), (108, 928, 612, 615),
     (113, 967, 676, 679), (114, 974, 688, 690), (115, 982, 701, 704), (120, 1020, 768, 771),
     (122, 1035, 796, 799), (124, 1050, 824, 827), (126, 1065, 852, 855), (133, 1119, 960, 963),
     (138, 1157, 1040, 1043), (140, 1172, 1072, 1076), (148, 1233, 1211, 1215), (158, 1309, 1399, 1402),
     (159, 1317, 1419, 1423), (160, 1324, 1437, 1441), (161, 1332, 1458, 1462), (162, 1340, 1479, 1483),
     (164, 1355, 1519, 1523), (165, 1362, 1538, 1542), (168, 1385, 1601, 1605), (170, 1400, 1643, 1647),
     (175, 1438, 1753, 1756), (182, 1492, 1915, 1919), (191, 1560, 2131, 2135), (192, 1568, 2157, 2162),
     (195, 1591, 2234, 2238), (212, 1720, 2694, 2699), (216, 1751, 2812, 2817), (220, 1781, 2929, 2934),
     (224, 1812, 3053, 3058), (225, 1819, 3081, 3086), (232, 1872, 3301, 3306), (233, 1880, 3335, 3340),
     (234, 1888, 3369, 3374), (235, 1895, 3399, 3404), (236, 1903, 3434, 3439), (237, 1910, 3464, 3469),
     (239, 1926, 3534, 3540), (240, 1933, 3565, 3570), (242, 1949, 3636, 3642), (243, 1956, 3668, 3673),
     (244, 1964, 3704, 3709), (245, 1971, 3736, 3741), (246, 1979, 3772, 3778), (247, 1987, 3809, 3814),
     (248, 1994, 3841, 3847), (249, 2002, 3878, 3884), (250, 2009, 3911, 3916), (251, 2017, 3948, 3954),
     (255, 2048, 4096, 4101)]"

definition lin_ok :: "int \<times> int \<times> int \<times> int \<Rightarrow> bool" where
  "lin_ok e =
     (case e of (c, a, l, u) \<Rightarrow>
        if c \<le> 10 then l * 32946 \<le> c * 40960 \<and> c * 40960 \<le> u * 32946
        else 0 \<le> a \<and> 0 \<le> u \<and> a * 53805 \<le> (200 * c + 2805) * 2048 \<and> (200 * c + 2805) * 2048 \<le> (a + 1) * 53805
          \<and> l ^ 5 * 2 ^ 72 \<le> a ^ 12 \<and> (a + 1) ^ 12 \<le> u ^ 5 * 2 ^ 72)"

lemma lin_ok_sound:
  assumes "lin_ok (c, a, l, u)"
  shows "real_of_int l / 4096 \<le> linear c \<and> linear c \<le> real_of_int u / 4096"
proof (cases "c \<le> 10")
  case True
  with assms have "real_of_int (l * 32946) \<le> real_of_int (c * 40960)" "real_of_int (c * 40960) \<le> real_of_int (u * 32946)"
    by (simp_all only: of_int_le_iff lin_ok_def prod.case if_True)
  moreover from True have "linear c = real_of_int c / 255 / (1292 / 100)" by (simp add: linear_def)
  ultimately show ?thesis by (simp add: field_simps)
next
  case False
  let ?x = "(real_of_int c / 255 + 55 / 1000) / (1055 / 1000)"
  from assms False have z: "0 \<le> a" "0 \<le> u" "real_of_int (a * 53805) \<le> real_of_int ((200 * c + 2805) * 2048)"
    "real_of_int ((200 * c + 2805) * 2048) \<le> real_of_int ((a + 1) * 53805)"
    "real_of_int (l ^ 5 * 2 ^ 72) \<le> real_of_int (a ^ 12)" "real_of_int ((a + 1) ^ 12) \<le> real_of_int (u ^ 5 * 2 ^ 72)"
    by (simp_all only: of_int_le_iff lin_ok_def prod.case if_False)
  have lin: "linear c = ?x powr (12 / 5)" using False by (simp add: linear_def)
  have pos: "0 < ?x" using False by simp
  have x: "real_of_int a / 2048 \<le> ?x" "?x \<le> (real_of_int a + 1) / 2048" using z(3,4) by (simp_all add: field_simps)
  have "(real_of_int l / 4096) ^ 5 \<le> (real_of_int a / 2048) ^ 12" using z(5) by (simp add: power_divide field_simps)
  also have "\<dots> \<le> ?x ^ 12" using x(1) z(1) by (intro power_mono) simp_all
  finally have lo: "(real_of_int l / 4096) ^ 5 \<le> (?x powr (12 / 5)) ^ 5" using powr_fifth [OF pos] by simp
  have "?x ^ 12 \<le> ((real_of_int a + 1) / 2048) ^ 12" using x(2) pos by (intro power_mono) simp_all
  also have "\<dots> \<le> (real_of_int u / 4096) ^ 5" using z(6) by (simp add: power_divide field_simps)
  finally have hi: "(?x powr (12 / 5)) ^ 5 \<le> (real_of_int u / 4096) ^ 5" using powr_fifth [OF pos] by simp
  show ?thesis unfolding lin
    using power_le_imp_le_base [of _ 4, simplified, OF lo] power_le_imp_le_base [of _ 4, simplified, OF hi] z(2) by simp
qed

lemma lin_table_ok: "list_all lin_ok lin_table"
  by code_simp

text \<open>Bounds of the luminance in units of \<open>2 ^ -12 / 10 ^ 4\<close>.\<close>

definition lum_bounds :: "jsstr \<Rightarrow> (int \<times> int) option" where
  "lum_bounds col =
     (case (map_of lin_table (channel 0 col), map_of lin_table (channel 1 col), map_of lin_table (channel 2 col)) of
        (Some (_, l0, u0), Some (_, l1, u1), Some (_, l2, u2)) \<Rightarrow>
          Some (2126 * l0 + 7152 * l1 + 722 * l2, 2126 * u0 + 7152 * u1 + 722 * u2)
      | _ \<Rightarrow> None)"

lemma lum_bounds_ok:
  assumes "lum_bounds col = Some (l, u)"
  shows "real_of_int l / 40960000 \<le> luminance col \<and> luminance col \<le> real_of_int u / 40960000"
proof -
  obtain a0 l0 u0 a1 l1 u1 a2 l2 u2 where m: "map_of lin_table (channel 0 col) = Some (a0, l0, u0)"
    "map_of lin_table (channel 1 col) = Some (a1, l1, u1)" "map_of lin_table (channel 2 col) = Some (a2, l2, u2)"
    "l = 2126 * l0 + 7152 * l1 + 722 * l2" "u = 2126 * u0 + 7152 * u1 + 722 * u2"
    using assms by (auto simp: lum_bounds_def split: option.splits prod.splits)
  have "lin_ok (channel 0 col, a0, l0, u0)" "lin_ok (channel 1 col, a1, l1, u1)" "lin_ok (channel 2 col, a2, l2, u2)"
    using m(1-3) lin_table_ok by (auto simp: list_all_iff dest: map_of_SomeD)
  then show ?thesis
    using lin_ok_sound [of "channel 0 col" a0 l0 u0] lin_ok_sound [of "channel 1 col" a1 l1 u1] lin_ok_sound [of "channel 2 col" a2 l2 u2]
    unfolding luminance_def m(4,5) by (simp add: field_simps)
qed

text \<open>The check that the contrast is at least \<open>n / 10\<close>.\<close>

definition contrast_ok :: "int \<Rightarrow> jsstr \<Rightarrow> jsstr \<Rightarrow> bool" where
  "contrast_ok n a b =
     (case (lum_bounds a, lum_bounds b) of
        (Some (la, ua), Some (lb, ub)) \<Rightarrow>
          n * (ub + 2048000) \<le> 10 * (la + 2048000) \<or> n * (ua + 2048000) \<le> 10 * (lb + 2048000)
      | _ \<Rightarrow> False)"

lemma contrast_step:
  fixes n uy lx :: int
  assumes "n * (uy + 2048000) \<le> 10 * (lx + 2048000)" "0 \<le> n" "real_of_int lx / 40960000 \<le> x" "y \<le> real_of_int uy / 40960000"
    and "0 \<le> x" "0 \<le> y"
  shows "real_of_int n / 10 \<le> (max x y + 5 / 100) / (min x y + 5 / 100)"
proof -
  have "real_of_int (n * (uy + 2048000)) \<le> real_of_int (10 * (lx + 2048000))" using assms(1) by (simp only: of_int_le_iff)
  then have "real_of_int n * (real_of_int uy + 2048000) \<le> 10 * (real_of_int lx + 2048000)" by simp
  moreover have "real_of_int n * (y * 40960000 + 2048000) \<le> real_of_int n * (real_of_int uy + 2048000)"
    using assms(2,4) by (intro mult_left_mono) (simp_all add: field_simps)
  ultimately have "real_of_int n * (y * 40960000 + 2048000) \<le> 10 * (x * 40960000 + 2048000)"
    using assms(3) by (simp add: field_simps)
  then have "real_of_int n / 10 * (y + 5 / 100) \<le> x + 5 / 100" by (simp add: field_simps)
  moreover have "real_of_int n / 10 * (min x y + 5 / 100) \<le> real_of_int n / 10 * (y + 5 / 100)"
    using assms(2) by (intro mult_left_mono) simp_all
  moreover have "x + 5 / 100 \<le> max x y + 5 / 100" by simp
  ultimately have "real_of_int n / 10 * (min x y + 5 / 100) \<le> max x y + 5 / 100" by linarith
  then show ?thesis using assms(5,6) by (simp add: pos_le_divide_eq)
qed

lemma contrast_commute: "contrast a b = contrast b a"
  by (simp add: contrast_def max.commute min.commute)

lemma lin_table_nonneg: "list_all (\<lambda>e. 0 \<le> fst e) lin_table"
  by code_simp

lemma luminance_nonneg:
  assumes "lum_bounds col = Some b"
  shows "0 \<le> luminance col"
proof -
  have "0 \<le> channel i col" if "i < 3" for i
    using assms lin_table_nonneg that
    by (auto simp: lum_bounds_def list_all_iff less_Suc_eq eval_nat_numeral split: option.splits prod.splits dest!: map_of_SomeD)
  then have "0 \<le> linear (channel i col)" if "i < 3" for i using that by (simp add: linear_def)
  from this [of 0] this [of 1] this [of 2] show ?thesis by (simp add: luminance_def)
qed

lemma contrast_ok_sound:
  assumes "contrast_ok n a b" "0 \<le> n"
  shows "real_of_int n / 10 \<le> contrast a b"
proof -
  obtain la ua lb ub where m: "lum_bounds a = Some (la, ua)" "lum_bounds b = Some (lb, ub)"
    "n * (ub + 2048000) \<le> 10 * (la + 2048000) \<or> n * (ua + 2048000) \<le> 10 * (lb + 2048000)"
    using assms(1) by (auto simp: contrast_ok_def split: option.splits)
  note b = lum_bounds_ok [OF m(1)] lum_bounds_ok [OF m(2)] luminance_nonneg [OF m(1)] luminance_nonneg [OF m(2)]
  from m(3) show ?thesis
  proof
    assume "n * (ub + 2048000) \<le> 10 * (la + 2048000)"
    from contrast_step [OF this assms(2)] b show ?thesis by (simp add: contrast_def)
  next
    assume "n * (ua + 2048000) \<le> 10 * (lb + 2048000)"
    from contrast_step [OF this assms(2)] b show ?thesis by (subst contrast_commute) (simp add: contrast_def)
  qed
qed

definition palette_ok :: "page_palette \<Rightarrow> bool" where
  "palette_ok p \<longleftrightarrow>
     contrast_ok 45 (pal_onPrimary p) (pal_primary p) \<and> contrast_ok 70 (pal_text p) (pal_surface p)
     \<and> contrast_ok 45 (pal_muted p) (pal_surface p) \<and> contrast_ok 30 (pal_primary p) (pal_bg p)"

lemma palettes_ok: "list_all palette_ok PAGE_PALETTES"
  by (simp only: PAGE_PALETTES_def list.pred_inject palette_ok_def page_palette.simps simp_thms) code_simp

section \<open>Properties\<close>

lemma resolve_in_table: "resolvePalette theme \<in> set PAGE_PALETTES"
proof -
  have "DEFAULT_PALETTE \<in> set PAGE_PALETTES" by (simp add: DEFAULT_PALETTE_def PAGE_PALETTES_def)
  then show ?thesis by (auto simp: resolvePalette_def Let_def find_Some_iff split: option.splits)
qed


lemma palette_keys_distinct: "distinct (map pal_key PAGE_PALETTES)"
  by (simp add: PAGE_PALETTES_def js_lit)

text \<open>
  Looking up a theme: a known key gives its own palette and everything else the default; the
  radius is a whole number between 0 and 40; and the page and the preview of the
  setup get the same variables from it.
\<close>

theorem theme_lookup:
  "(\<forall>p r. p \<in> set PAGE_PALETTES \<and> theme = Some \<lparr>th_palette = Some (pal_key p), th_radius = r\<rparr> \<longrightarrow> resolvePalette theme = p)
    \<and> (\<forall>t k. theme = Some t \<and> th_palette t = Some k \<and> k \<notin> pal_key ` set PAGE_PALETTES \<longrightarrow> resolvePalette theme = DEFAULT_PALETTE)
    \<and> resolvePalette None = DEFAULT_PALETTE
    \<and> 0 \<le> resolveRadius theme \<and> resolveRadius theme \<le> 40
    \<and> paletteVars theme = paletteVarsFor (resolvePalette theme) (resolveRadius theme)"
proof -
  have ne: "pal_key p \<noteq> []" if "p \<in> set PAGE_PALETTES" for p using that by (auto simp: PAGE_PALETTES_def js_lit)
  have u: "p = q" if "p \<in> set PAGE_PALETTES" "q \<in> set PAGE_PALETTES" "pal_key p = pal_key q" for p q
    using palette_keys_distinct that by (simp add: distinct_map inj_on_def)
  have f: "find (\<lambda>q. pal_key q = pal_key p) PAGE_PALETTES = Some p" if "p \<in> set PAGE_PALETTES" for p
  proof (cases "find (\<lambda>q. pal_key q = pal_key p) PAGE_PALETTES")
    case (Some q)
    then have "q \<in> set PAGE_PALETTES" "pal_key q = pal_key p" by (auto simp: find_Some_iff)
    with u [OF this(1) that] Some show ?thesis by simp
  qed (use that in \<open>auto simp: find_None_iff\<close>)
  have n: "find (\<lambda>q. pal_key q = k) PAGE_PALETTES = None" if "k \<notin> pal_key ` set PAGE_PALETTES" for k
    using that by (auto simp: find_None_iff)
  show ?thesis using ne f n
    by (auto simp: resolvePalette_def resolveRadius_def paletteVars_def paletteVarsFor_def Let_def
        MIN_RADIUS_def MAX_RADIUS_def DEFAULT_RADIUS_def split: option.split js_num.split)
qed

lemma theme_lookup_witness:
  "resolvePalette (Some \<lparr>th_palette = Some (pal_key (PAGE_PALETTES ! 7)), th_radius = None\<rparr>) = PAGE_PALETTES ! 7"
proof -
  have "PAGE_PALETTES ! 7 \<in> set PAGE_PALETTES" by (rule nth_mem) (simp add: PAGE_PALETTES_def)
  with theme_lookup [of "Some \<lparr>th_palette = Some (pal_key (PAGE_PALETTES ! 7)), th_radius = None\<rparr>"] show ?thesis by blast
qed

end
