(* ===== verification/BusinessPage.thy ===== *)
theory BusinessPage
  imports Clients ClientLaws LeadSearch React PageTheme
begin

text \<open>
  The owner's side of the public page: its types (\<open>dashboard/businessPageTypes.ts\<close>), its endpoints
  (\<open>lib/businessPageClient.ts\<close>), shrinking a photo before it is sent (\<open>lib/imageResize.ts\<close>), the hook that loads the page
  (\<open>components/booking/setup/useBusinessPage.ts\<close>), the form of its texts (\<open>components/booking/setup/BusinessDetailsCard.tsx\<close>)
  and of its logo (\<open>components/booking/setup/LogoUploader.tsx\<close>).

  Decoding and encoding an image belong to the browser: they are arguments, with \<open>None\<close> for a
  failure. Of a theme only the two keys its type names are kept.
\<close>

section \<open>businessPageTypes.ts\<close>

record business_image =
  bi_id :: jsstr
  bi_storage_path :: jsstr
  bi_caption :: "jsstr option"
  bi_sort_order :: int
  bi_mime_type :: "jsstr option"
  bi_size_bytes :: "int option"
  bi_created_at :: "jsstr option"

record business_page =
  pg_phone :: "jsstr option"
  pg_whatsapp :: "jsstr option"
  pg_instagram_url :: "jsstr option"
  pg_waze_url :: "jsstr option"
  pg_slug :: jsstr
  pg_business_name :: jsstr
  pg_tagline :: "jsstr option"
  pg_about :: "jsstr option"
  pg_address :: "jsstr option"
  pg_logo_url :: "jsstr option"
  pg_page_theme :: page_theme
  pg_images :: "business_image list"
  pg_updated_at :: "jsstr option"

definition MAX_BUSINESS_IMAGES :: nat where "MAX_BUSINESS_IMAGES = 40"

definition imageSrc :: "jsstr \<Rightarrow> jsstr" where
  "imageSrc storagePath = (lat ''/media/'') @ storagePath"

section \<open>businessPageClient.ts\<close>

definition UPLOAD_TIMEOUT_MS :: nat where "UPLOAD_TIMEOUT_MS = 120000"

definition getBusinessPage :: http_request where
  "getBusinessPage = api_get (lat ''/api/booking/page'')"

definition updateBusinessPage :: "json \<Rightarrow> http_request" where
  "updateBusinessPage body = api_put (lat ''/api/booking/page'') (Some body)"

record upload_file =
  f_type :: jsstr
  f_size :: nat
  f_name :: jsstr

record upload_request =
  up_url :: jsstr
  up_timeout :: nat
  up_credentials :: bool
  up_accept :: jsstr
  up_file :: upload_file
  up_caption :: "jsstr option"

definition uploadBusinessLogo :: "upload_file \<Rightarrow> upload_request" where
  "uploadBusinessLogo f =
     \<lparr>up_url = (lat ''/api/booking/logo''), up_timeout = UPLOAD_TIMEOUT_MS, up_credentials = True,
      up_accept = (lat ''application/json''), up_file = f, up_caption = None\<rparr>"

definition uploadBusinessImage :: "upload_file \<Rightarrow> jsstr option \<Rightarrow> upload_request" where
  "uploadBusinessImage f caption =
     \<lparr>up_url = (lat ''/api/booking/images''), up_timeout = UPLOAD_TIMEOUT_MS, up_credentials = True,
      up_accept = (lat ''application/json''), up_file = f, up_caption = (if caption = Some [] then None else caption)\<rparr>"

text \<open>What ends an upload; the body is \<open>None\<close> when it is not JSON.\<close>

datatype xhr_outcome = Xhr_load nat "json option" | Xhr_error | Xhr_timeout | Xhr_abort

definition xhr_settle :: "xhr_outcome \<Rightarrow> js_thrown + json" where
  "xhr_settle x =
     (case x of
        Xhr_load st b \<Rightarrow>
          (let body = (case b of None \<Rightarrow> JNull | Some j \<Rightarrow> j) in
           if 200 \<le> st \<and> st < 300 then Inr body
           else Inl (ThrownApi \<lparr>err_status = st, err_message = (lat ''HTTP '') @ nat_str st, err_body = body\<rparr>))
      | Xhr_error \<Rightarrow> Inl (ThrownApi \<lparr>err_status = 0, err_message = (lat ''unreachable''), err_body = JNull\<rparr>)
      | Xhr_timeout \<Rightarrow> Inl (ThrownApi \<lparr>err_status = 0, err_message = (lat ''timeout''), err_body = JNull\<rparr>)
      | Xhr_abort \<Rightarrow> Inl (ThrownApi \<lparr>err_status = 0, err_message = (lat ''aborted''), err_body = JNull\<rparr>))"

definition xhr_progress :: "bool \<Rightarrow> nat \<Rightarrow> nat \<Rightarrow> rat option" where
  "xhr_progress lengthComputable loaded size_total =
     (if lengthComputable \<and> size_total > 0 then Some (of_nat loaded / of_nat size_total) else None)"

definition updateBusinessImage :: "jsstr \<Rightarrow> (jsstr \<times> json) list \<Rightarrow> http_request option" where
  "updateBusinessImage i body = with_component i (\<lambda>e. api_patch ((lat ''/api/booking/images/'') @ e) (Some (JObj body)))"

definition deleteBusinessImage :: "jsstr \<Rightarrow> http_request option" where
  "deleteBusinessImage i = with_component i (\<lambda>e. api_delete ((lat ''/api/booking/images/'') @ e))"

definition body_detail :: "json \<Rightarrow> jsstr option" where
  "body_detail b =
     (case b of
        JObj kvs \<Rightarrow> (case map_of kvs (lat ''detail'') of Some (JStr d) \<Rightarrow> if trim d \<noteq> [] then Some d else None | _ \<Rightarrow> None)
      | _ \<Rightarrow> None)"

definition toUploadError :: "js_thrown \<Rightarrow> jsstr \<Rightarrow> jsstr" where
  "toUploadError err fallback =
     (case err of
        ThrownApi e \<Rightarrow>
          if err_status e \<in> {413, 415, 422} then
            (case body_detail (err_body e) of
               Some d \<Rightarrow> d
             | None \<Rightarrow>
                 if err_status e = 413 then (heb ''dznepd bceld nci (rc 5MB lznepd).'')
                 else if err_status e = 415 then (heb ''@tyx ldrlez xw znepez nqeb JPG, PNG @e WEBP.'')
                 else (heb ''@tyx ldrlez rc 40 znepez. ngwe znepd wiinz kci ldeqis gcyd.''))
          else toFriendlyError err fallback
      | ThrownOther m \<Rightarrow> toFriendlyError err fallback)"

section \<open>imageResize.ts\<close>

definition MAX_EDGE :: nat where "MAX_EDGE = 1600"
definition RESIZE_ABOVE_BYTES :: nat where "RESIZE_ABOVE_BYTES = 1500000"
definition QUALITY :: rat where "QUALITY = 85 / 100"

definition resize_scale :: "nat \<Rightarrow> nat \<Rightarrow> rat" where
  "resize_scale width height = min 1 (of_nat MAX_EDGE / of_nat (max width height))"

definition canvas_edge :: "nat \<Rightarrow> rat \<Rightarrow> int" where
  "canvas_edge n scale = max 1 (js_round (of_nat n * scale))"

text \<open>
  \<open>decode\<close> gives the natural size of the image, \<open>encode\<close> the size of the JPEG that the canvas gives; a canvas
  without a context, an error and a refusal to encode are all \<open>None\<close>.
\<close>

definition shrinkImageForUpload :: "(upload_file \<Rightarrow> (nat \<times> nat) option) \<Rightarrow> (upload_file \<Rightarrow> int \<Rightarrow> int \<Rightarrow> rat \<Rightarrow> nat option) \<Rightarrow> upload_file \<Rightarrow> upload_file" where
  "shrinkImageForUpload decode encode f =
     (if f_type f \<noteq> (lat ''image/jpeg'') \<or> f_size f \<le> RESIZE_ABOVE_BYTES then f
      else case decode f of
          None \<Rightarrow> f
        | Some (width, height) \<Rightarrow>
            if width = 0 \<or> height = 0 then f
            else
              (let scale = resize_scale width height in
               if scale = 1 \<and> f_size f \<le> RESIZE_ABOVE_BYTES then f
               else case encode f (canvas_edge width scale) (canvas_edge height scale) QUALITY of
                   None \<Rightarrow> f
                 | Some blob \<Rightarrow>
                     if blob \<ge> f_size f then f
                     else \<lparr>f_type = (lat ''image/jpeg''), f_size = blob, f_name = (lat ''photo.jpg'')\<rparr>))"

section \<open>useBusinessPage.ts\<close>

record page_hook =
  hk_page :: "business_page option"
  hk_loading :: bool
  hk_error :: "jsstr option"
  hk_loader :: loader

definition hook_mount :: page_hook where
  "hook_mount = \<lparr>hk_page = None, hk_loading = True, hk_error = None, hk_loader = rerun_effect new_loader\<rparr>"

definition hook_settled :: "nat \<Rightarrow> (js_thrown + business_page) \<Rightarrow> page_hook \<Rightarrow> page_hook" where
  "hook_settled t r s =
     (if \<not> live t (hk_loader s) then s
      else
        (case r of
           Inr p \<Rightarrow> s\<lparr>hk_page := Some p\<rparr>
         | Inl err \<Rightarrow> s\<lparr>hk_error := Some (toFriendlyError err (heb ''hripz txhi drnec pkyld. pqe yea.''))\<rparr>)
        \<lparr>hk_loading := False\<rparr>)"

definition setPage :: "(business_page option \<Rightarrow> business_page option) \<Rightarrow> page_hook \<Rightarrow> page_hook" where
  "setPage f s = s\<lparr>hk_page := f (hk_page s)\<rparr>"

interpretation page_loads: guarded_settle hk_loader hook_settled
  by unfold_locales (auto simp: hook_settled_def split: sum.split)

section \<open>BusinessDetailsCard.tsx\<close>

datatype detail_key =
    D_business_name | D_tagline | D_about | D_address | D_phone | D_whatsapp | D_instagram_url | D_waze_url

fun key_name :: "detail_key \<Rightarrow> jsstr" where
  "key_name D_business_name = (lat ''business_name'')"
| "key_name D_tagline = (lat ''tagline'')"
| "key_name D_about = (lat ''about'')"
| "key_name D_address = (lat ''address'')"
| "key_name D_phone = (lat ''phone'')"
| "key_name D_whatsapp = (lat ''whatsapp'')"
| "key_name D_instagram_url = (lat ''instagram_url'')"
| "key_name D_waze_url = (lat ''waze_url'')"

definition FIELDS :: "detail_key list" where
  "FIELDS = [D_tagline, D_about, D_address, D_phone, D_whatsapp, D_instagram_url, D_waze_url]"

fun page_field :: "detail_key \<Rightarrow> business_page \<Rightarrow> jsstr option" where
  "page_field D_business_name p = Some (pg_business_name p)"
| "page_field D_tagline p = pg_tagline p"
| "page_field D_about p = pg_about p"
| "page_field D_address p = pg_address p"
| "page_field D_phone p = pg_phone p"
| "page_field D_whatsapp p = pg_whatsapp p"
| "page_field D_instagram_url p = pg_instagram_url p"
| "page_field D_waze_url p = pg_waze_url p"

definition draftFrom :: "business_page \<Rightarrow> detail_key \<Rightarrow> jsstr" where
  "draftFrom page k = or_else (page_field k page) []"

definition http_link :: "jsstr \<Rightarrow> bool" where
  "http_link s \<longleftrightarrow> starts_with (lower s) (lat ''http://'') \<or> starts_with (lower s) (lat ''https://'')"

definition badLink :: "jsstr \<Rightarrow> bool" where
  "badLink value = (let trimmed = trim value in if trimmed = [] then False else \<not> http_link trimmed)"

record details_card =
  dc_draft :: "detail_key \<Rightarrow> jsstr"
  dc_saving :: bool
  dc_error :: "jsstr option"
  dc_saved :: bool

definition details_init :: "business_page \<Rightarrow> details_card" where
  "details_init page = \<lparr>dc_draft = draftFrom page, dc_saving = False, dc_error = None, dc_saved = False\<rparr>"

definition details_set :: "detail_key \<Rightarrow> jsstr \<Rightarrow> details_card \<Rightarrow> details_card" where
  "details_set k v s = s\<lparr>dc_draft := (dc_draft s)(k := v), dc_saved := False\<rparr>"

definition linkError :: "details_card \<Rightarrow> bool" where
  "linkError s \<longleftrightarrow> badLink (dc_draft s D_instagram_url) \<or> badLink (dc_draft s D_waze_url)"

definition nameEmpty :: "details_card \<Rightarrow> bool" where
  "nameEmpty s \<longleftrightarrow> length (trim (dc_draft s D_business_name)) = 0"

definition details_dirty :: "business_page \<Rightarrow> details_card \<Rightarrow> bool" where
  "details_dirty page s \<longleftrightarrow>
     list_ex (\<lambda>k. trim (dc_draft s k) \<noteq> or_else (page_field k page) []) FIELDS
     \<or> trim (dc_draft s D_business_name) \<noteq> pg_business_name page"

definition diff_field :: "business_page \<Rightarrow> details_card \<Rightarrow> detail_key \<Rightarrow> jsstr option obj \<Rightarrow> jsstr option obj" where
  "diff_field page s k diff =
     (let nxt = trim (dc_draft s k) in
      if nxt \<noteq> or_else (page_field k page) [] then put (key_name k) (if nxt = [] then None else Some nxt) diff else diff)"

definition details_diff :: "business_page \<Rightarrow> details_card \<Rightarrow> jsstr option obj" where
  "details_diff page s =
     (let diff = fold (diff_field page s) FIELDS [];
          nextName = trim (dc_draft s D_business_name)
      in if nextName \<noteq> [] \<and> nextName \<noteq> pg_business_name page then put (key_name D_business_name) (Some nextName) diff else diff)"

definition diff_json :: "jsstr option obj \<Rightarrow> json" where
  "diff_json d = JObj (map (\<lambda>(k, v). (k, case v of None \<Rightarrow> JNull | Some x \<Rightarrow> JStr x)) (entries d))"

definition details_save :: "business_page \<Rightarrow> details_card \<Rightarrow> details_card \<times> http_request option" where
  "details_save page s =
     (if linkError s then (s\<lparr>dc_error := Some (heb ''wiyexim giiaim ldzgil a-'' @ lat ''https:// '' @ [8212] @ heb '' drziwe @z dkzeaz dnl@d ndctcto.'')\<rparr>, None)
      else if nameEmpty s then (s\<lparr>dc_error := Some (heb ''ym drqw l@ ikel ldiy@x xiw '' @ [8212] @ heb '' fd nd ynetir ax@y drnec.'')\<rparr>, None)
      else
        (let diff = details_diff page s in
         if length (keys diff) = 0 then (s, None)
         else (s\<lparr>dc_saving := True, dc_error := None, dc_saved := False\<rparr>, Some (updateBusinessPage (diff_json diff)))))"

text \<open>The state, and the page handed to \<open>onSaved\<close>.\<close>

definition details_saved :: "(js_thrown + business_page) \<Rightarrow> details_card \<Rightarrow> details_card \<times> business_page option" where
  "details_saved r s =
     (case r of
        Inr updated \<Rightarrow> (s\<lparr>dc_draft := draftFrom updated, dc_saved := True, dc_saving := False\<rparr>, Some updated)
      | Inl err \<Rightarrow>
          (s\<lparr>dc_error := Some
               (if (case err of ThrownApi e \<Rightarrow> err_status e = 422 | ThrownOther m \<Rightarrow> False)
                then (heb ''@gc dycez @xej nci @e l@ zwio. acwe @z dwiyexim e@z @exj dhwqhim.'')
                else toFriendlyError err (heb ''ynixz txhi drqw pkyld. pqe yea.'')),
             dc_saving := False\<rparr>, None))"

section \<open>LogoUploader.tsx\<close>

definition logoSrc :: "jsstr option \<Rightarrow> jsstr option" where
  "logoSrc raw =
     (if or_else raw [] = [] then None
      else (let url = trim (or_else raw []) in if http_link url \<or> starts_with url (lat ''/media/'') then Some url else None))"

record logo_uploader =
  lu_busy :: bool
  lu_fraction :: rat
  lu_error :: "jsstr option"

definition logo_init :: logo_uploader where
  "logo_init = \<lparr>lu_busy = False, lu_fraction = 0, lu_error = None\<rparr>"

definition logo_picked :: "logo_uploader \<Rightarrow> logo_uploader" where
  "logo_picked s = s\<lparr>lu_busy := True, lu_fraction := 0, lu_error := None\<rparr>"

definition logo_uploaded :: "(js_thrown + business_page) \<Rightarrow> logo_uploader \<Rightarrow> logo_uploader \<times> business_page option" where
  "logo_uploaded r s =
     (case r of
        Inr updated \<Rightarrow> (s\<lparr>lu_busy := False\<rparr>, Some updated)
      | Inl err \<Rightarrow> (s\<lparr>lu_error := Some (toUploadError err (heb ''drl@z dlebe pkyld. pqe yea.'')), lu_busy := False\<rparr>, None))"

definition logo_remove :: "bool \<Rightarrow> logo_uploader \<Rightarrow> logo_uploader \<times> http_request option" where
  "logo_remove answer s =
     (if \<not> answer then (s, None)
      else (s\<lparr>lu_busy := True, lu_error := None\<rparr>, Some (updateBusinessPage (diff_json [((lat ''logo_url''), None)]))))"

definition logo_removed :: "(js_thrown + business_page) \<Rightarrow> logo_uploader \<Rightarrow> logo_uploader \<times> business_page option" where
  "logo_removed r s =
     (case r of
        Inr updated \<Rightarrow> (s\<lparr>lu_busy := False\<rparr>, Some updated)
      | Inl err \<Rightarrow> (s\<lparr>lu_error := Some (toFriendlyError err (heb ''dqxz dlebe pkyld. pqe yea.'')), lu_busy := False\<rparr>, None))"

datatype logo_ui = Lg_pick | Lg_remove bool

definition logo_view :: "business_page \<Rightarrow> bool \<Rightarrow> logo_uploader \<Rightarrow> logo_ui vnode list" where
  "logo_view page disabled s =
     (let current = logoSrc (pg_logo_url page); locked = lu_busy s \<or> disabled in
      [El ''span'' [] [Txt (heb ''lebe drqw (l@ gead)'')]]
      @ (case lu_error s of None \<Rightarrow> [] | Some m \<Rightarrow> shown (m \<noteq> []) [El ''Alert'' [] [Txt m]])
      @ [case current of
           Some src \<Rightarrow> El ''img'' [Attr ''src'' src, Attr ''alt'' (heb ''dlebe dpekgi yl drqw'')] []
         | None \<Rightarrow> El ''span'' [] [Txt (if trim (pg_business_name page) = [] then ([9733]) else take 1 (trim (pg_business_name page)))],
         El ''input'' [Attr ''type'' (lat ''file''), Disabled locked, on_click Lg_pick]
           [Txt (if current \<noteq> None then (heb ''dgltz dlebe'') else (heb ''agixz lebe ndngya''))]]
      @ shown (current \<noteq> None) [El ''button'' [On (\<lambda>e. \<exists>a. e = Lg_remove a), Disabled locked] [Txt (heb ''dqxd'')]]
      @ [Txt (heb ''JPG, PNG @e WEBP '' @ [183] @ heb '' rc 5MB. dlebe nevb aribel ax@y drnec, el@ pqtx aio 40 znepez dblxid.'')]
      @ shown (lu_busy s)
          [El ''span'' [Attr ''role'' (lat ''progressbar''), Attr ''aria-valuenow'' (int_str (js_round (lu_fraction s * 100)))] []])"

datatype details_ui = Dt_set detail_key jsstr | Dt_save | Dt_logo logo_ui

definition details_view :: "business_page \<Rightarrow> logo_uploader \<Rightarrow> details_card \<Rightarrow> details_ui vnode list" where
  "details_view page lu s =
     (let text_in = (\<lambda>label k n. limited_field label (dc_draft s k) (Some n) (dc_saving s) (Dt_set k)) in
      [El ''h2'' [] [Txt (heb ''txhi drqw'')]]
      @ shown (dc_saved s) [El ''span'' [Attr ''role'' (lat ''status'')] [Txt (heb ''pynx'')]]
      @ [El ''button'' [on_click Dt_save, Disabled (dc_saving s \<or> \<not> details_dirty page s)]
           [Txt (if dc_saving s then (heb ''yenx'' @ [8230]) else (heb ''ynex txhim''))],
         El ''p'' [] [Txt (heb ''kl nd ykzea k@o netir ax@y drnec ydlwegez xe@im.'')]]
      @ (case dc_error s of None \<Rightarrow> [] | Some m \<Rightarrow> shown (m \<noteq> []) [El ''Alert'' [] [Txt m]])
      @ [text_in (heb ''ym drqw'') D_business_name 120]
      @ map (view_in Dt_logo) (logo_view page (dc_saving s) lu)
      @ [text_in (heb ''yexz zi@ex wvxd (l@ gead)'') D_tagline 160, text_in (heb ''rl drqw (l@ gead)'') D_about 2000,
         text_in (heb ''kzeaz (l@ gead)'') D_address 240,
         El ''fieldset'' []
           [Txt (heb ''ktzexi ivixz wyx''), text_in (heb ''hlteo'') D_phone 40, text_in (lat ''WhatsApp'') D_whatsapp 40,
            text_in (heb ''wiyex l@ipqhbxm'') D_instagram_url 500, text_in (heb ''wiyex l-W'' @ lat ''aze'') D_waze_url 500]])"

section \<open>Lemmas\<close>

lemma key_name_inj [simp]: "key_name a = key_name b \<longleftrightarrow> a = b"
  by (cases a; cases b) (simp_all add: js_lit)

declare key_name.simps [simp del]

definition field_differs :: "business_page \<Rightarrow> details_card \<Rightarrow> detail_key \<Rightarrow> bool" where
  "field_differs page s k \<longleftrightarrow> trim (dc_draft s k) \<noteq> or_else (page_field k page) []"

definition field_value :: "details_card \<Rightarrow> detail_key \<Rightarrow> jsstr option" where
  "field_value s k = (if trim (dc_draft s k) = [] then None else Some (trim (dc_draft s k)))"

lemma diff_field_eq:
  "diff_field page s k m = (if field_differs page s k then put (key_name k) (field_value s k) m else m)"
  by (simp add: diff_field_def field_differs_def field_value_def Let_def)

lemma get_fold_diff:
  "distinct ks \<Longrightarrow> get (fold (diff_field page s) ks m) (key_name k) =
     (if k \<in> set ks \<and> field_differs page s k then Some (field_value s k) else get m (key_name k))"
  by (induction ks arbitrary: m) (auto simp: diff_field_eq)

lemma wf_fold_diff: "wf_obj m \<Longrightarrow> wf_obj (fold (diff_field page s) ks m)"
  by (induction ks arbitrary: m) (simp_all add: diff_field_eq)

lemma keys_fold_diff:
  "fst ` set (fold (diff_field page s) ks m) \<subseteq> range key_name \<union> fst ` set m"
proof (induction ks arbitrary: m)
  case (Cons k ks)
  have "fst ` set (diff_field page s k m) \<subseteq> range key_name \<union> fst ` set m" by (simp add: diff_field_eq)
  with Cons.IH [of "diff_field page s k m"] show ?case by simp blast
qed simp

lemma in_FIELDS: "k \<in> set FIELDS \<longleftrightarrow> k \<noteq> D_business_name"
  by (cases k) (simp_all add: FIELDS_def)

lemma get_details_diff:
  assumes "\<not> nameEmpty s"
  shows "get (details_diff page s) (key_name k) = (if field_differs page s k then Some (field_value s k) else None)"
proof -
  have d: "distinct FIELDS" by (simp add: FIELDS_def)
  have n: "trim (dc_draft s D_business_name) \<noteq> []" using assms by (simp add: nameEmpty_def)
  show ?thesis
    using n get_fold_diff [OF d, of page s "[]" k] in_FIELDS [of k]
    by (cases "k = D_business_name")
      (auto simp: details_diff_def Let_def field_differs_def field_value_def or_else_def)
qed

lemma wf_details_diff: "wf_obj (details_diff page s)"
  by (simp add: details_diff_def Let_def wf_fold_diff)

lemma details_diff_keys: "fst ` set (details_diff page s) \<subseteq> range key_name"
  using keys_fold_diff [of page s FIELDS "[]"] by (simp add: details_diff_def Let_def)

lemma dirty_iff: "details_dirty page s \<longleftrightarrow> (\<exists>k. field_differs page s k)"
proof -
  have "details_dirty page s \<longleftrightarrow> (\<exists>k \<in> set FIELDS. field_differs page s k) \<or> field_differs page s D_business_name"
    by (simp add: details_dirty_def field_differs_def list_ex_iff or_else_def)
  then show ?thesis using in_FIELDS by blast
qed

lemma details_diff_Nil: "\<not> nameEmpty s \<Longrightarrow> details_diff page s = [] \<longleftrightarrow> \<not> details_dirty page s"
proof -
  assume ne: "\<not> nameEmpty s"
  have "details_diff page s = []" if "\<not> details_dirty page s"
  proof (rule ccontr)
    assume "details_diff page s \<noteq> []"
    then have "hd (details_diff page s) \<in> set (details_diff page s)" by simp
    moreover then obtain k where "fst (hd (details_diff page s)) = key_name k" using details_diff_keys [of page s] by blast
    ultimately have "(key_name k, snd (hd (details_diff page s))) \<in> set (details_diff page s)" by (metis prod.collapse)
    then have "get (details_diff page s) (key_name k) \<noteq> None" unfolding map_of_eq_None_iff by force
    with get_details_diff [OF ne] that show False by (auto simp: dirty_iff split: if_splits)
  qed
  moreover have "details_diff page s \<noteq> []" if "field_differs page s k" for k
    using get_details_diff [OF ne, of page k] that by auto
  ultimately show ?thesis by (auto simp: dirty_iff)
qed

text \<open>What a request of the form has to be: the differences, all of them and nothing else.\<close>

definition diff_ok :: "business_page \<Rightarrow> details_card \<Rightarrow> jsstr option obj \<Rightarrow> bool" where
  "diff_ok page s d \<longleftrightarrow>
     d \<noteq> [] \<and> wf_obj d \<and> fst ` set d \<subseteq> range key_name
     \<and> (\<forall>k. get d (key_name k) = (if field_differs page s k then Some (field_value s k) else None))
     \<and> get d (key_name D_business_name) \<noteq> Some None
     \<and> (\<forall>k v. k \<in> {D_instagram_url, D_waze_url} \<and> get d (key_name k) = Some (Some v) \<longrightarrow> http_link v)"

text \<open>
  Saving the details sends exactly what changed: a field is in the request when its trimmed draft
  differs from the page and in no other case, an emptied field is sent as \<open>null\<close> so that it is cleared, the
  name of the business is never \<open>null\<close> and never blank, and a link that is sent begins with http. A save is
  refused with a message exactly for a bad link or a missing name.
\<close>

theorem details_save_minimal:
  assumes "fires_any (details_view page lu s) Dt_save" "details_save page s = (s', rq)"
  shows "(rq = None \<longleftrightarrow> linkError s \<or> nameEmpty s) \<and> (rq = None \<longrightarrow> (\<exists>m. dc_error s' = Some m \<and> m \<noteq> []))
    \<and> (\<forall>r. rq = Some r \<longrightarrow>
        (\<exists>d. r = updateBusinessPage (diff_json d) \<and> diff_ok page s d) \<and> dc_saving s' \<and> \<not> fires_any (details_view page lu s') Dt_save)"
proof -
  have dirty: "details_dirty page s"
    using assms(1) by (auto simp: details_view_def Let_def fires_any_view_in split: option.splits if_splits)
  show ?thesis
  proof (cases "linkError s \<or> nameEmpty s")
    case True
    with assms(2) show ?thesis by (auto simp: details_save_def js_lit split: if_splits)
  next
    case False
    then have ne: "\<not> nameEmpty s" and le: "\<not> linkError s" by auto
    let ?d = "details_diff page s"
    have dn: "?d \<noteq> []" using details_diff_Nil [OF ne] dirty by simp
    then have r: "rq = Some (updateBusinessPage (diff_json ?d))" "s' = s\<lparr>dc_saving := True, dc_error := None, dc_saved := False\<rparr>"
      using assms(2) False by (auto simp: details_save_def Let_def)
    note g = get_details_diff [OF ne, of page]
    have bn: "get ?d (key_name D_business_name) \<noteq> Some None"
      using g [of D_business_name] ne by (auto simp: field_value_def nameEmpty_def split: if_splits)
    have lk: "http_link v" if "k \<in> {D_instagram_url, D_waze_url}" "get ?d (key_name k) = Some (Some v)" for k v
    proof -
      have v: "v = trim (dc_draft s k)" "trim (dc_draft s k) \<noteq> []"
        using g [of k] that(2) by (auto simp: field_value_def split: if_splits)
      moreover have "\<not> badLink (dc_draft s k)" using le that(1) by (auto simp: linkError_def)
      ultimately show ?thesis by (simp add: badLink_def Let_def)
    qed
    have q: "\<not> fires_any (details_view page lu s') Dt_save"
      unfolding r(2) by (auto simp: details_view_def Let_def fires_any_view_in split: option.splits if_splits)
    have "diff_ok page s ?d"
      unfolding diff_ok_def using dn wf_details_diff [of page s] details_diff_keys [of page s] g bn lk by blast
    with r q False show ?thesis by auto
  qed
qed

lemma js_round_le: "r \<le> of_int k \<Longrightarrow> js_round r \<le> k"
  unfolding js_round_def floor_le_iff by linarith

lemma canvas_edge_bounds:
  assumes "n \<le> max width height" "0 < width" "0 < height"
  shows "1 \<le> canvas_edge n (resize_scale width height) \<and> canvas_edge n (resize_scale width height) \<le> 1600
    \<and> canvas_edge n (resize_scale width height) \<le> max 1 (int n)"
proof -
  let ?s = "resize_scale width height"
  define m :: rat where "m = of_nat (max width height)"
  have m: "0 < m" "of_nat n \<le> m" unfolding m_def using assms by (simp_all only: of_nat_0_less_iff of_nat_le_iff less_max_iff_disj simp_thms)
  have s: "0 \<le> ?s" "?s \<le> 1" "?s \<le> 1600 / m" using m(1) by (simp_all add: resize_scale_def MAX_EDGE_def m_def)
  have "of_nat n * ?s \<le> m * (1600 / m)" using m s by (intro mult_mono) simp_all
  also have "\<dots> = of_int 1600" using m by simp
  finally have a: "js_round (of_nat n * ?s) \<le> 1600" by (rule js_round_le)
  have "of_nat n * ?s \<le> of_nat n * 1" using s by (intro mult_left_mono) simp_all
  then have "js_round (of_nat n * ?s) \<le> int n" by (intro js_round_le) simp
  with a show ?thesis by (simp add: canvas_edge_def)
qed

text \<open>
  Shrinking a photo never makes it worse: what is uploaded is never larger than what was picked, a
  file that is small or is no JPEG is left alone, as is one the browser cannot decode or encode; and the
  canvas is never larger than 1600 on an edge, never larger than the photo and never empty.
\<close>

theorem shrink_never_worse:
  "f_size (shrinkImageForUpload decode encode f) \<le> f_size f
    \<and> (shrinkImageForUpload decode encode f \<noteq> f \<longrightarrow>
        f_type f = (lat ''image/jpeg'') \<and> 1500000 < f_size f
        \<and> (\<exists>w h x y b. decode f = Some (w, h) \<and> encode f x y (85 / 100) = Some b \<and> b < f_size f
             \<and> f_size (shrinkImageForUpload decode encode f) = b
             \<and> 1 \<le> x \<and> x \<le> min 1600 (int w) \<and> 1 \<le> y \<and> y \<le> min 1600 (int h)))"
proof (cases "shrinkImageForUpload decode encode f = f")
  case False
  then obtain w h where d: "decode f = Some (w, h)" "0 < w" "0 < h" "f_type f = (lat ''image/jpeg'')" "1500000 < f_size f"
    by (auto simp: shrinkImageForUpload_def RESIZE_ABOVE_BYTES_def split: if_splits option.splits)
  with False obtain b where e: "encode f (canvas_edge w (resize_scale w h)) (canvas_edge h (resize_scale w h)) (85 / 100) = Some b"
    "b < f_size f" "f_size (shrinkImageForUpload decode encode f) = b"
    by (auto simp: shrinkImageForUpload_def RESIZE_ABOVE_BYTES_def QUALITY_def Let_def split: if_splits option.splits)
  from canvas_edge_bounds [of w w h] canvas_edge_bounds [of h w h] d e show ?thesis by auto
qed simp

text \<open>Clearing the phone number.\<close>

definition demo_page :: business_page where
  "demo_page =
     \<lparr>pg_phone = Some [49], pg_whatsapp = None, pg_instagram_url = None, pg_waze_url = None, pg_slug = [97],
      pg_business_name = [98], pg_tagline = None, pg_about = None, pg_address = None, pg_logo_url = None,
      pg_page_theme = \<lparr>th_palette = None, th_radius = None\<rparr>, pg_images = [], pg_updated_at = None\<rparr>"

lemma details_save_minimal_witness:
  "\<exists>d. snd (details_save demo_page (details_set D_phone [] (details_init demo_page))) = Some (updateBusinessPage (diff_json d))
     \<and> get d (key_name D_phone) = Some None \<and> get d (key_name D_address) = None"
proof -
  let ?s = "details_set D_phone [] (details_init demo_page)"
  have dr: "dc_draft ?s D_phone = []" "dc_draft ?s D_address = []" "dc_draft ?s D_business_name = [98]"
    "dc_draft ?s D_instagram_url = []" "dc_draft ?s D_waze_url = []"
    by (simp_all add: details_set_def details_init_def draftFrom_def demo_page_def or_else_def)
  have f: "field_differs demo_page ?s D_phone" "\<not> field_differs demo_page ?s D_address"
    by (simp_all add: field_differs_def dr) (simp_all add: demo_page_def or_else_def)
  have t: "trim [98] = [98]" by (simp add: trim_def is_space_def)
  have "details_dirty demo_page ?s" using f(1) by (auto simp: dirty_iff)
  then have "fires_any (details_view demo_page logo_init ?s) Dt_save"
    by (simp add: details_view_def Let_def) (simp add: details_set_def details_init_def)
  from details_save_minimal [OF this prod.collapse [symmetric]]
  obtain d where d: "snd (details_save demo_page ?s) = Some (updateBusinessPage (diff_json d))" "diff_ok demo_page ?s d"
    by (auto simp: linkError_def nameEmpty_def badLink_def dr t)
  from d(2) f have "get d (key_name D_phone) = Some None" "get d (key_name D_address) = None"
    by (simp_all only: diff_ok_def if_True if_False) (simp_all add: field_value_def dr)
  with d(1) show ?thesis by blast
qed

lemma shrink_never_worse_witness:
  "\<exists>x y. 1 \<le> x \<and> x \<le> (1600 :: int) \<and> 1 \<le> y \<and> y \<le> (1600 :: int)
     \<and> f_size (shrinkImageForUpload (\<lambda>f. Some (3200, 1600)) (\<lambda>f x y q. Some 100) \<lparr>f_type = (lat ''image/jpeg''), f_size = 2000000, f_name = []\<rparr>) = 100"
proof -
  let ?f = "\<lparr>f_type = (lat ''image/jpeg''), f_size = 2000000, f_name = []\<rparr>"
  have "shrinkImageForUpload (\<lambda>f. Some (3200, 1600)) (\<lambda>f x y q. Some 100) ?f \<noteq> ?f"
    by (simp add: shrinkImageForUpload_def RESIZE_ABOVE_BYTES_def Let_def)
  with shrink_never_worse [of "\<lambda>f. Some (3200, 1600)" "\<lambda>f x y q. Some 100" ?f] show ?thesis by auto
qed

end
