(* ===== verification/Gallery.thy ===== *)
theory Gallery
  imports BusinessPage BookingFlow "HOL-Library.Multiset"
begin

text \<open>
  The gallery of the setup and the design tab: \<open>components/booking/setup/GalleryManager.tsx\<close>,
  \<open>components/booking/setup/DesignPanel.tsx\<close> and \<open>components/booking/setup/PalettePicker.tsx\<close>.

  Every handler of the gallery closes over the images of its render: a call in flight keeps them
  (\<open>gallery_call\<close>), and what it does when it is answered is computed from them.
\<close>

section \<open>GalleryManager.tsx\<close>

definition CAPTION_MAX :: nat where "CAPTION_MAX = 120"

record gallery =
  gm_dragOver :: bool
  gm_error :: "jsstr option"
  gm_uploading :: "(nat \<times> nat \<times> rat) option"
  gm_busyId :: "jsstr option"
  gm_dragIndex :: "nat option"

definition gallery_init :: gallery where
  "gallery_init = \<lparr>gm_dragOver = False, gm_error = None, gm_uploading = None, gm_busyId = None, gm_dragIndex = None\<rparr>"

text \<open>
  The calls in flight, with the images of the render that made them: an upload with the images added so
  far, the files to come and their number; a caption; a reorder with the rows still to be saved; a deletion.
\<close>

datatype gallery_call =
    Uploading "business_image list" "business_image list" "upload_file list" nat
  | Captioning "business_image list" jsstr
  | Moving "business_image list" "business_image list"
  | Removing "business_image list" jsstr

definition remaining :: "business_image list \<Rightarrow> int" where
  "remaining images = int MAX_BUSINESS_IMAGES - int (length images)"

definition atCap :: "business_image list \<Rightarrow> bool" where
  "atCap images \<longleftrightarrow> remaining images \<le> 0"

definition gallery_busy :: "gallery \<Rightarrow> bool" where
  "gallery_busy s \<longleftrightarrow> gm_uploading s \<noteq> None"

text \<open>\<open>[...images, ...added]\<close>, handed to the parent only when something was added.\<close>

definition upload_end :: "business_image list \<Rightarrow> business_image list \<Rightarrow> gallery \<Rightarrow> gallery \<times> business_image list option" where
  "upload_end images added s =
     (s\<lparr>gm_uploading := None\<rparr>, if length added > 0 then Some (images @ added) else None)"

definition uploadFiles ::
  "upload_file list \<Rightarrow> business_image list \<Rightarrow> gallery \<Rightarrow> gallery \<times> business_image list option \<times> gallery_call option"
where
  "uploadFiles files images s =
     (if length files = 0 then (s, None, None)
      else
        (let allowed = take (nat (max 0 (remaining images))) files;
             s1 = s\<lparr>gm_error :=
               (if length allowed < length files
                then Some ((heb ''@tyx ldrlez rc '') @ nat_str MAX_BUSINESS_IMAGES @ (heb '' znepez aqj dkl. peqte '')
                       @ nat_str (length allowed) @ (heb '' znepez '' @ [8212] @ heb '' lngew znepez wiinez kci ltpez nwem.''))
                else None)\<rparr>
         in if allowed = [] then (let (s2, im) = upload_end images [] s1 in (s2, im, None))
            else (s1\<lparr>gm_uploading := Some (0, length allowed, 0)\<rparr>, None, Some (Uploading images [] allowed (length allowed)))))"

text \<open>One upload answered: the next one starts, or the loop ends.\<close>

definition upload_answered ::
  "(js_thrown + business_image) \<Rightarrow> business_image list \<Rightarrow> business_image list \<Rightarrow> upload_file list \<Rightarrow> nat \<Rightarrow> gallery
     \<Rightarrow> gallery \<times> business_image list option \<times> gallery_call option"
where
  "upload_answered r images added files n s =
     (case r of
        Inl err \<Rightarrow>
          (let (s2, im) = upload_end images added (s\<lparr>gm_error := Some (toUploadError err (heb ''drl@z dznepd pkyld. pqe yea.''))\<rparr>)
           in (s2, im, None))
      | Inr created \<Rightarrow>
          (let added' = added @ [created] in
           if length files \<le> 1 then (let (s2, im) = upload_end images added' s in (s2, im, None))
           else (s\<lparr>gm_uploading := Some (length added', n, 0)\<rparr>, None, Some (Uploading images added' (tl files) n))))"

definition upload_progress :: "nat \<Rightarrow> nat \<Rightarrow> rat \<Rightarrow> gallery \<Rightarrow> gallery" where
  "upload_progress i n fraction s = s\<lparr>gm_uploading := Some (i, n, fraction)\<rparr>"

text \<open>\<open>raw.trim().slice(0, CAPTION_MAX) || null\<close>.\<close>

definition caption_value :: "jsstr \<Rightarrow> jsstr option" where
  "caption_value raw = (let c = take CAPTION_MAX (trim raw) in if c = [] then None else Some c)"

definition caption_failed :: "js_thrown \<Rightarrow> gallery \<Rightarrow> gallery" where
  "caption_failed err s = s\<lparr>gm_error := Some (toFriendlyError err (heb ''ynixz dkizea pkyld. pqe yea.'')), gm_busyId := None\<rparr>"

definition uri_thrown :: js_thrown where "uri_thrown = ThrownOther (lat ''URIError'')"

definition saveCaption ::
  "business_image \<Rightarrow> jsstr \<Rightarrow> business_image list \<Rightarrow> gallery \<Rightarrow> gallery \<times> (http_request \<times> gallery_call) option"
where
  "saveCaption img raw images s =
     (let nxt = caption_value raw in
      if nxt = bi_caption img then (s, None)
      else
        (let s1 = s\<lparr>gm_busyId := Some (bi_id img), gm_error := None\<rparr> in
         case updateBusinessImage (bi_id img) [((lat ''caption''), case nxt of None \<Rightarrow> JNull | Some c \<Rightarrow> JStr c)] of
           None \<Rightarrow> (caption_failed uri_thrown s1, None)
         | Some rq \<Rightarrow> (s1, Some (rq, Captioning images (bi_id img)))))"

definition caption_answered ::
  "(js_thrown + business_image) \<Rightarrow> business_image list \<Rightarrow> jsstr \<Rightarrow> gallery \<Rightarrow> gallery \<times> business_image list option"
where
  "caption_answered r images i s =
     (case r of
        Inr updated \<Rightarrow> (s\<lparr>gm_busyId := None\<rparr>, Some (map (\<lambda>img. if bi_id img = i then updated else img) images))
      | Inl err \<Rightarrow> (caption_failed err s, None))"

text \<open>\<open>splice(from, 1)\<close> and \<open>splice(to, 0, moved)\<close>; then every row gets its index.\<close>

definition moved_list :: "nat \<Rightarrow> nat \<Rightarrow> 'a list \<Rightarrow> 'a list" where
  "moved_list i j xs = (let ys = drop_index i xs in take j ys @ xs ! i # drop j ys)"

definition renumbered :: "nat \<Rightarrow> nat \<Rightarrow> business_image list \<Rightarrow> business_image list" where
  "renumbered i j images = mapi (\<lambda>n img. img\<lparr>bi_sort_order := int n\<rparr>) (moved_list i j images)"

definition order_of :: "business_image list \<Rightarrow> jsstr \<Rightarrow> int option" where
  "order_of images i = map_option bi_sort_order (find (\<lambda>x. bi_id x = i) images)"

definition changed_rows :: "nat \<Rightarrow> nat \<Rightarrow> business_image list \<Rightarrow> business_image list" where
  "changed_rows i j images =
     map snd (filter (\<lambda>(n, img). order_of images (bi_id img) \<noteq> Some (int n)) (enumerate 0 (renumbered i j images)))"

definition move_failed :: "js_thrown \<Rightarrow> business_image list \<Rightarrow> gallery \<Rightarrow> gallery \<times> business_image list" where
  "move_failed err images s =
     (s\<lparr>gm_error := Some (toFriendlyError err (heb ''yipei dqcx pkyl. xrppe @z drnec epqe yea.'')), gm_busyId := None\<rparr>, images)"

definition order_request :: "business_image \<Rightarrow> http_request option" where
  "order_request img = updateBusinessImage (bi_id img) [((lat ''sort_order''), JNum (Fin (of_int (bi_sort_order img))))]"

text \<open>The loop of saves: the next one, or its end.\<close>

definition move_next ::
  "business_image list \<Rightarrow> business_image list \<Rightarrow> gallery \<Rightarrow> gallery \<times> business_image list option \<times> (http_request \<times> gallery_call) option"
where
  "move_next images rows s =
     (case rows of
        [] \<Rightarrow> (s\<lparr>gm_busyId := None\<rparr>, None, None)
      | img # rest \<Rightarrow>
          (case order_request img of
             None \<Rightarrow> (let (s2, im) = move_failed uri_thrown images s in (s2, Some im, None))
           | Some rq \<Rightarrow> (s, None, Some (rq, Moving images rest))))"

text \<open>
  \<open>None\<close>: there is no row \<open>i\<close>, as after a drag that ended elsewhere and a deletion: the parent is given a row made of
  \<open>undefined\<close> and then \<open>moved.id\<close> throws.
\<close>

definition moveTo ::
  "nat \<Rightarrow> int \<Rightarrow> business_image list \<Rightarrow> gallery
     \<Rightarrow> (gallery \<times> business_image list option \<times> (http_request \<times> gallery_call) option) option"
where
  "moveTo i j images s =
     (if j < 0 \<or> j \<ge> int (length images) \<or> int i = j then Some (s, None, None)
      else if i \<ge> length images then None
      else
        (let (s2, im, c) = move_next images (changed_rows i (nat j) images)
               (s\<lparr>gm_busyId := Some (bi_id (images ! i)), gm_error := None\<rparr>)
         in Some (s2, (case im of None \<Rightarrow> Some (renumbered i (nat j) images) | Some x \<Rightarrow> Some x), c)))"

definition move_answered ::
  "js_thrown option \<Rightarrow> business_image list \<Rightarrow> business_image list \<Rightarrow> gallery
     \<Rightarrow> gallery \<times> business_image list option \<times> (http_request \<times> gallery_call) option"
where
  "move_answered r images rows s =
     (case r of
        None \<Rightarrow> move_next images rows s
      | Some err \<Rightarrow> (let (s2, im) = move_failed err images s in (s2, Some im, None)))"

definition remove_failed :: "js_thrown \<Rightarrow> gallery \<Rightarrow> gallery" where
  "remove_failed err s = s\<lparr>gm_error := Some (toFriendlyError err (heb ''ngiwz dznepd pkyld. pqe yea.'')), gm_busyId := None\<rparr>"

definition remove_image ::
  "bool \<Rightarrow> business_image \<Rightarrow> business_image list \<Rightarrow> gallery \<Rightarrow> gallery \<times> (http_request \<times> gallery_call) option"
where
  "remove_image answer img images s =
     (if \<not> answer then (s, None)
      else
        (let s1 = s\<lparr>gm_busyId := Some (bi_id img), gm_error := None\<rparr> in
         case deleteBusinessImage (bi_id img) of
           None \<Rightarrow> (remove_failed uri_thrown s1, None)
         | Some rq \<Rightarrow> (s1, Some (rq, Removing images (bi_id img)))))"

definition remove_answered ::
  "js_thrown option \<Rightarrow> business_image list \<Rightarrow> jsstr \<Rightarrow> gallery \<Rightarrow> gallery \<times> business_image list option"
where
  "remove_answered r images i s =
     (case r of
        None \<Rightarrow> (s\<lparr>gm_busyId := None\<rparr>, Some (filter (\<lambda>img. bi_id img \<noteq> i) images))
      | Some err \<Rightarrow> (remove_failed err s, None))"

section \<open>The view of the gallery\<close>

datatype gallery_ui =
    Gl_pick "upload_file list"
  | Gl_drop "upload_file list"
  | Gl_over
  | Gl_leave
  | Gl_blur jsstr
  | Gl_move nat int
  | Gl_delete jsstr bool
  | Gl_drag nat
  | Gl_drop_on nat

definition tile_busy :: "gallery \<Rightarrow> business_image \<Rightarrow> bool" where
  "tile_busy s img \<longleftrightarrow> gm_busyId s = Some (bi_id img) \<or> gallery_busy s"

definition gallery_tile :: "(jsstr \<Rightarrow> jsstr) \<Rightarrow> nat \<Rightarrow> gallery \<Rightarrow> nat \<Rightarrow> business_image \<Rightarrow> gallery_ui vnode" where
  "gallery_tile typed total_n s i img =
     (let busy = tile_busy s img;
          position = (heb ''znepd '') @ nat_str (i + 1) @ (heb '' nzej '') @ nat_str total_n
      in El ''li'' []
          [El ''drag'' [Disabled busy, on_click (Gl_drag i)] [], El ''drop'' [on_click (Gl_drop_on i)] [],
           El ''img'' [Attr ''src'' (imageSrc (bi_storage_path img)), Attr ''alt'' (or_else (bi_caption img) [])] [],
           El ''label'' [] [Txt ((heb ''kizea l'') @ position)],
           El ''input'' [Attr ''value'' (typed (bi_id img)), Disabled busy, on_click (Gl_blur (bi_id img))] [],
           El ''button'' [on_click (Gl_move i (int i - 1)), Disabled (busy \<or> i = 0),
             Attr ''aria-label'' ((heb ''dff @z '') @ position @ (heb '' @gz wcind''))] [],
           El ''button'' [on_click (Gl_move i (int i + 1)), Disabled (busy \<or> i = total_n - 1),
             Attr ''aria-label'' ((heb ''dff @z '') @ position @ (heb '' @gz @gexd''))] [],
           El ''button'' [On (\<lambda>e. \<exists>a. e = Gl_delete (bi_id img) a), Disabled busy, Attr ''aria-label'' ((heb ''ngw @z '') @ position)] []])"

definition gallery_view :: "(jsstr \<Rightarrow> jsstr) \<Rightarrow> business_image list \<Rightarrow> gallery \<Rightarrow> gallery_ui vnode list" where
  "gallery_view typed images s =
     (case gm_error s of None \<Rightarrow> [] | Some m \<Rightarrow> shown (m \<noteq> []) [El ''Alert'' [] [Txt m]])
     @ [El ''div'' [On (\<lambda>e. e = Gl_over \<or> e = Gl_leave \<or> (\<exists>fs. e = Gl_drop fs))] [Txt (heb ''bxxe lk@o znepez yl drqw''), Txt (heb ''JPG, PNG @e WEBP '' @ [183] @ heb '' rc 5MB lznepd'')],
        El ''input'' [Attr ''type'' (lat ''file''), Disabled (atCap images \<or> gallery_busy s), On (\<lambda>e. \<exists>fs. e = Gl_pick fs)]
          [Txt (heb ''agixz znepez ndngya'')],
        Txt (if atCap images
             then (heb ''dbrzm l-'') @ nat_str MAX_BUSINESS_IMAGES @ (heb '' znepez '' @ [8212] @ heb '' fd dnwqinem. kci ldeqis znepd gcyd, ngwe wecm @gz wiinz.'')
             else nat_str (length images) @ (lat '' / '') @ nat_str MAX_BUSINESS_IMAGES @ (heb '' znepez '' @ [183] @ heb '' @tyx ldeqis rec '') @ int_str (remaining images))]
     @ (case gm_uploading s of
          None \<Rightarrow> []
        | Some (i, n, fraction) \<Rightarrow>
            [El ''div'' [Attr ''role'' (lat ''status'')]
               [Txt ((heb ''nrld znepd '') @ nat_str (i + 1) @ (heb '' nzej '') @ nat_str n @ ([8230])),
                El ''span'' [Attr ''aria-valuenow'' (int_str (js_round (fraction * 100)))] []]])
     @ (if length images = 0 then [El ''p'' [] [Txt (heb ''rciio @io znepez. dznepd dx@yepd yzrle zetir ax@y dblxid arnec drqwi.'')]]
        else mapi (gallery_tile typed (length images) s) images)"

definition is_image :: "upload_file \<Rightarrow> bool" where
  "is_image f = starts_with (f_type f) (lat ''image/'')"

text \<open>
  Every handler: the state, the images handed to the parent and the call it leaves in flight; \<open>None\<close> when
  it throws. A rendered event names an image of the list.
\<close>

definition on_gallery ::
  "(jsstr \<Rightarrow> jsstr) \<Rightarrow> gallery_ui \<Rightarrow> business_image list \<Rightarrow> gallery
     \<Rightarrow> (gallery \<times> business_image list option \<times> gallery_call option) option"
where
  "on_gallery typed e images s =
     (case e of
        Gl_pick files \<Rightarrow> Some (uploadFiles files images s)
      | Gl_over \<Rightarrow> Some (if \<not> atCap images \<and> \<not> gallery_busy s then s\<lparr>gm_dragOver := True\<rparr> else s, None, None)
      | Gl_leave \<Rightarrow> Some (s\<lparr>gm_dragOver := False\<rparr>, None, None)
      | Gl_drop files \<Rightarrow>
          (let s1 = s\<lparr>gm_dragOver := False\<rparr> in
           Some (if atCap images \<or> gallery_busy s then (s1, None, None) else uploadFiles (filter is_image files) images s1))
      | Gl_blur i \<Rightarrow>
          (case find (\<lambda>x. bi_id x = i) images of
             None \<Rightarrow> Some (s, None, None)
           | Some img \<Rightarrow> (let (s1, c) = saveCaption img (typed i) images s in Some (s1, None, map_option snd c)))
      | Gl_move i j \<Rightarrow> map_option (\<lambda>(s1, im, c). (s1, im, map_option snd c)) (moveTo i j images s)
      | Gl_delete i answer \<Rightarrow>
          (case find (\<lambda>x. bi_id x = i) images of
             None \<Rightarrow> Some (s, None, None)
           | Some img \<Rightarrow> (let (s1, c) = remove_image answer img images s in Some (s1, None, map_option snd c)))
      | Gl_drag i \<Rightarrow> Some (s\<lparr>gm_dragIndex := Some i\<rparr>, None, None)
      | Gl_drop_on j \<Rightarrow>
          (let s1 = s\<lparr>gm_dragIndex := None\<rparr> in
           case gm_dragIndex s of
             None \<Rightarrow> Some (s1, None, None)
           | Some i \<Rightarrow> map_option (\<lambda>(s2, im, c). (s2, im, map_option snd c)) (moveTo i (int j) images s1)))"

section \<open>Reordering\<close>

lemma mset_drop_index: "i < length xs \<Longrightarrow> add_mset (xs ! i) (mset (drop_index i xs)) = mset xs"
  by (metis add_mset_add_single append.assoc append_Cons append_Nil drop_index_def id_take_nth_drop mset.simps(2) mset_append union_commute
      union_mset_add_mset_right)

lemma mset_moved_list: "i < length xs \<Longrightarrow> mset (moved_list i j xs) = mset xs"
proof -
  assume i: "i < length xs"
  have "mset (moved_list i j xs) = add_mset (xs ! i) (mset (take j (drop_index i xs) @ drop j (drop_index i xs)))"
    by (simp add: moved_list_def Let_def del: append_take_drop_id)
  with i show ?thesis by (simp add: mset_drop_index)
qed

lemma length_moved_list: "i < length xs \<Longrightarrow> length (moved_list i j xs) = length xs"
  by (metis mset_moved_list size_mset)

lemma nth_moved_list: "i < length xs \<Longrightarrow> j < length xs \<Longrightarrow> moved_list i j xs ! j = xs ! i"
  by (simp add: moved_list_def Let_def nth_append length_drop_index min_def)

lemma map_moved_list: "i < length xs \<Longrightarrow> map f (moved_list i j xs) = moved_list i j (map f xs)"
  by (simp add: moved_list_def Let_def drop_index_def take_map drop_map)

lemma filter_inserted: "\<not> P x \<Longrightarrow> filter P (take j ys @ x # drop j ys) = filter P ys"
  by (metis append_take_drop_id filter.simps(2) filter_append)

lemma filter_dropped:
  assumes "i < length xs" "\<not> P (xs ! i)"
  shows "filter P (drop_index i xs) = filter P xs"
  using arg_cong [OF id_take_nth_drop [OF assms(1)], of "filter P"] assms(2) by (simp add: drop_index_def)

lemma filter_moved_list: "i < length xs \<Longrightarrow> \<not> P (xs ! i) \<Longrightarrow> filter P (moved_list i j xs) = filter P xs"
  by (simp only: moved_list_def Let_def filter_inserted filter_dropped not_False_eq_True)

lemma length_renumbered: "i < length images \<Longrightarrow> length (renumbered i j images) = length images"
  by (simp add: renumbered_def length_moved_list)

lemma nth_renumbered:
  "i < length images \<Longrightarrow> k < length images
     \<Longrightarrow> renumbered i j images ! k = (moved_list i j images ! k)\<lparr>bi_sort_order := int k\<rparr>"
  by (simp add: renumbered_def length_moved_list)

lemma ids_renumbered:
  assumes "i < length images"
  shows "map bi_id (renumbered i j images) = moved_list i j (map bi_id images)"
  unfolding map_moved_list [OF assms, symmetric]
  by (rule nth_equalityI) (simp_all add: renumbered_def)

text \<open>What the server has after some of its rows were saved.\<close>

definition saved_orders :: "business_image list \<Rightarrow> (jsstr \<Rightarrow> int option) \<Rightarrow> jsstr \<Rightarrow> int option" where
  "saved_orders rows server = fold (\<lambda>img m. m(bi_id img \<mapsto> bi_sort_order img)) rows server"

lemma saved_orders_other: "k \<notin> bi_id ` set rows \<Longrightarrow> saved_orders rows server k = server k"
  unfolding saved_orders_def by (induction rows arbitrary: server) auto

lemma saved_orders_row:
  "distinct (map bi_id rows) \<Longrightarrow> img \<in> set rows \<Longrightarrow> saved_orders rows server (bi_id img) = Some (bi_sort_order img)"
proof (induction rows arbitrary: server)
  case (Cons a rows)
  then show ?case using saved_orders_other [of "bi_id a" rows "server(bi_id a \<mapsto> bi_sort_order a)"] by (auto simp: saved_orders_def)
qed simp

lemma order_of_image:
  assumes "distinct (map bi_id images)" "img \<in> set images"
  shows "order_of images (bi_id img) = Some (bi_sort_order img)"
  using assms by (induction images) (auto simp: order_of_def)

lemma filter_enumerate_snd: "map snd (filter (\<lambda>(n, x). P x) (enumerate k xs)) = filter P xs"
  using filter_map [of P snd "enumerate k xs"] by (simp add: comp_def case_prod_unfold)

lemma changed_rows_filter:
  "i < length images \<Longrightarrow> changed_rows i j images
     = filter (\<lambda>img. order_of images (bi_id img) \<noteq> Some (bi_sort_order img)) (renumbered i j images)"
proof -
  assume i: "i < length images"
  have "filter (\<lambda>(n, img). order_of images (bi_id img) \<noteq> Some (int n)) (enumerate 0 (renumbered i j images))
      = filter (\<lambda>(n, img). order_of images (bi_id img) \<noteq> Some (bi_sort_order img)) (enumerate 0 (renumbered i j images))"
    by (rule filter_cong) (auto simp: in_set_enumerate_eq renumbered_def)
  then show ?thesis unfolding changed_rows_def by (simp only: filter_enumerate_snd)
qed

text \<open>The loop of saves played against the answers of the server: the requests sent and where it ends.\<close>

fun move_play ::
  "js_thrown option list \<Rightarrow> gallery \<times> business_image list option \<times> (http_request \<times> gallery_call) option
     \<Rightarrow> http_request list \<times> gallery \<times> business_image list option"
where
  "move_play (a # rest) (s, im, Some (rq, Moving images rows)) =
     (let (s', im', c') = move_answered a images rows s;
          (rqs, s2, im2) = move_play rest (s', (case im' of None \<Rightarrow> im | Some x \<Rightarrow> Some x), c')
      in (rq # rqs, s2, im2))"
| "move_play [] (s, im, Some (rq, c)) = ([rq], s, im)"
| "move_play rest (s, im, c) = ([], s, im)"

lemma move_play_saved:
  "\<forall>img \<in> set rows. order_request img \<noteq> None \<Longrightarrow> move_next images rows s = (s', im', c') \<Longrightarrow>
     move_play (replicate (length rows) None) (s', (case im' of None \<Rightarrow> im | Some x \<Rightarrow> Some x), c')
       = (map (\<lambda>img. the (order_request img)) rows, s\<lparr>gm_busyId := None\<rparr>, im)"
proof (induction rows arbitrary: s' im' c')
  case (Cons a rows)
  then obtain rq where rq: "order_request a = Some rq" by auto
  obtain s2 im2 c2 where n: "move_next images rows s = (s2, im2, c2)" using prod_cases3 by blast
  from Cons.prems rq have "s' = s" "im' = None" "c' = Some (rq, Moving images rows)" by (simp_all add: move_next_def)
  with Cons.IH [OF _ n] Cons.prems(1) n rq show ?case by (simp add: move_answered_def)
qed (auto simp: move_next_def)

lemma move_play_failed:
  "\<forall>img \<in> set rows. order_request img \<noteq> None \<Longrightarrow> move_next images rows s = (s', im', c') \<Longrightarrow> n < length rows \<Longrightarrow>
     move_play (replicate n None @ [Some err]) (s', (case im' of None \<Rightarrow> im | Some x \<Rightarrow> Some x), c')
       = (map (\<lambda>img. the (order_request img)) (take (Suc n) rows), fst (move_failed err images s), Some images)"
proof (induction rows arbitrary: s' im' c' n)
  case (Cons a rows)
  then obtain rq where rq: "order_request a = Some rq" by auto
  obtain s2 im2 c2 where m: "move_next images rows s = (s2, im2, c2)" using prod_cases3 by blast
  from Cons.prems rq have *: "s' = s" "im' = None" "c' = Some (rq, Moving images rows)" by (simp_all add: move_next_def)
  show ?case
  proof (cases n)
    case 0
    with * rq show ?thesis by (simp add: move_answered_def move_failed_def)
  next
    case (Suc k)
    with Cons.IH [OF _ m, of k] Cons.prems(1,3) m rq * show ?thesis by (simp add: move_answered_def)
  qed
qed simp

definition encodable :: "business_image list \<Rightarrow> bool" where
  "encodable images \<longleftrightarrow> (\<forall>img \<in> set images. encodeURIComponent (bi_id img) \<noteq> None)"

lemma distinct_renumbered: "i < length images \<Longrightarrow> distinct (map bi_id images) \<Longrightarrow> distinct (map bi_id (renumbered i j images))"
  unfolding ids_renumbered by (metis length_map mset_eq_imp_distinct_iff mset_moved_list)

lemma set_ids_renumbered: "i < length images \<Longrightarrow> bi_id ` set (renumbered i j images) = bi_id ` set images"
  by (metis ids_renumbered length_map list.set_map mset_eq_setD mset_moved_list)

lemma image_with_id:
  assumes "i < length images" "img \<in> set (renumbered i j images)"
  obtains x where "x \<in> set images" "bi_id x = bi_id img"
  using assms by (metis imageE image_eqI set_ids_renumbered)

text \<open>After the changed rows are saved the server has the order of the grid.\<close>

lemma saved_order_is_shown:
  assumes i: "i < length images" and d: "distinct (map bi_id images)"
    and server: "\<forall>img \<in> set images. server (bi_id img) = Some (bi_sort_order img)"
    and img: "img \<in> set (renumbered i j images)"
  shows "saved_orders (changed_rows i j images) server (bi_id img) = Some (bi_sort_order img)"
proof (cases "img \<in> set (changed_rows i j images)")
  case True
  moreover have "distinct (map bi_id (changed_rows i j images))"
    using distinct_renumbered [OF i d, of j] by (simp add: changed_rows_filter [OF i] distinct_map_filter)
  ultimately show ?thesis by (rule saved_orders_row [rotated])
next
  case False
  with img have same: "order_of images (bi_id img) = Some (bi_sort_order img)" by (simp add: changed_rows_filter [OF i])
  have "bi_id img \<notin> bi_id ` set (changed_rows i j images)"
  proof
    assume "bi_id img \<in> bi_id ` set (changed_rows i j images)"
    then obtain y where y: "y \<in> set (changed_rows i j images)" "bi_id y = bi_id img" by auto
    with img distinct_renumbered [OF i d, of j] have "y = img"
      by (auto simp: changed_rows_filter [OF i] distinct_map inj_on_def)
    with y False show False by simp
  qed
  moreover obtain x where "x \<in> set images" "bi_id x = bi_id img" using image_with_id [OF i img] .
  ultimately show ?thesis using server same order_of_image [OF d, of x] by (metis saved_orders_other)
qed

lemma order_request_encodable:
  assumes "i < length images" "encodable images" "img \<in> set (changed_rows i j images)"
  shows "order_request img \<noteq> None"
proof -
  from assms(3) have "bi_id img \<in> bi_id ` set (renumbered i j images)" by (simp add: changed_rows_filter [OF assms(1)])
  then have "encodeURIComponent (bi_id img) \<noteq> None" using assms(2) set_ids_renumbered [OF assms(1), of j]
    by (auto simp: encodable_def)
  then show ?thesis by (auto simp: order_request_def updateBusinessImage_def with_component_def)
qed

lemma moveTo_starts:
  assumes "i < length images" "j < length images" "i \<noteq> j"
  obtains s2 im2 c2 where
    "move_next images (changed_rows i j images) (s\<lparr>gm_busyId := Some (bi_id (images ! i)), gm_error := None\<rparr>) = (s2, im2, c2)"
    "moveTo i (int j) images s = Some (s2, (case im2 of None \<Rightarrow> Some (renumbered i j images) | Some x \<Rightarrow> Some x), c2)"
  using assms
  by (cases "move_next images (changed_rows i j images) (s\<lparr>gm_busyId := Some (bi_id (images ! i)), gm_error := None\<rparr>)")
     (auto simp: moveTo_def split: option.split)

lemma renumbered_is_reordered:
  assumes "i < length images" "j < length images"
  shows "mset (map bi_id (renumbered i j images)) = mset (map bi_id images)"
    and "renumbered i j images ! j = (images ! i)\<lparr>bi_sort_order := int j\<rparr>"
    and "filter (\<lambda>x. x \<noteq> bi_id (images ! i)) (map bi_id (renumbered i j images))
           = filter (\<lambda>x. x \<noteq> bi_id (images ! i)) (map bi_id images)"
  using assms
  by (simp_all add: ids_renumbered mset_moved_list filter_moved_list nth_renumbered nth_moved_list)

lemma rows_to_save:
  assumes "i < length images" "distinct (map bi_id images)"
    and "\<forall>img \<in> set images. server (bi_id img) = Some (bi_sort_order img)" "img \<in> set (changed_rows i j images)"
  shows "server (bi_id img) \<noteq> Some (bi_sort_order img)"
proof -
  from assms(4) have *: "img \<in> set (renumbered i j images)" "order_of images (bi_id img) \<noteq> Some (bi_sort_order img)"
    by (simp_all add: changed_rows_filter [OF assms(1)])
  from this(1) obtain x where x: "x \<in> set images" "bi_id x = bi_id img" using image_with_id [OF assms(1)] by blast
  with assms(2,3) *(2) order_of_image [of images x] show ?thesis by auto
qed

text \<open>Property C29. A reorder of the gallery: the images stay the same, the moved one is where it was dropped, the others keep
  their order, the rows are numbered from 0; when every save is answered, the server has exactly the shown order, and no row it
  already had right was sent.\<close>

theorem reorder_saves_the_order:
  assumes "distinct (map bi_id images)" "encodable images" "i < length images" "j < length images" "i \<noteq> j"
    and "\<forall>img \<in> set images. server (bi_id img) = Some (bi_sort_order img)"
  shows "let r = renumbered i j images; rows = changed_rows i j images in
     map_option (move_play (replicate (length rows) None)) (moveTo i (int j) images s)
         = Some (map (\<lambda>img. the (order_request img)) rows, s\<lparr>gm_busyId := None, gm_error := None\<rparr>, Some r)
     \<and> mset (map bi_id r) = mset (map bi_id images)
     \<and> r ! j = (images ! i)\<lparr>bi_sort_order := int j\<rparr>
     \<and> filter (\<lambda>x. x \<noteq> bi_id (images ! i)) (map bi_id r) = filter (\<lambda>x. x \<noteq> bi_id (images ! i)) (map bi_id images)
     \<and> list_all (\<lambda>k. bi_sort_order (r ! k) = int k \<and> saved_orders rows server (bi_id (r ! k)) = Some (int k)) [0..<length r]
     \<and> list_all (\<lambda>img. server (bi_id img) \<noteq> Some (bi_sort_order img)) rows"
proof -
  let ?rows = "changed_rows i j images"
  obtain s2 im2 c2 where n: "move_next images ?rows (s\<lparr>gm_busyId := Some (bi_id (images ! i)), gm_error := None\<rparr>) = (s2, im2, c2)"
      and m: "moveTo i (int j) images s = Some (s2, (case im2 of None \<Rightarrow> Some (renumbered i j images) | Some x \<Rightarrow> Some x), c2)"
    using moveTo_starts [OF assms(3-5)] .
  have "\<forall>img \<in> set ?rows. order_request img \<noteq> None" using order_request_encodable [OF assms(3,2)] by simp
  from move_play_saved [OF this n] m
  have "map_option (move_play (replicate (length ?rows) None)) (moveTo i (int j) images s)
      = Some (map (\<lambda>img. the (order_request img)) ?rows, s\<lparr>gm_busyId := None, gm_error := None\<rparr>, Some (renumbered i j images))"
    by simp
  moreover have "bi_sort_order (renumbered i j images ! k) = int k" if "k < length images" for k
    using that assms(3) by (simp add: nth_renumbered)
  ultimately show ?thesis
    using saved_order_is_shown [OF assms(3,1,6)] rows_to_save [OF assms(3,1,6)] renumbered_is_reordered [OF assms(3,4)]
    by (simp add: Let_def list_all_iff length_renumbered assms(3))
qed

definition gal3 :: "business_image list" where
  "gal3 = map (\<lambda>k. \<lparr>bi_id = [k], bi_storage_path = [k], bi_caption = None, bi_sort_order = int k - 97, bi_mime_type = None,
                    bi_size_bytes = None, bi_created_at = None\<rparr>) [97, 98, 99]"

lemma gal3_simps: "length gal3 = 3" "distinct (map bi_id gal3)" "encodable gal3"
  by (simp_all add: gal3_def encodable_def encodeURIComponent_def wf_units_def is_high_def is_low_def)

theorem reorder_saves_the_order_witness:
  "mset (map bi_id (renumbered 0 2 gal3)) = mset (map bi_id gal3)
   \<and> renumbered 0 2 gal3 ! 2 = (gal3 ! 0)\<lparr>bi_sort_order := 2\<rparr>
   \<and> list_all (\<lambda>img. order_of gal3 (bi_id img) \<noteq> Some (bi_sort_order img)) (changed_rows 0 2 gal3)"
proof -
  have "\<forall>img \<in> set gal3. order_of gal3 (bi_id img) = Some (bi_sort_order img)"
    using order_of_image [OF gal3_simps(2)] by blast
  then show ?thesis
    using reorder_saves_the_order [of gal3 0 2 "order_of gal3" gallery_init] gal3_simps by (simp add: Let_def)
qed

text \<open>
  An interrupted reorder. The comment of \<open>moveTo\<close> has the grid "back to what the server still believes"; when
  a row was saved before the one that failed, the server no longer believes it.
\<close>

lemma interrupted_reorder:
  assumes "distinct (map bi_id images)" "encodable images" "i < length images" "j < length images" "i \<noteq> j"
    and "\<forall>img \<in> set images. server (bi_id img) = Some (bi_sort_order img)"
    and "0 < n" "n < length (changed_rows i j images)"
  shows "map_option (move_play (replicate n None @ [Some err])) (moveTo i (int j) images s)
           = Some (map (\<lambda>img. the (order_request img)) (take (Suc n) (changed_rows i j images)),
                   fst (move_failed err images (s\<lparr>gm_busyId := Some (bi_id (images ! i)), gm_error := None\<rparr>)), Some images)"
    and "\<exists>img \<in> set images. saved_orders (take n (changed_rows i j images)) server (bi_id img) \<noteq> Some (bi_sort_order img)"
proof -
  let ?rows = "changed_rows i j images"
  obtain s2 im2 c2 where n: "move_next images ?rows (s\<lparr>gm_busyId := Some (bi_id (images ! i)), gm_error := None\<rparr>) = (s2, im2, c2)"
      and m: "moveTo i (int j) images s = Some (s2, (case im2 of None \<Rightarrow> Some (renumbered i j images) | Some x \<Rightarrow> Some x), c2)"
    using moveTo_starts [OF assms(3-5)] .
  have "\<forall>img \<in> set ?rows. order_request img \<noteq> None" using order_request_encodable [OF assms(3,2)] by simp
  from move_play_failed [OF this n assms(8)] m
  show "map_option (move_play (replicate n None @ [Some err])) (moveTo i (int j) images s)
           = Some (map (\<lambda>img. the (order_request img)) (take (Suc n) ?rows),
                   fst (move_failed err images (s\<lparr>gm_busyId := Some (bi_id (images ! i)), gm_error := None\<rparr>)), Some images)"
    by simp
  let ?a = "hd ?rows"
  from assms(7,8) have a: "?a \<in> set (take n ?rows)" "?a \<in> set ?rows" by (cases ?rows; cases n; simp)+
  then have "?a \<in> set (renumbered i j images)" by (simp add: changed_rows_filter [OF assms(3)])
  then obtain x where x: "x \<in> set images" "bi_id x = bi_id ?a" using image_with_id [OF assms(3)] by blast
  have "distinct (map bi_id ?rows)"
    using distinct_renumbered [OF assms(3,1), of j] by (simp add: changed_rows_filter [OF assms(3)] distinct_map_filter)
  then have "distinct (map bi_id (take n ?rows))" unfolding take_map [symmetric] by (rule distinct_take)
  then have "saved_orders (take n ?rows) server (bi_id x) = Some (bi_sort_order ?a)" using saved_orders_row a(1) x(2) by simp
  moreover have "Some (bi_sort_order x) \<noteq> Some (bi_sort_order ?a)"
    using rows_to_save [OF assms(3,1,6) a(2)] assms(6) x by metis
  ultimately show "\<exists>img \<in> set images. saved_orders (take n ?rows) server (bi_id img) \<noteq> Some (bi_sort_order img)"
    using x(1) by metis
qed

section \<open>The gallery in use\<close>

text \<open>
  The gallery between two of its events: the images the parent holds, its own state and the calls in flight,
  in any order of answers.
\<close>

definition settled_images :: "business_image list option \<Rightarrow> business_image list \<Rightarrow> business_image list" where
  "settled_images im images = (case im of None \<Rightarrow> images | Some x \<Rightarrow> x)"

inductive gallery_run :: "business_image list \<Rightarrow> gallery \<Rightarrow> gallery_call list \<Rightarrow> bool" where
  gl_open: "length images \<le> MAX_BUSINESS_IMAGES \<Longrightarrow> gallery_run images gallery_init []"
| gl_event: "gallery_run images s calls \<Longrightarrow> fires_any (gallery_view typed images s) e \<Longrightarrow>
    on_gallery typed e images s = Some (s', im, c) \<Longrightarrow> gallery_run (settled_images im images) s' (opt_list c @ calls)"
| gl_progress: "gallery_run images s (pre @ Uploading ims added files n # post) \<Longrightarrow>
    gallery_run images (upload_progress (length added) n fraction s) (pre @ Uploading ims added files n # post)"
| gl_uploaded: "gallery_run images s (pre @ Uploading ims added files n # post) \<Longrightarrow>
    upload_answered r ims added files n s = (s', im, c) \<Longrightarrow>
    gallery_run (settled_images im images) s' (opt_list c @ pre @ post)"
| gl_captioned: "gallery_run images s (pre @ Captioning ims i # post) \<Longrightarrow> caption_answered rc ims i s = (s', im) \<Longrightarrow>
    gallery_run (settled_images im images) s' (pre @ post)"
| gl_moved: "gallery_run images s (pre @ Moving ims rows # post) \<Longrightarrow> move_answered rm ims rows s = (s', im, cm) \<Longrightarrow>
    gallery_run (settled_images im images) s' (opt_list (map_option snd cm) @ pre @ post)"
| gl_removed: "gallery_run images s (pre @ Removing ims i # post) \<Longrightarrow> remove_answered rm ims i s = (s', im) \<Longrightarrow>
    gallery_run (settled_images im images) s' (pre @ post)"

fun call_ok :: "gallery_call \<Rightarrow> bool" where
  "call_ok (Uploading ims added files n) \<longleftrightarrow> files \<noteq> [] \<and> length ims + length added + length files \<le> MAX_BUSINESS_IMAGES"
| "call_ok (Captioning ims i) \<longleftrightarrow> length ims \<le> MAX_BUSINESS_IMAGES"
| "call_ok (Moving ims rows) \<longleftrightarrow> length ims \<le> MAX_BUSINESS_IMAGES"
| "call_ok (Removing ims i) \<longleftrightarrow> length ims \<le> MAX_BUSINESS_IMAGES"

fun is_upload :: "gallery_call \<Rightarrow> bool" where
  "is_upload (Uploading ims added files n) = True"
| "is_upload _ = False"

definition uploads :: "gallery_call list \<Rightarrow> nat" where
  "uploads calls = length (filter is_upload calls)"

lemma uploads_simps [simp]:
  "uploads [] = 0" "uploads (c # calls) = of_bool (is_upload c) + uploads calls" "uploads (xs @ ys) = uploads xs + uploads ys"
  by (simp_all add: uploads_def)

definition gallery_ok :: "business_image list \<Rightarrow> gallery \<Rightarrow> gallery_call list \<Rightarrow> bool" where
  "gallery_ok images s calls \<longleftrightarrow>
     length images \<le> MAX_BUSINESS_IMAGES \<and> list_all call_ok calls \<and> uploads calls = of_bool (gallery_busy s)"

text \<open>What an operation may do to the parent's images and to the calls: at most one new call, in bounds, and the busy flag as it leaves it.\<close>

definition outcome_ok :: "nat \<Rightarrow> gallery \<times> business_image list option \<times> gallery_call option \<Rightarrow> bool" where
  "outcome_ok up r \<longleftrightarrow> (case r of (s', im, c) \<Rightarrow>
     (case im of None \<Rightarrow> True | Some x \<Rightarrow> length x \<le> MAX_BUSINESS_IMAGES)
     \<and> (case c of None \<Rightarrow> True | Some k \<Rightarrow> call_ok k) \<and> up + uploads (opt_list c) = of_bool (gallery_busy s'))"

lemma outcome_keeps_ok:
  "outcome_ok (uploads calls) (s', im, c) \<Longrightarrow> length images \<le> MAX_BUSINESS_IMAGES \<Longrightarrow> list_all call_ok calls \<Longrightarrow>
     gallery_ok (settled_images im images) s' (opt_list c @ calls)"
  by (auto simp: outcome_ok_def gallery_ok_def settled_images_def opt_list_def split: option.splits)

lemma upload_outcome:
  assumes "length images \<le> MAX_BUSINESS_IMAGES" "\<not> gallery_busy s"
  shows "outcome_ok 0 (uploadFiles files images s)"
  using assms by (auto simp: uploadFiles_def upload_end_def outcome_ok_def gallery_busy_def opt_list_def Let_def remaining_def)

lemma upload_answer_outcome:
  assumes "call_ok (Uploading ims added files n)"
  shows "outcome_ok 0 (upload_answered r ims added files n s)"
  using assms by (cases files; cases "tl files")
    (auto simp: upload_answered_def upload_end_def outcome_ok_def gallery_busy_def opt_list_def Let_def split: sum.split)

lemma caption_outcome:
  assumes "length images \<le> MAX_BUSINESS_IMAGES" "saveCaption img raw images s = (s', c)"
  shows "outcome_ok (of_bool (gallery_busy s)) (s', None, map_option snd c)"
  using assms by (auto simp: saveCaption_def caption_failed_def outcome_ok_def gallery_busy_def opt_list_def Let_def split: if_splits option.splits)

lemma remove_outcome:
  assumes "length images \<le> MAX_BUSINESS_IMAGES" "remove_image answer img images s = (s', c)"
  shows "outcome_ok (of_bool (gallery_busy s)) (s', None, map_option snd c)"
  using assms by (auto simp: remove_image_def remove_failed_def outcome_ok_def gallery_busy_def opt_list_def Let_def split: if_splits option.splits)

lemma move_next_outcome:
  assumes "length ims \<le> MAX_BUSINESS_IMAGES" "move_next ims rows s = (s', im, c)"
  shows "outcome_ok (of_bool (gallery_busy s)) (s', im, map_option snd c)"
  using assms by (auto simp: move_next_def move_failed_def outcome_ok_def gallery_busy_def opt_list_def Let_def split: list.splits option.splits)

lemma move_outcome:
  assumes "length images \<le> MAX_BUSINESS_IMAGES" "moveTo i j images s = Some (s', im, c)"
  shows "outcome_ok (of_bool (gallery_busy s)) (s', im, map_option snd c)"
proof (cases "j < 0 \<or> j \<ge> int (length images) \<or> int i = j")
  case True
  with assms show ?thesis by (auto simp: moveTo_def outcome_ok_def opt_list_def)
next
  case False
  let ?s1 = "s\<lparr>gm_busyId := Some (bi_id (images ! i)), gm_error := None\<rparr>"
  obtain s2 im2 c2 where n: "move_next images (changed_rows i (nat j) images) ?s1 = (s2, im2, c2)" using prod_cases3 by blast
  with False assms(2) have i: "i < length images"
    and r: "s' = s2" "im = (case im2 of None \<Rightarrow> Some (renumbered i (nat j) images) | Some x \<Rightarrow> Some x)" "c = c2"
    by (auto simp: moveTo_def split: if_splits)
  have "gallery_busy ?s1 = gallery_busy s" by (simp add: gallery_busy_def)
  with move_next_outcome [OF assms(1) n] show ?thesis
    using assms(1) length_renumbered [OF i, of "nat j"] unfolding r by (auto simp: outcome_ok_def split: option.splits)
qed

lemma gallery_busy_simps [simp]:
  "gallery_busy (s\<lparr>gm_dragOver := b\<rparr>) = gallery_busy s" "gallery_busy (s\<lparr>gm_dragIndex := d\<rparr>) = gallery_busy s"
  "gallery_busy (s\<lparr>gm_busyId := i\<rparr>) = gallery_busy s" "gallery_busy (s\<lparr>gm_error := m\<rparr>) = gallery_busy s"
  by (simp_all add: gallery_busy_def)

lemma quiet_outcome: "outcome_ok (of_bool (gallery_busy s)) (s', None, None) \<longleftrightarrow> gallery_busy s' = gallery_busy s"
  by (auto simp: outcome_ok_def opt_list_def)

lemma pick_needs_idle: "fires_any (gallery_view typed images s) (Gl_pick files) \<Longrightarrow> \<not> gallery_busy s"
  by (auto simp: gallery_view_def gallery_tile_def Let_def fires_any_mapi split: option.splits if_splits)

lemma event_outcome:
  assumes len: "length images \<le> MAX_BUSINESS_IMAGES" and f: "fires_any (gallery_view typed images s) e"
    and r: "on_gallery typed e images s = Some (s', im, c)"
  shows "outcome_ok (of_bool (gallery_busy s)) (s', im, c)"
proof (cases e)
  case (Gl_pick files)
  with f have "\<not> gallery_busy s" using pick_needs_idle by simp
  with Gl_pick r upload_outcome [OF len, of s files] show ?thesis by (simp add: on_gallery_def)
next
  case (Gl_drop files)
  show ?thesis
  proof (cases "atCap images \<or> gallery_busy s")
    case True
    with Gl_drop r have "s' = s\<lparr>gm_dragOver := False\<rparr>" "im = None" "c = None" by (simp_all add: on_gallery_def)
    then show ?thesis using quiet_outcome [of s s'] by simp
  next
    case False
    with Gl_drop r upload_outcome [OF len, of "s\<lparr>gm_dragOver := False\<rparr>" "filter is_image files"] show ?thesis
      by (simp add: on_gallery_def)
  qed
next
  case (Gl_blur i)
  with r show ?thesis using quiet_outcome [of s s]
    by (auto simp: on_gallery_def dest!: caption_outcome [OF len] split: option.splits prod.splits)
next
  case (Gl_delete i a)
  with r show ?thesis using quiet_outcome [of s s]
    by (auto simp: on_gallery_def dest!: remove_outcome [OF len] split: option.splits prod.splits)
next
  case (Gl_move i j)
  with r show ?thesis by (auto simp: on_gallery_def dest!: move_outcome [OF len])
next
  case (Gl_drop_on j)
  with r show ?thesis using quiet_outcome [of s "s\<lparr>gm_dragIndex := None\<rparr>"]
    by (auto simp: on_gallery_def Let_def dest!: move_outcome [OF len] split: option.splits)
qed (use r in \<open>auto simp: on_gallery_def quiet_outcome split: if_splits\<close>)

text \<open>One call leaves the list, and the outcome of its answer replaces it.\<close>

lemma answered_keeps_ok:
  assumes "gallery_ok images s (pre @ k # post)" "call_ok k \<Longrightarrow> outcome_ok (uploads (pre @ post)) (s', im, c)"
  shows "gallery_ok (settled_images im images) s' (opt_list c @ pre @ post)"
  using assms by (intro outcome_keeps_ok) (simp_all add: gallery_ok_def)

text \<open>Property C30. However uploads, captions, moves and deletions overlap and whatever the server answers: the gallery never shows more
  than 40 images, and at most one upload loop runs, exactly while the progress is shown.\<close>

theorem gallery_capped:
  assumes "gallery_run images s calls"
  shows "length images \<le> MAX_BUSINESS_IMAGES \<and> uploads calls = of_bool (gallery_busy s) \<and> list_all call_ok calls"
proof -
  have "gallery_ok images s calls" using assms
  proof (induction rule: gallery_run.induct)
    case (gl_open images)
    then show ?case by (simp add: gallery_ok_def gallery_busy_def gallery_init_def)
  next
    case (gl_event images s calls typed e s' im c)
    then show ?case using event_outcome [of images typed s e s' im c] by (intro outcome_keeps_ok) (simp_all add: gallery_ok_def)
  next
    case (gl_progress images s pre ims added files n post fraction)
    then show ?case by (cases "gallery_busy s") (auto simp: gallery_ok_def upload_progress_def gallery_busy_def)
  next
    case (gl_uploaded images s pre ims added files n post r s' im c)
    from gl_uploaded.IH have "uploads (pre @ post) = 0" by (cases "gallery_busy s") (simp_all add: gallery_ok_def)
    with gl_uploaded show ?case using upload_answer_outcome [of ims added files n r s]
      by (intro answered_keeps_ok [OF gl_uploaded.IH]) simp
  next
    case (gl_captioned images s pre ims i post rc s' im)
    then show ?case using answered_keeps_ok [OF gl_captioned.IH, of s' im None]
      by (auto simp: caption_answered_def caption_failed_def outcome_ok_def opt_list_def gallery_ok_def split: sum.splits)
  next
    case (gl_moved images s pre ims rows post rm s' im cm)
    have "outcome_ok (uploads (pre @ post)) (s', im, map_option snd cm)" if a: "call_ok (Moving ims rows)"
    proof (cases rm)
      case None
      with a gl_moved move_next_outcome [of ims rows s s' im cm] show ?thesis by (auto simp: move_answered_def gallery_ok_def)
    next
      case (Some err)
      with a gl_moved show ?thesis
        by (auto simp: move_answered_def move_failed_def outcome_ok_def opt_list_def gallery_ok_def)
    qed
    then show ?case by (rule answered_keeps_ok [OF gl_moved.IH])
  next
    case (gl_removed images s pre ims i post rm s' im)
    have "outcome_ok (uploads (pre @ post)) (s', im, None)" if a: "call_ok (Removing ims i)"
    proof -
      from a have "length (filter (\<lambda>img. bi_id img \<noteq> i) ims) \<le> MAX_BUSINESS_IMAGES"
        using le_trans [OF length_filter_le] by simp
      with gl_removed show ?thesis
        by (auto simp: remove_answered_def remove_failed_def outcome_ok_def opt_list_def gallery_ok_def split: option.splits)
    qed
    from answered_keeps_ok [OF gl_removed.IH this] show ?case by (simp add: opt_list_def)
  qed
  then show ?thesis by (simp add: gallery_ok_def)
qed

lemma gal3_open: "gallery_run gal3 gallery_init []"
  by (rule gl_open) (simp add: gal3_simps MAX_BUSINESS_IMAGES_def)

theorem gallery_capped_witness:
  "\<exists>s calls. gallery_run gal3 s calls \<and> gallery_busy s \<and> uploads calls = 1"
proof -
  let ?f = "\<lparr>f_type = [], f_size = 1, f_name = []\<rparr>"
  let ?s = "gallery_init\<lparr>gm_uploading := Some (0, 1, 0)\<rparr>"
  let ?calls = "[Uploading gal3 [] [?f] 1]"
  have r: "on_gallery (\<lambda>i. []) (Gl_pick [?f]) gal3 gallery_init = Some (?s, None, Some (hd ?calls))"
    by (simp add: on_gallery_def uploadFiles_def remaining_def gal3_simps MAX_BUSINESS_IMAGES_def gallery_init_def)
  have v: "fires_any (gallery_view (\<lambda>i. []) gal3 gallery_init) (Gl_pick [?f])"
    by (simp add: gallery_view_def atCap_def remaining_def gal3_simps MAX_BUSINESS_IMAGES_def gallery_busy_def gallery_init_def)
  have "gallery_run gal3 ?s ?calls" using gl_event [OF gal3_open v r] by (simp add: settled_images_def opt_list_def)
  with gallery_capped [OF this] show ?thesis by (intro exI [of _ ?s] exI [of _ ?calls]) (simp add: gallery_busy_def)
qed

end
