(* ===== verification/PublicView.thy ===== *)
theory PublicView
  imports BusinessPage BookingFlow
begin

text \<open>
  The public page of a business: \<open>components/booking/public/ContactButtons.tsx\<close>,
  \<open>BusinessIdentity.tsx\<close>, \<open>HeroGallery.tsx\<close>, \<open>ImageLightbox.tsx\<close>, \<open>Reveal.tsx\<close> and
  \<open>BusinessPageView.tsx\<close>, and the shell \<open>components/booking/PublicBookingLayout.tsx\<close>.

  The owner writes the page and anonymous visitors open it, so what matters is which addresses
  reach the document.
\<close>

section \<open>The public payload\<close>

record public_image =
  pi_id :: jsstr
  pi_storage_path :: jsstr
  pi_caption :: "jsstr option"

record contact_fields =
  cf_phone :: "jsstr option"
  cf_whatsapp :: "jsstr option"
  cf_instagram_url :: "jsstr option"
  cf_waze_url :: "jsstr option"

record public_business =
  pu_contact :: contact_fields
  pu_business_name :: jsstr
  pu_tagline :: "jsstr option"
  pu_about :: "jsstr option"
  pu_address :: "jsstr option"
  pu_logo_url :: "jsstr option"
  pu_page_theme :: page_theme
  pu_images :: "public_image list"

section \<open>ContactButtons.tsx\<close>

record contact_button =
  cb_key :: string
  cb_href :: jsstr
  cb_label :: jsstr
  cb_external :: bool

definition waDigits :: "jsstr \<Rightarrow> jsstr" where
  "waDigits raw = filter is_digit raw"

definition telValue :: "jsstr \<Rightarrow> jsstr" where
  "telValue raw =
     (let trimmed = trim raw;
          plus = (if starts_with trimmed (lat ''+'') then (lat ''+'') else []);
          digits = filter is_digit trimmed
      in if digits \<noteq> [] then plus @ digits else [])"

definition safeUrl :: "jsstr \<Rightarrow> jsstr" where
  "safeUrl raw = (if http_link (trim raw) then trim raw else [])"

text \<open>\<open>field ? f(field) : ''\<close>, and the button only when something is left.\<close>

definition contact_button_of :: "string \<Rightarrow> jsstr \<Rightarrow> bool \<Rightarrow> jsstr \<Rightarrow> (jsstr \<Rightarrow> jsstr) \<Rightarrow> jsstr option \<Rightarrow> contact_button list" where
  "contact_button_of key label ext pre f field =
     (let v = (if or_else field [] = [] then [] else f (or_else field [])) in
      if v = [] then [] else [\<lparr>cb_key = key, cb_href = pre @ v, cb_label = label, cb_external = ext\<rparr>])"

definition buildButtons :: "contact_fields \<Rightarrow> contact_button list" where
  "buildButtons cf =
     contact_button_of ''waze'' (heb ''pieeh a-W'' @ lat ''aze'') True [] safeUrl (cf_waze_url cf)
     @ contact_button_of ''instagram'' (heb ''rnec d@ipqhbxm'') True [] safeUrl (cf_instagram_url cf)
     @ contact_button_of ''phone'' (heb ''dzwyxe @lipe'') False (lat ''tel:'') telValue (cf_phone cf)
     @ contact_button_of ''whatsapp'' (heb ''yligz decrz W'' @ lat ''hatsApp'') True (lat ''https://wa.me/'') waDigits (cf_whatsapp cf)"

definition contact_link :: "bool \<Rightarrow> contact_button \<Rightarrow> 'e vnode" where
  "contact_link interactive b =
     El (if interactive then ''a'' else ''span'')
       ((if interactive then [Attr ''href'' (cb_href b)] else [])
        @ [Attr ''aria-label'' (cb_label b), Attr ''title'' (cb_label b)]
        @ (if interactive \<and> cb_external b then [Attr ''target'' (lat ''_blank''), Attr ''rel'' (lat ''noopener noreferrer'')] else []))
       [El ''Icon'' [Attr ''name'' (lat (cb_key b))] [], El ''span'' [] [Txt (cb_label b)]]"

definition contact_buttons_view :: "bool \<Rightarrow> contact_fields \<Rightarrow> 'e vnode list" where
  "contact_buttons_view interactive cf =
     (let buttons = buildButtons cf in
      if length buttons = 0 then []
      else [El ''nav'' [Attr ''aria-label'' (heb ''cxki ivixz wyx'')] (map (contact_link interactive) buttons)])"

section \<open>BusinessIdentity.tsx\<close>

definition initial :: "jsstr \<Rightarrow> jsstr" where
  "initial name = (let c = take 1 (trim name) in if c = [] then [9733] else c)"

definition safeLogo :: "jsstr option \<Rightarrow> jsstr option" where
  "safeLogo raw =
     (if or_else raw [] = [] then None
      else
        (let url = trim (or_else raw [])
         in if http_link url then Some url else if starts_with url (lat ''/media/'') then Some url else None))"

definition shown_text :: "string \<Rightarrow> jsstr option \<Rightarrow> 'e vnode list" where
  "shown_text t v = (if or_else v [] = [] then [] else [El t [] [Txt (or_else v [])]])"

definition business_identity :: "public_business \<Rightarrow> bool \<Rightarrow> bool \<Rightarrow> 'e vnode" where
  "business_identity page interactive standalone =
     El ''header'' [Attr ''standalone'' (if standalone then (lat ''true'') else (lat ''false''))]
       ([El ''span'' []
           [case safeLogo (pu_logo_url page) of
              Some logo \<Rightarrow> El ''img'' [Attr ''src'' logo, Attr ''alt'' []] []
            | None \<Rightarrow> El ''span'' [Attr ''aria-hidden'' (lat ''true'')] [Txt (initial (pu_business_name page))]],
         El ''h1'' [] [Txt (pu_business_name page)]]
        @ shown_text ''p'' (pu_tagline page) @ shown_text ''p'' (pu_address page)
        @ contact_buttons_view interactive (pu_contact page))"

section \<open>ImageLightbox.tsx\<close>

definition galleryAlt :: "public_image \<Rightarrow> nat \<Rightarrow> nat \<Rightarrow> jsstr \<Rightarrow> jsstr" where
  "galleryAlt img position n businessName =
     (let caption = (case pi_caption img of None \<Rightarrow> [] | Some c \<Rightarrow> trim c) in
      if caption \<noteq> [] then caption
      else (heb ''znepd '') @ nat_str position @ (heb '' nzej '') @ nat_str n @ (heb '' yl '') @ businessName)"

datatype hero_ui = Hg_open nat | Hg_close | Hg_go int | Hg_key string

text \<open>\<open>(index + delta + total) % total\<close>: the operand is not negative for the two deltas in use.\<close>

definition lightbox_go :: "nat \<Rightarrow> nat \<Rightarrow> int \<Rightarrow> nat" where
  "lightbox_go n index delta = (if n = 0 then index else nat ((int index + delta + int n) mod int n))"

text \<open>The listener on the document; \<open>None\<close>: the key is not one of its own.\<close>

definition lightbox_key :: "string \<Rightarrow> hero_ui option" where
  "lightbox_key k =
     (if k = ''Escape'' then Some Hg_close else if k = ''ArrowLeft'' then Some (Hg_go 1)
      else if k = ''ArrowRight'' then Some (Hg_go (- 1)) else None)"

text \<open>
  Tab inside the dialog: the element that gets the focus instead of the browser's choice, among the \<open>n\<close>
  focusable elements in document order. \<open>active\<close> is the one that has it, \<open>None\<close> when the focus escaped.
\<close>

definition focus_trap :: "nat \<Rightarrow> bool \<Rightarrow> nat option \<Rightarrow> nat option" where
  "focus_trap n shift active =
     (if n = 0 then None
      else if shift then (if active = Some 0 \<or> active = None then Some (n - 1) else None)
      else (if active = Some (n - 1) \<or> active = None then Some 0 else None))"

definition image_lightbox :: "public_image list \<Rightarrow> nat \<Rightarrow> jsstr \<Rightarrow> hero_ui vnode list" where
  "image_lightbox images index businessName =
     (if index \<ge> length images then []
      else
        (let n = length images; img = images ! index;
             caption = (case pi_caption img of None \<Rightarrow> [] | Some c \<Rightarrow> trim c)
         in [El ''div'' [Attr ''role'' (lat ''dialog''), Attr ''aria-modal'' (lat ''true''),
               Attr ''aria-label'' ((heb ''znepd '') @ nat_str (index + 1) @ (heb '' nzej '') @ nat_str n),
               On (\<lambda>e. \<exists>k. e = Hg_key k)]
              ([El ''button'' [Attr ''tabindex'' (lat ''-1''), Attr ''aria-hidden'' (lat ''true''), on_click Hg_close] [],
                El ''button'' [on_click Hg_close, Attr ''aria-label'' (heb ''qbixz dznepd'')] []]
               @ shown (n > 1) [El ''button'' [on_click (Hg_go (- 1)), Attr ''aria-label'' (heb ''dznepd dwecnz'')] []]
               @ [El ''figure'' []
                    [El ''img'' [Attr ''src'' (imageSrc (pi_storage_path img)), Attr ''alt'' (galleryAlt img (index + 1) n businessName)] [],
                     El ''figcaption'' []
                       (shown (caption \<noteq> []) [Txt (caption @ (lat '' '' @ [183] @ lat '' ''))] @ [Txt (nat_str (index + 1) @ (heb '' nzej '') @ nat_str n)])]]
               @ shown (n > 1) [El ''button'' [on_click (Hg_go 1), Attr ''aria-label'' (heb ''dznepd da@d'')] []])]))"

section \<open>HeroGallery.tsx\<close>

definition MOSAIC_SIZE :: nat where "MOSAIC_SIZE = 5"

definition on_hero :: "nat \<Rightarrow> hero_ui \<Rightarrow> nat option \<Rightarrow> nat option" where
  "on_hero n e openIndex =
     (case e of
        Hg_open i \<Rightarrow> Some i
      | Hg_close \<Rightarrow> None
      | Hg_go d \<Rightarrow> map_option (\<lambda>i. lightbox_go n i d) openIndex
      | Hg_key k \<Rightarrow>
          (case lightbox_key k of
             Some (Hg_go d) \<Rightarrow> map_option (\<lambda>i. lightbox_go n i d) openIndex
           | Some Hg_close \<Rightarrow> None
           | _ \<Rightarrow> openIndex))"

definition hero_tile :: "public_image list \<Rightarrow> jsstr \<Rightarrow> bool \<Rightarrow> nat \<Rightarrow> public_image \<Rightarrow> hero_ui vnode" where
  "hero_tile images businessName interactive i img =
     El ''button'' [Disabled (\<not> interactive), on_click (Hg_open i)]
       [El ''img'' [Attr ''src'' (imageSrc (pi_storage_path img)),
          Attr ''alt'' (galleryAlt img (i + 1) (length images) businessName)] []]"

definition hero_gallery :: "public_image list \<Rightarrow> jsstr \<Rightarrow> bool \<Rightarrow> nat option \<Rightarrow> hero_ui vnode list" where
  "hero_gallery images businessName interactive openIndex =
     (if length images = 0 then []
      else
        [El ''section'' [Attr ''aria-label'' (heb ''znepez ndrqw'')]
          ([El ''div'' [] (mapi (hero_tile images businessName interactive) (take MOSAIC_SIZE images)),
            El ''button'' [Disabled (\<not> interactive), on_click (Hg_open 0)]
              [Txt ((heb ''dvb @z kl dznepez ('') @ nat_str (length images) @ (lat '')''))]]
           @ (case openIndex of
                Some i \<Rightarrow> (if interactive then image_lightbox images i businessName else [])
              | None \<Rightarrow> []))])"

section \<open>Reveal.tsx\<close>

definition STEP_MS :: nat where "STEP_MS = 90"
definition MAX_DELAY_MS :: nat where "MAX_DELAY_MS = 450"
definition DURATION_MS :: nat where "DURATION_MS = 550"
definition SETTLE_MARGIN_MS :: nat where "SETTLE_MARGIN_MS = 250"

definition reveal_delay :: "nat \<Rightarrow> nat" where
  "reveal_delay order = min (order * STEP_MS) MAX_DELAY_MS"

definition reveal_settles :: "nat \<Rightarrow> nat" where
  "reveal_settles order = reveal_delay order + DURATION_MS + SETTLE_MARGIN_MS"

text \<open>The wrapper \<open>t\<close> milliseconds after it was mounted.\<close>

definition reveal :: "nat \<Rightarrow> nat \<Rightarrow> 'e vnode list \<Rightarrow> 'e vnode" where
  "reveal t order vs =
     (if t \<ge> reveal_settles order then El ''div'' [] vs
      else El ''div'' [Attr ''class'' (lat ''bp-reveal''), Attr ''animation-delay'' (nat_str (reveal_delay order) @ (lat ''ms''))] vs)"

section \<open>BusinessPageView.tsx\<close>

datatype 'c page_ui = Pg_hero hero_ui | Pg_flow 'c

definition page_block :: "bool \<Rightarrow> nat \<Rightarrow> nat \<Rightarrow> 'e vnode list \<Rightarrow> 'e vnode" where
  "page_block animate t order vs = (if animate then reveal t order vs else El ''div'' [] vs)"

definition business_page_view ::
  "public_business \<Rightarrow> 'c vnode list \<Rightarrow> bool \<Rightarrow> bool \<Rightarrow> nat \<Rightarrow> nat option \<Rightarrow> 'c page_ui vnode"
where
  "business_page_view page children interactive animate t openIndex =
     (let hasImages = length (pu_images page) > 0 in
      El ''div'' []
       (shown hasImages
          [page_block animate t 0
             (map (view_in Pg_hero) (hero_gallery (pu_images page) (pu_business_name page) interactive openIndex))]
        @ [page_block animate t 1 [business_identity page interactive (\<not> hasImages)]]
        @ shown_text ''p'' (pu_about page)
        @ shown (children \<noteq> [])
            [El ''hr'' [] [],
             page_block animate t 2
               [El ''section'' [Attr ''aria-label'' (heb ''wairz zex'')]
                 ([El ''h2'' [] [Txt (heb ''wairz zex'')],
                   El ''p'' [] [Txt (heb ''zdlij wvx '' @ [8212] @ heb '' aegxim yixez, z@xij eyrd, eny@ixim txhim.'')]]
                  @ map (view_in Pg_flow) children)]]))"

section \<open>PublicBookingLayout.tsx\<close>

definition public_booking_layout :: "jsstr \<Rightarrow> bool \<Rightarrow> (jsstr \<times> jsstr) list \<Rightarrow> 'e vnode list \<Rightarrow> 'e vnode" where
  "public_booking_layout businessName isPage themeVars vs =
     El ''div'' (if isPage then map (\<lambda>(k, v). Attr ''style'' (k @ (lat '':'') @ v)) themeVars else [])
       ([El ''a'' [Attr ''href'' (lat ''#main'')] [Txt (heb ''clbe lzeko'')]]
        @ shown (\<not> isPage) [El ''header'' [] [Txt (if businessName = [] then (heb ''wairz zex'') else businessName)]]
        @ [El ''main'' [Attr ''id'' (lat ''main'')] vs, El ''SiteFooter'' [] []])"

section \<open>What reaches the document\<close>

fun attr_value :: "string \<Rightarrow> 'e attr \<Rightarrow> jsstr list" where
  "attr_value k (Attr n v) = (if n = k then [v] else [])"
| "attr_value k _ = []"

fun vals :: "string \<Rightarrow> 'e vnode \<Rightarrow> jsstr list" where
  "vals k (Txt s) = []"
| "vals k (El t as vs) = concat (map (attr_value k) as) @ concat (map (vals k) vs)"

definition vals_of :: "string \<Rightarrow> 'e vnode list \<Rightarrow> jsstr list" where
  "vals_of k vs = concat (map (vals k) vs)"

lemma vals_of_simps [simp]:
  "vals_of k [] = []" "vals_of k (v # vs) = vals k v @ vals_of k vs" "vals_of k (us @ vs) = vals_of k us @ vals_of k vs"
  by (simp_all add: vals_of_def)

lemma vals_El [simp]: "vals k (El t as vs) = concat (map (attr_value k) as) @ vals_of k vs"
  by (simp add: vals_of_def)

declare vals.simps(2) [simp del]

lemma vals_of_shown [simp]: "vals_of k (shown c vs) = (if c then vals_of k vs else [])"
  by (simp add: shown_def)

lemma vals_of_map: "vals_of k (map f xs) = concat (map (\<lambda>x. vals k (f x)) xs)"
  by (simp add: vals_of_def comp_def)

lemma vals_view_in [simp]: "vals k (view_in f v) = vals k v"
proof (induction v)
  case (El t as vs)
  have "attr_value k (attr_in f a) = attr_value k a" for a by (cases a) simp_all
  with El show ?case by (simp add: vals_of_map comp_def) (simp add: vals_of_def cong: map_cong)
qed simp

lemma vals_of_view_in [simp]: "vals_of k (map (view_in f) vs) = vals_of k vs"
  by (simp add: vals_of_map) (simp add: vals_of_def)

lemma texts_view_in [simp]: "texts (view_in f v) = texts v"
proof (induction v)
  case (El t as vs)
  then show ?case by (simp add: texts_of_def comp_def cong: map_cong)
qed simp

lemma texts_of_view_in [simp]: "texts_of (map (view_in f) vs) = texts_of vs"
  by (simp add: texts_of_def comp_def)

text \<open>An address that may stand in a public page.\<close>

definition tel_href :: "jsstr \<Rightarrow> bool" where
  "tel_href u \<longleftrightarrow> (\<exists>d. d \<noteq> [] \<and> list_all is_digit d \<and> (u = (lat ''tel:'') @ d \<or> u = (lat ''tel:+'') @ d))"

definition wa_href :: "jsstr \<Rightarrow> bool" where
  "wa_href u \<longleftrightarrow> (\<exists>d. d \<noteq> [] \<and> list_all is_digit d \<and> u = (lat ''https://wa.me/'') @ d)"

definition safe_href :: "jsstr \<Rightarrow> bool" where
  "safe_href u \<longleftrightarrow> http_link u \<or> tel_href u \<or> wa_href u"

definition safe_src :: "jsstr \<Rightarrow> bool" where
  "safe_src u \<longleftrightarrow> http_link u \<or> starts_with u (lat ''/media/'')"

lemma safeUrl_ok: "safeUrl raw \<noteq> [] \<Longrightarrow> safe_href (safeUrl raw)"
  by (simp add: safeUrl_def safe_href_def split: if_splits)

lemma tel_ok: "telValue raw \<noteq> [] \<Longrightarrow> safe_href ((lat ''tel:'') @ telValue raw)"
  by (auto simp: telValue_def safe_href_def tel_href_def Let_def list_all_iff lat_def intro!: exI [of _ "filter is_digit (trim raw)"] split: if_splits)

lemma wa_ok: "waDigits raw \<noteq> [] \<Longrightarrow> safe_href ((lat ''https://wa.me/'') @ waDigits raw)"
  by (auto simp: waDigits_def safe_href_def wa_href_def list_all_iff)

lemma buttons_safe: "b \<in> set (buildButtons cf) \<Longrightarrow> safe_href (cb_href b)"
  by (auto simp: buildButtons_def contact_button_of_def Let_def safeUrl_ok tel_ok wa_ok split: if_splits)

lemma contact_link_vals [simp]:
  "vals ''href'' (contact_link i b) = (if i then [cb_href b] else [])" "vals ''src'' (contact_link i b) = []"
  by (auto simp: contact_link_def)

lemma contact_vals:
  "vals_of ''href'' (contact_buttons_view i cf) = (if i then map cb_href (buildButtons cf) else [])"
  "vals_of ''src'' (contact_buttons_view i cf) = []"
  by (simp_all add: contact_buttons_view_def Let_def vals_of_map)

lemma shown_text_vals [simp]: "vals_of k (shown_text t v) = []" "\<not> fires_any (shown_text t v) e"
  by (simp_all add: shown_text_def)

lemma safeLogo_ok: "safeLogo raw = Some u \<Longrightarrow> safe_src u"
  by (auto simp: safeLogo_def safe_src_def Let_def split: if_splits)

lemma identity_vals:
  "vals ''href'' (business_identity page i st) = (if i then map cb_href (buildButtons (pu_contact page)) else [])"
  "u \<in> set (vals ''src'' (business_identity page i st)) \<Longrightarrow> safe_src u"
  by (auto simp: business_identity_def contact_vals safeLogo_ok split: option.splits)

lemma imageSrc_ok: "safe_src (imageSrc p)"
  by (simp add: safe_src_def imageSrc_def starts_with_def lat_def)

lemma vals_mapi: "vals_of k (mapi f xs) = concat (mapi (\<lambda>i x. vals k (f i x)) xs)"
  by (simp add: mapi_eq_map_enum vals_of_map)

lemma hero_vals:
  "vals_of ''href'' (hero_gallery images nm i o') = []"
  "u \<in> set (vals_of ''src'' (hero_gallery images nm i o')) \<Longrightarrow> safe_src u"
  by (auto simp: hero_gallery_def image_lightbox_def hero_tile_def vals_mapi Let_def imageSrc_ok set_mapi split: option.splits if_splits)

lemma block_vals [simp]: "k \<noteq> ''class'' \<Longrightarrow> k \<noteq> ''animation-delay'' \<Longrightarrow> vals k (page_block an t n vs) = vals_of k vs"
  by (simp add: page_block_def reveal_def)

lemma block_same [simp]: "fires (page_block an t n vs) e = fires_any vs e" "texts (page_block an t n vs) = texts_of vs"
  by (simp_all add: page_block_def reveal_def)


text \<open>The contact row: one button per field that is left after cleaning, in a fixed order, and no row without one.\<close>

lemma contact_row:
  "map cb_key (buildButtons cf) =
     (if safeUrl (or_else (cf_waze_url cf) []) \<noteq> [] then [''waze''] else [])
     @ (if safeUrl (or_else (cf_instagram_url cf) []) \<noteq> [] then [''instagram''] else [])
     @ (if telValue (or_else (cf_phone cf) []) \<noteq> [] then [''phone''] else [])
     @ (if waDigits (or_else (cf_whatsapp cf) []) \<noteq> [] then [''whatsapp''] else [])"
  "contact_buttons_view i cf = [] \<longleftrightarrow> buildButtons cf = []"
  by (auto simp: buildButtons_def contact_button_of_def Let_def telValue_def waDigits_def safeUrl_def http_link_def starts_with_def
      lat_def contact_buttons_view_def lower_def)

section \<open>The preview and the page\<close>

lemma shown_text_texts [simp]: "texts_of (shown_text t v) = (if or_else v [] = [] then [] else [or_else v []])"
  by (simp add: shown_text_def)

lemma contact_link_texts: "texts_of (map (contact_link i) bs) = map cb_label bs"
  by (induction bs) (simp_all add: contact_link_def)

lemma contact_texts [simp]: "texts_of (contact_buttons_view i cf) = map cb_label (buildButtons cf)"
  by (simp add: contact_buttons_view_def Let_def contact_link_texts)

lemma hero_same:
  "texts_of (hero_gallery images nm i None) = texts_of (hero_gallery images nm j None)"
  "vals_of ''src'' (hero_gallery images nm i None) = vals_of ''src'' (hero_gallery images nm j None)"
  by (simp_all add: hero_gallery_def hero_tile_def vals_of_map texts_of_def mapi_eq_map_enum comp_def)

lemma identity_same:
  "texts (business_identity page i st) = texts (business_identity page j st)"
  "vals ''src'' (business_identity page i st) = vals ''src'' (business_identity page j st)"
  by (simp_all add: business_identity_def contact_vals split: option.split)

lemma identity_quiet [simp]: "\<not> fires (business_identity page i st) e"
  by (auto simp: business_identity_def contact_buttons_view_def contact_link_def Let_def fires_any_map split: option.splits)

lemma hero_inert: "\<not> fires_any (hero_gallery images nm False o') e"
  by (auto simp: hero_gallery_def hero_tile_def fires_any_mapi split: option.splits)


section \<open>Paging through the pictures\<close>

lemma lightbox_go_range: "i < n \<Longrightarrow> lightbox_go n i d < n"
  by (simp add: lightbox_go_def nat_less_iff)

lemma lightbox_next:
  assumes "i < n"
  shows "lightbox_go n i 1 = (i + 1) mod n"
proof -
  have "(int i + 1 + int n) mod int n = int ((i + 1) mod n)" by (metis mod_add_self2 of_nat_1 of_nat_add zmod_int)
  with assms show ?thesis unfolding lightbox_go_def by (simp only: nat_int if_False) simp
qed

lemma lightbox_back:
  assumes "i < n"
  shows "lightbox_go n (lightbox_go n i d) (- d) = i"
proof -
  have "((int i + d + int n) mod int n - d + int n) mod int n = (int i + d + int n - d + int n) mod int n"
    by (metis mod_add_left_eq mod_diff_left_eq)
  also have "\<dots> = int i" using assms by simp
  finally show ?thesis using assms by (simp add: lightbox_go_def)
qed

lemma lightbox_forward: "i < n \<Longrightarrow> ((\<lambda>j. lightbox_go n j 1) ^^ k) i = (i + k) mod n"
proof (induction k)
  case (Suc k)
  then have "lightbox_go n ((i + k) mod n) 1 = ((i + k) mod n + 1) mod n" by (intro lightbox_next) simp
  with Suc show ?case by (simp add: mod_simps)
qed simp

text \<open>The dialog as it is used: whatever is clicked or typed, from the closed gallery.\<close>

inductive hero_run :: "public_image list \<Rightarrow> jsstr \<Rightarrow> nat option \<Rightarrow> bool" for images nm where
  hero_start: "hero_run images nm None"
| hero_event: "hero_run images nm o' \<Longrightarrow> fires_any (hero_gallery images nm True o') e \<Longrightarrow> hero_run images nm (on_hero (length images) e o')"

lemma hero_fires:
  "fires_any (hero_gallery images nm True o') (Hg_open i) \<Longrightarrow> i < length images"
  by (auto simp: hero_gallery_def hero_tile_def fires_any_mapi image_lightbox_def Let_def split: option.splits if_splits)

text \<open>On every run of the gallery of the page the open picture exists, so the dialog is shown exactly when one is open and
  its picture has a description; from there every picture is reached by going forward, and going back undoes it.\<close>

theorem lightbox_reaches_all:
  assumes "hero_run images nm o'" "o' = Some i"
  shows "i < length images \<and> image_lightbox images i nm \<noteq> []
    \<and> galleryAlt (images ! i) (i + 1) (length images) nm \<noteq> []
    \<and> lightbox_go (length images) (lightbox_go (length images) i 1) (- 1) = i
    \<and> list_all (\<lambda>j. \<exists>k < length images. ((\<lambda>x. lightbox_go (length images) x 1) ^^ k) i = j) [0..<length images]"
proof -
  have i: "i < length images" using assms
  proof (induction arbitrary: i rule: hero_run.induct)
    case (hero_event o' e)
    then show ?case using lightbox_go_range hero_fires [of images nm o']
      by (cases e) (auto simp: on_hero_def lightbox_key_def split: if_splits)
  qed simp
  have "\<exists>k < length images. (i + k) mod length images = j" if "j < length images" for j
  proof (cases "i \<le> j")
    case True
    with that show ?thesis by (intro exI [of _ "j - i"]) simp
  next
    case False
    with i that show ?thesis by (intro exI [of _ "length images - i + j"]) simp
  qed
  then show ?thesis using i lightbox_back [OF i, of 1]
    by (auto simp: image_lightbox_def Let_def galleryAlt_def heb_def list_all_iff lightbox_forward [OF i])
qed

definition pic :: "code_unit \<Rightarrow> public_image" where
  "pic k = \<lparr>pi_id = [k], pi_storage_path = [k], pi_caption = None\<rparr>"

theorem lightbox_reaches_all_witness:
  "\<exists>i. hero_run [pic 1, pic 2] [97] (Some i) \<and> lightbox_go 2 (lightbox_go 2 i 1) (- 1) = i"
proof -
  have "fires_any (hero_gallery [pic 1, pic 2] [97] True None) (Hg_open 0)" by (simp add: hero_gallery_def)
  from hero_event [OF hero_start this] have r: "hero_run [pic 1, pic 2] [97] (Some 0)" by (simp add: on_hero_def)
  from lightbox_reaches_all [OF r refl] r show ?thesis by (intro exI [of _ 0]) (simp add: numeral_2_eq_2)
qed

end
