(* ===== verification/Design.thy ===== *)
theory Design
  imports Gallery PublicView BookingLaws
begin

text \<open>
  The design tab: \<open>components/booking/setup/DesignPanel.tsx\<close>, \<open>PalettePicker.tsx\<close> and
  \<open>PagePreviewFrame.tsx\<close>; and \<open>DetailsPanel.tsx\<close>, the other user of the page hook.
\<close>

section \<open>DesignPanel.tsx\<close>

record design =
  dp_hook :: page_hook
  dp_themeSaving :: bool
  dp_themeError :: "jsstr option"
  dp_themeNotice :: "jsstr option"
  dp_services :: "public_service list"
  dp_welcomeMessage :: "jsstr option"
  dp_loader :: loader

definition design_mount :: design where
  "design_mount =
     \<lparr>dp_hook = hook_mount, dp_themeSaving = False, dp_themeError = None, dp_themeNotice = None, dp_services = [],
      dp_welcomeMessage = None, dp_loader = rerun_effect new_loader\<rparr>"

definition design_requests :: "http_request list" where
  "design_requests = [getServices, getBookingSettings]"

definition preview_service :: "service_item \<Rightarrow> public_service" where
  "preview_service s =
     \<lparr>ps_id = svc_id s, ps_name = svc_name s, ps_duration_minutes = svc_duration_minutes s,
      ps_description = svc_description s, ps_price = svc_price s\<rparr>"

definition services_answered :: "nat \<Rightarrow> (js_thrown + service_item list) \<Rightarrow> design \<Rightarrow> design" where
  "services_answered t r s =
     (case r of
        Inl _ \<Rightarrow> s
      | Inr res \<Rightarrow> if live t (dp_loader s) then s\<lparr>dp_services := map preview_service (filter svc_active res)\<rparr> else s)"

definition welcome_answered :: "nat \<Rightarrow> (js_thrown + booking_settings) \<Rightarrow> design \<Rightarrow> design" where
  "welcome_answered t r s =
     (case r of
        Inl _ \<Rightarrow> s
      | Inr res \<Rightarrow> if live t (dp_loader s) then s\<lparr>dp_welcomeMessage := bs_welcome_message res\<rparr> else s)"

interpretation design_services: guarded_settle dp_loader services_answered
  by unfold_locales (auto simp: services_answered_def split: sum.split)

interpretation design_welcome: guarded_settle dp_loader welcome_answered
  by unfold_locales (auto simp: welcome_answered_def split: sum.split)

text \<open>The functional updates of the page.\<close>

definition setImages :: "business_image list \<Rightarrow> design \<Rightarrow> design" where
  "setImages images s = s\<lparr>dp_hook := setPage (map_option (\<lambda>p. p\<lparr>pg_images := images\<rparr>)) (dp_hook s)\<rparr>"

text \<open>\<open>{ ...theme, palette }\<close>, as a value and as it is sent.\<close>

definition with_palette :: "jsstr \<Rightarrow> page_theme \<Rightarrow> page_theme" where
  "with_palette i th = th\<lparr>th_palette := Some i\<rparr>"

definition theme_json :: "page_theme \<Rightarrow> json" where
  "theme_json th =
     JObj ((case th_palette th of None \<Rightarrow> [] | Some p \<Rightarrow> [((lat ''palette''), JStr p)])
           @ (case th_radius th of None \<Rightarrow> [] | Some r \<Rightarrow> [((lat ''radius''), JNum r)]))"

text \<open>
  A click on a palette: the page it is rendered with gives the theme a failure goes back to. The second
  component is the request with what the handler keeps of that theme.
\<close>

definition selectPalette :: "jsstr \<Rightarrow> design \<Rightarrow> design \<times> http_request \<times> page_theme option" where
  "selectPalette paletteId s =
     (let previous = map_option pg_page_theme (hk_page (dp_hook s)) in
      (s\<lparr>dp_hook := setPage (map_option (\<lambda>p. p\<lparr>pg_page_theme := with_palette paletteId (pg_page_theme p)\<rparr>)) (dp_hook s),
         dp_themeSaving := True, dp_themeError := None\<rparr>,
       updateBusinessPage (JObj [((lat ''page_theme''),
         theme_json (with_palette paletteId (case previous of None \<Rightarrow> \<lparr>th_palette = None, th_radius = None\<rparr> | Some th \<Rightarrow> th)))]),
       previous))"

definition palette_failed :: "js_thrown \<Rightarrow> page_theme option \<Rightarrow> design \<Rightarrow> design" where
  "palette_failed err previous s =
     s\<lparr>dp_themeError := Some (toFriendlyError err (heb ''ynixz dvarim pkyld. pqe yea.'')),
       dp_hook := setPage (\<lambda>prev. case (prev, previous) of (Some p, Some th) \<Rightarrow> Some (p\<lparr>pg_page_theme := th\<rparr>) | _ \<Rightarrow> prev) (dp_hook s)\<rparr>"

definition palette_answered :: "(js_thrown + business_page) \<Rightarrow> page_theme option \<Rightarrow> design \<Rightarrow> design" where
  "palette_answered r previous s =
     (case r of
        Inr updated \<Rightarrow> s\<lparr>dp_hook := setPage (\<lambda>_. Some updated) (dp_hook s)\<rparr>
      | Inl err \<Rightarrow>
          (case err of
             ThrownApi e \<Rightarrow> if isDemoBlocked e then s\<lparr>dp_themeNotice := detail e\<rparr> else palette_failed err previous s
           | ThrownOther m \<Rightarrow> palette_failed err previous s))\<lparr>dp_themeSaving := False\<rparr>"

section \<open>PagePreviewFrame.tsx\<close>

definition CANVAS_WIDTH :: nat where "CANVAS_WIDTH = 1024"
definition PHONE_CANVAS_WIDTH :: nat where "PHONE_CANVAS_WIDTH = 390"

record preview_frame =
  pf_scale :: rat
  pf_height :: rat
  pf_wide :: bool

definition frame_init :: "bool \<Rightarrow> preview_frame" where
  "frame_init wide = \<lparr>pf_scale = 1 / 2, pf_height = 480, pf_wide = wide\<rparr>"

definition canvasWidth :: "preview_frame \<Rightarrow> nat" where
  "canvasWidth f = (if pf_wide f then CANVAS_WIDTH else PHONE_CANVAS_WIDTH)"

definition frame_measure :: "nat \<Rightarrow> nat \<Rightarrow> preview_frame \<Rightarrow> preview_frame" where
  "frame_measure clientWidth scrollHeight f =
     (let nxt = min 1 (of_nat clientWidth / of_nat (canvasWidth f))
      in f\<lparr>pf_scale := nxt, pf_height := of_nat scrollHeight * nxt\<rparr>)"

text \<open>The media query changed, and the effect of the new width measured again.\<close>

definition frame_sync :: "bool \<Rightarrow> nat \<Rightarrow> nat \<Rightarrow> preview_frame \<Rightarrow> preview_frame" where
  "frame_sync wide clientWidth scrollHeight f = frame_measure clientWidth scrollHeight (f\<lparr>pf_wide := wide\<rparr>)"

text \<open>\<open>inert\<close>: nothing below reacts.\<close>

fun inert_attr :: "'e attr \<Rightarrow> 'f attr list" where
  "inert_attr (Attr n v) = [Attr n v]"
| "inert_attr (Disabled b) = [Disabled b]"
| "inert_attr (On h) = []"

fun inert :: "'e vnode \<Rightarrow> 'f vnode" where
  "inert (Txt s) = Txt s"
| "inert (El t as vs) = El t (concat (map inert_attr as)) (map inert vs)"

definition page_preview_frame :: "preview_frame \<Rightarrow> (jsstr \<times> jsstr) list \<Rightarrow> 'e vnode \<Rightarrow> 'f vnode" where
  "page_preview_frame f themeVars child =
     El ''div'' []
       [El ''div'' ([Attr ''inert'' [], Attr ''aria-hidden'' (lat ''true''), Attr ''width'' (nat_str (canvasWidth f))]
          @ map (\<lambda>(k, v). Attr ''style'' (k @ (lat '':'') @ v)) themeVars) [inert child]]"

section \<open>PalettePicker.tsx\<close>

text \<open>The owner's page, read by the components of the public page.\<close>

definition public_of_page :: "business_page \<Rightarrow> public_business" where
  "public_of_page p =
     \<lparr>pu_contact = \<lparr>cf_phone = pg_phone p, cf_whatsapp = pg_whatsapp p, cf_instagram_url = pg_instagram_url p, cf_waze_url = pg_waze_url p\<rparr>,
      pu_business_name = pg_business_name p, pu_tagline = pg_tagline p, pu_about = pg_about p, pu_address = pg_address p,
      pu_logo_url = pg_logo_url p, pu_page_theme = pg_page_theme p,
      pu_images = map (\<lambda>i. \<lparr>pi_id = bi_id i, pi_storage_path = bi_storage_path i, pi_caption = bi_caption i\<rparr>) (pg_images p)\<rparr>"

datatype design_ui = Ds_gallery gallery_ui | Ds_palette jsstr

definition palette_option :: "bool \<Rightarrow> page_palette \<Rightarrow> page_palette \<Rightarrow> design_ui vnode" where
  "palette_option disabled selected p =
     (let isSelected = (pal_key p = pal_key selected) in
      El ''button'' [Attr ''role'' (lat ''radio''), Attr ''aria-checked'' (if isSelected then (lat ''true'') else (lat ''false'')),
          Disabled disabled, on_click (Ds_palette (pal_key p))]
        ([El ''span'' [Attr ''background'' (pal_bg p)] [], El ''span'' [Attr ''background'' (pal_surface p)] [],
          El ''span'' [Attr ''background'' (pal_primary p)] []]
         @ shown isSelected [El ''Icon'' [Attr ''name'' (lat ''check'')] []] @ [Txt (pal_label p)]))"

definition preview_props :: "public_service list \<Rightarrow> jsstr option \<Rightarrow> flow_props" where
  "preview_props services welcomeMessage = \<lparr>fp_slug = None, fp_services = services, fp_welcome = welcomeMessage\<rparr>"

definition palette_picker ::
  "browser \<Rightarrow> business_page \<Rightarrow> public_service list \<Rightarrow> jsstr option \<Rightarrow> bool \<Rightarrow> booking_flow \<Rightarrow> preview_frame \<Rightarrow> design_ui vnode list"
where
  "palette_picker br page services welcomeMessage disabled flow f =
     (let selected = resolvePalette (Some (pg_page_theme page)); radius = resolveRadius (Some (pg_page_theme page)) in
      [El ''div'' [Attr ''role'' (lat ''radiogroup''), Attr ''aria-label'' (heb ''tlhz dvarim yl drnec'')]
         (map (palette_option disabled selected) PAGE_PALETTES),
       El ''h3'' [] [Txt (heb ''kj iix@d drnec ylkm '' @ [8212] @ heb '' fe dzvebd d@niziz, newhpz'')],
       page_preview_frame f (paletteVarsFor selected radius)
         (business_page_view (public_of_page page) [flow_view br (preview_props services welcomeMessage) flow] False False 0 None)])"

section \<open>The tab\<close>

definition design_view ::
  "browser \<Rightarrow> (jsstr \<Rightarrow> jsstr) \<Rightarrow> gallery \<Rightarrow> booking_flow \<Rightarrow> preview_frame \<Rightarrow> design \<Rightarrow> design_ui vnode list"
where
  "design_view br typed g flow f s =
     (if hk_loading (dp_hook s) then [El ''Spinner'' [] [Txt (heb ''hero @z rivea drnec'' @ [8230])]]
      else if or_else (hk_error (dp_hook s)) [] \<noteq> [] then [El ''Alert'' [] [Txt (or_else (hk_error (dp_hook s)) [])]]
      else
        (case hk_page (dp_hook s) of
           None \<Rightarrow> []
         | Some page \<Rightarrow>
             [El ''h2'' [] [Txt (heb ''znepez drqw'')],
              El ''p'' [] [Txt (heb ''dznepez netirez arnec lti dqcx yk@o. dkizea pynx lac axbr y@zm iev@im ndycd.'')]]
             @ map (view_in Ds_gallery) (gallery_view typed (pg_images page) g)
             @ [El ''h2'' [] [Txt (heb ''vari drnec'')],
                El ''p'' [] [Txt (heb ''agxe tlhd '' @ [8212] @ heb '' di@ pynxz nic, edzvebd lnhd nx@d @ij drnec iix@d aterl.'')]]
             @ shown_text ''Alert'' (dp_themeError s) @ shown_text ''Alert'' (dp_themeNotice s)
             @ palette_picker br page (dp_services s) (dp_welcomeMessage s) (dp_themeSaving s) flow f))"

text \<open>\<open>DetailsPanel\<close>: the details card of the loaded page, \<open>onSaved\<close> being \<open>setPage\<close>.\<close>

definition details_panel :: "page_hook \<Rightarrow> logo_uploader \<Rightarrow> (business_page \<Rightarrow> details_card) \<Rightarrow> details_ui vnode list" where
  "details_panel h lg cardOf =
     (if hk_loading h then [El ''Spinner'' [] [Txt (heb ''hero @z txhi drqw'' @ [8230])]]
      else if or_else (hk_error h) [] \<noteq> [] then [El ''Alert'' [] [Txt (or_else (hk_error h) [])]]
      else (case hk_page h of None \<Rightarrow> [] | Some page \<Rightarrow> details_view page lg (cardOf page)))"

section \<open>Choosing a palette\<close>

lemma inert_quiet [simp]: "\<not> fires (inert v) e"
proof (induction v)
  case (El t as vs)
  have "\<not> handles a e" if "a \<in> set (inert_attr b)" for a :: "'a attr" and b
    using that by (cases b) auto
  with El show ?case by (auto simp: list_ex_iff fires_any_map)
qed simp

lemma inert_texts [simp]: "texts (inert v) = texts v"
proof (induction v)
  case (El t as vs)
  then show ?case by (simp add: texts_of_def comp_def cong: map_cong)
qed simp

lemma styles_quiet [simp]: "\<not> list_ex (\<lambda>a. handles a e) (map (\<lambda>(k, v). Attr n (f k v)) xs)"
  by (auto simp: list_ex_iff)

lemma picker_fires:
  "fires_any (palette_picker br page sv wm disabled flow f) e \<longleftrightarrow> \<not> disabled \<and> (\<exists>p \<in> set PAGE_PALETTES. e = Ds_palette (pal_key p))"
  by (auto simp: palette_picker_def Let_def palette_option_def page_preview_frame_def fires_any_map)

lemma palette_offered:
  "fires_any (design_view br typed g flow f s) (Ds_palette i) \<Longrightarrow>
     \<not> dp_themeSaving s \<and> hk_page (dp_hook s) \<noteq> None \<and> (\<exists>p \<in> set PAGE_PALETTES. i = pal_key p)"
  by (auto simp: design_view_def picker_fires fires_any_view_in split: if_splits option.splits)

definition demo_refused :: "js_thrown \<Rightarrow> bool" where
  "demo_refused err \<longleftrightarrow> (case err of ThrownApi e \<Rightarrow> isDemoBlocked e | ThrownOther m \<Rightarrow> False)"

lemma palette_keys: "p \<in> set PAGE_PALETTES \<Longrightarrow> pal_key (resolvePalette (Some (with_palette (pal_key p) th))) = pal_key p"
proof -
  assume p: "p \<in> set PAGE_PALETTES"
  then have "pal_key p \<noteq> []" by (auto simp: PAGE_PALETTES_def lat_def)
  moreover obtain q where "find (\<lambda>x. pal_key x = pal_key p) PAGE_PALETTES = Some q"
    using p by (cases "find (\<lambda>x. pal_key x = pal_key p) PAGE_PALETTES") (auto simp: find_None_iff)
  moreover from this have "pal_key q = pal_key p" by (auto simp: find_Some_iff)
  ultimately show ?thesis by (simp add: resolvePalette_def with_palette_def)
qed

lemma page_after_answer:
  "hk_page (dp_hook (palette_answered r previous s)) =
     (case r of Inr u \<Rightarrow> Some u
      | Inl err \<Rightarrow> if demo_refused err then hk_page (dp_hook s)
          else (case (hk_page (dp_hook s), previous) of (Some p, Some th) \<Rightarrow> Some (p\<lparr>pg_page_theme := th\<rparr>) | _ \<Rightarrow> hk_page (dp_hook s)))"
  by (auto simp: palette_answered_def palette_failed_def setPage_def demo_refused_def split: sum.split js_thrown.split option.split)

lemma errors_after_answer:
  "dp_themeError (palette_answered (Inl err) previous s) =
     (if demo_refused err then dp_themeError s else Some (toFriendlyError err (heb ''ynixz dvarim pkyld. pqe yea.'')))"
  by (auto simp: palette_answered_def palette_failed_def demo_refused_def split: js_thrown.split)

text \<open>Property C34. Choosing a palette: it is offered only while no choice is being saved, it shows at once, the request has nothing but the
  theme, and after the answer, whatever happened to the gallery meanwhile, the page is the server's, or still has the choice when the
  demo refused it, or has exactly its old theme, its new images and a message.\<close>

theorem palette_choice_settles:
  assumes "fires_any (design_view br typed g flow f s) (Ds_palette i)" "hk_page (dp_hook s) = Some p"
    and "selectPalette i s = (s1, rq, previous)"
  shows "\<not> dp_themeSaving s
    \<and> map_option (\<lambda>q. pal_key (resolvePalette (Some (pg_page_theme q)))) (hk_page (dp_hook s1)) = Some i
    \<and> rq = updateBusinessPage (JObj [((lat ''page_theme''), theme_json (with_palette i (pg_page_theme p)))])
    \<and> (let s2 = palette_answered r previous (setImages images s1) in
         \<not> dp_themeSaving s2 \<and>
         (case r of
            Inr u \<Rightarrow> hk_page (dp_hook s2) = Some u \<and> dp_themeError s2 = None
          | Inl err \<Rightarrow>
              if demo_refused err
              then hk_page (dp_hook s2) = Some (p\<lparr>pg_page_theme := with_palette i (pg_page_theme p), pg_images := images\<rparr>) \<and> dp_themeError s2 = None
              else hk_page (dp_hook s2) = Some (p\<lparr>pg_images := images\<rparr>)
                \<and> dp_themeError s2 = Some (toFriendlyError err (heb ''ynixz dvarim pkyld. pqe yea.''))))"
proof -
  from palette_offered [OF assms(1)] obtain q where q: "q \<in> set PAGE_PALETTES" "i = pal_key q" "\<not> dp_themeSaving s" by auto
  have s1: "hk_page (dp_hook s1) = Some (p\<lparr>pg_page_theme := with_palette i (pg_page_theme p)\<rparr>)" "previous = Some (pg_page_theme p)"
      "rq = updateBusinessPage (JObj [((lat ''page_theme''), theme_json (with_palette i (pg_page_theme p)))])" "dp_themeError s1 = None"
    using assms(2,3) by (auto simp: selectPalette_def setPage_def Let_def)
  have img: "hk_page (dp_hook (setImages images s1)) = Some (p\<lparr>pg_page_theme := with_palette i (pg_page_theme p), pg_images := images\<rparr>)"
      "dp_themeError (setImages images s1) = None"
    using s1(1,4) by (simp_all add: setImages_def setPage_def)
  have "\<not> dp_themeSaving (palette_answered r previous (setImages images s1))"
    by (simp add: palette_answered_def)
  moreover have "dp_themeError (palette_answered (Inr u) previous (setImages images s1)) = None" for u
    using img(2) by (simp add: palette_answered_def)
  ultimately show ?thesis using q s1 img palette_keys [OF q(1), of "pg_page_theme p"]
    by (simp add: page_after_answer errors_after_answer Let_def split: sum.split)
qed

text \<open>
  The answer replaces the whole page: images added while it was under way disappear from the tab when the server
  read its page before they were there.
\<close>

lemma palette_answer_drops_images:
  "map_option pg_images (hk_page (dp_hook (palette_answered (Inr u) previous (setImages images s)))) = Some (pg_images u)"
  by (simp add: page_after_answer)

definition demo_design :: design where
  "demo_design = design_mount\<lparr>dp_hook := hook_mount\<lparr>hk_page := Some demo_page, hk_loading := False\<rparr>\<rparr>"

theorem palette_choice_settles_witness:
  "hk_page (dp_hook (palette_answered (Inl (ThrownOther [])) (Some (pg_page_theme demo_page))
       (setImages [] (fst (selectPalette (pal_key DEFAULT_PALETTE) demo_design))))) = Some (demo_page\<lparr>pg_images := []\<rparr>)"
proof -
  let ?i = "pal_key DEFAULT_PALETTE"
  have "DEFAULT_PALETTE \<in> set PAGE_PALETTES" by (simp add: DEFAULT_PALETTE_def PAGE_PALETTES_def)
  then have "fires_any (design_view demo_browser (\<lambda>x. []) gallery_init (flow_init (Civil 2026 0 1) (preview_props [] None)) (frame_init True) demo_design)
      (Ds_palette ?i)"
    by (auto simp: design_view_def demo_design_def design_mount_def hook_mount_def or_else_def picker_fires)
  moreover have "hk_page (dp_hook demo_design) = Some demo_page" by (simp add: demo_design_def)
  moreover obtain s1 rq previous where sel: "selectPalette ?i demo_design = (s1, rq, previous)" using prod_cases3 by blast
  ultimately show ?thesis
    using palette_choice_settles [where r = "Inl (ThrownOther [])" and images = "[]", OF _ _ sel] sel
    by (fastforce simp: demo_refused_def selectPalette_def Let_def)
qed

end
