(* ===== verification/Shell.thy ===== *)
theory Shell
  imports PublicView Clients Dialogs
begin

text \<open>
  The shell of the front end: the session (\<open>auth/AuthContext.tsx\<close>, \<open>auth/types.ts\<close>), the routes and their gates
  (\<open>App.tsx\<close>, \<open>components/AuthGate.tsx\<close>, \<open>components/AdminGate.tsx\<close>, \<open>pages/Home.tsx\<close>, \<open>pages/LoginPage.tsx\<close>), the
  navigation (\<open>components/nav/navItems.tsx\<close>, \<open>components/nav/MobileNav.tsx\<close>, \<open>components/OwnerHeader.tsx\<close>,
  \<open>components/DashboardLayout.tsx\<close>) and the settings page (\<open>pages/SettingsPage.tsx\<close>).

  Which row of the route table a path belongs to is decided by the router library, so statements about pages
  are about every row of the table.
\<close>

section \<open>auth/types.ts\<close>

datatype connection_status = Cn_disconnected | Cn_connecting | Cn_qr_pending | Cn_connected

record session_user =
  us_id :: jsstr
  us_email :: jsstr
  us_name :: jsstr
  us_picture :: jsstr

record me =
  me_user :: session_user
  me_business_id :: jsstr
  me_business_name :: jsstr
  me_connection :: connection_status
  me_is_admin :: bool

section \<open>AuthContext.tsx\<close>

record session =
  se_me :: "me option"
  se_loading :: bool
  se_error :: "jsstr option"

definition session_init :: session where
  "session_init = \<lparr>se_me = None, se_loading = True, se_error = None\<rparr>"

definition me_request :: http_request where
  "me_request = api_get (lat ''/api/me'')"

definition session_refresh :: "session \<Rightarrow> session \<times> http_request" where
  "session_refresh s = (s\<lparr>se_loading := True, se_error := None\<rparr>, me_request)"

definition me_answered :: "(js_thrown + me) \<Rightarrow> session \<Rightarrow> session" where
  "me_answered r s =
     (case r of
        Inr data \<Rightarrow> s\<lparr>se_me := Some data\<rparr>
      | Inl err \<Rightarrow>
          (let s1 = s\<lparr>se_me := None\<rparr> in
           if (case err of ThrownApi e \<Rightarrow> isUnauthorized e | ThrownOther m \<Rightarrow> False) then s1
           else s1\<lparr>se_error := Some (heb ''@ixrd zwld ahripz txhi dnyzny. pqe yea.'')\<rparr>))
     \<lparr>se_loading := False\<rparr>"

definition logout_request :: http_request where
  "logout_request = api_post (lat ''/auth/logout'') None"

text \<open>Whatever the answer, the state is cleared and the browser loads the address.\<close>

definition logout_answered :: "(js_thrown + unit) \<Rightarrow> session \<Rightarrow> session \<times> jsstr" where
  "logout_answered r s = (s\<lparr>se_me := None\<rparr>, (lat ''/login''))"

definition authed :: "session \<Rightarrow> bool" where
  "authed s \<longleftrightarrow> se_me s \<noteq> None"

definition isAdmin :: "session \<Rightarrow> bool" where
  "isAdmin s = (case se_me s of None \<Rightarrow> False | Some m \<Rightarrow> me_is_admin m)"

section \<open>Routes\<close>

datatype screen =
    V_login | V_terms | V_accessibility | V_public_booking | V_public_manage | V_landing | V_dashboard
  | V_bot_builder | V_try_me | V_leads | V_conversations | V_appointments | V_appointments_settings | V_whatsapp | V_settings
  | V_admin_home | V_admin_crm | V_admin_billing | V_admin_businesses | V_admin_business

text \<open>The \<open>element\<close> of a route, and what it shows.\<close>

datatype element = Bare screen | Behind_auth screen | Behind_admin screen | Home_page | To_root

datatype rendered = Shows screen | Waits jsstr | Redirects jsstr "jsstr option"

definition auth_gate :: "session \<Rightarrow> jsstr \<Rightarrow> rendered \<Rightarrow> rendered" where
  "auth_gate s pathname child =
     (if se_loading s then Waits (heb ''hero @z dgyaeo ylj'' @ [8230])
      else if \<not> authed s then Redirects (lat ''/login'') (Some pathname) else child)"

definition admin_gate :: "session \<Rightarrow> rendered \<Rightarrow> rendered" where
  "admin_gate s child =
     (if se_loading s then Waits (heb ''hero'' @ [8230])
      else if \<not> authed s then Redirects (lat ''/login'') None
      else if \<not> isAdmin s then Redirects (lat ''/'') None else child)"

definition home_page :: "session \<Rightarrow> rendered" where
  "home_page s = (if se_loading s then Waits (heb ''hero'' @ [8230]) else Shows (if authed s then V_dashboard else V_landing))"

definition render_element :: "session \<Rightarrow> jsstr \<Rightarrow> element \<Rightarrow> rendered" where
  "render_element s pathname el =
     (case el of
        Bare v \<Rightarrow> Shows v
      | Behind_auth v \<Rightarrow> auth_gate s pathname (Shows v)
      | Behind_admin v \<Rightarrow> auth_gate s pathname (admin_gate s (Shows v))
      | Home_page \<Rightarrow> home_page s
      | To_root \<Rightarrow> Redirects (lat ''/'') None)"

definition ROUTES :: "(jsstr \<times> element) list" where
  "ROUTES =
     [((lat ''/login''), Bare V_login), ((lat ''/terms''), Bare V_terms), ((lat ''/privacy''), Bare V_terms),
      ((lat ''/accessibility''), Bare V_accessibility), ((lat ''/book/:slug''), Bare V_public_booking),
      ((lat ''/book/:slug/manage/:token''), Bare V_public_manage), ((lat ''/''), Home_page),
      ((lat ''/bot-builder''), Behind_auth V_bot_builder), ((lat ''/try-me''), Behind_auth V_try_me),
      ((lat ''/leads''), Behind_auth V_leads), ((lat ''/conversations''), Behind_auth V_conversations),
      ((lat ''/appointments''), Behind_auth V_appointments), ((lat ''/whatsapp''), Behind_auth V_whatsapp),
      ((lat ''/settings/calendar''), Behind_auth V_appointments_settings), ((lat ''/admin''), Behind_admin V_admin_home),
      ((lat ''/admin/crm''), Behind_admin V_admin_crm), ((lat ''/admin/billing''), Behind_admin V_admin_billing),
      ((lat ''/admin/businesses''), Behind_admin V_admin_businesses),
      ((lat ''/admin/businesses/:id''), Behind_admin V_admin_business), ((lat ''/settings''), Behind_auth V_settings),
      ((lat ''*''), To_root)]"

text \<open>The effect of the login page: where it navigates.\<close>

definition login_effect :: "session \<Rightarrow> jsstr option" where
  "login_effect s = (if \<not> se_loading s \<and> authed s then Some (lat ''/'') else None)"

definition login_view :: "session \<Rightarrow> unit vnode list" where
  "login_view s =
     [El ''p'' [] [Txt (heb ''dzgaxe kci lpdl @z aeh dee@hq@t yl drqw ylkm.'')]]
     @ (if se_loading s then [El ''Spinner'' [] [Txt (heb ''aecw dzgaxez'' @ [8230])]]
        else shown_text ''Alert'' (se_error s)
          @ [El ''a'' [Attr ''href'' (lat ''/auth/google'')] [Txt (heb ''dnyj rm G'' @ lat ''oogle'')],
             El ''a'' [Attr ''href'' (lat ''/auth/demo'')] [Txt (heb ''dnyj azex cne'')],
             El ''p'' [] [Txt (heb ''gyaeo lcebnd '' @ [8212] @ heb '' @tyx ldzpqez agetyiez, dyipeiim l@ pynxim.'')]])
     @ [El ''p'' [] [Txt (heb ''dpzepim ylkm n@eahgim enaeclim lti nyzny.'')],
        El ''p'' [] [Txt (heb ''adnyj @zm n@yxim @z''), El ''a'' [Attr ''href'' (lat ''/terms'')] [Txt (heb ''zp@i dyiney'')], Txt (heb ''e@z''),
          El ''a'' [Attr ''href'' (lat ''/privacy'')] [Txt (heb ''ncipiez dtxhiez'')]]]"

section \<open>Navigation\<close>

record nav_spec =
  nv_to :: jsstr
  nv_label :: jsstr
  nv_icon :: string
  nv_enabled :: bool
  nv_adminOnly :: bool
  nv_blue :: bool

definition nav_row :: "string \<Rightarrow> jsstr \<Rightarrow> string \<Rightarrow> nav_spec" where
  "nav_row p label icon = \<lparr>nv_to = lat p, nv_label = label, nv_icon = icon, nv_enabled = True, nv_adminOnly = False, nv_blue = False\<rparr>"

definition admin_row :: "string \<Rightarrow> jsstr \<Rightarrow> string \<Rightarrow> nav_spec" where
  "admin_row p label icon = (nav_row p label icon)\<lparr>nv_adminOnly := True, nv_blue := True\<rparr>"

definition NAV_ITEMS :: "nav_spec list" where
  "NAV_ITEMS =
     [nav_row ''/'' (heb ''aiz'') ''home'', nav_row ''/bot-builder'' (heb ''aepd daeh'') ''robot'', nav_row ''/try-me'' (heb ''pqd @ezi'') ''player-play'',
      nav_row ''/leads'' (heb ''licim'') ''users'', nav_row ''/conversations'' (heb ''yigez'') ''message-circle'',
      nav_row ''/appointments'' (heb ''pidel tbiyez'') ''calendar-event'', nav_row ''/whatsapp'' (heb ''ee@hq@t'') ''brand-whatsapp'',
      admin_row ''/admin'' (heb ''pidel'') ''shield'', admin_row ''/admin/crm'' (heb ''vipex nkixez'') ''layout-columns'',
      admin_row ''/admin/billing'' (heb ''yiney egiea'') ''chart-bar'', nav_row ''/settings'' (heb ''dbcxez'') ''settings'']"

definition UNREAD_NAV_PATH :: jsstr where "UNREAD_NAV_PATH = (lat ''/conversations'')"

definition navItems :: "bool \<Rightarrow> nav_spec list" where
  "navItems admin = filter (\<lambda>item. \<not> nv_adminOnly item \<or> admin) NAV_ITEMS"

definition unread_badge :: "int \<Rightarrow> 'e vnode list" where
  "unread_badge count =
     (if count \<le> 0 then []
      else [El ''span'' [Attr ''role'' (lat ''status''), Attr ''aria-label'' (int_str count @ (heb '' decrez yl@ pwx@e''))]
              [Txt (if count > 99 then (lat ''99+'') else int_str count)]])"

datatype nav_ui = Nv_logout | Nv_open | Nv_close | Nv_go jsstr

definition nav_item :: "nav_spec \<Rightarrow> int \<Rightarrow> nav_ui vnode" where
  "nav_item item unread =
     (if \<not> nv_enabled item
      then El ''span'' [Attr ''aria-disabled'' (lat ''true'')] [Txt (nv_label item), El ''Badge'' [] [Txt (heb ''awxea'')]]
      else El ''a'' ([Attr ''href'' (nv_to item), on_click (Nv_go (nv_to item))]
             @ (if nv_to item = (lat ''/'') \<or> nv_to item = (lat ''/admin'') then [Attr ''end'' []] else []))
             (Txt (nv_label item) # unread_badge unread))"

definition nav_body :: "nav_spec list \<Rightarrow> int \<Rightarrow> nav_ui vnode list" where
  "nav_body items unreadTotal =
     map (\<lambda>item. nav_item item (if nv_to item = UNREAD_NAV_PATH then unreadTotal else 0)) items
     @ [El ''button'' [on_click Nv_logout] [Txt (heb ''ivi@d'')]]"

section \<open>MobileNav.tsx\<close>

datatype drawer_focus = At_trigger | In_panel | Elsewhere

record drawer =
  dw_open :: bool
  dw_showPanel :: bool
  dw_timer :: bool
  dw_wasOpen :: bool
  dw_focus :: drawer_focus
  dw_path :: jsstr

text \<open>The effects of \<open>open\<close>: the panel is shown and takes the focus, or is hidden by a timer and gives it back.\<close>

definition drawer_effects :: "drawer \<Rightarrow> drawer" where
  "drawer_effects s =
     (if dw_open s then s\<lparr>dw_showPanel := True, dw_timer := False, dw_wasOpen := True, dw_focus := In_panel\<rparr>
      else
        (if dw_wasOpen s then s\<lparr>dw_wasOpen := False, dw_focus := At_trigger\<rparr> else s)\<lparr>dw_timer := True\<rparr>)"

definition set_open :: "bool \<Rightarrow> drawer \<Rightarrow> drawer" where
  "set_open b s = (if dw_open s = b then s else drawer_effects (s\<lparr>dw_open := b\<rparr>))"

definition drawer_mount :: "jsstr \<Rightarrow> drawer" where
  "drawer_mount path =
     drawer_effects \<lparr>dw_open = False, dw_showPanel = False, dw_timer = False, dw_wasOpen = False, dw_focus = Elsewhere, dw_path = path\<rparr>"

definition drawer_timer :: "drawer \<Rightarrow> drawer" where
  "drawer_timer s = (if dw_timer s then s\<lparr>dw_showPanel := False, dw_timer := False\<rparr> else s)"

definition path_changed :: "jsstr \<Rightarrow> drawer \<Rightarrow> drawer" where
  "path_changed path s = (if path = dw_path s then s else set_open False (s\<lparr>dw_path := path\<rparr>))"

definition drawer_key :: "string \<Rightarrow> drawer \<Rightarrow> drawer" where
  "drawer_key k s = (if dw_open s \<and> k = ''Escape'' then set_open False s else s)"

text \<open>The label beside the logo.\<close>

definition current_item :: "nav_spec list \<Rightarrow> jsstr \<Rightarrow> nav_spec option" where
  "current_item items path =
     find (\<lambda>item. if nv_to item = (lat ''/'') then path = (lat ''/'') else starts_with path (nv_to item)) items"

definition current_label :: "nav_spec list \<Rightarrow> jsstr \<Rightarrow> jsstr" where
  "current_label items path = (case current_item items path of None \<Rightarrow> (lat ''Botik'') | Some i \<Rightarrow> nv_label i)"

definition drawer_view :: "nav_spec list \<Rightarrow> int \<Rightarrow> drawer \<Rightarrow> nav_ui vnode list" where
  "drawer_view items unreadTotal s =
     [El ''div'' []
        ([El ''button'' [Attr ''aria-label'' (heb ''tzigz ztxih''), on_click Nv_open]
            (shown (unreadTotal > 0) [El ''span'' [Attr ''aria-hidden'' (lat ''true'')] []])]
         @ shown (unreadTotal > 0) [El ''span'' [Attr ''role'' (lat ''status'')] [Txt (int_str unreadTotal @ (heb '' decrez yl@ pwx@e''))]]
         @ [El ''span'' [] [Txt (current_label items (dw_path s))]]),
      El ''div'' [Attr ''aria-hidden'' (lat ''true''), Disabled (\<not> dw_open s), on_click Nv_close] []]
     @ shown (dw_showPanel s)
         [El ''div'' [Attr ''role'' (lat ''dialog''), Attr ''aria-label'' (heb ''pieeh x@yi'')]
            (El ''button'' [Attr ''aria-label'' (heb ''qbixz ztxih''), on_click Nv_close] [] # nav_body items unreadTotal)]"

section \<open>OwnerHeader.tsx and DashboardLayout.tsx\<close>

fun PILLS :: "connection_status \<Rightarrow> jsstr" where
  "PILLS Cn_disconnected = (heb ''l@ ngeax'')"
| "PILLS Cn_connecting = (heb ''nzgax'' @ [8230])"
| "PILLS Cn_qr_pending = (heb ''nzgax'' @ [8230])"
| "PILLS Cn_connected = (heb ''ngeax'')"

definition connection_pill :: "connection_status option \<Rightarrow> 'e vnode" where
  "connection_pill st =
     El ''span'' [] [El ''span'' [] [Txt (heb ''qhheq giaex ee@hq@t: '')], Txt (PILLS (case st of None \<Rightarrow> Cn_disconnected | Some x \<Rightarrow> x))]"

definition user_chip :: "session_user \<Rightarrow> 'e vnode" where
  "user_chip u =
     El ''span'' [] (shown (us_picture u \<noteq> []) [El ''img'' [Attr ''src'' (us_picture u), Attr ''alt'' []] []] @ [El ''span'' [] [Txt (us_name u)]])"

definition owner_header :: "session \<Rightarrow> nav_ui vnode" where
  "owner_header s =
     El ''header'' []
       ([connection_pill (map_option me_connection (se_me s))]
        @ (case se_me s of None \<Rightarrow> [] | Some m \<Rightarrow> [user_chip (me_user m)])
        @ [El ''button'' [on_click Nv_logout] [Txt (heb ''ivi@d'')]])"

datatype 'c layout_ui = Ly_nav nav_ui | Ly_child 'c

definition dashboard_layout :: "session \<Rightarrow> int \<Rightarrow> drawer \<Rightarrow> 'c vnode list \<Rightarrow> 'c layout_ui vnode" where
  "dashboard_layout s unreadTotal dw children =
     (let items = navItems (isAdmin s) in
      El ''div'' []
        ([El ''a'' [Attr ''href'' (lat ''#main'')] [Txt (heb ''clbe lzeko'')],
          El ''nav'' [Attr ''aria-label'' (heb ''pieeh x@yi'')] (map (view_in Ly_nav) (nav_body items unreadTotal))]
         @ map (view_in Ly_nav) (drawer_view items unreadTotal dw)
         @ [view_in Ly_nav (owner_header s), El ''main'' [Attr ''id'' (lat ''main'')] (map (view_in Ly_child) children)]))"

section \<open>SettingsPage.tsx\<close>

record delete_account =
  da_modalOpen :: bool
  da_loading :: bool
  da_error :: "jsstr option"

definition delete_init :: delete_account where
  "delete_init = \<lparr>da_modalOpen = False, da_loading = False, da_error = None\<rparr>"

datatype settings_ui = St_theme | St_open | St_close | St_cancel | St_confirm

definition on_delete :: "settings_ui \<Rightarrow> delete_account \<Rightarrow> delete_account \<times> http_request option" where
  "on_delete e s =
     (case e of
        St_open \<Rightarrow> (s\<lparr>da_modalOpen := True\<rparr>, None)
      | St_close \<Rightarrow> (if \<not> da_loading s then s\<lparr>da_modalOpen := False\<rparr> else s, None)
      | St_cancel \<Rightarrow> (s\<lparr>da_modalOpen := False\<rparr>, None)
      | St_confirm \<Rightarrow> (s\<lparr>da_loading := True, da_error := None\<rparr>, Some deleteAccount)
      | St_theme \<Rightarrow> (s, None))"

text \<open>The second component is the address the browser loads.\<close>

definition delete_answered :: "(js_thrown + unit) \<Rightarrow> delete_account \<Rightarrow> delete_account \<times> jsstr option" where
  "delete_answered r s =
     (case r of
        Inr _ \<Rightarrow> (s, Some (lat ''/''))
      | Inl _ \<Rightarrow> (s\<lparr>da_error := Some (heb ''@ixrd ybi@d angiwz dgyaeo. @p@ pqd yea n@egx iezx.''), da_loading := False\<rparr>, None))"

definition delete_section :: "delete_account \<Rightarrow> settings_ui vnode list" where
  "delete_section s =
     [El ''button'' [on_click St_open] [Txt (heb ''ngw gyaeo'')]]
     @ modal (da_modalOpen s) (heb ''ngiwz gyaeo'') St_close
         ([El ''p'' [] [Txt (heb ''d@m lngew @z gyaeo drqw lvnizez? kl dnicr '' @ [8212] @ heb '' licim, yigez, dbcxez daeh '' @ [8212] @ heb '' iingw el@ pizo lygfx.'')]]
          @ shown_text ''Alert'' (da_error s)
          @ [El ''button'' [on_click St_confirm, Disabled (da_loading s)] [Txt (if da_loading s then (heb ''negw'' @ [8230]) else (heb ''ko, ngw lvnizez''))],
             El ''button'' [on_click St_cancel, Disabled (da_loading s)] [Txt (heb ''aihel'')]])"

definition settings_view :: "bool \<Rightarrow> delete_account \<Rightarrow> settings_ui vnode list" where
  "settings_view isDark s =
     [El ''h1'' [] [Txt (heb ''dbcxez'')],
      El ''section'' []
        [El ''h2'' [] [Txt (heb ''nva zvebd'')], El ''span'' [] [Txt (heb ''nva kdd'')],
         El ''button'' [Attr ''role'' (lat ''switch''), Attr ''aria-checked'' (if isDark then (lat ''true'') else (lat ''false'')),
           Attr ''aria-label'' (if isDark then (heb ''kad nva kdd'') else (heb ''dtrl nva kdd'')), on_click St_theme] []],
      El ''section'' []
        (El ''h2'' [] [Txt (heb ''gyaeo'')] # El ''p'' [] [Txt (heb ''trelez alzi-dtikez. iy ldyzny afdixez.'')] # delete_section s)]"

section \<open>Who sees which page\<close>

text \<open>The session in use, with the accounts the server has answered with, newest first.\<close>

inductive session_run :: "session \<Rightarrow> me list \<Rightarrow> bool" where
  sr_mount: "session_run (fst (session_refresh session_init)) []"
| sr_refresh: "session_run s ms \<Longrightarrow> session_run (fst (session_refresh s)) ms"
| sr_answer: "session_run s ms \<Longrightarrow> session_run (me_answered r s) (case r of Inl _ \<Rightarrow> ms | Inr m \<Rightarrow> m # ms)"
| sr_logout: "session_run s ms \<Longrightarrow> session_run (fst (logout_answered rl s)) ms"

lemma session_from_server: "session_run s ms \<Longrightarrow> se_me s = Some m \<Longrightarrow> m \<in> set ms"
  by (induction rule: session_run.induct)
    (auto simp: session_refresh_def session_init_def me_answered_def logout_answered_def Let_def split: sum.splits if_splits)

definition public_paths :: "jsstr list" where
  "public_paths =
     [(lat ''/login''), (lat ''/terms''), (lat ''/privacy''), (lat ''/accessibility''), (lat ''/book/:slug''),
      (lat ''/book/:slug/manage/:token''), (lat ''/'')]"

lemma admin_rows: "(p, el) \<in> set ROUTES \<Longrightarrow> starts_with p (lat ''/admin'') \<Longrightarrow> \<exists>v. el = Behind_admin v"
proof -
  have "list_all (\<lambda>(p, el). starts_with p (lat ''/admin'') \<longrightarrow> (case el of Behind_admin v \<Rightarrow> True | _ \<Rightarrow> False)) ROUTES"
    by (simp add: ROUTES_def starts_with_def lat_def)
  then show "(p, el) \<in> set ROUTES \<Longrightarrow> starts_with p (lat ''/admin'') \<Longrightarrow> \<exists>v. el = Behind_admin v"
    by (cases el) (fastforce simp: list_all_iff)+
qed

lemma private_rows: "(p, el) \<in> set ROUTES \<Longrightarrow> p \<notin> set public_paths \<Longrightarrow> (\<exists>v. el = Behind_auth v \<or> el = Behind_admin v) \<or> el = To_root"
proof -
  have "list_all (\<lambda>(p, el). p \<notin> set public_paths \<longrightarrow> (case el of Behind_admin v \<Rightarrow> True | Behind_auth v \<Rightarrow> True | To_root \<Rightarrow> True | _ \<Rightarrow> False)) ROUTES"
    by (simp add: ROUTES_def public_paths_def lat_def)
  then show "(p, el) \<in> set ROUTES \<Longrightarrow> p \<notin> set public_paths \<Longrightarrow> (\<exists>v. el = Behind_auth v \<or> el = Behind_admin v) \<or> el = To_root"
    by (cases el) (fastforce simp: list_all_iff)+
qed

lemma gate_shows:
  "auth_gate s path child = Shows v \<longleftrightarrow> \<not> se_loading s \<and> authed s \<and> child = Shows v"
  "admin_gate s child = Shows v \<longleftrightarrow> \<not> se_loading s \<and> authed s \<and> isAdmin s \<and> child = Shows v"
  by (auto simp: auth_gate_def admin_gate_def)

lemma dashboard_only_home: "(p, el) \<in> set ROUTES \<Longrightarrow> el \<notin> {Bare V_dashboard, Behind_auth V_dashboard, Behind_admin V_dashboard}"
  by (auto simp: ROUTES_def)

text \<open>Property C5. A page is shown only to whom it is for: on every run of the session, a page of the owner needs an account the server
  has answered with, a page of the operator one that the server called an administrator, and neither is shown before the answer.\<close>

theorem pages_guarded:
  assumes "session_run s ms" "(p, el) \<in> set ROUTES" "render_element s path el = Shows v"
  shows "(p \<in> set public_paths \<or> \<not> se_loading s \<and> (\<exists>m \<in> set ms. se_me s = Some m \<and> (starts_with p (lat ''/admin'') \<longrightarrow> me_is_admin m)))
    \<and> (v = V_dashboard \<longrightarrow> (\<exists>m \<in> set ms. se_me s = Some m))"
proof -
  have me: "\<exists>m \<in> set ms. se_me s = Some m" if "authed s"
    using that session_from_server [OF assms(1)] by (auto simp: authed_def)
  have "p \<in> set public_paths \<or> \<not> se_loading s \<and> (\<exists>m \<in> set ms. se_me s = Some m \<and> (starts_with p (lat ''/admin'') \<longrightarrow> me_is_admin m))"
  proof (cases "p \<in> set public_paths")
    case False
    from private_rows [OF assms(2) this] assms(3) have "\<not> se_loading s" "authed s"
      by (auto simp: render_element_def gate_shows)
    moreover have "isAdmin s" if "starts_with p (lat ''/admin'')"
      using admin_rows [OF assms(2) that] assms(3) by (auto simp: render_element_def gate_shows)
    ultimately show ?thesis using me by (auto simp: isAdmin_def)
  qed simp
  moreover have "\<exists>m \<in> set ms. se_me s = Some m" if "v = V_dashboard"
    using that me dashboard_only_home [OF assms(2)] assms(3)
    by (auto simp: render_element_def gate_shows home_page_def split: element.splits if_splits)
  ultimately show ?thesis by blast
qed

definition operator :: me where
  "operator = \<lparr>me_user = \<lparr>us_id = [1], us_email = [], us_name = [], us_picture = []\<rparr>, me_business_id = [], me_business_name = [],
     me_connection = Cn_connected, me_is_admin = True\<rparr>"

lemma operator_run: "session_run (me_answered (Inr operator) (fst (session_refresh session_init))) [operator]"
  using sr_answer [OF sr_mount, of "Inr operator"] by simp

theorem pages_guarded_witness:
  "render_element (me_answered (Inr operator) (fst (session_refresh session_init))) [] (Behind_admin V_admin_crm) = Shows V_admin_crm
   \<and> (\<exists>m \<in> set [operator]. me_is_admin m)"
proof -
  let ?s = "me_answered (Inr operator) (fst (session_refresh session_init))"
  have "render_element ?s [] (Behind_admin V_admin_crm) = Shows V_admin_crm"
    by (simp add: render_element_def gate_shows me_answered_def authed_def isAdmin_def operator_def)
  moreover have "((lat ''/admin/crm''), Behind_admin V_admin_crm) \<in> set ROUTES" by (simp add: ROUTES_def)
  ultimately show ?thesis using pages_guarded [OF operator_run, of "lat ''/admin/crm''" "Behind_admin V_admin_crm" "[]" V_admin_crm]
    by (simp add: public_paths_def starts_with_def lat_def)
qed

section \<open>Redirects\<close>

text \<open>What follows a rendering: a redirect loads its row, and the login page leaves by its effect.\<close>

definition next_render :: "session \<Rightarrow> rendered \<Rightarrow> rendered" where
  "next_render s r =
     (case r of
        Redirects u _ \<Rightarrow> (case map_of ROUTES u of None \<Rightarrow> r | Some el \<Rightarrow> render_element s u el)
      | Shows v \<Rightarrow> (if v = V_login then (case login_effect s of None \<Rightarrow> r | Some u \<Rightarrow> Redirects u None) else r)
      | Waits t \<Rightarrow> r)"

lemma known_rows: "map_of ROUTES (lat ''/'') = Some Home_page" "map_of ROUTES (lat ''/login'') = Some (Bare V_login)"
  by (simp_all add: ROUTES_def lat_def)

text \<open>Property C38. No redirect loop: once the account is known, from every route at most two redirects lead to a page that stays; a
  visitor of a private page ends at the login, an owner never does, and who is sent away ends at the home page.\<close>

theorem redirects_end:
  assumes "\<not> se_loading s"
  shows "\<exists>v. (next_render s ^^ 2) (render_element s path el) = Shows v \<and> next_render s (Shows v) = Shows v
    \<and> (authed s \<longrightarrow> v \<noteq> V_login)
    \<and> (\<not> authed s \<and> (\<exists>u. el = Behind_auth u \<or> el = Behind_admin u) \<longrightarrow> v = V_login)
    \<and> (authed s \<and> \<not> isAdmin s \<and> (\<exists>u. el = Behind_admin u) \<longrightarrow> v = V_dashboard)"
  using assms
  by (cases el; cases "authed s"; cases "isAdmin s")
    (auto simp: numeral_2_eq_2 render_element_def auth_gate_def admin_gate_def home_page_def next_render_def login_effect_def known_rows)

theorem redirects_end_witness:
  "\<exists>v. (next_render (session_init\<lparr>se_loading := False\<rparr>) ^^ 2) (render_element (session_init\<lparr>se_loading := False\<rparr>) [] (Behind_auth V_leads)) = Shows v
    \<and> v = V_login"
  using redirects_end [of "session_init\<lparr>se_loading := False\<rparr>" "[]" "Behind_auth V_leads"]
  by (simp add: session_init_def authed_def)

section \<open>Navigation and pages\<close>

lemma nav_item_go: "fires (nav_item item n) (Nv_go u) \<longleftrightarrow> nv_enabled item \<and> u = nv_to item"
  by (auto simp: nav_item_def unread_badge_def)

lemma nav_body_go: "fires_any (nav_body items n) (Nv_go u) \<longleftrightarrow> (\<exists>item \<in> set items. nv_enabled item \<and> u = nv_to item)"
  by (auto simp: nav_body_def fires_any_map nav_item_go)

lemma header_go: "\<not> fires (owner_header s) (Nv_go u)"
  by (auto simp: owner_header_def connection_pill_def user_chip_def split: option.split)

lemma layout_go:
  "fires (dashboard_layout s n dw children) (Ly_nav (Nv_go u)) \<Longrightarrow> \<exists>item \<in> set (navItems (isAdmin s)). u = nv_to item"
  by (auto simp: dashboard_layout_def drawer_view_def Let_def fires_any_view_in fires_view_in header_go nav_body_go)

lemma nav_rows:
  "item \<in> set NAV_ITEMS \<Longrightarrow> \<exists>el. map_of ROUTES (nv_to item) = Some el
     \<and> (el = Home_page \<or> (\<exists>v. el = Behind_auth v \<and> \<not> nv_adminOnly item) \<or> (\<exists>v. el = Behind_admin v \<and> nv_adminOnly item))"
proof -
  have "list_all (\<lambda>item. case map_of ROUTES (nv_to item) of None \<Rightarrow> False
      | Some el \<Rightarrow> (case el of Home_page \<Rightarrow> True | Behind_auth v \<Rightarrow> \<not> nv_adminOnly item | Behind_admin v \<Rightarrow> nv_adminOnly item | _ \<Rightarrow> False)) NAV_ITEMS"
    by (simp add: NAV_ITEMS_def ROUTES_def nav_row_def admin_row_def lat_def)
  moreover assume "item \<in> set NAV_ITEMS"
  ultimately have "case map_of ROUTES (nv_to item) of None \<Rightarrow> False
      | Some el \<Rightarrow> (case el of Home_page \<Rightarrow> True | Behind_auth v \<Rightarrow> \<not> nv_adminOnly item | Behind_admin v \<Rightarrow> nv_adminOnly item | _ \<Rightarrow> False)"
    by (simp only: list_all_iff)
  then show ?thesis by (simp split: option.splits element.splits)
qed

text \<open>Property C37. Every link of the shell, in the sidebar or in the drawer, opens its page for the user it is offered to: the navigation
  and the route table agree, administrators' links included.\<close>

theorem nav_links_open:
  assumes "fires (dashboard_layout s n dw children) (Ly_nav (Nv_go u))" "\<not> se_loading s" "authed s"
  shows "\<exists>el v. map_of ROUTES u = Some el \<and> render_element s u el = Shows v"
proof -
  from layout_go [OF assms(1)] obtain item where item: "item \<in> set NAV_ITEMS" "\<not> nv_adminOnly item \<or> isAdmin s" "u = nv_to item"
    by (auto simp: navItems_def)
  from nav_rows [OF item(1)] item(2,3) assms(2,3) show ?thesis
    by (auto simp: render_element_def auth_gate_def admin_gate_def home_page_def)
qed

theorem nav_links_open_witness:
  "\<exists>el v. map_of ROUTES (lat ''/admin'') = Some el
     \<and> render_element (me_answered (Inr operator) (fst (session_refresh session_init))) (lat ''/admin'') el = Shows v"
proof -
  let ?s = "me_answered (Inr operator) (fst (session_refresh session_init))"
  have "isAdmin ?s" by (simp add: isAdmin_def me_answered_def operator_def)
  then have "fires (dashboard_layout ?s 0 (drawer_mount []) ([] :: unit vnode list)) (Ly_nav (Nv_go (lat ''/admin'')))"
    by (simp add: dashboard_layout_def Let_def fires_any_view_in nav_body_go navItems_def NAV_ITEMS_def nav_row_def admin_row_def)
  from nav_links_open [OF this] show ?thesis by (simp add: me_answered_def authed_def)
qed

text \<open>The label of the top bar is not the name of the tab on the pages below \<open>/admin\<close>: the first prefix wins.\<close>

lemma wrong_tab_label:
  "current_label NAV_ITEMS (lat ''/admin/crm'') = (heb ''pidel'')" "current_label NAV_ITEMS (lat ''/admin/billing'') = (heb ''pidel'')"
  by (simp_all add: current_label_def current_item_def NAV_ITEMS_def nav_row_def admin_row_def lat_def starts_with_def)

section \<open>The drawer and the deletion of the account\<close>

inductive drawer_run :: "drawer \<Rightarrow> bool" where
  dr_mount: "drawer_run (drawer_mount path)"
| dr_open: "drawer_run s \<Longrightarrow> drawer_run (set_open b s)"
| dr_path: "drawer_run s \<Longrightarrow> drawer_run (path_changed path s)"
| dr_key: "drawer_run s \<Longrightarrow> drawer_run (drawer_key k s)"
| dr_timer: "drawer_run s \<Longrightarrow> drawer_run (drawer_timer s)"

lemma drawer_inv:
  "drawer_run s \<Longrightarrow> (dw_open s \<longrightarrow> dw_showPanel s \<and> \<not> dw_timer s \<and> dw_wasOpen s \<and> dw_focus s = In_panel)
     \<and> (\<not> dw_open s \<longrightarrow> \<not> dw_wasOpen s \<and> dw_focus s \<noteq> In_panel \<and> (dw_showPanel s \<longrightarrow> dw_timer s))"
  by (induction rule: drawer_run.induct)
    (auto simp: drawer_mount_def drawer_effects_def set_open_def path_changed_def drawer_key_def drawer_timer_def)

inductive delete_run :: "delete_account \<Rightarrow> nat \<Rightarrow> bool" where
  de_start: "delete_run delete_init 0"
| de_event: "delete_run s k \<Longrightarrow> fires_any (delete_section s) e \<Longrightarrow> on_delete e s = (s', rq) \<Longrightarrow> delete_run s' (k + of_bool (rq \<noteq> None))"
| de_answer: "delete_run s (Suc k) \<Longrightarrow> delete_answered r s = (s', nav) \<Longrightarrow> nav = None \<Longrightarrow> delete_run s' k"

text \<open>The deletion is asked for once at a time, only in the dialog, which stays while it is under way.\<close>

lemma delete_one_at_a_time:
  "delete_run s k \<Longrightarrow> k = of_bool (da_loading s) \<and> (da_loading s \<longrightarrow> da_modalOpen s)
     \<and> (fires_any (delete_section s) St_confirm \<longrightarrow> da_modalOpen s \<and> k = 0)"
  by (induction rule: delete_run.induct)
    (auto simp: delete_init_def delete_section_def on_delete_def delete_answered_def 
      split: settings_ui.splits sum.splits if_splits)

end
