(* ===== verification/Prefs.thy ===== *)
theory Prefs
  imports PublicView
begin

text \<open>
  What the browser keeps of a visitor's preferences: \<open>lib/useA11yPreferences.ts\<close> with
  \<open>components/AccessibilityWidget.tsx\<close>, and \<open>lib/ThemeContext.tsx\<close>; and three small stateful parts:
  \<open>components/ui/CopyButton.tsx\<close>, \<open>lib/health.ts\<close> and \<open>components/StackHealth.tsx\<close>.

  The storage holds what \<open>JSON.parse\<close> makes of its text, or text that does not parse.
\<close>

section \<open>useA11yPreferences.ts\<close>

datatype pref_key = K_highContrast | K_largeText | K_underlineLinks | K_focusHighlight | K_stopAnimations

definition pref_keys :: "pref_key list" where
  "pref_keys = [K_highContrast, K_largeText, K_underlineLinks, K_focusHighlight, K_stopAnimations]"

fun pref_name :: "pref_key \<Rightarrow> jsstr" where
  "pref_name K_highContrast = (lat ''highContrast'')"
| "pref_name K_largeText = (lat ''largeText'')"
| "pref_name K_underlineLinks = (lat ''underlineLinks'')"
| "pref_name K_focusHighlight = (lat ''focusHighlight'')"
| "pref_name K_stopAnimations = (lat ''stopAnimations'')"

type_synonym prefs = "pref_key \<Rightarrow> bool"

definition DEFAULT_PREFS :: prefs where "DEFAULT_PREFS = (\<lambda>_. False)"

datatype class_target = On_html | On_body

fun CLASS_MAP :: "pref_key \<Rightarrow> class_target \<times> string" where
  "CLASS_MAP K_highContrast = (On_body, ''a11y-high-contrast'')"
| "CLASS_MAP K_largeText = (On_html, ''a11y-large-text'')"
| "CLASS_MAP K_underlineLinks = (On_body, ''a11y-underline-links'')"
| "CLASS_MAP K_focusHighlight = (On_body, ''a11y-focus-highlight'')"
| "CLASS_MAP K_stopAnimations = (On_body, ''a11y-reduce-motion'')"

datatype stored = Not_json | Is_json json

text \<open>The document and the storage: the classes of the two elements, the style elements, the stored text and whether it can be written.\<close>

record page_doc =
  pd_classes :: "(class_target \<times> string) set"
  pd_styles :: "string list"
  pd_storage :: "stored option"
  pd_writable :: bool

definition ensureStyleInjected :: "page_doc \<Rightarrow> page_doc" where
  "ensureStyleInjected d = (if ''a11y-style'' \<in> set (pd_styles d) then d else d\<lparr>pd_styles := pd_styles d @ [''a11y-style'']\<rparr>)"

definition toggle_class :: "(class_target \<times> string) \<Rightarrow> bool \<Rightarrow> (class_target \<times> string) set \<Rightarrow> (class_target \<times> string) set" where
  "toggle_class c on cs = (if on then insert c cs else cs - {c})"

definition applyClasses :: "prefs \<Rightarrow> page_doc \<Rightarrow> page_doc" where
  "applyClasses p d = d\<lparr>pd_classes := fold (\<lambda>k. toggle_class (CLASS_MAP k) (p k)) pref_keys (pd_classes d)\<rparr>"

text \<open>\<open>parsed[key]\<close> of a parsed value; of \<open>null\<close> it throws, which the \<open>catch\<close> turns into the defaults.\<close>

definition parsed_member :: "json \<Rightarrow> jsstr \<Rightarrow> json option" where
  "parsed_member j k = (case j of JObj kvs \<Rightarrow> map_of kvs k | _ \<Rightarrow> None)"

definition readStored :: "page_doc \<Rightarrow> prefs" where
  "readStored d =
     (case pd_storage d of
        None \<Rightarrow> DEFAULT_PREFS
      | Some Not_json \<Rightarrow> DEFAULT_PREFS
      | Some (Is_json pj) \<Rightarrow>
          (\<lambda>k. case parsed_member pj (pref_name k) of Some (JBool b) \<Rightarrow> b | _ \<Rightarrow> DEFAULT_PREFS k))"

definition prefs_json :: "prefs \<Rightarrow> json" where
  "prefs_json p = JObj (map (\<lambda>k. (pref_name k, JBool (p k))) pref_keys)"

definition set_item :: "stored option \<Rightarrow> page_doc \<Rightarrow> page_doc" where
  "set_item x d = (if pd_writable d then d\<lparr>pd_storage := x\<rparr> else d)"

definition a11y_mount :: "page_doc \<Rightarrow> prefs \<times> page_doc" where
  "a11y_mount d = (let d1 = ensureStyleInjected d; stored = readStored d1 in (stored, applyClasses stored d1))"

definition a11y_toggle :: "pref_key \<Rightarrow> prefs \<times> page_doc \<Rightarrow> prefs \<times> page_doc" where
  "a11y_toggle k s =
     (case s of (p, d) \<Rightarrow> let nxt = p(k := \<not> p k) in (nxt, set_item (Some (Is_json (prefs_json nxt))) (applyClasses nxt d)))"

definition a11y_reset :: "prefs \<times> page_doc \<Rightarrow> prefs \<times> page_doc" where
  "a11y_reset s = (case s of (p, d) \<Rightarrow> (DEFAULT_PREFS, set_item None (applyClasses DEFAULT_PREFS d)))"

section \<open>AccessibilityWidget.tsx\<close>

datatype widget_ui = Wg_button | Wg_close | Wg_toggle pref_key | Wg_reset | Wg_escape | Wg_outside

fun OPTIONS :: "pref_key \<Rightarrow> string" where
  "OPTIONS K_highContrast = ''high_contrast''"
| "OPTIONS K_largeText = ''large_text''"
| "OPTIONS K_underlineLinks = ''underline_links''"
| "OPTIONS K_focusHighlight = ''focus_highlight''"
| "OPTIONS K_stopAnimations = ''stop_animations''"

definition widget_active :: "bool \<Rightarrow> prefs \<Rightarrow> bool" where
  "widget_active opn p \<longleftrightarrow> opn \<or> list_ex p pref_keys"

definition on_widget :: "widget_ui \<Rightarrow> bool \<times> prefs \<times> page_doc \<Rightarrow> bool \<times> prefs \<times> page_doc" where
  "on_widget e s =
     (case s of (opn, st) \<Rightarrow>
       (case e of
          Wg_button \<Rightarrow> (\<not> opn, st)
        | Wg_close \<Rightarrow> (False, st)
        | Wg_toggle k \<Rightarrow> (opn, a11y_toggle k st)
        | Wg_reset \<Rightarrow> (opn, a11y_reset st)
        | Wg_escape \<Rightarrow> (False, st)
        | Wg_outside \<Rightarrow> (False, st)))"

definition widget_view :: "(string \<Rightarrow> jsstr) \<Rightarrow> jsstr \<Rightarrow> bool \<Rightarrow> prefs \<Rightarrow> widget_ui vnode" where
  "widget_view t language opn p =
     El ''div'' [Attr ''dir'' (if starts_with language (lat ''en'') then (lat ''ltr'') else (lat ''rtl''))]
       ([El ''button'' [on_click Wg_button, Attr ''aria-label'' (t ''button_aria''),
           Attr ''active'' (if widget_active opn p then (lat ''true'') else (lat ''false''))] []]
        @ shown opn
            [El ''div'' [Attr ''role'' (lat ''dialog''), on_click Wg_escape]
               ([El ''h2'' [] [Txt (t ''panel_title'')], El ''button'' [on_click Wg_close, Attr ''aria-label'' (t ''close_aria'')] []]
                @ map (\<lambda>k. El ''li'' []
                    [El ''span'' [] [Txt (t (OPTIONS k))],
                     El ''input'' [Attr ''checked'' (if p k then (lat ''true'') else (lat ''false'')), on_click (Wg_toggle k)] [],
                     El ''p'' [] [Txt (t (OPTIONS k @ ''_desc''))]]) pref_keys
                @ [El ''button'' [on_click Wg_reset] [Txt (t ''reset'')]])])"

section \<open>ThemeContext.tsx\<close>

datatype ui_theme = Light | Dark

definition theme_name :: "ui_theme \<Rightarrow> string" where
  "theme_name t = (case t of Light \<Rightarrow> ''light'' | Dark \<Rightarrow> ''dark'')"

text \<open>The state, the class of the document and the stored text.\<close>

definition theme_initial :: "string option \<Rightarrow> ui_theme" where
  "theme_initial stored = (if stored = Some ''dark'' then Dark else Light)"

definition theme_effect :: "ui_theme \<Rightarrow> bool \<times> string option" where
  "theme_effect t = (t = Dark, Some (theme_name t))"

definition toggleTheme :: "ui_theme \<Rightarrow> ui_theme" where
  "toggleTheme prev = (if prev = Dark then Light else Dark)"

lemma theme_roundtrip: "theme_initial (snd (theme_effect t)) = t" "fst (theme_effect (toggleTheme t)) = (\<not> fst (theme_effect t))"
  "toggleTheme (toggleTheme t) = t"
  by (cases t; simp add: theme_initial_def theme_effect_def theme_name_def toggleTheme_def)+

section \<open>CopyButton.tsx\<close>

text \<open>Whether "copied" is shown, and the pending timer by its number, with the next number.\<close>

record copy_button =
  cy_copied :: bool
  cy_timer :: "nat option"
  cy_next :: nat

definition copy_init :: copy_button where
  "copy_init = \<lparr>cy_copied = False, cy_timer = None, cy_next = 0\<rparr>"

definition copy_done :: "bool \<Rightarrow> copy_button \<Rightarrow> copy_button" where
  "copy_done ok s = (if ok then s\<lparr>cy_copied := True, cy_timer := Some (cy_next s), cy_next := cy_next s + 1\<rparr> else s)"

definition copy_timeout :: "nat \<Rightarrow> copy_button \<Rightarrow> copy_button" where
  "copy_timeout k s = (if cy_timer s = Some k then s\<lparr>cy_copied := False, cy_timer := None\<rparr> else s)"

inductive copy_run :: "copy_button \<Rightarrow> bool" where
  cy_start: "copy_run copy_init"
| cy_copy: "copy_run s \<Longrightarrow> copy_run (copy_done ok s)"
| cy_time: "copy_run s \<Longrightarrow> copy_run (copy_timeout k s)"

lemma copied_while_pending: "copy_run s \<Longrightarrow> cy_copied s \<longleftrightarrow> cy_timer s \<noteq> None"
  by (induction rule: copy_run.induct) (auto simp: copy_init_def copy_done_def copy_timeout_def)

section \<open>health.ts\<close>

definition HEALTH_PATH :: jsstr where "HEALTH_PATH = (lat ''/healthz'')"
definition HEALTH_TIMEOUT_MS :: nat where "HEALTH_TIMEOUT_MS = 4000"

definition TRUTHY :: "jsstr list" where
  "TRUTHY = [(lat ''ok''), (lat ''up''), (lat ''healthy''), (lat ''true''), (lat ''connected'')]"

record health_result =
  hr_ok :: bool
  hr_status :: "int option"
  hr_postgres :: "bool option"
  hr_redis :: "bool option"
  hr_error :: "jsstr option"
  hr_raw :: json

text \<open>\<open>a ?? b\<close>, where a missing member and \<open>null\<close> fall through.\<close>

definition nullish_or :: "json option \<Rightarrow> json option \<Rightarrow> json option" where
  "nullish_or a b = (case a of None \<Rightarrow> b | Some JNull \<Rightarrow> b | Some x \<Rightarrow> Some x)"

definition flat_check :: "json option \<Rightarrow> bool option" where
  "flat_check v = (case v of Some (JBool b) \<Rightarrow> Some b | Some (JStr s) \<Rightarrow> Some (lower s \<in> set TRUTHY) | _ \<Rightarrow> None)"

definition check_value :: "json \<Rightarrow> bool option" where
  "check_value v =
     (case v of
        JObj kvs \<Rightarrow>
          flat_check (nullish_or (map_of kvs (lat ''status'')) (nullish_or (map_of kvs (lat ''ok'')) (map_of kvs (lat ''healthy''))))
      | _ \<Rightarrow> flat_check (Some v))"

fun first_check :: "json \<Rightarrow> jsstr list \<Rightarrow> bool option" where
  "first_check bag [] = None"
| "first_check bag (k # ks) =
     (case parsed_member bag k of
        None \<Rightarrow> first_check bag ks
      | Some v \<Rightarrow> (case check_value v of None \<Rightarrow> first_check bag ks | Some b \<Rightarrow> Some b))"

definition is_object :: "json \<Rightarrow> bool" where
  "is_object j = (case j of JObj _ \<Rightarrow> True | JArr _ \<Rightarrow> True | _ \<Rightarrow> False)"

definition readCheck :: "json \<Rightarrow> jsstr list \<Rightarrow> bool option" where
  "readCheck body ks =
     (if \<not> is_object body then None
      else
        (let bag = (case parsed_member body (lat ''checks'') of None \<Rightarrow> body | Some n \<Rightarrow> if is_object n then n else body)
         in first_check bag ks))"

datatype health_fetch = Hf_answer int "json option" | Hf_timeout | Hf_failed

definition fetchHealth :: "health_fetch \<Rightarrow> health_result" where
  "fetchHealth f =
     (case f of
        Hf_answer status pj \<Rightarrow>
          (let body = (case pj of None \<Rightarrow> JNull | Some j \<Rightarrow> j); ok = (200 \<le> status \<and> status \<le> 299)
           in \<lparr>hr_ok = ok, hr_status = Some status,
               hr_postgres = readCheck body [(lat ''postgres''), (lat ''db''), (lat ''database'')],
               hr_redis = readCheck body [(lat ''redis''), (lat ''cache'')],
               hr_error = (if ok then None else Some ((lat ''HTTP '') @ int_str status)), hr_raw = body\<rparr>)
      | Hf_timeout \<Rightarrow> \<lparr>hr_ok = False, hr_status = None, hr_postgres = None, hr_redis = None, hr_error = Some (lat ''timeout''), hr_raw = JNull\<rparr>
      | Hf_failed \<Rightarrow> \<lparr>hr_ok = False, hr_status = None, hr_postgres = None, hr_redis = None, hr_error = Some (lat ''unreachable''), hr_raw = JNull\<rparr>)"

section \<open>StackHealth.tsx\<close>

definition status_badge :: "bool option \<Rightarrow> 'e vnode" where
  "status_badge st =
     El ''span'' [] [Txt (case st of Some True \<Rightarrow> (heb ''zwio'') | Some False \<Rightarrow> (heb ''zwld'') | None \<Rightarrow> (heb ''l@ icer''))]"

definition check_row :: "jsstr \<Rightarrow> bool option \<Rightarrow> 'e vnode" where
  "check_row label st = El ''li'' [] [El ''span'' [] [Txt label], status_badge st]"

record stack_health =
  sh_health :: "health_result option"
  sh_loading :: bool

definition health_mount :: stack_health where "health_mount = \<lparr>sh_health = None, sh_loading = True\<rparr>"
definition health_check :: "stack_health \<Rightarrow> stack_health" where "health_check s = s\<lparr>sh_loading := True\<rparr>"

definition health_done :: "health_fetch \<Rightarrow> stack_health \<Rightarrow> stack_health" where
  "health_done f s = s\<lparr>sh_health := Some (fetchHealth f), sh_loading := False\<rparr>"

definition health_view :: "stack_health \<Rightarrow> unit vnode list" where
  "health_view s =
     (let backendUp = (case sh_health s of None \<Rightarrow> False | Some h \<Rightarrow> hr_ok h);
          part = (\<lambda>f. if sh_loading s then None else Option.bind (sh_health s) f)
      in [El ''h2'' [] [Txt (heb ''axi@ez dnrxkz'')],
          El ''button'' [on_click (), Disabled (sh_loading s)] [Txt (if sh_loading s then (heb ''aecw'' @ [8230]) else (heb ''xrpeo''))],
          check_row (heb ''yxz (B'' @ lat ''ackend)'') (if sh_loading s then None else Some backendUp),
          check_row (heb ''nqc pzepim (P'' @ lat ''ostgres)'') (part hr_postgres), check_row (heb ''nhneo (R'' @ lat ''edis)'') (part hr_redis),
          El ''p'' [] [Txt
            (if sh_loading s then (heb ''aecw giaex lyxz'' @ [8230])
             else if backendUp then (heb ''dyxz nbia cxj '' @ [8206] @ heb ''/'' @ lat ''healthz.'')
             else (heb ''@io nrpd ndyxz'') @ (case Option.bind (sh_health s) hr_error of None \<Rightarrow> [] | Some e \<Rightarrow> (lat '' ('') @ e @ (lat '')'')) @ (heb ''. ec@e y'' @ [8209] @ lat ''backend '' @ heb ''xu.''))]])"

text \<open>A check is green only when the body says so under one of its names.\<close>

lemma readCheck_says:
  "readCheck body ks = Some b \<Longrightarrow> \<exists>bag k v. k \<in> set ks \<and> parsed_member bag k = Some v \<and> check_value v = Some b"
proof -
  have "first_check bag ks = Some b \<Longrightarrow> \<exists>k v. k \<in> set ks \<and> parsed_member bag k = Some v \<and> check_value v = Some b" for bag
    by (induction ks) (auto split: option.splits)
  then show "readCheck body ks = Some b \<Longrightarrow> ?thesis" unfolding readCheck_def Let_def
    by (cases "is_object body") (simp_all, blast)
qed

section \<open>The preferences survive\<close>

lemma pref_names_distinct: "pref_name k = pref_name l \<longleftrightarrow> k = l"
  by (cases k; cases l; simp add: lat_def)

lemma class_map_inj: "CLASS_MAP k = CLASS_MAP l \<longleftrightarrow> k = l"
  by (cases k; cases l; simp)

lemma in_pref_keys [simp]: "k \<in> set pref_keys" "distinct pref_keys"
  by (cases k; simp add: pref_keys_def) (simp add: pref_keys_def)

lemma map_of_prefs: "map_of (map (\<lambda>k. (pref_name k, f k)) ks) (pref_name l) = (if l \<in> set ks then Some (f l) else None)"
  by (induction ks) (auto simp: pref_names_distinct)

lemma stored_prefs: "pd_storage d = Some (Is_json (prefs_json p)) \<Longrightarrow> readStored d = p"
  by (rule ext) (simp add: readStored_def prefs_json_def parsed_member_def map_of_prefs)

lemma toggled_classes:
  "c \<in> fold (\<lambda>k. toggle_class (CLASS_MAP k) (p k)) ks cs \<longleftrightarrow>
     (if \<exists>k \<in> set ks. CLASS_MAP k = c then \<exists>k \<in> set ks. CLASS_MAP k = c \<and> p k else c \<in> cs)"
proof (induction ks rule: rev_induct)
  case (snoc k ks)
  then show ?case by (auto simp: toggle_class_def class_map_inj)
qed simp

text \<open>The hook in use on a document, after the mount.\<close>

inductive a11y_run :: "page_doc \<Rightarrow> prefs \<times> page_doc \<Rightarrow> bool" for d where
  ay_mount: "a11y_run d (a11y_mount d)"
| ay_toggle: "a11y_run d s \<Longrightarrow> a11y_run d (a11y_toggle k s)"
| ay_reset: "a11y_run d s \<Longrightarrow> a11y_run d (a11y_reset s)"

definition shows_prefs :: "page_doc \<Rightarrow> prefs \<Rightarrow> page_doc \<Rightarrow> bool" where
  "shows_prefs d0 p d \<longleftrightarrow> (\<forall>k. CLASS_MAP k \<in> pd_classes d \<longleftrightarrow> p k)
     \<and> pd_classes d - range CLASS_MAP = pd_classes d0 - range CLASS_MAP"

lemma applied_class: "CLASS_MAP k \<in> pd_classes (applyClasses p d) \<longleftrightarrow> p k"
  using in_pref_keys(1) [of k] by (auto simp: applyClasses_def toggled_classes class_map_inj)

lemma applied_other: "c \<notin> range CLASS_MAP \<Longrightarrow> c \<in> pd_classes (applyClasses p d) \<longleftrightarrow> c \<in> pd_classes d"
  by (auto simp: applyClasses_def toggled_classes)

lemma shows_applied: "pd_classes d - range CLASS_MAP = pd_classes d0 - range CLASS_MAP \<Longrightarrow> shows_prefs d0 p (applyClasses p d)"
  unfolding shows_prefs_def using applied_other [of _ p d] by (simp add: applied_class) blast

lemma doc_simps [simp]:
  "pd_classes (set_item x d) = pd_classes d" "pd_writable (set_item x d) = pd_writable d" "pd_writable (applyClasses p d) = pd_writable d"
  "pd_storage (applyClasses p d) = pd_storage d" "pd_classes (ensureStyleInjected d) = pd_classes d"
  "pd_writable (ensureStyleInjected d) = pd_writable d" "pd_storage (ensureStyleInjected d) = pd_storage d"
  "pd_storage (set_item x d) = (if pd_writable d then x else pd_storage d)"
  by (simp_all add: set_item_def applyClasses_def ensureStyleInjected_def)

lemma readStored_cong: "pd_storage d = pd_storage d' \<Longrightarrow> readStored d = readStored d'"
  by (simp add: readStored_def)

lemma shows_set_item [simp]: "shows_prefs d0 p (set_item x d) = shows_prefs d0 p d"
  by (simp add: shows_prefs_def)

text \<open>Property C35. The accessibility preferences: on every run the document wears exactly the classes of the preferences that are on, every
  other class is as it was, and, where the browser can write its storage, whoever opens the next page gets the same preferences,
  whatever the storage held before.\<close>

theorem preferences_survive:
  assumes "a11y_run d0 (p, d)"
  shows "shows_prefs d0 p d \<and> (pd_writable d0 \<longrightarrow> fst (a11y_mount (d\<lparr>pd_classes := {}, pd_styles := []\<rparr>)) = p)"
proof -
  have "shows_prefs d0 p d \<and> pd_writable d = pd_writable d0 \<and> (pd_writable d0 \<longrightarrow> readStored d = p)"
    using assms
  proof (induction "(p, d)" arbitrary: p d rule: a11y_run.induct)
    case ay_mount
    then show ?case by (auto simp: a11y_mount_def Let_def shows_applied intro!: readStored_cong)
  next
    case (ay_toggle s k)
    obtain q e where s: "s = (q, e)" by (cases s)
    from ay_toggle(2) [OF s] have e: "pd_classes e - range CLASS_MAP = pd_classes d0 - range CLASS_MAP" "pd_writable e = pd_writable d0"
      by (simp_all add: shows_prefs_def)
    from ay_toggle(3) have r: "p = q(k := \<not> q k)" "d = set_item (Some (Is_json (prefs_json p))) (applyClasses p e)"
      unfolding s by (auto simp: a11y_toggle_def Let_def)
    show ?case using shows_applied [OF e(1), of p] e(2) r(2) stored_prefs [of d p] by simp
  next
    case (ay_reset s)
    obtain q e where s: "s = (q, e)" by (cases s)
    from ay_reset(2) [OF s] have e: "pd_classes e - range CLASS_MAP = pd_classes d0 - range CLASS_MAP" "pd_writable e = pd_writable d0"
      by (simp_all add: shows_prefs_def)
    from ay_reset(3) have r: "p = DEFAULT_PREFS" "d = set_item None (applyClasses p e)" unfolding s by (auto simp: a11y_reset_def)
    show ?case using shows_applied [OF e(1), of p] e(2) r by (simp add: readStored_def)
  qed
  moreover have "fst (a11y_mount (d\<lparr>pd_classes := {}, pd_styles := []\<rparr>)) = readStored d"
    by (simp add: a11y_mount_def Let_def) (rule readStored_cong, simp)
  ultimately show ?thesis by simp
qed

definition blank_doc :: page_doc where
  "blank_doc = \<lparr>pd_classes = {(On_html, ''dark'')}, pd_styles = [], pd_storage = Some Not_json, pd_writable = True\<rparr>"

theorem preferences_survive_witness:
  "shows_prefs blank_doc (fst (a11y_toggle K_largeText (a11y_mount blank_doc))) (snd (a11y_toggle K_largeText (a11y_mount blank_doc)))
   \<and> fst (a11y_toggle K_largeText (a11y_mount blank_doc)) K_largeText"
proof -
  have r: "a11y_run blank_doc (fst (a11y_toggle K_largeText (a11y_mount blank_doc)), snd (a11y_toggle K_largeText (a11y_mount blank_doc)))"
    using ay_toggle [OF ay_mount, of blank_doc K_largeText] by simp
  from preferences_survive [OF r] show ?thesis
    by (simp add: a11y_toggle_def a11y_mount_def Let_def readStored_def blank_doc_def ensureStyleInjected_def DEFAULT_PREFS_def)
qed

end
