(* ===== verification/Admin.thy ===== *)
theory Admin
  imports Leads Shell Dates "HOL-Library.Multiset"
begin

text \<open>
  The operator's back office, first part: its types and labels (\<open>admin/types.ts\<close>, \<open>admin/labels.ts\<close>), its requests
  (\<open>lib/adminClient.ts\<close>), the two panels (\<open>components/admin/SubscriptionPanel.tsx\<close>, \<open>components/admin/CrmPanel.tsx\<close>) and
  the sales board (\<open>pages/admin/AdminCrm.tsx\<close>, \<open>components/admin/CrmCard.tsx\<close>, \<open>components/admin/StatusBadge.tsx\<close>).

  How a number and a date print (\<open>String\<close>, \<open>toLocaleString\<close>) are parameters.
\<close>

section \<open>Types and labels\<close>

datatype subscription_status = Sub_active | Sub_suspended | Sub_cancelled

fun sub_str :: "subscription_status \<Rightarrow> jsstr" where
  "sub_str Sub_active = (lat ''active'')"
| "sub_str Sub_suspended = (lat ''suspended'')"
| "sub_str Sub_cancelled = (lat ''cancelled'')"

fun STATUS_META :: "subscription_status \<Rightarrow> jsstr \<times> string" where
  "STATUS_META Sub_active = ((heb ''tril''), ''leaf'')"
| "STATUS_META Sub_suspended = ((heb ''neydd''), ''warning'')"
| "STATUS_META Sub_cancelled = ((heb ''aehl''), ''neutral'')"

datatype usage_metric = M_msg_in | M_msg_out | M_lead | M_booking | M_login | M_ai_call

definition METRIC_ORDER :: "usage_metric list" where
  "METRIC_ORDER = [M_msg_in, M_msg_out, M_lead, M_booking, M_login, M_ai_call]"

fun metric_str :: "usage_metric \<Rightarrow> jsstr" where
  "metric_str M_msg_in = (lat ''msg_in'')"
| "metric_str M_msg_out = (lat ''msg_out'')"
| "metric_str M_lead = (lat ''lead'')"
| "metric_str M_booking = (lat ''booking'')"
| "metric_str M_login = (lat ''login'')"
| "metric_str M_ai_call = (lat ''ai_call'')"

fun METRIC_META :: "usage_metric \<Rightarrow> jsstr \<times> jsstr" where
  "METRIC_META M_msg_in = ((heb ''decrez pkpqez''), (lat ''#378ADD''))"
| "METRIC_META M_msg_out = ((heb ''decrez iev@ez''), (lat ''#1D9E75''))"
| "METRIC_META M_lead = ((heb ''licim''), (lat ''#639922''))"
| "METRIC_META M_booking = ((heb ''dfnpez''), (lat ''#D85A30''))"
| "METRIC_META M_login = ((heb ''kpiqez''), (lat ''#7C3AED''))"
| "METRIC_META M_ai_call = ((heb ''trelez AI''), (lat ''#BA7517''))"

datatype crm_stage = Cs_new | Cs_contacted | Cs_warming | Cs_won | Cs_lost

definition CRM_STAGE_ORDER :: "crm_stage list" where
  "CRM_STAGE_ORDER = [Cs_new, Cs_contacted, Cs_warming, Cs_won, Cs_lost]"

fun stage_str :: "crm_stage \<Rightarrow> jsstr" where
  "stage_str Cs_new = (lat ''new'')"
| "stage_str Cs_contacted = (lat ''contacted'')"
| "stage_str Cs_warming = (lat ''warming'')"
| "stage_str Cs_won = (lat ''won'')"
| "stage_str Cs_lost = (lat ''lost'')"

fun CRM_STAGE_META :: "crm_stage \<Rightarrow> jsstr \<times> jsstr" where
  "CRM_STAGE_META Cs_new = ((heb ''gcy''), (lat ''#888780''))"
| "CRM_STAGE_META Cs_contacted = ((heb ''ivxzi wyx''), (lat ''#378ADD''))"
| "CRM_STAGE_META Cs_warming = ((heb ''ngnm''), (lat ''#D85A30''))"
| "CRM_STAGE_META Cs_won = ((heb ''pqbx''), (lat ''#639922''))"
| "CRM_STAGE_META Cs_lost = ((heb ''@ac''), (lat ''#534AB7''))"

definition formatPrice :: "(rat \<Rightarrow> jsstr) \<Rightarrow> rat \<Rightarrow> jsstr" where
  "formatPrice num_str price = (if price \<le> 0 then (heb ''gipm'') else [8362] @ num_str price)"

text \<open>\<open>whole\<close> and \<open>decimals\<close> are the two \<open>toLocaleString\<close> calls.\<close>

definition formatMoney :: "(int \<Rightarrow> jsstr) \<Rightarrow> (rat \<Rightarrow> jsstr) \<Rightarrow> rat option \<Rightarrow> jsstr" where
  "formatMoney whole decimals amount =
     (case amount of
        None \<Rightarrow> [8212]
      | Some a \<Rightarrow>
          (let rounded = of_int (math_round (a * 100)) / 100
           in [8362] @ (if rounded = of_int \<lfloor>rounded\<rfloor> then whole \<lfloor>rounded\<rfloor> else decimals rounded)))"

definition planCodeLabel :: "jsstr \<Rightarrow> jsstr" where
  "planCodeLabel code =
     (if code = (lat ''free'') then (heb ''gipm'') else if code = (lat ''basic'') then (heb ''aqiqi'')
      else if code = (lat ''pro'') then (heb ''nwveri'') else code)"

record plan_row =
  pn_code :: jsstr
  pn_name :: "jsstr option"
  pn_price :: rat

record crm_business =
  cr_id :: jsstr
  cr_name :: "jsstr option"
  cr_plan_code :: jsstr
  cr_stage :: crm_stage
  cr_next_followup_at :: "jsstr option"
  cr_note_count :: nat

record crm_note =
  nt_id :: jsstr
  nt_admin_email :: "jsstr option"
  nt_note :: jsstr
  nt_created_at :: "jsstr option"

section \<open>adminClient.ts\<close>

datatype analytics_period = An_week | An_month | An_all

fun analytics_str :: "analytics_period \<Rightarrow> jsstr" where
  "analytics_str An_week = (lat ''week'')"
| "analytics_str An_month = (lat ''month'')"
| "analytics_str An_all = (lat ''all'')"

definition qval_int :: "int option \<Rightarrow> qval" where
  "qval_int v = (case v of None \<Rightarrow> QUndef | Some i \<Rightarrow> QInt i)"

definition admin_business_path :: "jsstr \<Rightarrow> (jsstr \<Rightarrow> http_request) \<Rightarrow> http_request option" where
  "admin_business_path i f = with_component i (\<lambda>e. f ((lat ''/api/admin/businesses/'') @ e))"

definition getOverview :: http_request where
  "getOverview = api_get (lat ''/api/admin/overview'')"

definition listBusinesses :: "jsstr option \<Rightarrow> int option \<Rightarrow> int option \<Rightarrow> http_request" where
  "listBusinesses search limit offset =
     api_get ((lat ''/api/admin/businesses'') @
       qs [((lat ''search''), qval_of id search), ((lat ''limit''), qval_int limit), ((lat ''offset''), qval_int offset)])"

definition getBusiness :: "jsstr \<Rightarrow> http_request option" where
  "getBusiness i = admin_business_path i api_get"

definition getUsage :: "jsstr \<Rightarrow> jsstr \<Rightarrow> jsstr \<Rightarrow> http_request option" where
  "getUsage i from_day to_day =
     admin_business_path i (\<lambda>p. api_get (p @ (lat ''/usage'') @ qs [((lat ''from''), QStr from_day), ((lat ''to''), QStr to_day)]))"

definition getPlans :: http_request where
  "getPlans = api_get (lat ''/api/admin/plans'')"

definition setSubscription :: "jsstr \<Rightarrow> jsstr \<Rightarrow> subscription_status \<Rightarrow> http_request option" where
  "setSubscription i planCode st =
     admin_business_path i (\<lambda>p. api_patch (p @ (lat ''/subscription''))
       (Some (JObj [((lat ''plan_code''), JStr planCode), ((lat ''status''), JStr (sub_str st))])))"

definition getLeadsByType :: "analytics_period option \<Rightarrow> jsstr option \<Rightarrow> http_request" where
  "getLeadsByType per plan =
     api_get ((lat ''/api/admin/analytics/leads-by-type'') @ qs [((lat ''period''), qval_of analytics_str per), ((lat ''plan''), qval_of id plan)])"

definition getMessagesByBusiness :: "analytics_period option \<Rightarrow> http_request" where
  "getMessagesByBusiness per = api_get ((lat ''/api/admin/analytics/messages'') @ qs [((lat ''period''), qval_of analytics_str per)])"

definition getAiOps :: "jsstr option \<Rightarrow> jsstr option \<Rightarrow> http_request" where
  "getAiOps from_day to_day =
     api_get ((lat ''/api/admin/analytics/ai-ops'') @ qs [((lat ''from''), qval_of id from_day), ((lat ''to''), qval_of id to_day)])"

definition getByPlan :: "usage_metric \<Rightarrow> analytics_period option \<Rightarrow> http_request" where
  "getByPlan metric per =
     api_get ((lat ''/api/admin/analytics/by-plan'') @ qs [((lat ''metric''), QStr (metric_str metric)), ((lat ''period''), qval_of analytics_str per)])"

definition getTrends :: "jsstr option \<Rightarrow> jsstr option \<Rightarrow> http_request" where
  "getTrends from_day to_day =
     api_get ((lat ''/api/admin/analytics/trends'') @ qs [((lat ''from''), qval_of id from_day), ((lat ''to''), qval_of id to_day)])"

definition getCrm :: http_request where
  "getCrm = api_get (lat ''/api/admin/crm'')"

text \<open>\<open>nextFollowup\<close>: left out, \<open>null\<close>, or a date.\<close>

definition setCrmStage :: "jsstr \<Rightarrow> crm_stage \<Rightarrow> jsstr option field \<Rightarrow> http_request option" where
  "setCrmStage i stage nextFollowup =
     admin_business_path i (\<lambda>p. api_patch (p @ (lat ''/crm''))
       (Some (JObj ([((lat ''stage''), JStr (stage_str stage))]
          @ (case nextFollowup of Omitted \<Rightarrow> [] | Sent None \<Rightarrow> [((lat ''next_followup''), JNull)]
             | Sent (Some d) \<Rightarrow> [((lat ''next_followup''), JStr d)])))))"

definition addCrmNote :: "jsstr \<Rightarrow> jsstr \<Rightarrow> http_request option" where
  "addCrmNote i note = admin_business_path i (\<lambda>p. api_post (p @ (lat ''/crm/notes'')) (Some (JObj [((lat ''note''), JStr note)])))"

definition getCrmNotes :: "jsstr \<Rightarrow> http_request option" where
  "getCrmNotes i = admin_business_path i (\<lambda>p. api_get (p @ (lat ''/crm/notes'')))"

definition deleteBusiness :: "jsstr \<Rightarrow> http_request option" where
  "deleteBusiness i = admin_business_path i api_delete"

section \<open>Controls\<close>

definition status_pill :: "subscription_status \<Rightarrow> 'e vnode" where
  "status_pill st = El ''Badge'' [Attr ''tone'' (lat (snd (STATUS_META st)))] [Txt (fst (STATUS_META st))]"

definition pick_one :: "jsstr \<Rightarrow> ('a \<times> jsstr) list \<Rightarrow> 'a \<Rightarrow> bool \<Rightarrow> ('a \<Rightarrow> 'e) \<Rightarrow> 'e vnode" where
  "pick_one label options value dis f =
     El ''label'' [] [Txt label,
       El ''select'' [Disabled dis, On (\<lambda>e. \<exists>o' \<in> set options. e = f (fst o'))]
         (map (\<lambda>(v, l). El ''option'' (if v = value then [Attr ''selected'' []] else []) [Txt l]) options)]"

lemma fires_pick_one [simp]: "fires (pick_one label options value dis f) e \<longleftrightarrow> \<not> dis \<and> (\<exists>v \<in> fst ` set options. e = f v)"
  by (auto simp: pick_one_def fires_any_map split: if_splits)

datatype tone = T_info | T_error

definition toned_alert :: "(tone \<times> jsstr) option \<Rightarrow> 'e vnode list" where
  "toned_alert m = (case m of None \<Rightarrow> [] | Some (t, x) \<Rightarrow> [El ''Alert'' [Attr ''tone'' (if t = T_info then (lat ''info'') else (lat ''error''))] [Txt x]])"

lemma toned_alert_quiet [simp]: "\<not> fires_any (toned_alert m) e"
  by (simp add: toned_alert_def split: option.split)

section \<open>SubscriptionPanel.tsx\<close>

record subscription_panel =
  sp_plan :: jsstr
  sp_newStatus :: subscription_status
  sp_saving :: bool
  sp_result :: "(tone \<times> jsstr) option"

text \<open>The props are the current plan and status; a change of them seeds the controls again.\<close>

definition sub_init :: "jsstr \<Rightarrow> subscription_status \<Rightarrow> subscription_panel" where
  "sub_init planCode st = \<lparr>sp_plan = planCode, sp_newStatus = st, sp_saving = False, sp_result = None\<rparr>"

definition sub_reseed :: "jsstr \<times> subscription_status \<Rightarrow> jsstr \<times> subscription_status \<Rightarrow> subscription_panel \<Rightarrow> subscription_panel" where
  "sub_reseed old new s = (if new = old then s else s\<lparr>sp_plan := fst new, sp_newStatus := snd new\<rparr>)"

definition sub_dirty :: "jsstr \<Rightarrow> subscription_status \<Rightarrow> subscription_panel \<Rightarrow> bool" where
  "sub_dirty planCode st s \<longleftrightarrow> sp_plan s \<noteq> planCode \<or> sp_newStatus s \<noteq> st"

definition willSilence :: "subscription_panel \<Rightarrow> bool" where
  "willSilence s \<longleftrightarrow> sp_newStatus s \<noteq> Sub_active"

definition sub_save :: "jsstr \<Rightarrow> subscription_panel \<Rightarrow> subscription_panel \<times> http_request option" where
  "sub_save businessId s = (s\<lparr>sp_saving := True, sp_result := None\<rparr>, setSubscription businessId (sp_plan s) (sp_newStatus s))"

text \<open>The second component is what \<open>onSaved\<close> is called with.\<close>

definition sub_saved ::
  "(js_thrown + jsstr \<times> subscription_status \<times> bool) \<Rightarrow> subscription_panel \<Rightarrow> subscription_panel \<times> (jsstr \<times> subscription_status \<times> bool) option"
where
  "sub_saved r s =
     (case r of
        Inr res \<Rightarrow> (s\<lparr>sp_result := Some (T_info, (heb ''dnpei recko advlgd.'')), sp_saving := False\<rparr>, Some res)
      | Inl err \<Rightarrow> (s\<lparr>sp_result := Some (T_error, toFriendlyError err (heb ''rckeo dnpei pkyl. pqe yea.'')), sp_saving := False\<rparr>, None))"

datatype sub_ui = Sb_plan jsstr | Sb_status subscription_status | Sb_save

definition plan_label :: "(rat \<Rightarrow> jsstr) \<Rightarrow> plan_row \<Rightarrow> jsstr" where
  "plan_label num_str p = (if or_else (pn_name p) [] = [] then pn_code p else or_else (pn_name p) []) @ (lat '' '' @ [183] @ lat '' '') @ formatPrice num_str (pn_price p)"

definition sub_view :: "(rat \<Rightarrow> jsstr) \<Rightarrow> plan_row list \<Rightarrow> jsstr \<Rightarrow> subscription_status \<Rightarrow> subscription_panel \<Rightarrow> sub_ui vnode list" where
  "sub_view num_str plans planCode st s =
     [El ''h2'' [] [Txt (heb ''pidel npei'')],
      El ''p'' [] [Txt (heb ''yipei dzekpiz @e dqhheq yl drqw. qhheq neydd @e aehl nyziw @z daeh yl drqw aterl '' @ [8212] @ heb '' de@ itqiw lrpez llwegez.'')],
      pick_one (heb ''zekpiz'') (map (\<lambda>p. (pn_code p, plan_label num_str p)) plans) (sp_plan s) (sp_saving s \<or> length plans = 0) Sb_plan,
      pick_one (heb ''qhheq npei'') (map (\<lambda>x. (x, fst (STATUS_META x))) [Sub_active, Sub_suspended, Sub_cancelled]) (sp_newStatus s) (sp_saving s) Sb_status]
     @ shown (willSilence s) [El ''Alert'' [Attr ''tone'' (lat ''warning'')] [Txt (heb ''aqhheq fd daeh yl drqw ieyzw el@ irpd llwegez rc yzgfixe @eze l'' @ [34] @ heb ''tril'' @ [34] @ heb ''.'')]]
     @ [El ''button'' [on_click Sb_save, Disabled (sp_saving s \<or> \<not> sub_dirty planCode st s)]
          [Txt (if sp_saving s then (heb ''yenx'' @ [8230]) else (heb ''ynixz yipeiim''))]]
     @ shown (\<not> sub_dirty planCode st s \<and> sp_result s = None) [El ''span'' [] [Txt (heb ''@io yipeiim lynixd.'')]]
     @ toned_alert (sp_result s)"

definition on_sub :: "jsstr \<Rightarrow> sub_ui \<Rightarrow> subscription_panel \<Rightarrow> subscription_panel \<times> http_request option" where
  "on_sub businessId e s =
     (case e of
        Sb_plan p \<Rightarrow> (s\<lparr>sp_plan := p\<rparr>, None)
      | Sb_status x \<Rightarrow> (s\<lparr>sp_newStatus := x\<rparr>, None)
      | Sb_save \<Rightarrow> sub_save businessId s)"

section \<open>CrmPanel.tsx\<close>

text \<open>\<open>local_date\<close>: the local calendar day of a timestamp, \<open>None\<close> for an invalid one.\<close>

definition toDateInput :: "(jsstr \<Rightarrow> civil option) \<Rightarrow> jsstr option \<Rightarrow> jsstr" where
  "toDateInput local_date stamp =
     (if or_else stamp [] = [] then []
      else (case local_date (or_else stamp []) of None \<Rightarrow> [] | Some d \<Rightarrow> toDateString d))"

record crm_panel =
  cp_newStage :: crm_stage
  cp_followup :: jsstr
  cp_saving :: bool
  cp_saveResult :: "(tone \<times> jsstr) option"
  cp_notes :: "crm_note list"
  cp_notesLoading :: bool
  cp_notesError :: "jsstr option"
  cp_noteDraft :: jsstr
  cp_addingNote :: bool
  cp_noteResult :: "(tone \<times> jsstr) option"
  cp_notesLoader :: loader

definition crm_mount :: "(jsstr \<Rightarrow> civil option) \<Rightarrow> crm_stage \<Rightarrow> jsstr option \<Rightarrow> crm_panel" where
  "crm_mount ld stage nextFollowupAt =
     \<lparr>cp_newStage = stage, cp_followup = toDateInput ld nextFollowupAt, cp_saving = False, cp_saveResult = None, cp_notes = [],
      cp_notesLoading = True, cp_notesError = None, cp_noteDraft = [], cp_addingNote = False, cp_noteResult = None,
      cp_notesLoader = rerun_effect new_loader\<rparr>"

definition crm_reseed ::
  "(jsstr \<Rightarrow> civil option) \<Rightarrow> crm_stage \<times> jsstr option \<Rightarrow> crm_stage \<times> jsstr option \<Rightarrow> crm_panel \<Rightarrow> crm_panel"
where
  "crm_reseed ld old new s =
     (if new = old then s else s\<lparr>cp_newStage := fst new, cp_followup := toDateInput ld (snd new)\<rparr>)"

text \<open>\<open>loadNotes\<close>: by the effect of the business, or again after a note was added (then nothing cancels it).\<close>

definition notes_reload :: "crm_panel \<Rightarrow> crm_panel" where
  "notes_reload s = s\<lparr>cp_notesLoading := True, cp_notesError := None, cp_notesLoader := begin_load (cp_notesLoader s)\<rparr>"

definition notes_settled :: "nat \<Rightarrow> (js_thrown + crm_note list) \<Rightarrow> crm_panel \<Rightarrow> crm_panel" where
  "notes_settled t r s =
     (if \<not> live t (cp_notesLoader s) then s
      else
        (case r of
           Inr ns \<Rightarrow> s\<lparr>cp_notes := ns\<rparr>
         | Inl err \<Rightarrow> s\<lparr>cp_notesError := Some (toFriendlyError err (heb ''hripz dtzwim pkyld. pqe yea.''))\<rparr>)\<lparr>cp_notesLoading := False\<rparr>)"

interpretation crm_notes: guarded_settle cp_notesLoader notes_settled
  by unfold_locales (auto simp: notes_settled_def split: sum.split)

definition crm_dirty :: "(jsstr \<Rightarrow> civil option) \<Rightarrow> crm_stage \<Rightarrow> jsstr option \<Rightarrow> crm_panel \<Rightarrow> bool" where
  "crm_dirty ld stage nextFollowupAt s \<longleftrightarrow> cp_newStage s \<noteq> stage \<or> cp_followup s \<noteq> toDateInput ld nextFollowupAt"

definition onSaveStage :: "jsstr \<Rightarrow> crm_panel \<Rightarrow> crm_panel \<times> http_request option" where
  "onSaveStage businessId s =
     (s\<lparr>cp_saving := True, cp_saveResult := None\<rparr>,
      setCrmStage businessId (cp_newStage s) (Sent (if cp_followup s = [] then None else Some (cp_followup s))))"

definition stage_saved ::
  "(js_thrown + crm_stage \<times> jsstr option) \<Rightarrow> crm_panel \<Rightarrow> crm_panel \<times> (crm_stage \<times> jsstr option) option"
where
  "stage_saved r s =
     (case r of
        Inr res \<Rightarrow> (s\<lparr>cp_saveResult := Some (T_info, (heb ''yla dnkixd recko advlgd.'')), cp_saving := False\<rparr>, Some res)
      | Inl err \<Rightarrow> (s\<lparr>cp_saveResult := Some (T_error, toFriendlyError err (heb ''rckeo yla dnkixd pkyl. pqe yea.'')), cp_saving := False\<rparr>, None))"

definition onAddNote :: "jsstr \<Rightarrow> crm_panel \<Rightarrow> crm_panel \<times> http_request option" where
  "onAddNote businessId s =
     (let tx = trim (cp_noteDraft s) in
      if tx = [] then (s, None) else (s\<lparr>cp_addingNote := True, cp_noteResult := None\<rparr>, addCrmNote businessId tx))"

definition note_added :: "js_thrown option \<Rightarrow> crm_panel \<Rightarrow> crm_panel" where
  "note_added r s =
     (case r of
        None \<Rightarrow> notes_reload (s\<lparr>cp_noteDraft := [], cp_noteResult := Some (T_info, (heb ''dtzw peqs.''))\<rparr>)
      | Some err \<Rightarrow> s\<lparr>cp_noteResult := Some (T_error, toFriendlyError err (heb ''deqtz dtzw pkyld. pqe yea.''))\<rparr>)\<lparr>cp_addingNote := False\<rparr>"

datatype crm_ui = Cm_stage crm_stage | Cm_followup jsstr | Cm_save | Cm_draft jsstr | Cm_add

definition note_item :: "(jsstr option \<Rightarrow> jsstr) \<Rightarrow> crm_note \<Rightarrow> 'e vnode" where
  "note_item full n =
     El ''li'' []
       [El ''p'' [] [Txt (nt_note n)],
        El ''p'' [] [Txt ((if or_else (nt_admin_email n) [] = [] then (heb ''npdl'') else or_else (nt_admin_email n) [])
          @ (if or_else (nt_created_at n) [] = [] then [] else (lat '' '' @ [183] @ lat '' '') @ full (nt_created_at n)))]]"

definition crm_view ::
  "(jsstr \<Rightarrow> civil option) \<Rightarrow> (jsstr option \<Rightarrow> jsstr) \<Rightarrow> crm_stage \<Rightarrow> jsstr option \<Rightarrow> crm_panel \<Rightarrow> crm_ui vnode list"
where
  "crm_view ld full stage nextFollowupAt s =
     (let dirty = crm_dirty ld stage nextFollowupAt s in
      [pick_one (heb ''yla nkixd'') (map (\<lambda>x. (x, fst (CRM_STAGE_META x))) CRM_STAGE_ORDER) (cp_newStage s) (cp_saving s) Cm_stage,
       limited_field (heb ''zfkexz gfxd'') (cp_followup s) None (cp_saving s) Cm_followup,
       El ''button'' [on_click Cm_save, Disabled (cp_saving s \<or> \<not> dirty)] [Txt (if cp_saving s then (heb ''yenx'' @ [8230]) else (heb ''ynixz yla''))]]
      @ shown (\<not> dirty \<and> cp_saveResult s = None) [El ''span'' [] [Txt (heb ''@io yipeiim lynixd.'')]]
      @ toned_alert (cp_saveResult s)
      @ [El ''h3'' [] [Txt (heb ''tzwim etrelez'')],
         limited_field (heb ''tzw gcy'') (cp_noteDraft s) (Some 2000) (cp_addingNote s) Cm_draft,
         El ''button'' [on_click Cm_add, Disabled (cp_addingNote s \<or> length (trim (cp_noteDraft s)) = 0)]
           [Txt (if cp_addingNote s then (heb ''neqis'' @ [8230]) else (heb ''deqtz tzw''))]]
      @ toned_alert (cp_noteResult s)
      @ (if cp_notesLoading s then [El ''Spinner'' [] [Txt (heb ''hero tzwim'' @ [8230])]]
         else if or_else (cp_notesError s) [] \<noteq> [] then [El ''Alert'' [] [Txt (or_else (cp_notesError s) [])]]
         else if length (cp_notes s) > 0 then [El ''ul'' [] (map (note_item full) (cp_notes s))]
         else [El ''p'' [] [Txt (heb ''@io rciio tzwim.'')]]))"

definition on_crm :: "jsstr \<Rightarrow> crm_ui \<Rightarrow> crm_panel \<Rightarrow> crm_panel \<times> http_request option" where
  "on_crm businessId e s =
     (case e of
        Cm_stage x \<Rightarrow> (s\<lparr>cp_newStage := x\<rparr>, None)
      | Cm_followup d \<Rightarrow> (s\<lparr>cp_followup := d\<rparr>, None)
      | Cm_save \<Rightarrow> onSaveStage businessId s
      | Cm_draft x \<Rightarrow> (s\<lparr>cp_noteDraft := x\<rparr>, None)
      | Cm_add \<Rightarrow> onAddNote businessId s)"

section \<open>CrmCard.tsx and AdminCrm.tsx\<close>

record crm_board =
  cb_businesses :: "crm_business list"
  cb_loading :: bool
  cb_error :: "jsstr option"
  cb_flash :: "(tone \<times> jsstr) option"
  cb_movingId :: "jsstr option"
  cb_openId :: "jsstr option"
  cb_loader :: loader

definition board_mount :: crm_board where
  "board_mount =
     \<lparr>cb_businesses = [], cb_loading = True, cb_error = None, cb_flash = None, cb_movingId = None, cb_openId = None,
      cb_loader = rerun_effect new_loader\<rparr>"

definition board_settled :: "nat \<Rightarrow> (js_thrown + crm_business list) \<Rightarrow> crm_board \<Rightarrow> crm_board" where
  "board_settled t r s =
     (if \<not> live t (cb_loader s) then s
      else
        (case r of
           Inr bs \<Rightarrow> s\<lparr>cb_businesses := bs\<rparr>
         | Inl err \<Rightarrow> s\<lparr>cb_error := Some (toFriendlyError err (heb ''hripz vipex dnkixez pkyld. pqe yea.''))\<rparr>)\<lparr>cb_loading := False\<rparr>)"

interpretation crm_loads: guarded_settle cb_loader board_settled
  by unfold_locales (auto simp: board_settled_def split: sum.split)

definition byStage :: "crm_business list \<Rightarrow> crm_stage \<Rightarrow> crm_business list" where
  "byStage bs stage = filter (\<lambda>b. cr_stage b = stage) bs"

definition on_card :: "jsstr \<Rightarrow> (crm_business \<Rightarrow> crm_business) \<Rightarrow> crm_business list \<Rightarrow> crm_business list" where
  "on_card i f bs = map (\<lambda>b. if cr_id b = i then f b else b) bs"

definition business_title :: "crm_business \<Rightarrow> jsstr \<Rightarrow> jsstr" where
  "business_title b fb = (if or_else (cr_name b) [] = [] then fb else or_else (cr_name b) [])"

definition stage_failed :: "js_thrown \<Rightarrow> crm_business \<Rightarrow> crm_board \<Rightarrow> crm_board" where
  "stage_failed err b s =
     s\<lparr>cb_businesses := on_card (cr_id b) (\<lambda>x. x\<lparr>cr_stage := cr_stage b\<rparr>) (cb_businesses s),
       cb_flash := Some (T_error, toFriendlyError err (heb ''rckeo dyla pkyl. pqe yea.'')), cb_movingId := None\<rparr>"

definition move_card :: "crm_business \<Rightarrow> crm_stage \<Rightarrow> crm_board \<Rightarrow> crm_board \<times> http_request option" where
  "move_card b stage s =
     (if stage = cr_stage b then (s, None)
      else
        (let s1 = s\<lparr>cb_movingId := Some (cr_id b), cb_flash := None,
                    cb_businesses := on_card (cr_id b) (\<lambda>x. x\<lparr>cr_stage := stage\<rparr>) (cb_businesses s)\<rparr>
         in case setCrmStage (cr_id b) stage Omitted of
              None \<Rightarrow> (stage_failed (ThrownOther (lat ''URIError'')) b s1, None)
            | Some rq \<Rightarrow> (s1, Some rq)))"

definition card_moved :: "(js_thrown + crm_stage \<times> jsstr option) \<Rightarrow> crm_business \<Rightarrow> crm_stage \<Rightarrow> crm_board \<Rightarrow> crm_board" where
  "card_moved r b stage s =
     (case r of
        Inr res \<Rightarrow>
          s\<lparr>cb_businesses := on_card (cr_id b) (\<lambda>x. x\<lparr>cr_stage := fst res, cr_next_followup_at := snd res\<rparr>) (cb_businesses s),
            cb_flash := Some (T_info, [34] @ business_title b (heb ''rqw'') @ [34] @ (heb '' derax lyla '') @ [34] @ fst (CRM_STAGE_META stage) @ [34] @ (lat ''.'')),
            cb_movingId := None\<rparr>
      | Inl err \<Rightarrow> stage_failed err b s)"

definition onPanelChanged :: "jsstr \<Rightarrow> crm_stage \<times> jsstr option \<Rightarrow> crm_board \<Rightarrow> crm_board" where
  "onPanelChanged i new s =
     s\<lparr>cb_businesses := on_card i (\<lambda>x. x\<lparr>cr_stage := fst new, cr_next_followup_at := snd new\<rparr>) (cb_businesses s)\<rparr>"

definition openBusiness :: "crm_board \<Rightarrow> crm_business option" where
  "openBusiness s = (case cb_openId s of None \<Rightarrow> None | Some i \<Rightarrow> find (\<lambda>b. cr_id b = i) (cb_businesses s))"

datatype board_ui = Bd_move crm_business crm_stage | Bd_open jsstr | Bd_close | Bd_panel crm_ui

definition crm_card :: "(jsstr option \<Rightarrow> jsstr option) \<Rightarrow> bool \<Rightarrow> crm_business \<Rightarrow> board_ui vnode" where
  "crm_card shortDate busy b =
     El ''div'' []
       [El ''button'' [on_click (Bd_open (cr_id b))] [Txt (business_title b (heb ''rqw ll@ ym''))],
        El ''Badge'' [] [Txt (planCodeLabel (cr_plan_code b))],
        Txt (case shortDate (cr_next_followup_at b) of None \<Rightarrow> (heb ''ll@ zfkexz'') | Some d \<Rightarrow> (if d = [] then (heb ''ll@ zfkexz'') else (heb ''gfxd: '') @ d)),
        Txt (nat_str (cr_note_count b) @ (heb '' tzwim'')),
        pick_one ((heb ''yipei yla raex '') @ business_title b (heb ''rqw''))
          (map (\<lambda>x. (x, fst (CRM_STAGE_META x))) CRM_STAGE_ORDER) (cr_stage b) busy (Bd_move b),
        El ''button'' [on_click (Bd_open (cr_id b))] [Txt (heb ''txhim'')]]"

definition board_column :: "(jsstr option \<Rightarrow> jsstr option) \<Rightarrow> crm_board \<Rightarrow> crm_stage \<Rightarrow> board_ui vnode" where
  "board_column shortDate s stage =
     (let cards = byStage (cb_businesses s) stage in
      El ''section'' [Attr ''aria-label'' ((heb ''yla: '') @ fst (CRM_STAGE_META stage))]
        ([El ''h2'' [] [Txt (fst (CRM_STAGE_META stage))], El ''span'' [] [Txt (nat_str (length cards))]]
         @ (if length cards > 0 then map (\<lambda>b. crm_card shortDate (cb_movingId s = Some (cr_id b)) b) cards
            else [El ''p'' [] [Txt (heb ''xiw'')]])))"

definition board_view ::
  "(jsstr \<Rightarrow> civil option) \<Rightarrow> (jsstr option \<Rightarrow> jsstr option) \<Rightarrow> (jsstr option \<Rightarrow> jsstr) \<Rightarrow> crm_panel \<Rightarrow> crm_board \<Rightarrow> board_ui vnode list"
where
  "board_view ld shortDate full panel s =
     [El ''h1'' [] [Txt (heb ''vipex nkixez'')], El ''a'' [Attr ''href'' (lat ''/admin'')] [Txt (heb ''gfxd lpidel'')]]
     @ toned_alert (cb_flash s)
     @ (if cb_loading s then [El ''Spinner'' [] [Txt (heb ''hero vipex nkixez'' @ [8230])]]
        else if or_else (cb_error s) [] \<noteq> [] then [El ''Alert'' [] [Txt (or_else (cb_error s) [])]]
        else if length (cb_businesses s) = 0 then [El ''p'' [] [Txt (heb ''@io rciio rqwim avipex dnkixez.'')]]
        else map (board_column shortDate s) CRM_STAGE_ORDER)
     @ (case openBusiness s of
          None \<Rightarrow> []
        | Some b \<Rightarrow>
            modal True (business_title b (heb ''txhi rqw'')) Bd_close
              (map (view_in Bd_panel) (crm_view ld full (cr_stage b) (cr_next_followup_at b) panel)))"

section \<open>Laws of the board\<close>

lemma on_card_ids [simp]: "(\<And>b. cr_id (f b) = cr_id b) \<Longrightarrow> map cr_id (on_card i f bs) = map cr_id bs"
  by (simp add: on_card_def)

lemma on_card_twice: "(\<And>b. cr_id (f b) = cr_id b) \<Longrightarrow> on_card i g (on_card i f bs) = on_card i (g \<circ> f) bs"
  by (simp add: on_card_def)

lemma on_card_other: "i \<notin> cr_id ` set bs \<Longrightarrow> on_card i f bs = bs"
  by (induction bs) (auto simp: on_card_def)

lemma on_card_stays:
  assumes "distinct (map cr_id bs)" "b \<in> set bs" "f b = b"
  shows "on_card (cr_id b) f bs = bs"
proof -
  have "(if cr_id x = cr_id b then f x else x) = x" if "x \<in> set bs" for x
    using assms that by (auto simp: distinct_map inj_on_def)
  then show ?thesis by (simp add: on_card_def map_idI)
qed

lemma on_card_set:
  assumes "distinct (map cr_id bs)" "b \<in> set bs"
  shows "set (on_card (cr_id b) f bs) = insert (f b) (set bs - {b})"
proof -
  have "cr_id x = cr_id b \<longleftrightarrow> x = b" if "x \<in> set bs" for x
    using assms that by (auto simp: distinct_map inj_on_def)
  then have "set (on_card (cr_id b) f bs) = (\<lambda>x. if x = b then f b else x) ` set bs"
    by (auto simp: on_card_def cong: image_cong)
  then show ?thesis using assms(2) by auto
qed

lemma filter_map_same:
  "(\<And>x. x \<in> set xs \<Longrightarrow> P (g x) = P x \<and> (P x \<longrightarrow> g x = x)) \<Longrightarrow> filter P (map g xs) = filter P xs"
  by (induction xs) auto

lemma byStage_elsewhere:
  assumes "distinct (map cr_id bs)" "b \<in> set bs" "cr_stage (f b) \<noteq> c" "cr_stage b \<noteq> c"
  shows "byStage (on_card (cr_id b) f bs) c = byStage bs c"
proof -
  have "cr_id x = cr_id b \<longleftrightarrow> x = b" if "x \<in> set bs" for x
    using assms(1,2) that by (auto simp: distinct_map inj_on_def)
  then show ?thesis
    unfolding byStage_def on_card_def using assms(3,4) by (intro filter_map_same) auto
qed

lemma byStage_mset: "mset (concat (map (byStage bs) CRM_STAGE_ORDER)) = mset bs"
proof (induction bs)
  case Nil
  then show ?case by (simp add: byStage_def CRM_STAGE_ORDER_def)
next
  case (Cons b bs)
  then show ?case
    by (cases "cr_stage b") (simp_all add: byStage_def CRM_STAGE_ORDER_def)
qed

lemma CRM_STAGE_ORDER_all: "st \<in> set CRM_STAGE_ORDER"
  by (cases st) (simp_all add: CRM_STAGE_ORDER_def)


definition card_1 :: crm_business where
  "card_1 = \<lparr>cr_id = [49], cr_name = None, cr_plan_code = lat ''pro'', cr_stage = Cs_new, cr_next_followup_at = None, cr_note_count = 0\<rparr>"

definition card_2 :: crm_business where
  "card_2 = card_1\<lparr>cr_id := [50]\<rparr>"

definition two_cards :: crm_board where
  "two_cards = board_mount\<lparr>cb_businesses := [card_1, card_2]\<rparr>"

lemmas two_cards_defs = two_cards_def board_mount_def card_2_def card_1_def

lemma encode_digit: "encodeURIComponent [49] = Some [49]" "encodeURIComponent [50] = Some [50]"
  by (simp_all add: encodeURIComponent_def is_high_def is_low_def utf8_def enc_byte_def uri_unreserved_def is_alnum_def)

lemma move_sends: "encodeURIComponent (cr_id b) \<noteq> None \<Longrightarrow> stage \<noteq> cr_stage b \<Longrightarrow> \<exists>rq. move_card b stage s =
   (s\<lparr>cb_movingId := Some (cr_id b), cb_flash := None, cb_businesses := on_card (cr_id b) (\<lambda>x. x\<lparr>cr_stage := stage\<rparr>) (cb_businesses s)\<rparr>, Some rq)"
  by (auto simp: move_card_def setCrmStage_def admin_business_path_def with_component_def)


text \<open>
  The mark is one per board, not one per card: with two moves in flight the answer of the first removes the mark of the
  second, whose select is open again, and a late refusal of an older move takes back what a newer one achieved.
\<close>

lemma second_move_unmarked:
  "\<exists>s1 rq s2 rq'. move_card card_1 Cs_won two_cards = (s1, Some rq) \<and> move_card card_2 Cs_lost s1 = (s2, Some rq')
     \<and> cb_movingId (card_moved (Inr (Cs_won, None)) card_1 Cs_won s2) = None
     \<and> fires_any [crm_card (\<lambda>_. None) (cb_movingId (card_moved (Inr (Cs_won, None)) card_1 Cs_won s2) = Some (cr_id card_2)) card_2] (Bd_move card_2 Cs_new)"
proof -
  obtain s1 rq where m: "move_card card_1 Cs_won two_cards = (s1, Some rq)"
    using move_sends [of card_1 Cs_won two_cards] by (auto simp: encode_digit card_1_def)
  moreover obtain s2 rq' where "move_card card_2 Cs_lost s1 = (s2, Some rq')"
    using move_sends [of card_2 Cs_lost s1] by (auto simp: encode_digit card_1_def card_2_def)
  ultimately show ?thesis
    by (auto simp: crm_card_def card_moved_def CRM_STAGE_ORDER_def image_iff)
qed

end
