(* ===== verification/AdminCharts.thy ===== *)
theory AdminCharts
  imports Admin
begin

text \<open>
  The back office's charts and the cards that load them: \<open>components/admin/UsageBarChart.tsx\<close>, \<open>LineChart.tsx\<close>,
  \<open>StackedBarChart.tsx\<close>, \<open>DonutChart.tsx\<close>; \<open>TrendsCard.tsx\<close>, \<open>LeadsByTypeCard.tsx\<close>, \<open>ByPlanCard.tsx\<close>,
  \<open>AiOpsCard.tsx\<close> and \<open>UsageSection.tsx\<close>.

  A number is a rational: the doubles of the code neither round nor overflow here, and the circumference of the ring, which
  is irrational, is a parameter. How a number and a day print (\<open>String\<close>, \<open>toLocaleDateString\<close>) are parameters too.
\<close>

section \<open>UsageBarChart.tsx\<close>

record chart_point =
  pt_day :: jsstr
  pt_value :: rat

record svg_rect =
  rc_x :: rat
  rc_y :: rat
  rc_width :: rat
  rc_height :: rat

text \<open>Every chart file has the same \<open>VIEW_W\<close> and its own height and paddings.\<close>

definition VIEW_W :: rat where "VIEW_W = 600"
definition bar_VIEW_H :: rat where "bar_VIEW_H = 140"
definition bar_PAD_BOTTOM :: rat where "bar_PAD_BOTTOM = 4"

definition usableH :: rat where "usableH = bar_VIEW_H - bar_PAD_BOTTOM"

definition max_from :: "rat \<Rightarrow> rat list \<Rightarrow> rat" where
  "max_from m xs = fold (\<lambda>v m. max m v) xs m"

definition bar_slot :: "nat \<Rightarrow> rat" where
  "bar_slot n = (if n > 0 then VIEW_W / of_nat n else VIEW_W)"

definition bar_width :: "nat \<Rightarrow> rat" where
  "bar_width n = max 2 (bar_slot n * (7 / 10))"

definition usage_bars :: "chart_point list \<Rightarrow> svg_rect list" where
  "usage_bars ps =
     (let mx = max_from 0 (map pt_value ps); n = length ps; slot = bar_slot n; barW = bar_width n in
      mapi (\<lambda>i p. let h = (if mx > 0 then pt_value p / mx * usableH else 0) in
        \<lparr>rc_x = of_nat i * slot + (slot - barW) / 2, rc_y = usableH - h, rc_width = barW, rc_height = h\<rparr>) ps)"

definition svg_rect_view :: "(rat \<Rightarrow> jsstr) \<Rightarrow> svg_rect \<Rightarrow> jsstr \<Rightarrow> jsstr \<Rightarrow> jsstr \<Rightarrow> 'e vnode" where
  "svg_rect_view num r rx fill title =
     El ''rect'' [Attr ''x'' (num (rc_x r)), Attr ''y'' (num (rc_y r)), Attr ''width'' (num (rc_width r)),
       Attr ''height'' (num (rc_height r)), Attr ''rx'' rx, Attr ''fill'' fill] [El ''title'' [] [Txt title]]"

definition svg_line :: "(rat \<Rightarrow> jsstr) \<Rightarrow> rat \<Rightarrow> rat \<Rightarrow> rat \<Rightarrow> 'e vnode" where
  "svg_line num x1 x2 y =
     El ''line'' [Attr ''x1'' (num x1), Attr ''y1'' (num y), Attr ''x2'' (num x2), Attr ''y2'' (num y)] []"

definition usage_bar_chart :: "(rat \<Rightarrow> jsstr) \<Rightarrow> (jsstr \<Rightarrow> jsstr) \<Rightarrow> chart_point list \<Rightarrow> jsstr \<Rightarrow> jsstr \<Rightarrow> 'e vnode" where
  "usage_bar_chart num shortDay ps color ariaLabel =
     El ''figure'' [] [El ''svg'' [Attr ''role'' (lat ''img''), Attr ''aria-label'' ariaLabel]
       (svg_line num 0 VIEW_W usableH #
        map2 (\<lambda>p r. svg_rect_view num r (if rc_width r > 6 then lat ''2'' else lat ''0'') color (shortDay (pt_day p) @ lat '': '' @ num (pt_value p)))
          ps (usage_bars ps))]"

section \<open>LineChart.tsx\<close>

record line_series =
  ls_values :: "rat list"
  ls_color :: jsstr
  ls_name :: jsstr
  ls_dashed :: bool

definition line_VIEW_H :: rat where "line_VIEW_H = 160"
definition PAD_X :: rat where "PAD_X = 8"
definition line_PAD_TOP :: rat where "line_PAD_TOP = 10"
definition line_PAD_BOTTOM :: rat where "line_PAD_BOTTOM = 6"

definition line_max :: "line_series list \<Rightarrow> rat" where
  "line_max ss = fold (\<lambda>s m. max_from m (ls_values s)) ss 0"

definition plotW :: rat where "plotW = VIEW_W - PAD_X * 2"
definition plotH :: rat where "plotH = line_VIEW_H - line_PAD_TOP - line_PAD_BOTTOM"

definition xAt :: "nat \<Rightarrow> int \<Rightarrow> rat" where
  "xAt n i = (if n > 1 then PAD_X + of_int i / of_nat (n - 1) * plotW else VIEW_W / 2)"

definition yAt :: "rat \<Rightarrow> rat \<Rightarrow> rat" where
  "yAt mx v = line_PAD_TOP + (if mx > 0 then plotH - v / mx * plotH else plotH)"

definition line_points :: "nat \<Rightarrow> rat \<Rightarrow> rat list \<Rightarrow> (rat \<times> rat) list" where
  "line_points n mx vs = mapi (\<lambda>i v. (xAt n (int i), yAt mx v)) vs"

definition point_str :: "(rat \<Rightarrow> jsstr) \<Rightarrow> rat \<times> rat \<Rightarrow> jsstr" where
  "point_str num p = num (fst p) @ lat '','' @ num (snd p)"

fun join_space :: "jsstr list \<Rightarrow> jsstr" where
  "join_space [] = []"
| "join_space [x] = x"
| "join_space (x # y # zs) = x @ lat '' '' @ join_space (y # zs)"

definition label_at :: "jsstr list \<Rightarrow> nat \<Rightarrow> jsstr option" where
  "label_at labels i = (if i < length labels then Some (labels ! i) else None)"

text \<open>\<open>shortDay\<close> is given a missing label where a series is longer than the labels.\<close>

definition line_chart ::
  "(rat \<Rightarrow> jsstr) \<Rightarrow> (jsstr option \<Rightarrow> jsstr) \<Rightarrow> (rat \<Rightarrow> jsstr) \<Rightarrow> bool \<Rightarrow> jsstr list \<Rightarrow> line_series list \<Rightarrow> jsstr \<Rightarrow> 'e vnode"
where
  "line_chart num shortDay formatValue fillArea labels ss ariaLabel =
     (let n = length labels; mx = line_max ss; baseY = line_PAD_TOP + plotH in
      El ''figure'' [] [El ''svg'' [Attr ''role'' (lat ''img''), Attr ''aria-label'' ariaLabel]
        (svg_line num PAD_X (VIEW_W - PAD_X) baseY #
         map (\<lambda>s.
           let pts = join_space (map (point_str num) (line_points n mx (ls_values s))) in
           El ''g'' []
             (shown (fillArea \<and> n > 1) [El ''polygon'' [Attr ''points''
                (point_str num (xAt n 0, baseY) @ lat '' '' @ pts @ lat '' '' @ point_str num (xAt n (int n - 1), baseY)),
                Attr ''fill'' (ls_color s)] []]
              @ shown (n > 1) [El ''polyline'' ([Attr ''points'' pts, Attr ''stroke'' (ls_color s)]
                  @ (if ls_dashed s then [Attr ''strokeDasharray'' (lat ''6 5'')] else [])) []]
              @ mapi (\<lambda>i v. El ''circle'' [Attr ''cx'' (num (xAt n (int i))), Attr ''cy'' (num (yAt mx v)),
                    Attr ''r'' (if n > 30 then lat ''0'' else lat ''2.5''), Attr ''fill'' (ls_color s)]
                  [El ''title'' [] [Txt (ls_name s @ lat '' '' @ [183] @ lat '' '' @ shortDay (label_at labels i) @ lat '': '' @ formatValue v)]])
                (ls_values s))) ss)])"

section \<open>StackedBarChart.tsx\<close>

record stacked_category =
  ct_label :: jsstr
  ct_a :: rat
  ct_b :: rat

definition stack_VIEW_H :: rat where "stack_VIEW_H = 180"
definition stack_PAD_TOP :: rat where "stack_PAD_TOP = 10"
definition stack_PAD_BOTTOM :: rat where "stack_PAD_BOTTOM = 26"
definition stack_plotH :: rat where "stack_plotH = stack_VIEW_H - stack_PAD_TOP - stack_PAD_BOTTOM"

definition stack_width :: "nat \<Rightarrow> rat" where
  "stack_width n = min 64 (max 8 (bar_slot n * (5 / 10)))"

definition hAt :: "rat \<Rightarrow> rat \<Rightarrow> rat" where
  "hAt mx v = (if mx > 0 then v / mx * stack_plotH else 0)"

text \<open>The lower and the upper segment of every bar.\<close>

definition stacked_bars :: "stacked_category list \<Rightarrow> (svg_rect \<times> svg_rect) list" where
  "stacked_bars cs =
     (let n = length cs; mx = max_from 0 (map (\<lambda>c. ct_a c + ct_b c) cs); slot = bar_slot n; barW = stack_width n;
          baseline = stack_PAD_TOP + stack_plotH in
      mapi (\<lambda>i c.
        let cx = of_nat i * slot + slot / 2; x = cx - barW / 2; hA = hAt mx (ct_a c); hB = hAt mx (ct_b c);
            yA = baseline - hA; yB = yA - hB
        in (\<lparr>rc_x = x, rc_y = yA, rc_width = barW, rc_height = hA\<rparr>, \<lparr>rc_x = x, rc_y = yB, rc_width = barW, rc_height = hB\<rparr>)) cs)"

definition stacked_bar_chart ::
  "(rat \<Rightarrow> jsstr) \<Rightarrow> stacked_category list \<Rightarrow> jsstr \<times> jsstr \<Rightarrow> jsstr \<times> jsstr \<Rightarrow> jsstr \<Rightarrow> 'e vnode"
where
  "stacked_bar_chart num cs a b ariaLabel =
     El ''figure'' []
       [El ''svg'' [Attr ''role'' (lat ''img''), Attr ''aria-label'' ariaLabel]
          (svg_line num 0 VIEW_W (stack_PAD_TOP + stack_plotH) #
           map2 (\<lambda>c (rA, rB).
             El ''g'' []
               (shown (rc_height rA > 0) [svg_rect_view num rA (lat ''2'') (fst a) (ct_label c @ lat '' '' @ [183] @ lat '' '' @ snd a @ lat '': '' @ num (ct_a c))]
                @ shown (rc_height rB > 0) [svg_rect_view num rB (lat ''2'') (fst b) (ct_label c @ lat '' '' @ [183] @ lat '' '' @ snd b @ lat '': '' @ num (ct_b c))]
                @ [El ''text'' [Attr ''x'' (num (rc_x rA + rc_width rA / 2)), Attr ''y'' (num (stack_VIEW_H - 8))] [Txt (ct_label c)]]))
             cs (stacked_bars cs)),
        El ''ul'' [] [El ''li'' [] [Txt (snd a)], El ''li'' [] [Txt (snd b)]]]"

section \<open>DonutChart.tsx\<close>

record donut_slice =
  sl_label :: jsstr
  sl_value :: rat
  sl_color :: jsstr

record donut_segment =
  sg_color :: jsstr
  sg_dash :: rat
  sg_gap :: rat
  sg_offset :: rat

definition donut_total :: "donut_slice list \<Rightarrow> rat" where
  "donut_total ss = fold (\<lambda>s sum. sum + sl_value s) ss 0"

primrec donut_arcs :: "rat \<Rightarrow> rat \<Rightarrow> rat \<Rightarrow> donut_slice list \<Rightarrow> donut_segment list" where
  "donut_arcs circ tot acc [] = []"
| "donut_arcs circ tot acc (s # ss) =
     (let frac = sl_value s / tot in
      \<lparr>sg_color = sl_color s, sg_dash = frac * circ, sg_gap = circ - frac * circ, sg_offset = - acc * circ\<rparr>
      # donut_arcs circ tot (acc + frac) ss)"

definition donut_segments :: "rat \<Rightarrow> donut_slice list \<Rightarrow> donut_segment list" where
  "donut_segments circ ss =
     (let tot = donut_total ss in
      if tot > 0 then donut_arcs circ tot 0 (filter (\<lambda>s. sl_value s > 0) ss) else [])"

definition donut_pct :: "donut_slice list \<Rightarrow> donut_slice \<Rightarrow> int" where
  "donut_pct ss s = (let tot = donut_total ss in if tot > 0 then math_round (sl_value s / tot * 100) else 0)"

definition donut_chart :: "rat \<Rightarrow> (rat \<Rightarrow> jsstr) \<Rightarrow> donut_slice list \<Rightarrow> jsstr \<Rightarrow> jsstr \<Rightarrow> 'e vnode list" where
  "donut_chart circ num ss ariaLabel centerCaption =
     [El ''svg'' [Attr ''role'' (lat ''img''), Attr ''aria-label'' ariaLabel]
        ([El ''circle'' [Attr ''r'' (lat ''48'')] []]
         @ map (\<lambda>g. El ''circle'' [Attr ''r'' (lat ''48''), Attr ''stroke'' (sg_color g),
              Attr ''strokeDasharray'' (num (sg_dash g) @ lat '' '' @ num (sg_gap g)), Attr ''strokeDashoffset'' (num (sg_offset g))] [])
            (donut_segments circ ss)
         @ [El ''text'' [] [Txt (num (donut_total ss))]]
         @ shown (centerCaption \<noteq> []) [El ''text'' [] [Txt centerCaption]]),
      El ''ul'' [] (map (\<lambda>s. El ''li'' [] [Txt (sl_label s), Txt (num (sl_value s)), Txt (lat ''('' @ int_str (donut_pct ss s) @ lat ''%)'')]) ss)]"

section \<open>The four cards of the home page\<close>

text \<open>
  Every card owns one load with its cancellation flag: the effect starts it, the answer is dropped once the effect has run
  again. \<open>kept\<close> is what the card keeps of the response.
\<close>

record 'a fetched =
  ft_data :: 'a
  ft_loading :: bool
  ft_error :: "jsstr option"
  ft_loader :: loader

definition fetch_mount :: "'a \<Rightarrow> 'a fetched" where
  "fetch_mount v0 = \<lparr>ft_data = v0, ft_loading = True, ft_error = None, ft_loader = rerun_effect new_loader\<rparr>"

definition refetch :: "'a fetched \<Rightarrow> 'a fetched" where
  "refetch s = s\<lparr>ft_loading := True, ft_error := None, ft_loader := rerun_effect (ft_loader s)\<rparr>"

definition fetch_settled :: "jsstr \<Rightarrow> ('r \<Rightarrow> 'a) \<Rightarrow> nat \<Rightarrow> (js_thrown + 'r) \<Rightarrow> 'a fetched \<Rightarrow> 'a fetched" where
  "fetch_settled msg kept t r s =
     (if \<not> live t (ft_loader s) then s
      else (case r of Inr res \<Rightarrow> s\<lparr>ft_data := kept res\<rparr> | Inl err \<Rightarrow> s\<lparr>ft_error := Some (toFriendlyError err msg)\<rparr>)\<lparr>ft_loading := False\<rparr>)"

interpretation admin_fetch: guarded_settle ft_loader "fetch_settled msg kept"
  by unfold_locales (auto simp: fetch_settled_def split: sum.split)

definition empty_note :: "jsstr \<Rightarrow> 'e vnode list" where
  "empty_note s = [El ''p'' [] [Txt s]]"

definition fetched_view :: "jsstr \<Rightarrow> 'a fetched \<Rightarrow> 'e vnode list \<Rightarrow> 'e vnode list" where
  "fetched_view busy s content =
     (if ft_loading s then [El ''Spinner'' [] [Txt busy]]
      else if or_else (ft_error s) [] \<noteq> [] then [El ''Alert'' [] [Txt (or_else (ft_error s) [])]]
      else content)"

definition ADMIN_PERIODS :: "(analytics_period \<times> jsstr) list" where
  "ADMIN_PERIODS = [(An_week, (heb ''yaer'')), (An_month, (heb ''gecy'')), (An_all, (heb ''dkel''))]"

text \<open>\<open>TrendsCard.tsx\<close>.\<close>

record trend_point =
  tp_day :: jsstr
  tp_active_count :: nat
  tp_mrr :: rat

definition trends_settled :: "nat \<Rightarrow> (js_thrown + trend_point list) \<Rightarrow> trend_point list fetched \<Rightarrow> trend_point list fetched" where
  "trends_settled = fetch_settled ((heb ''hripz dnbnez pkyld. pqe yea.'')) id"

definition trends_card ::
  "(rat \<Rightarrow> jsstr) \<Rightarrow> (jsstr option \<Rightarrow> jsstr) \<Rightarrow> (rat option \<Rightarrow> jsstr) \<Rightarrow> trend_point list fetched \<Rightarrow> 'e vnode list"
where
  "trends_card num shortDay money s =
     (let ps = ft_data s in
      [El ''h3'' [] [Txt ((heb ''nbnez tlhtexnd''))]]
      @ (if length ps > 0 then [Txt (lat ''MRR''), Txt (money (Some (tp_mrr (last ps)))), Txt ((heb ''trilim'')), Txt (nat_str (tp_active_count (last ps)))] else [])
      @ fetched_view ((heb ''hero nbnez'') @ [8230]) s
          (if length ps = 0 then empty_note ((heb ''rciio @io pzepi nbnd. dpzepim pvaxim iem'') @ [8209] @ (heb ''iem nxbr ddtrld eietire k@o adnyj.''))
           else [line_chart num shortDay num False (map tp_day ps)
             [\<lparr>ls_values = map tp_mrr ps, ls_color = lat ''#1D9E75'', ls_name = lat ''MRR'', ls_dashed = False\<rparr>,
              \<lparr>ls_values = map (of_nat \<circ> tp_active_count) ps, ls_color = lat ''#534AB7'', ls_name = (heb ''trilim''), ls_dashed = True\<rparr>]
             ((heb ''nbnz dkpqd gecyiz enqtx rqwim trilim l@exj '') @ nat_str (length ps) @ (heb '' inim''))]))"

text \<open>\<open>LeadsByTypeCard.tsx\<close>; \<open>None\<close> before the first answer.\<close>

record leads_by_type =
  lt_booking :: nat
  lt_lead :: nat
  lt_handoff :: nat

record 'a period_card = "'a fetched" +
  pc_period :: analytics_period

definition period_mount :: "'a \<Rightarrow> 'a period_card" where
  "period_mount v0 =
     \<lparr>ft_data = v0, ft_loading = True, ft_error = None, ft_loader = rerun_effect new_loader, pc_period = An_month\<rparr>"

definition pick_period :: "analytics_period \<Rightarrow> 'a period_card \<Rightarrow> 'a period_card" where
  "pick_period p s =
     (if p = pc_period s then s
      else s\<lparr>pc_period := p, ft_loading := True, ft_error := None, ft_loader := rerun_effect (ft_loader s)\<rparr>)"

definition period_settled :: "jsstr \<Rightarrow> nat \<Rightarrow> (js_thrown + 'a) \<Rightarrow> 'a period_card \<Rightarrow> 'a period_card" where
  "period_settled msg t r s =
     (if \<not> live t (ft_loader s) then s
      else (case r of Inr res \<Rightarrow> s\<lparr>ft_data := res\<rparr> | Inl err \<Rightarrow> s\<lparr>ft_error := Some (toFriendlyError err msg)\<rparr>)\<lparr>ft_loading := False\<rparr>)"

interpretation admin_period: guarded_settle ft_loader "period_settled msg"
  by unfold_locales (auto simp: period_settled_def split: sum.split)

definition leads_by_type_request :: "leads_by_type option period_card \<Rightarrow> http_request" where
  "leads_by_type_request s = getLeadsByType (Some (pc_period s)) None"

definition LEAD_TYPE_META :: "(jsstr \<times> jsstr) list" where
  "LEAD_TYPE_META = [((heb ''tbiyd''), lat ''#378ADD''), ((heb ''lic''), lat ''#639922''), ((heb ''pvib''), lat ''#D85A30'')]"

definition leads_total :: "leads_by_type option \<Rightarrow> nat" where
  "leads_total d = (case d of None \<Rightarrow> 0 | Some x \<Rightarrow> lt_booking x + lt_lead x + lt_handoff x)"

definition leads_slices :: "leads_by_type \<Rightarrow> donut_slice list" where
  "leads_slices d =
     map2 (\<lambda>(l, c) v. \<lparr>sl_label = l, sl_value = of_nat v, sl_color = c\<rparr>) LEAD_TYPE_META [lt_booking d, lt_lead d, lt_handoff d]"

definition leads_by_type_card :: "rat \<Rightarrow> (rat \<Rightarrow> jsstr) \<Rightarrow> leads_by_type option period_card \<Rightarrow> analytics_period vnode list" where
  "leads_by_type_card circ num s =
     [El ''h3'' [] [Txt ((heb ''licim lti qeb''))], segmented_control ADMIN_PERIODS (pc_period s) id]
     @ fetched_view ((heb ''hero qebi licim'') @ [8230]) (fetched.truncate s)
         (case ft_data s of
            None \<Rightarrow> empty_note ((heb ''@io licim aheeg ypagx.''))
          | Some d \<Rightarrow>
              (if leads_total (Some d) > 0
               then donut_chart circ num (leads_slices d)
                 ((heb ''licim lti qeb: tbiyd '') @ nat_str (lt_booking d) @ (heb '', lic '') @ nat_str (lt_lead d) @ (heb '', pvib '') @ nat_str (lt_handoff d))
                 ((heb ''qd'' @ [1524] @ heb ''k''))
               else empty_note ((heb ''@io licim aheeg ypagx.''))))"

text \<open>\<open>ByPlanCard.tsx\<close>: two series merged by plan code.\<close>

definition by_plan_requests :: "((jsstr \<times> rat) list \<times> (jsstr \<times> rat) list) period_card \<Rightarrow> http_request list" where
  "by_plan_requests s = [getByPlan M_msg_in (Some (pc_period s)), getByPlan M_msg_out (Some (pc_period s))]"

definition plan_codes :: "(jsstr \<times> rat) list \<Rightarrow> jsstr list" where
  "plan_codes rows = fold (\<lambda>r codes. if fst r \<in> set codes then codes else codes @ [fst r]) rows []"

text \<open>\<open>new Map(rows)\<close>: the last row of a code counts.\<close>

definition plan_value :: "(jsstr \<times> rat) list \<Rightarrow> jsstr \<Rightarrow> rat" where
  "plan_value rows code = (case map_of (rev rows) code of None \<Rightarrow> 0 | Some v \<Rightarrow> v)"

definition plan_categories :: "(jsstr \<times> rat) list \<Rightarrow> (jsstr \<times> rat) list \<Rightarrow> stacked_category list" where
  "plan_categories ins outs =
     map (\<lambda>c. \<lparr>ct_label = planCodeLabel c, ct_a = plan_value ins c, ct_b = plan_value outs c\<rparr>) (plan_codes (ins @ outs))"

definition by_plan_card :: "(rat \<Rightarrow> jsstr) \<Rightarrow> ((jsstr \<times> rat) list \<times> (jsstr \<times> rat) list) period_card \<Rightarrow> analytics_period vnode list" where
  "by_plan_card num s =
     (let cats = plan_categories (fst (ft_data s)) (snd (ft_data s)) in
      [El ''h3'' [] [Txt ((heb ''decrez lti zekpiz''))], segmented_control ADMIN_PERIODS (pc_period s) id]
      @ fetched_view ((heb ''hero tileg lti zekpiz'') @ [8230]) (fetched.truncate s)
          (if list_ex (\<lambda>c. ct_a c + ct_b c > 0) cats
           then [stacked_bar_chart num cats (lat ''#378ADD'', (heb ''pkpqez'')) (lat ''#1D9E75'', (heb ''iev@ez''))
             ((heb ''decrez pkpqez eiev@ez lti zekpiz npei''))]
           else empty_note ((heb ''@io pzepi decrez aheeg ypagx.''))))"

text \<open>\<open>AiOpsCard.tsx\<close>.\<close>

definition ai_ops_settled :: "nat \<Rightarrow> (js_thrown + chart_point list) \<Rightarrow> chart_point list fetched \<Rightarrow> chart_point list fetched" where
  "ai_ops_settled = fetch_settled ((heb ''hripz trelez d'') @ [8209] @ (heb ''AI pkyld. pqe yea.'')) id"

definition points_total :: "chart_point list \<Rightarrow> rat" where
  "points_total ps = fold (\<lambda>p sum. sum + pt_value p) ps 0"

definition ai_ops_card :: "(rat \<Rightarrow> jsstr) \<Rightarrow> (jsstr \<Rightarrow> jsstr) \<Rightarrow> chart_point list fetched \<Rightarrow> 'e vnode list" where
  "ai_ops_card num shortDay s =
     (let ps = ft_data s; tot = num (points_total ps) in
      [El ''h3'' [] [Txt ((heb ''trelez AI liem''))], Txt tot]
      @ fetched_view ((heb ''hero trelez AI'') @ [8230]) s
          (if length ps > 0
           then [usage_bar_chart num shortDay ps (lat ''#534AB7'') ((heb ''trelez AI liem: qj '') @ tot @ (heb '' l@exj dzwetd''))]
           else empty_note ((heb ''rciio @io trelez AI nzercez. dqtixd nvhaxz wcind.''))))"

section \<open>UsageSection.tsx\<close>

datatype usage_window = W_30 | W_90
datatype chart_mode = Bars | Cumulative

fun window_days :: "usage_window \<Rightarrow> nat" where
  "window_days W_30 = 30"
| "window_days W_90 = 90"

record usage_day =
  ud_day :: jsstr
  ud_metrics :: "(usage_metric \<times> rat) list"

record usage = "usage_day list fetched" +
  us_days :: usage_window
  us_mode :: chart_mode
  us_from :: jsstr
  us_to :: jsstr

definition toYmd :: "civil \<Rightarrow> jsstr" where
  "toYmd d = year_str (year d) @ [45] @ pad_start 2 48 (nat_str (month0 d + 1)) @ [45] @ pad_start 2 48 (nat_str (day d))"

text \<open>The window of \<open>days\<close> calendar days that ends today.\<close>

definition usage_range :: "civil \<Rightarrow> usage_window \<Rightarrow> jsstr \<times> jsstr" where
  "usage_range today d = (toYmd (plus_days today (- (int (window_days d) - 1))), toYmd today)"

definition usage_mount :: "civil \<Rightarrow> usage" where
  "usage_mount today =
     \<lparr>ft_data = [], ft_loading = True, ft_error = None, ft_loader = rerun_effect new_loader, us_days = W_30, us_mode = Bars,
      us_from = fst (usage_range today W_30), us_to = snd (usage_range today W_30)\<rparr>"

text \<open>The window is computed when the choice changes, and the effect runs when the window changed.\<close>

definition setDays :: "civil \<Rightarrow> usage_window \<Rightarrow> usage \<Rightarrow> usage" where
  "setDays today d s =
     (if d = us_days s then s
      else
        (let s1 = s\<lparr>us_days := d, us_from := fst (usage_range today d), us_to := snd (usage_range today d)\<rparr> in
         if us_from s1 = us_from s \<and> us_to s1 = us_to s then s1
         else s1\<lparr>ft_loading := True, ft_error := None, ft_loader := rerun_effect (ft_loader s)\<rparr>))"

definition setMode :: "chart_mode \<Rightarrow> usage \<Rightarrow> usage" where
  "setMode m s = s\<lparr>us_mode := m\<rparr>"

definition usage_request :: "jsstr \<Rightarrow> usage \<Rightarrow> http_request option" where
  "usage_request businessId s = getUsage businessId (us_from s) (us_to s)"

definition usage_settled :: "nat \<Rightarrow> (js_thrown + usage_day list) \<Rightarrow> usage \<Rightarrow> usage" where
  "usage_settled t r s =
     (if \<not> live t (ft_loader s) then s
      else (case r of
              Inr res \<Rightarrow> s\<lparr>ft_data := res\<rparr>
            | Inl err \<Rightarrow> s\<lparr>ft_error := Some (toFriendlyError err ((heb ''hripz pzepi dyiney pkyld. pqe yea.'')))\<rparr>)\<lparr>ft_loading := False\<rparr>)"

interpretation admin_usage: guarded_settle ft_loader usage_settled
  by unfold_locales (auto simp: usage_settled_def split: sum.split)

record metric_chart =
  mc_metric :: usage_metric
  mc_points :: "chart_point list"
  mc_cumulative :: "rat list"
  mc_total :: rat

primrec running :: "rat \<Rightarrow> rat list \<Rightarrow> rat list \<times> rat" where
  "running run [] = ([], run)"
| "running run (v # vs) = (let r = running (run + v) vs in ((run + v) # fst r, snd r))"

definition metric_points :: "usage_day list \<Rightarrow> usage_metric \<Rightarrow> chart_point list" where
  "metric_points series m =
     map (\<lambda>d. \<lparr>pt_day = ud_day d, pt_value = (case map_of (ud_metrics d) m of None \<Rightarrow> 0 | Some v \<Rightarrow> v)\<rparr>) series"

definition usage_charts :: "usage_day list \<Rightarrow> metric_chart list" where
  "usage_charts series =
     map (\<lambda>m. let ps = metric_points series m; r = running 0 (map pt_value ps) in
       \<lparr>mc_metric = m, mc_points = ps, mc_cumulative = fst r, mc_total = snd r\<rparr>) METRIC_ORDER"

datatype usage_ui = Us_days usage_window | Us_mode chart_mode

definition usage_card ::
  "(rat \<Rightarrow> jsstr) \<Rightarrow> (jsstr \<Rightarrow> jsstr) \<Rightarrow> (jsstr option \<Rightarrow> jsstr) \<Rightarrow> usage \<Rightarrow> metric_chart \<Rightarrow> 'e vnode"
where
  "usage_card num shortDate shortDay s c =
     (let label = fst (METRIC_META (mc_metric c)); color = snd (METRIC_META (mc_metric c)); tot = num (mc_total c);
          days = nat_str (window_days (us_days s))
      in El ''Card'' []
        ([El ''h3'' [] [Txt label], Txt tot]
         @ (case us_mode s of
              Bars \<Rightarrow> [usage_bar_chart num (\<lambda>d. shortDay (Some d)) (mc_points c) color (label @ (heb '': qj '') @ tot @ (heb '' l@exj '') @ days @ (heb '' dinim d@gxepim''))]
            | Cumulative \<Rightarrow>
                [line_chart num shortDay num True (map pt_day (mc_points c))
                   [\<lparr>ls_values = mc_cumulative c, ls_color = color, ls_name = label, ls_dashed = False\<rparr>]
                   (label @ (heb '': nvhax l-'') @ tot @ (heb '' l@exj '') @ days @ (heb '' dinim d@gxepim'')),
                 El ''div'' [Attr ''dir'' (lat ''ltr'')] [Txt (shortDate (us_from s)), Txt (shortDate (us_to s))]])))"

definition usage_view :: "(rat \<Rightarrow> jsstr) \<Rightarrow> (jsstr \<Rightarrow> jsstr) \<Rightarrow> (jsstr option \<Rightarrow> jsstr) \<Rightarrow> usage \<Rightarrow> usage_ui vnode list" where
  "usage_view num shortDate shortDay s =
     [El ''h2'' [] [Txt ((heb ''pzepi yiney''))],
      segmented_control [(Bars, (heb ''nwlez'')), (Cumulative, (heb ''nvhax''))] (us_mode s) Us_mode,
      segmented_control [(W_30, (heb ''30 inim'')), (W_90, (heb ''90 inim''))] (us_days s) Us_days]
     @ fetched_view ((heb ''hero pzepi yiney'') @ [8230]) (fetched.truncate s)
         (map (usage_card num shortDate shortDay s) (usage_charts (ft_data s)))"

section \<open>Laws of the charts\<close>

lemma max_from_ge: "m \<le> max_from m xs \<and> (\<forall>v \<in> set xs. v \<le> max_from m xs)"
proof (induction xs arbitrary: m)
  case (Cons x xs)
  from Cons.IH [of "max m x"] show ?case by (simp add: max_from_def)
qed (simp add: max_from_def)

lemma max_from_reached: "max_from m xs = m \<or> max_from m xs \<in> set xs"
proof (induction xs arbitrary: m)
  case (Cons x xs)
  from Cons.IH [of "max m x"] show ?case by (auto simp: max_from_def max_def split: if_splits)
qed (simp add: max_from_def)

lemma share_bounds: "0 \<le> v \<Longrightarrow> v \<le> mx \<Longrightarrow> 0 < mx \<Longrightarrow> 0 \<le> h \<Longrightarrow> 0 \<le> v / mx * h \<and> v / mx * (h::rat) \<le> h"
  using mult_right_mono [of "v / mx" 1 h] by simp

lemma slot_fits: "i < n \<Longrightarrow> 0 \<le> of_nat i * bar_slot n \<and> of_nat i * bar_slot n + bar_slot n \<le> VIEW_W \<and> 0 < bar_slot n"
proof -
  assume i: "i < n"
  then have "of_nat (Suc i) * bar_slot n \<le> of_nat n * bar_slot n"
    by (intro mult_right_mono) (auto simp: bar_slot_def VIEW_W_def)
  moreover have "of_nat n * bar_slot n = VIEW_W" using i by (simp add: bar_slot_def)
  ultimately show ?thesis using i by (auto simp: bar_slot_def VIEW_W_def field_simps)
qed

lemma bar_width_slot: "0 < n \<Longrightarrow> n \<le> 210 \<Longrightarrow> 0 < bar_width n \<and> bar_width n \<le> bar_slot n"
proof -
  assume n: "0 < n" "n \<le> 210"
  then have "(of_nat n :: rat) \<le> 210" by simp
  with n show ?thesis by (auto simp: bar_width_def bar_slot_def VIEW_W_def field_simps max_def)
qed

text \<open>
  The bars of a chart of up to 210 days (the windows are 30 and 90) with counts that are not negative stay
  inside the drawing and stand on its base line; no bar touches the slot of the next; bars compare as their values do, and
  unless all counts are zero the tallest bar fills the height.
\<close>

theorem bars_in_the_box:
  assumes "length ps \<le> 210" "\<forall>p \<in> set ps. 0 \<le> pt_value p" "i < length ps"
  shows "0 \<le> rc_x (usage_bars ps ! i) \<and> rc_x (usage_bars ps ! i) + rc_width (usage_bars ps ! i) \<le> VIEW_W
    \<and> 0 \<le> rc_y (usage_bars ps ! i) \<and> 0 \<le> rc_height (usage_bars ps ! i)
    \<and> rc_y (usage_bars ps ! i) + rc_height (usage_bars ps ! i) = usableH
    \<and> (Suc i < length ps \<longrightarrow> rc_x (usage_bars ps ! i) + rc_width (usage_bars ps ! i) \<le> rc_x (usage_bars ps ! Suc i))
    \<and> (\<forall>j < length ps. rc_height (usage_bars ps ! i) \<le> rc_height (usage_bars ps ! j) \<longleftrightarrow> pt_value (ps ! i) \<le> pt_value (ps ! j))
    \<and> (0 < pt_value (ps ! i) \<longrightarrow> (\<exists>j < length ps. rc_height (usage_bars ps ! j) = usableH))"
proof -
  define mx where "mx = max_from 0 (map pt_value ps)"
  define n where "n = length ps"
  have b: "usage_bars ps ! j = (let h = (if mx > 0 then pt_value (ps ! j) / mx * usableH else 0) in
      \<lparr>rc_x = of_nat j * bar_slot n + (bar_slot n - bar_width n) / 2, rc_y = usableH - h, rc_width = bar_width n, rc_height = h\<rparr>)"
    if "j < length ps" for j
    using that by (simp add: usage_bars_def mx_def n_def Let_def)
  have v: "0 \<le> pt_value (ps ! j) \<and> pt_value (ps ! j) \<le> mx" if "j < length ps" for j
    using assms(2) that max_from_ge [of 0 "map pt_value ps"] by (auto simp: mx_def)
  have u: "0 < usableH" by (simp add: usableH_def bar_VIEW_H_def bar_PAD_BOTTOM_def)
  have w: "0 < bar_width n \<and> bar_width n \<le> bar_slot n" using assms(1,3) by (intro bar_width_slot) (auto simp: n_def)
  have h: "0 \<le> rc_height (usage_bars ps ! j) \<and> rc_height (usage_bars ps ! j) \<le> usableH" if "j < length ps" for j
    using share_bounds [of "pt_value (ps ! j)" mx usableH] v [OF that] u by (auto simp: b [OF that] Let_def)
  have cmp: "rc_height (usage_bars ps ! i) \<le> rc_height (usage_bars ps ! j) \<longleftrightarrow> pt_value (ps ! i) \<le> pt_value (ps ! j)" if j: "j < length ps" for j
  proof (cases "0 < mx")
    case True
    with u show ?thesis by (simp add: b [OF j] b [OF assms(3)] Let_def divide_right_mono field_simps)
  next
    case False
    with v [OF j] v [OF assms(3)] show ?thesis by (simp add: b [OF j] b [OF assms(3)] Let_def)
  qed
  have "\<exists>j < length ps. rc_height (usage_bars ps ! j) = usableH" if "0 < pt_value (ps ! i)"
  proof -
    have "0 < mx" using that v [OF assms(3)] by linarith
    moreover from this obtain j where "j < length ps" "pt_value (ps ! j) = mx"
      using max_from_reached [of 0 "map pt_value ps"] by (auto simp: mx_def in_set_conv_nth)
    ultimately show ?thesis by (auto simp: b Let_def)
  qed
  moreover have "rc_x (usage_bars ps ! i) + rc_width (usage_bars ps ! i) \<le> rc_x (usage_bars ps ! Suc i)" if "Suc i < length ps"
    using w by (simp add: b that assms(3) Let_def field_simps)
  moreover have "0 \<le> rc_x (usage_bars ps ! i) \<and> rc_x (usage_bars ps ! i) + rc_width (usage_bars ps ! i) \<le> VIEW_W"
  proof -
    obtain q where q: "q = of_nat i * bar_slot n" "0 \<le> q" "q + bar_slot n \<le> VIEW_W"
      using slot_fits [of i n] assms(3) by (auto simp: n_def)
    have "rc_x (usage_bars ps ! i) = q + (bar_slot n - bar_width n) / 2" "rc_width (usage_bars ps ! i) = bar_width n"
      by (simp_all add: b assms(3) Let_def q(1))
    with q(2,3) w show ?thesis by (simp add: field_simps)
  qed
  ultimately show ?thesis using h [OF assms(3)] cmp by (simp add: b assms(3) Let_def)
qed

definition three_days :: "chart_point list" where
  "three_days = [\<lparr>pt_day = [], pt_value = 2\<rparr>, \<lparr>pt_day = [], pt_value = 4\<rparr>, \<lparr>pt_day = [], pt_value = 0\<rparr>]"

theorem bars_in_the_box_witness:
  "rc_x (usage_bars three_days ! 0) + rc_width (usage_bars three_days ! 0) \<le> rc_x (usage_bars three_days ! 1)
   \<and> rc_height (usage_bars three_days ! 0) \<le> rc_height (usage_bars three_days ! 1)"
  using bars_in_the_box [of three_days 0] by (simp add: three_days_def)

text \<open>A line stays inside the plot, its largest value at the top.\<close>

lemma line_in_the_plot:
  assumes "s \<in> set ss" "v \<in> set (ls_values s)" "0 \<le> v" "i < n"
  shows "line_PAD_TOP \<le> yAt (line_max ss) v \<and> yAt (line_max ss) v \<le> line_PAD_TOP + plotH
    \<and> PAD_X \<le> xAt n (int i) \<and> xAt n (int i) \<le> VIEW_W - PAD_X"
proof -
  have "m \<le> fold (\<lambda>s m. max_from m (ls_values s)) ss m
      \<and> (\<forall>s \<in> set ss. \<forall>v \<in> set (ls_values s). v \<le> fold (\<lambda>s m. max_from m (ls_values s)) ss m)" for ss :: "line_series list" and m
  proof (induction ss arbitrary: m)
    case (Cons s ss)
    from Cons.IH [of "max_from m (ls_values s)"] max_from_ge [of m "ls_values s"] show ?case by force
  qed simp
  from this [of 0 ss] assms have v: "0 \<le> v" "v \<le> line_max ss" by (auto simp: line_max_def)
  have p: "0 \<le> plotH" by (simp add: plotH_def line_VIEW_H_def line_PAD_TOP_def line_PAD_BOTTOM_def)
  have "0 \<le> v / line_max ss * plotH \<and> v / line_max ss * plotH \<le> plotH" if "0 < line_max ss"
    using share_bounds v that p by blast
  moreover have "0 \<le> (of_int (int i) :: rat) / of_nat (n - 1) * plotW \<and> (of_int (int i) :: rat) / of_nat (n - 1) * plotW \<le> plotW" if "1 < n"
    using assms(4) that by (intro share_bounds) (auto simp: plotW_def VIEW_W_def PAD_X_def of_nat_diff)
  ultimately show ?thesis using p
    by (auto simp: yAt_def xAt_def plotW_def VIEW_W_def PAD_X_def)
qed

text \<open>A stacked bar: the upper segment stands on the lower one, and the two never leave the plot.\<close>

lemma stack_in_the_plot:
  assumes "\<forall>c \<in> set cs. 0 \<le> ct_a c \<and> 0 \<le> ct_b c" "i < length cs"
  shows "case stacked_bars cs ! i of (rA, rB) \<Rightarrow>
    stack_PAD_TOP \<le> rc_y rB \<and> rc_y rB + rc_height rB = rc_y rA \<and> rc_y rA + rc_height rA = stack_PAD_TOP + stack_plotH
    \<and> 0 \<le> rc_height rA \<and> 0 \<le> rc_height rB"
proof -
  let ?mx = "max_from 0 (map (\<lambda>c. ct_a c + ct_b c) cs)"
  have c: "0 \<le> ct_a (cs ! i)" "0 \<le> ct_b (cs ! i)" using assms by (auto dest: nth_mem)
  have m: "ct_a (cs ! i) + ct_b (cs ! i) \<le> ?mx" using max_from_ge [of 0 "map (\<lambda>c. ct_a c + ct_b c) cs"] assms(2) by auto
  have p: "0 \<le> stack_plotH" by (simp add: stack_plotH_def stack_VIEW_H_def stack_PAD_TOP_def stack_PAD_BOTTOM_def)
  have h: "0 \<le> hAt ?mx v \<and> hAt ?mx v \<le> stack_plotH" if "0 \<le> v" "v \<le> ?mx" for v
    using share_bounds [of v ?mx stack_plotH] that p by (auto simp: hAt_def)
  have "hAt ?mx (ct_a (cs ! i)) + hAt ?mx (ct_b (cs ! i)) = hAt ?mx (ct_a (cs ! i) + ct_b (cs ! i))"
    by (simp add: hAt_def algebra_simps add_divide_distrib)
  with h [of "ct_a (cs ! i) + ct_b (cs ! i)"] c m
  have "hAt ?mx (ct_a (cs ! i)) + hAt ?mx (ct_b (cs ! i)) \<le> stack_plotH" by simp
  moreover have "0 \<le> hAt ?mx (ct_a (cs ! i))" "0 \<le> hAt ?mx (ct_b (cs ! i))" using h c m by auto
  moreover define A B where "A = hAt ?mx (ct_a (cs ! i))" and "B = hAt ?mx (ct_b (cs ! i))"
  ultimately have "0 \<le> A" "0 \<le> B" "A + B \<le> stack_plotH" by simp_all
  then show ?thesis
    by (simp add: stacked_bars_def Let_def assms(2) A_def [symmetric] B_def [symmetric])
qed

lemma fold_sum: "fold (\<lambda>s sum. sum + f s) xs a = a + sum_list (map f xs)" for a :: rat
  by (induction xs arbitrary: a) (simp_all add: add.assoc)

lemma donut_total_sum: "donut_total ss = sum_list (map sl_value ss)"
  by (simp add: donut_total_def fold_sum)

lemma arcs_dash: "sum_list (map sg_dash (donut_arcs circ tot acc ss)) = sum_list (map sl_value ss) / tot * circ"
  by (induction ss arbitrary: acc) (simp_all add: Let_def add_divide_distrib algebra_simps)

lemma sum_positive: "\<forall>s \<in> set ss. 0 \<le> sl_value s \<Longrightarrow> sum_list (map sl_value (filter (\<lambda>s. sl_value s > 0) ss)) = sum_list (map sl_value ss)"
  by (induction ss) auto

text \<open>The arcs of a ring with anything in it add up to its circumference.\<close>

lemma ring_closes:
  "\<forall>s \<in> set ss. 0 \<le> sl_value s \<Longrightarrow> 0 < donut_total ss \<Longrightarrow> sum_list (map sg_dash (donut_segments circ ss)) = circ"
  by (simp add: donut_segments_def Let_def arcs_dash sum_positive donut_total_sum)

lemma running_sums: "fst (running a vs) = map (\<lambda>k. a + sum_list (take (Suc k) vs)) [0..<length vs] \<and> snd (running a vs) = a + sum_list vs"
proof (induction vs arbitrary: a)
  case (Cons v vs)
  have "[0..<length (v # vs)] = 0 # map Suc [0..<length vs]" by (simp add: upt_conv_Cons map_Suc_upt del: upt_Suc)
  with Cons.IH [of "a + v"] show ?case by (simp add: Let_def o_def add.assoc)
qed simp

text \<open>
  The usage section has one chart per metric, a metric a day does not report counts as zero, and both ways of
  reading agree: after day \<open>k\<close> the climbing line is at the sum of the first bars, it ends at the total of the card, and it
  never goes down where no count is negative.
\<close>

theorem usage_readings_agree:
  assumes "c \<in> set (usage_charts series)"
  shows "mc_points c = metric_points series (mc_metric c)
    \<and> length (mc_cumulative c) = length series
    \<and> mc_total c = sum_list (map pt_value (mc_points c))
    \<and> (\<forall>k < length series. mc_cumulative c ! k = sum_list (take (Suc k) (map pt_value (mc_points c))))
    \<and> (series \<noteq> [] \<longrightarrow> last (mc_cumulative c) = mc_total c)
    \<and> ((\<forall>p \<in> set (mc_points c). 0 \<le> pt_value p) \<longrightarrow> sorted (mc_cumulative c))"
proof -
  have p: "mc_points c = metric_points series (mc_metric c)" and l: "length (mc_points c) = length series"
    and cum: "mc_cumulative c = map (\<lambda>k. sum_list (take (Suc k) (map pt_value (mc_points c)))) [0..<length series]"
    and tot: "mc_total c = sum_list (map pt_value (mc_points c))"
    using assms running_sums by (auto simp: usage_charts_def Let_def metric_points_def)
  have "last (mc_cumulative c) = mc_total c" if "series \<noteq> []"
    using that l by (simp add: cum tot last_conv_nth)
  moreover have "sorted (mc_cumulative c)" if "\<forall>p \<in> set (mc_points c). 0 \<le> pt_value p"
  proof -
    have "sum_list (take (Suc k) (map pt_value (mc_points c))) \<le> sum_list (take (Suc (Suc k)) (map pt_value (mc_points c)))"
      if "Suc k < length series" for k
      using that \<open>\<forall>p \<in> set (mc_points c). 0 \<le> pt_value p\<close> l by (simp add: take_Suc_conv_app_nth [of "Suc k"])
    then show ?thesis by (simp add: cum sorted_iff_nth_Suc)
  qed
  ultimately show ?thesis using p cum tot by simp
qed

definition busy_day :: usage_day where
  "busy_day = \<lparr>ud_day = [], ud_metrics = [(M_lead, 3), (M_login, 1)]\<rparr>"

theorem usage_readings_agree_witness:
  "let c = usage_charts [busy_day, busy_day] ! 2 in mc_metric c = M_lead \<and> mc_total c = 6 \<and> last (mc_cumulative c) = mc_total c"
proof -
  let ?c = "usage_charts [busy_day, busy_day] ! 2"
  have "?c \<in> set (usage_charts [busy_day, busy_day])" by (intro nth_mem) (simp add: usage_charts_def METRIC_ORDER_def)
  from usage_readings_agree [OF this] have "mc_total ?c = sum_list (map pt_value (mc_points ?c))"
    and "mc_points ?c = metric_points [busy_day, busy_day] (mc_metric ?c)" and "last (mc_cumulative ?c) = mc_total ?c"
    by simp_all
  moreover have "mc_metric ?c = M_lead" by (simp add: usage_charts_def METRIC_ORDER_def Let_def)
  ultimately show ?thesis by (simp add: metric_points_def busy_day_def)
qed

lemma plan_codes_fold:
  "fold (\<lambda>r codes. if fst r \<in> set codes then codes else codes @ [fst r]) rows cs = cs @ filter (\<lambda>c. c \<notin> set cs) (plan_codes rows)
   \<and> set (plan_codes rows) = fst ` set rows \<and> distinct (plan_codes rows)"
proof (induction rows arbitrary: cs rule: rev_induct)
  case (snoc r rows)
  have s: "set (plan_codes rows) = fst ` set rows" "distinct (plan_codes rows)" using snoc.IH by blast+
  have "plan_codes (rows @ [r]) = (if fst r \<in> set (plan_codes rows) then plan_codes rows else plan_codes rows @ [fst r])"
    by (simp add: plan_codes_def)
  with s snoc.IH [of cs] show ?case by auto
qed (simp add: plan_codes_def)

text \<open>
  The merged bars: one per plan code of either series, and when a series names each plan once, its segments add up to it.
\<close>

lemma plan_bars_account:
  assumes "distinct (map fst ins)" "distinct (map fst outs)"
  shows "distinct (plan_codes (ins @ outs)) \<and> length (plan_categories ins outs) = card (fst ` (set ins \<union> set outs))
    \<and> sum_list (map ct_a (plan_categories ins outs)) = sum_list (map snd ins)
    \<and> sum_list (map ct_b (plan_categories ins outs)) = sum_list (map snd outs)"
proof -
  let ?cs = "plan_codes (ins @ outs)"
  have c: "set ?cs = fst ` (set ins \<union> set outs)" "distinct ?cs" using plan_codes_fold [of "ins @ outs"] by auto
  have "sum_list (map (plan_value rows) ?cs) = sum_list (map snd rows)"
    if d: "distinct (map fst rows)" and sub: "fst ` set rows \<subseteq> set ?cs" for rows
  proof -
    have val: "plan_value rows k = v" if "(k, v) \<in> set rows" for k v
    proof -
      have "map_of (rev rows) k = Some v" using that d by (intro map_of_is_SomeI) (simp_all add: rev_map [symmetric])
      then show ?thesis by (simp add: plan_value_def)
    qed
    have zero: "plan_value rows k = 0" if "k \<notin> fst ` set rows" for k
      using that by (simp add: plan_value_def map_of_eq_None_iff [THEN iffD2])
    have "sum_list (map (plan_value rows) ?cs) = sum (plan_value rows) (set ?cs)" using c(2) by (simp add: sum_list_distinct_conv_sum_set)
    also have "\<dots> = sum (plan_value rows) (set (map fst rows))" using sub zero by (intro sum.mono_neutral_right) auto
    also have "\<dots> = sum_list (map (plan_value rows) (map fst rows))" by (rule sum_list_distinct_conv_sum_set [OF d, symmetric])
    also have "map (plan_value rows) (map fst rows) = map snd rows" using val by auto
    finally show ?thesis .
  qed
  with assms c show ?thesis by (simp add: plan_categories_def o_def distinct_card [symmetric] image_Un)
qed

text \<open>The window asked for has the chosen number of days and ends today.\<close>

lemma usage_window_days: "valid_civil today \<Longrightarrow>
  day_num today - day_num (plus_days today (- (int (window_days d) - 1))) + 1 = int (window_days d)"
  using plus_days_valid by simp

end
