(* ===== verification/AdminPages.thy ===== *)
theory AdminPages
  imports AdminCharts Home
begin

text \<open>
  The pages of the back office beside the board: \<open>components/admin/BusinessesTable.tsx\<close>, \<open>pages/admin/BusinessesList.tsx\<close>,
  \<open>BusinessDetail.tsx\<close>, \<open>AdminHome.tsx\<close> and \<open>AdminBilling.tsx\<close>.
\<close>

section \<open>BusinessesTable.tsx\<close>

record business_row =
  br_id :: jsstr
  br_name :: "jsstr option"
  br_owner_email :: "jsstr option"
  br_created_at :: "jsstr option"
  br_last_login_at :: "jsstr option"
  br_plan_code :: jsstr
  br_status :: subscription_status
  br_leads_count :: nat
  br_msgs_30d :: nat

definition or_dash :: "jsstr option \<Rightarrow> jsstr" where
  "or_dash v = (if or_else v [] = [] then [8212] else or_else v [])"

text \<open>\<open>local\<close> prints a valid timestamp and is \<open>None\<close> for an invalid one.\<close>

definition table_shortDate :: "(jsstr \<Rightarrow> jsstr option) \<Rightarrow> jsstr option \<Rightarrow> jsstr" where
  "table_shortDate local stamp =
     (if or_else stamp [] = [] then [8212] else (case local (or_else stamp []) of None \<Rightarrow> [8212] | Some t \<Rightarrow> t))"

definition table_planLabel :: "(rat \<Rightarrow> jsstr) \<Rightarrow> plan_row list \<Rightarrow> jsstr \<Rightarrow> jsstr" where
  "table_planLabel num plans code =
     (case find (\<lambda>p. pn_code p = code) plans of None \<Rightarrow> code | Some p \<Rightarrow> plan_label num p)"

definition business_href :: "jsstr \<Rightarrow> jsstr option" where
  "business_href i = map_option (\<lambda>e. lat ''/admin/businesses/'' @ e) (encodeURIComponent i)"

definition business_link :: "jsstr \<Rightarrow> jsstr option \<Rightarrow> 'e vnode option" where
  "business_link i name =
     map_option (\<lambda>h. El ''a'' [Attr ''href'' h] [Txt (if or_else name [] = [] then (heb ''ll@ ym'') else or_else name [])]) (business_href i)"

definition table_card :: "(rat \<Rightarrow> jsstr) \<Rightarrow> (jsstr \<Rightarrow> jsstr option) \<Rightarrow> plan_row list \<Rightarrow> business_row \<Rightarrow> 'e vnode option" where
  "table_card num local plans r =
     map_option (\<lambda>a. El ''li'' []
       ([a, status_pill (br_status r)]
        @ shown (or_else (br_owner_email r) [] \<noteq> []) [Txt (or_else (br_owner_email r) [])]
        @ [Txt ((heb ''pxym'')), Txt (table_shortDate local (br_created_at r)), Txt ((heb ''kpiqd @gxepd'')), Txt (table_shortDate local (br_last_login_at r)),
           Txt ((heb ''licim'')), Txt (nat_str (br_leads_count r)), Txt ((heb ''decrez (30 inim)'')), Txt (nat_str (br_msgs_30d r)),
           Txt ((heb ''npei'')), Txt (table_planLabel num plans (br_plan_code r))]))
     (business_link (br_id r) (br_name r))"

definition table_row :: "(rat \<Rightarrow> jsstr) \<Rightarrow> (jsstr \<Rightarrow> jsstr option) \<Rightarrow> plan_row list \<Rightarrow> business_row \<Rightarrow> 'e vnode option" where
  "table_row num local plans r =
     map_option (\<lambda>a. El ''tr'' []
       [El ''td'' [] [a], El ''td'' [] [Txt (or_dash (br_owner_email r))],
        El ''td'' [] [Txt (table_shortDate local (br_created_at r))], El ''td'' [] [Txt (table_shortDate local (br_last_login_at r))],
        El ''td'' [] [Txt (table_planLabel num plans (br_plan_code r))], El ''td'' [] [status_pill (br_status r)],
        El ''td'' [] [Txt (nat_str (br_leads_count r))], El ''td'' [] [Txt (nat_str (br_msgs_30d r))]])
     (business_link (br_id r) (br_name r))"

text \<open>The list of cards and the table are both rendered; the stylesheet shows one of them. \<open>None\<close>: an id that cannot be encoded throws.\<close>

definition businesses_table ::
  "(rat \<Rightarrow> jsstr) \<Rightarrow> (jsstr \<Rightarrow> jsstr option) \<Rightarrow> business_row list \<Rightarrow> plan_row list \<Rightarrow> jsstr \<Rightarrow> 'e vnode list option"
where
  "businesses_table num local rows plans caption =
     (case all_rendered (map (table_card num local plans) rows) of
        None \<Rightarrow> None
      | Some cards \<Rightarrow>
          map_option (\<lambda>trs.
            [El ''ul'' [Attr ''aria-label'' caption] cards,
             El ''table'' [] ([El ''caption'' [] [Txt caption], El ''thead'' [] (map (\<lambda>h. El ''th'' [] [Txt h])
               [(heb ''ym drqw''), (heb ''@iniil arlim''), (heb ''pxym''), (heb ''kpiqd @gxepd''), (heb ''npei''), (heb ''qhheq''), (heb ''licim''), (heb ''decrez (30 inim)'')])] @ trs)])
          (all_rendered (map (table_row num local plans) rows)))"

section \<open>BusinessesList.tsx\<close>

definition PAGE_SIZE :: int where "PAGE_SIZE = 50"

text \<open>\<open>bl_timer\<close> is the pending debounce timer with the text its closure holds.\<close>

record businesses_list =
  bl_searchInput :: jsstr
  bl_search :: jsstr
  bl_offset :: int
  bl_rows :: "business_row list"
  bl_plans :: "plan_row list"
  bl_loading :: bool
  bl_error :: "jsstr option"
  bl_timer :: "jsstr option"
  bl_loader :: loader

definition list_request :: "businesses_list \<Rightarrow> http_request" where
  "list_request s = listBusinesses (if bl_search s = [] then None else Some (bl_search s)) (Some PAGE_SIZE) (Some (bl_offset s))"

text \<open>The first render after its effects: the debounce timer of the empty box, and the first load.\<close>

definition list_mount :: businesses_list where
  "list_mount =
     \<lparr>bl_searchInput = [], bl_search = [], bl_offset = 0, bl_rows = [], bl_plans = [], bl_loading = True, bl_error = None,
      bl_timer = Some [], bl_loader = rerun_effect new_loader\<rparr>"

text \<open>The effect of the list: it runs again when the search or the page changed.\<close>

definition list_effect :: "businesses_list \<Rightarrow> businesses_list \<Rightarrow> businesses_list \<times> http_request option" where
  "list_effect old s =
     (if bl_search s = bl_search old \<and> bl_offset s = bl_offset old then (s, None)
      else (s\<lparr>bl_loading := True, bl_error := None, bl_loader := rerun_effect (bl_loader s)\<rparr>, Some (list_request s)))"

datatype list_ui = Li_search jsstr | Li_prev | Li_next

definition on_list :: "list_ui \<Rightarrow> businesses_list \<Rightarrow> businesses_list \<times> http_request option" where
  "on_list e s =
     (case e of
        Li_search x \<Rightarrow> ((if x = bl_searchInput s then s else s\<lparr>bl_searchInput := x, bl_timer := Some x\<rparr>), None)
      | Li_prev \<Rightarrow> list_effect s (s\<lparr>bl_offset := max 0 (bl_offset s - PAGE_SIZE)\<rparr>)
      | Li_next \<Rightarrow> list_effect s (s\<lparr>bl_offset := bl_offset s + PAGE_SIZE\<rparr>))"

definition list_timer :: "businesses_list \<Rightarrow> businesses_list \<times> http_request option" where
  "list_timer s =
     (case bl_timer s of
        None \<Rightarrow> (s, None)
      | Some x \<Rightarrow> list_effect s (s\<lparr>bl_timer := None, bl_search := trim x, bl_offset := 0\<rparr>))"

definition list_settled :: "nat \<Rightarrow> (js_thrown + business_row list) \<Rightarrow> businesses_list \<Rightarrow> businesses_list" where
  "list_settled t r s =
     (if \<not> live t (bl_loader s) then s
      else
        (case r of
           Inr rows \<Rightarrow> s\<lparr>bl_rows := rows\<rparr>
         | Inl err \<Rightarrow> s\<lparr>bl_error := Some (toFriendlyError err ((heb ''hripz drqwim pkyld. pqe yea.'')))\<rparr>)\<lparr>bl_loading := False\<rparr>)"

interpretation list_loads: guarded_settle bl_loader list_settled
  by unfold_locales (auto simp: list_settled_def split: sum.split)

definition plans_settled :: "(js_thrown + plan_row list) \<Rightarrow> businesses_list \<Rightarrow> businesses_list" where
  "plans_settled r s = s\<lparr>bl_plans := (case r of Inr ps \<Rightarrow> ps | Inl err \<Rightarrow> [])\<rparr>"

definition list_page :: "businesses_list \<Rightarrow> int" where
  "list_page s = bl_offset s div PAGE_SIZE + 1"

definition hasNext :: "businesses_list \<Rightarrow> bool" where
  "hasNext s \<longleftrightarrow> int (length (bl_rows s)) = PAGE_SIZE"

definition hasPrev :: "businesses_list \<Rightarrow> bool" where
  "hasPrev s \<longleftrightarrow> bl_offset s > 0"

definition list_view :: "(rat \<Rightarrow> jsstr) \<Rightarrow> (jsstr \<Rightarrow> jsstr option) \<Rightarrow> businesses_list \<Rightarrow> list_ui vnode list option" where
  "list_view num local s =
     map_option (\<lambda>content.
       [El ''h1'' [] [Txt ((heb ''kl drqwim''))], El ''a'' [Attr ''href'' (lat ''/admin'')] [Txt ((heb ''gfxd lpidel''))],
        field_view ((heb ''gitey rqw'')) (bl_searchInput s) Li_search]
       @ content
       @ shown (or_else (bl_error s) [] = [] \<and> (hasPrev s \<or> hasNext s))
           [El ''nav'' []
              [El ''button'' [Disabled (\<not> hasPrev s \<or> bl_loading s), on_click Li_prev] [Txt ((heb ''dwecm''))],
               El ''span'' [] [Txt ((heb ''rnec '') @ int_str (list_page s))],
               El ''button'' [Disabled (\<not> hasNext s \<or> bl_loading s), on_click Li_next] [Txt ((heb ''da@''))]]])
     (if bl_loading s then Some [El ''Spinner'' [] [Txt ((heb ''hero rqwim'') @ [8230])]]
      else if or_else (bl_error s) [] \<noteq> [] then Some [El ''Alert'' [] [Txt (or_else (bl_error s) [])]]
      else if length (bl_rows s) > 0 then businesses_table num local (bl_rows s) (bl_plans s) ((heb ''kl drqwim atlhtexnd''))
      else Some (empty_note (if bl_search s \<noteq> [] then (heb ''l@ pnv@e rqwim yze@nim lgitey.'') else (heb ''@io rciio rqwim ldvbd.''))))"

section \<open>BusinessDetail.tsx\<close>

record crm_summary =
  cs_stage :: crm_stage
  cs_last_contacted_at :: "jsstr option"
  cs_next_followup_at :: "jsstr option"

record business_profile =
  bp_id :: jsstr
  bp_name :: "jsstr option"
  bp_type :: "jsstr option"
  bp_owner_email :: "jsstr option"
  bp_created_at :: "jsstr option"
  bp_last_login_at :: "jsstr option"
  bp_plan_code :: jsstr
  bp_status :: subscription_status
  bp_is_active :: bool
  bp_wa_status :: "jsstr option"
  bp_leads_count :: nat
  bp_msgs_30d :: nat
  bp_ltv_estimate :: "rat option"
  bp_ai_calls :: "nat option"
  bp_crm :: "crm_summary option"

record business_detail =
  bd_business :: "business_profile option"
  bd_plans :: "plan_row list"
  bd_loading :: bool
  bd_notFound :: bool
  bd_error :: "jsstr option"
  bd_confirmOpen :: bool
  bd_confirmText :: jsstr
  bd_deleting :: bool
  bd_deleteError :: "jsstr option"
  bd_loader :: loader

definition detail_mount :: business_detail where
  "detail_mount =
     \<lparr>bd_business = None, bd_plans = [], bd_loading = True, bd_notFound = False, bd_error = None, bd_confirmOpen = False,
      bd_confirmText = [], bd_deleting = False, bd_deleteError = None, bd_loader = rerun_effect new_loader\<rparr>"

definition detail_requests :: "jsstr \<Rightarrow> http_request list option" where
  "detail_requests i = map_option (\<lambda>r. [r, getPlans]) (getBusiness i)"

definition is_api_status :: "nat \<Rightarrow> js_thrown \<Rightarrow> bool" where
  "is_api_status n err \<longleftrightarrow> (case err of ThrownApi e \<Rightarrow> err_status e = n | ThrownOther m \<Rightarrow> False)"

definition detail_settled :: "nat \<Rightarrow> (js_thrown + business_profile \<times> plan_row list) \<Rightarrow> business_detail \<Rightarrow> business_detail" where
  "detail_settled t r s =
     (if \<not> live t (bd_loader s) then s
      else
        (case r of
           Inr (b, ps) \<Rightarrow> s\<lparr>bd_business := Some b, bd_plans := ps\<rparr>
         | Inl err \<Rightarrow>
             (if is_api_status 404 err then s\<lparr>bd_notFound := True\<rparr>
              else s\<lparr>bd_error := Some (toFriendlyError err ((heb ''hripz txhi drqw pkyld. pqe yea.'')))\<rparr>))\<lparr>bd_loading := False\<rparr>)"

interpretation detail_loads: guarded_settle bd_loader detail_settled
  by unfold_locales (auto simp: detail_settled_def split: sum.split prod.split)

text \<open>The id of the address changed: the effect runs again.\<close>

definition detail_other_id :: "business_detail \<Rightarrow> business_detail" where
  "detail_other_id s = s\<lparr>bd_loading := True, bd_error := None, bd_notFound := False, bd_loader := rerun_effect (bd_loader s)\<rparr>"

definition handleSaved :: "jsstr \<times> subscription_status \<times> bool \<Rightarrow> business_detail \<Rightarrow> business_detail" where
  "handleSaved res s =
     s\<lparr>bd_business := map_option (\<lambda>b. b\<lparr>bp_plan_code := fst res, bp_status := fst (snd res), bp_is_active := snd (snd res)\<rparr>) (bd_business s)\<rparr>"

definition handleCrmChanged :: "crm_stage \<times> jsstr option \<Rightarrow> business_detail \<Rightarrow> business_detail" where
  "handleCrmChanged new s =
     s\<lparr>bd_business := map_option (\<lambda>b.
         let base = (case bp_crm b of Some c \<Rightarrow> c
                     | None \<Rightarrow> \<lparr>cs_stage = fst new, cs_last_contacted_at = None, cs_next_followup_at = snd new\<rparr>)
         in b\<lparr>bp_crm := Some (base\<lparr>cs_stage := fst new, cs_next_followup_at := snd new\<rparr>)\<rparr>) (bd_business s)\<rparr>"

text \<open>\<open>deleteBusiness\<close> throws inside the \<open>try\<close> when the id cannot be encoded.\<close>

definition delete_refused :: "js_thrown \<Rightarrow> business_detail \<Rightarrow> business_detail" where
  "delete_refused err s =
     s\<lparr>bd_deleteError := Some (if is_api_status 400 err then (heb ''@i @tyx lngew @z drqw ynweyx lgyaeo ylj.'')
                             else toFriendlyError err ((heb ''ngiwz drqw pkyld. pqe yea.''))),
       bd_deleting := False\<rparr>"

definition handleDelete :: "business_detail \<Rightarrow> business_detail \<times> http_request option" where
  "handleDelete s =
     (case bd_business s of
        None \<Rightarrow> (s, None)
      | Some b \<Rightarrow>
          (let s1 = s\<lparr>bd_deleting := True, bd_deleteError := None\<rparr>
           in case deleteBusiness (bp_id b) of
                None \<Rightarrow> (delete_refused (ThrownOther (lat ''URIError'')) s1, None)
              | Some rq \<Rightarrow> (s1, Some rq)))"

text \<open>The second component is where the page navigates.\<close>

definition business_deleted :: "js_thrown option \<Rightarrow> business_detail \<Rightarrow> business_detail \<times> jsstr option" where
  "business_deleted r s =
     (case r of None \<Rightarrow> (s, Some (lat ''/admin/businesses'')) | Some err \<Rightarrow> (delete_refused err s, None))"

definition detail_planLabel :: "(rat \<Rightarrow> jsstr) \<Rightarrow> plan_row list \<Rightarrow> business_profile \<Rightarrow> jsstr" where
  "detail_planLabel num plans b =
     (case find (\<lambda>p. pn_code p = bp_plan_code b) plans of None \<Rightarrow> bp_plan_code b | Some p \<Rightarrow> plan_label num p)"

definition fact :: "jsstr \<Rightarrow> jsstr option \<Rightarrow> 'e vnode" where
  "fact label v = El ''div'' [] [El ''dt'' [] [Txt label], El ''dd'' [] [Txt (or_dash v)]]"

text \<open>The word to type: the name without its margins, or a fixed word for a business without a name.\<close>

definition confirm_word :: "business_profile \<Rightarrow> jsstr" where
  "confirm_word b = (let n = trim (or_else (bp_name b) []) in if n = [] then (heb ''ngw'') else n)"

datatype detail_ui =
    Bz_sub sub_ui | Bz_crm crm_ui | Bz_usage usage_ui
  | Bz_ask | Bz_close | Bz_text jsstr | Bz_cancel | Bz_delete

definition on_danger :: "detail_ui \<Rightarrow> business_detail \<Rightarrow> business_detail \<times> http_request option" where
  "on_danger e s =
     (case e of
        Bz_ask \<Rightarrow> (s\<lparr>bd_confirmText := [], bd_deleteError := None, bd_confirmOpen := True\<rparr>, None)
      | Bz_close \<Rightarrow> ((if bd_deleting s then s else s\<lparr>bd_confirmOpen := False\<rparr>), None)
      | Bz_text x \<Rightarrow> (s\<lparr>bd_confirmText := x\<rparr>, None)
      | Bz_cancel \<Rightarrow> (s\<lparr>bd_confirmOpen := False\<rparr>, None)
      | Bz_delete \<Rightarrow> handleDelete s
      | _ \<Rightarrow> (s, None))"

definition danger_dialog :: "business_profile \<Rightarrow> business_detail \<Rightarrow> detail_ui vnode list" where
  "danger_dialog b s =
     modal (bd_confirmOpen s) ((heb ''ngiwz rqw '') @ [8212] @ (heb '' treld alzi dtikd'')) Bz_close
       ([Txt ((heb ''dtreld zngw lvnizez @z '')), Txt (if or_else (bp_name b) [] = [] then (heb ''drqw'') else or_else (bp_name b) []),
         Txt ((heb '' e@z kl dpzepim yle. kci l@yx, dwlc/i '')), Txt ([34] @ confirm_word b @ [34]),
         El ''input'' [Attr ''value'' (bd_confirmText s), Attr ''placeholder'' (confirm_word b), On (\<lambda>e. \<exists>x. e = Bz_text x)] []]
        @ shown (or_else (bd_deleteError s) [] \<noteq> []) [El ''Alert'' [] [Txt (or_else (bd_deleteError s) [])]]
        @ [El ''button'' [on_click Bz_cancel, Disabled (bd_deleting s)] [Txt ((heb ''aihel''))],
           El ''button'' [on_click Bz_delete, Disabled (bd_deleting s \<or> trim (bd_confirmText s) \<noteq> confirm_word b)]
             [Txt (if bd_deleting s then (heb ''negw'') @ [8230] else (heb ''ngw lvnizez''))]])"

definition detail_header ::
  "(rat \<Rightarrow> jsstr) \<Rightarrow> (jsstr option \<Rightarrow> jsstr) \<Rightarrow> (rat option \<Rightarrow> jsstr) \<Rightarrow> plan_row list \<Rightarrow> business_profile \<Rightarrow> 'e vnode list"
where
  "detail_header num full money plans b =
     (let day = (\<lambda>v. if or_else v [] = [] then None else Some (full v)) in
      [El ''h1'' [] [Txt (if or_else (bp_name b) [] = [] then (heb ''rqw ll@ ym'') else or_else (bp_name b) [])]]
      @ shown (or_else (bp_owner_email b) [] \<noteq> []) [El ''p'' [] [Txt (or_else (bp_owner_email b) [])]]
      @ [status_pill (bp_status b), fact ((heb ''qeb rqw'')) (bp_type b), fact ((heb ''npei'')) (Some (detail_planLabel num plans b)),
         fact ((heb ''giaex ee@hq@t'')) (bp_wa_status b), fact ((heb ''pxym'')) (day (bp_created_at b)), fact ((heb ''kpiqd @gxepd'')) (day (bp_last_login_at b)),
         fact ((heb ''licim'')) (Some (nat_str (bp_leads_count b))), fact ((heb ''decrez (30 inim)'')) (Some (nat_str (bp_msgs_30d b))),
         fact ((heb ''LTV (drxkd)'')) (map_option (\<lambda>v. money (Some v)) (bp_ltv_estimate b)),
         fact ((heb ''trelez AI'')) (map_option nat_str (bp_ai_calls b))])"

text \<open>The props of the two panels.\<close>

definition crm_props :: "business_profile \<Rightarrow> crm_stage \<times> jsstr option" where
  "crm_props b = (case bp_crm b of None \<Rightarrow> (Cs_new, None) | Some c \<Rightarrow> (cs_stage c, cs_next_followup_at c))"

definition detail_view ::
  "(rat \<Rightarrow> jsstr) \<Rightarrow> (jsstr \<Rightarrow> civil option) \<Rightarrow> (jsstr option \<Rightarrow> jsstr) \<Rightarrow> (rat option \<Rightarrow> jsstr)
   \<Rightarrow> subscription_panel \<Rightarrow> crm_panel \<Rightarrow> usage_ui vnode list \<Rightarrow> business_detail \<Rightarrow> detail_ui vnode list"
where
  "detail_view num ld full money sub crm uses s =
     [El ''a'' [Attr ''href'' (lat ''/admin/businesses'')] [Txt ((heb ''gfxd lxyinz drqwim''))]]
     @ (if bd_loading s then [El ''Spinner'' [] [Txt ((heb ''hero txhi rqw'') @ [8230])]]
        else if bd_notFound s then [El ''Alert'' [] [Txt ((heb ''drqw dnaewy l@ pnv@. iizko ydeqx.''))]]
        else if or_else (bd_error s) [] \<noteq> [] then [El ''Alert'' [] [Txt (or_else (bd_error s) [])]]
        else
          (case bd_business s of
             None \<Rightarrow> []
           | Some b \<Rightarrow>
               [El ''Card'' [] (detail_header num full money (bd_plans s) b)]
               @ map (view_in Bz_sub) (sub_view num (bd_plans s) (bp_plan_code b) (bp_status b) sub)
               @ [El ''Card'' [] ([El ''h2'' [] [Txt ((heb ''nkixez (CRM)''))]]
                    @ map (view_in Bz_crm) (crm_view ld full (fst (crm_props b)) (snd (crm_props b)) crm))]
               @ map (view_in Bz_usage) uses
               @ [El ''Card'' [] [El ''h2'' [] [Txt ((heb ''@fex nqeko''))],
                    El ''button'' [on_click Bz_ask] [Txt ((heb ''ngiwz drqw''))]]]
               @ danger_dialog b s))"

section \<open>AdminHome.tsx\<close>

record admin_overview =
  ov_total_businesses :: nat
  ov_active_count :: nat
  ov_suspended_count :: nat
  ov_cancelled_count :: nat
  ov_new_7d :: nat
  ov_total_leads :: nat
  ov_msgs_today :: nat
  ov_msgs_month :: nat
  ov_avg_ltv :: "rat option"

record admin_home =
  ah_overview :: "admin_overview option"
  ah_loading :: bool
  ah_error :: "jsstr option"
  ah_recent :: "business_row list"
  ah_plans :: "plan_row list"

definition admin_mount :: admin_home where
  "admin_mount = \<lparr>ah_overview = None, ah_loading = True, ah_error = None, ah_recent = [], ah_plans = []\<rparr>"

definition admin_home_requests :: "http_request list" where
  "admin_home_requests = [getOverview, listBusinesses None (Some 8) None, getPlans]"

definition overview_settled :: "(js_thrown + admin_overview) \<Rightarrow> admin_home \<Rightarrow> admin_home" where
  "overview_settled r s =
     (case r of Inr ov \<Rightarrow> s\<lparr>ah_overview := Some ov\<rparr>
      | Inl err \<Rightarrow> s\<lparr>ah_error := Some (toFriendlyError err ((heb ''hripz dpzepim pkyld. pqe yea.'')))\<rparr>)\<lparr>ah_loading := False\<rparr>"

definition newest_settled :: "(js_thrown + business_row list \<times> plan_row list) \<Rightarrow> admin_home \<Rightarrow> admin_home" where
  "newest_settled r s =
     (case r of Inr (rows, ps) \<Rightarrow> s\<lparr>ah_recent := rows, ah_plans := ps\<rparr> | Inl err \<Rightarrow> s\<lparr>ah_recent := [], ah_plans := []\<rparr>)"

definition overview_cards :: "(rat option \<Rightarrow> jsstr) \<Rightarrow> admin_overview \<Rightarrow> 'e vnode list" where
  "overview_cards money ov =
     [stat_card (ov_total_businesses ov) ((heb ''qj rqwim'')), stat_card (ov_active_count ov) ((heb ''trilim'')), stat_card (ov_suspended_count ov) ((heb ''neydim'')),
      stat_card (ov_cancelled_count ov) ((heb ''naehlim'')), stat_card (ov_new_7d ov) ((heb ''gcyim dyaer'')), stat_card (ov_total_leads ov) ((heb ''qj licim'')),
      stat_card (ov_msgs_today ov) ((heb ''decrez diem'')), stat_card (ov_msgs_month ov) ((heb ''decrez dgecy'')),
      El ''div'' [] [Txt (money (ov_avg_ltv ov)), Txt ((heb ''LTV nnevr (drxkd)''))]]"

text \<open>\<open>analytics\<close>: the four cards, each with its own state.\<close>

definition admin_home_view ::
  "(rat \<Rightarrow> jsstr) \<Rightarrow> (jsstr \<Rightarrow> jsstr option) \<Rightarrow> (rat option \<Rightarrow> jsstr) \<Rightarrow> 'e vnode list \<Rightarrow> admin_home \<Rightarrow> 'e vnode list option"
where
  "admin_home_view num local money analytics s =
     map_option (\<lambda>tbl.
       [El ''h1'' [] [Txt ((heb ''pidel dtlhtexnd''))], El ''h2'' [] [Txt ((heb ''qikem tlhtexnd''))]]
       @ (if ah_loading s then [El ''Spinner'' [] [Txt ((heb ''hero pzepim'') @ [8230])]]
          else if or_else (ah_error s) [] \<noteq> [] then [El ''Alert'' [] [Txt (or_else (ah_error s) [])]]
          else (case ah_overview s of None \<Rightarrow> [] | Some ov \<Rightarrow> overview_cards money ov))
       @ [El ''h2'' [] [Txt ((heb ''@plihiwd''))], El ''div'' [] analytics,
          El ''h2'' [] [Txt ((heb ''rqwim @gxepim''))], El ''a'' [Attr ''href'' (lat ''/admin/businesses'')] [Txt ((heb ''kl drqwim''))]]
       @ tbl)
     (if length (ah_recent s) > 0 then businesses_table num local (ah_recent s) (ah_plans s) ((heb ''drqwim ypxyne l@gxepd''))
      else Some (shown (\<not> ah_loading s) (empty_note ((heb ''@io rciio rqwim ldvbd.'')))))"

section \<open>AdminBilling.tsx\<close>

record billing_row =
  bw_id :: jsstr
  bw_name :: "jsstr option"
  bw_plan_code :: jsstr
  bw_msg_in :: nat
  bw_msg_out :: nat
  bw_total :: nat

record billing_totals =
  bt_in :: nat
  bt_out :: nat
  bt_total :: nat

definition billing_mount :: "billing_row list period_card" where
  "billing_mount = period_mount []"

definition billing_request :: "billing_row list period_card \<Rightarrow> http_request" where
  "billing_request s = getMessagesByBusiness (Some (pc_period s))"

definition billing_settled :: "nat \<Rightarrow> (js_thrown + billing_row list) \<Rightarrow> billing_row list period_card \<Rightarrow> billing_row list period_card" where
  "billing_settled = period_settled ((heb ''hripz pzepi dgiea pkyld. pqe yea.''))"

definition totals :: "billing_row list \<Rightarrow> billing_totals" where
  "totals rows =
     fold (\<lambda>r acc. \<lparr>bt_in = bt_in acc + bw_msg_in r, bt_out = bt_out acc + bw_msg_out r, bt_total = bt_total acc + bw_total r\<rparr>)
       rows \<lparr>bt_in = 0, bt_out = 0, bt_total = 0\<rparr>"

definition billing_row_view :: "billing_row \<Rightarrow> 'e vnode option" where
  "billing_row_view r =
     map_option (\<lambda>a. El ''tr'' []
       [El ''td'' [] [a], El ''td'' [] [Txt (planCodeLabel (bw_plan_code r))], El ''td'' [] [Txt (nat_str (bw_msg_in r))],
        El ''td'' [] [Txt (nat_str (bw_msg_out r))], El ''td'' [] [Txt (nat_str (bw_total r))]])
     (business_link (bw_id r) (bw_name r))"

definition billing_view :: "(nat \<Rightarrow> jsstr) \<Rightarrow> billing_row list period_card \<Rightarrow> analytics_period vnode list option" where
  "billing_view grouped s =
     (let rows = ft_data s; t = totals rows; quiet = (\<not> ft_loading s \<and> or_else (ft_error s) [] = []) in
      map_option (\<lambda>content.
        [El ''h1'' [] [Txt ((heb ''yiney egiea''))], segmented_control ADMIN_PERIODS (pc_period s) id]
        @ shown (quiet \<and> length rows > 0) [Txt ((heb ''qj dtlhtexnd: '')), Txt (grouped (bt_total t)), Txt ((heb '' decrez''))]
        @ fetched_view ((heb ''hero pzepi giea'') @ [8230]) (fetched.truncate s) content)
      (if quiet \<and> length rows > 0
       then map_option (\<lambda>trs.
         [El ''table'' [] (trs @ [El ''tr'' [] [El ''td'' [] [Txt ((heb ''qj dkel''))], El ''td'' [] [Txt (nat_str (bt_in t))],
            El ''td'' [] [Txt (nat_str (bt_out t))], El ''td'' [] [Txt (nat_str (bt_total t))]]])])
         (all_rendered (map billing_row_view rows))
       else Some (empty_note ((heb ''@io pzepi decrez aheeg ypagx.'')))))"

section \<open>Runs of the list\<close>

text \<open>
  A run: the operator types and clicks what the view offers, the debounce timer fires, and the answers arrive in any order.
  \<open>rqs\<close> are the requests sent so far, \<open>ans t\<close> the answer of the \<open>t\<close>-th.
\<close>

inductive list_run :: "(nat \<Rightarrow> js_thrown + business_row list) \<Rightarrow> businesses_list \<Rightarrow> http_request list \<Rightarrow> bool"
  for ans where
  lr_mount: "list_run ans list_mount [list_request list_mount]"
| lr_ui: "list_run ans s rqs \<Longrightarrow> list_view num local s = Some v \<Longrightarrow> fires_any v e \<Longrightarrow>
    list_run ans (fst (on_list e s)) (rqs @ opt_list (snd (on_list e s)))"
| lr_timer: "list_run ans s rqs \<Longrightarrow> list_run ans (fst (list_timer s)) (rqs @ opt_list (snd (list_timer s)))"
| lr_answer: "list_run ans s rqs \<Longrightarrow> list_run ans (list_settled t (ans t) s) rqs"
| lr_plans: "list_run ans s rqs \<Longrightarrow> list_run ans (plans_settled r s) rqs"

definition settled_as :: "(js_thrown + business_row list) \<Rightarrow> businesses_list \<Rightarrow> bool" where
  "settled_as r s \<longleftrightarrow>
     (case r of
        Inr rows \<Rightarrow> bl_rows s = rows \<and> bl_error s = None
      | Inl err \<Rightarrow> bl_error s = Some (toFriendlyError err (heb ''hripz drqwim pkyld. pqe yea.'')))"

text \<open>Either the search is what was typed, or a timer holds what was typed.\<close>

definition typed_ok :: "jsstr option \<Rightarrow> jsstr \<Rightarrow> jsstr \<Rightarrow> bool" where
  "typed_ok tm search inp \<longleftrightarrow> (case tm of None \<Rightarrow> search = trim inp | Some x \<Rightarrow> x = inp)"

lemma typed_ok_simps [simp]:
  "typed_ok None search inp \<longleftrightarrow> search = trim inp"
  "typed_ok (Some x) search inp \<longleftrightarrow> x = inp"
  by (simp_all add: typed_ok_def)

definition list_inv :: "(nat \<Rightarrow> js_thrown + business_row list) \<Rightarrow> businesses_list \<Rightarrow> http_request list \<Rightarrow> bool" where
  "list_inv ans s rqs \<longleftrightarrow>
     (\<exists>k. bl_offset s = PAGE_SIZE * int k)
     \<and> rqs \<noteq> [] \<and> last rqs = list_request s
     \<and> next_tok (bl_loader s) = length rqs \<and> loader_ok (bl_loader s) \<and> cleanup (bl_loader s) = Some (length rqs - 1)
     \<and> (\<forall>t. live t (bl_loader s) \<longrightarrow> t = length rqs - 1)
     \<and> typed_ok (bl_timer s) (bl_search s) (bl_searchInput s)
     \<and> (bl_loading s \<longrightarrow> bl_error s = None) \<and> (\<not> bl_loading s \<longrightarrow> settled_as (ans (length rqs - 1)) s)"

lemma settled_as_same: "bl_rows s' = bl_rows s \<Longrightarrow> bl_error s' = bl_error s \<Longrightarrow> settled_as r s' = settled_as r s"
  by (simp add: settled_as_def split: sum.split)

lemma rerun_only_new:
  "\<forall>t. live t l \<longrightarrow> cleanup l = Some t \<Longrightarrow> live t (rerun_effect l) \<Longrightarrow> t = next_tok l"
  by (cases "t < next_tok l") (auto simp: rerun_effect_def run_cleanup_def begin_load_def live_def Let_def split: option.splits)

lemma list_effect_inv:
  assumes "list_inv ans s rqs" "bl_loader s' = bl_loader s" "bl_rows s' = bl_rows s" "bl_loading s' = bl_loading s" "bl_error s' = bl_error s"
    and "\<exists>k. bl_offset s' = PAGE_SIZE * int k"
    and "typed_ok (bl_timer s') (bl_search s') (bl_searchInput s')"
  shows "list_inv ans (fst (list_effect s s')) (rqs @ opt_list (snd (list_effect s s')))"
proof (cases "bl_search s' = bl_search s \<and> bl_offset s' = bl_offset s")
  case True
  then have "list_request s' = list_request s" by (simp add: list_request_def)
  with True assms show ?thesis
    by (simp add: list_effect_def list_inv_def settled_as_same [of s' s])
next
  case False
  have l: "\<forall>t. live t (bl_loader s) \<longrightarrow> cleanup (bl_loader s) = Some t" and n: "next_tok (bl_loader s) = length rqs" "loader_ok (bl_loader s)"
    using assms(1) by (auto simp: list_inv_def)
  have "list_request (s'\<lparr>bl_loading := x, bl_error := y, bl_loader := z\<rparr>) = list_request s'" for x y z
    by (simp add: list_request_def)
  with False assms(2,6,7) n rerun_only_new [OF l] show ?thesis
    by (auto simp: list_effect_def list_inv_def)
qed

lemma list_settled_fields:
  assumes "live t (bl_loader s)"
  shows "bl_loading (list_settled t r s) = False" "bl_loader (list_settled t r s) = bl_loader s"
    "bl_offset (list_settled t r s) = bl_offset s" "bl_search (list_settled t r s) = bl_search s"
    "bl_searchInput (list_settled t r s) = bl_searchInput s" "bl_timer (list_settled t r s) = bl_timer s"
    "bl_error s = None \<or> settled_as r s \<Longrightarrow> settled_as r (list_settled t r s)"
proof -
  have "list_settled t r s = (case r of Inr rows \<Rightarrow> s\<lparr>bl_rows := rows, bl_loading := False\<rparr>
      | Inl err \<Rightarrow> s\<lparr>bl_error := Some (toFriendlyError err (heb ''hripz drqwim pkyld. pqe yea.'')), bl_loading := False\<rparr>)"
    using assms by (simp add: list_settled_def split: sum.split)
  then show "bl_loading (list_settled t r s) = False" "bl_loader (list_settled t r s) = bl_loader s"
    "bl_offset (list_settled t r s) = bl_offset s" "bl_search (list_settled t r s) = bl_search s"
    "bl_searchInput (list_settled t r s) = bl_searchInput s" "bl_timer (list_settled t r s) = bl_timer s"
    "bl_error s = None \<or> settled_as r s \<Longrightarrow> settled_as r (list_settled t r s)"
    by (auto simp: settled_as_def split: sum.splits)
qed

lemma list_settled_inv:
  assumes i: "list_inv ans s rqs"
  shows "list_inv ans (list_settled t (ans t) s) rqs"
proof (cases "live t (bl_loader s)")
  case True
  with i have t: "t = length rqs - 1" by (simp add: list_inv_def)
  have e: "bl_error s = None \<or> settled_as (ans t) s" using i unfolding t list_inv_def by blast
  note f = list_settled_fields [OF True, of "ans t"]
  have "list_request (list_settled t (ans t) s) = list_request s" by (simp add: list_request_def f)
  with i f(7) [OF e] show ?thesis unfolding list_inv_def f t [symmetric] by simp
qed (simp add: list_loads.dead_ignored i)

lemma list_prev_page: "\<exists>k. offset = PAGE_SIZE * int k \<Longrightarrow> \<exists>k. max 0 (offset - PAGE_SIZE) = PAGE_SIZE * int k"
proof -
  assume "\<exists>k. offset = PAGE_SIZE * int k"
  then obtain k where "offset = PAGE_SIZE * int k" by blast
  then show ?thesis by (intro exI [of _ "k - 1"]) (auto simp: PAGE_SIZE_def of_nat_diff max_def)
qed

lemma list_next_page: "\<exists>k. offset = PAGE_SIZE * int k \<Longrightarrow> \<exists>k. offset + PAGE_SIZE = PAGE_SIZE * int k"
  by (metis mult.commute distrib_right mult_1 of_nat_1 of_nat_add)

lemma list_run_inv: "list_run ans s rqs \<Longrightarrow> list_inv ans s rqs"
proof (induction rule: list_run.induct)
  case lr_mount
  have "live t (rerun_effect new_loader) \<Longrightarrow> t = 0" for t by (simp add: live_def new_loader_def)
  moreover have "next_tok (rerun_effect new_loader) = 1" by (simp add: new_loader_def)
  moreover have "loader_ok (rerun_effect new_loader)" by simp
  ultimately show ?case
    by (simp add: list_inv_def list_mount_def exI [of _ 0])
next
  case (lr_ui s rqs num local v e)
  show ?case
  proof (cases e)
    case (Li_search x)
    with lr_ui(4) show ?thesis
      by (cases "x = bl_searchInput s") (simp_all add: on_list_def list_inv_def list_request_def settled_as_same [of "s\<lparr>bl_searchInput := x, bl_timer := Some x\<rparr>" s])
  next
    case Li_prev
    with lr_ui(4) show ?thesis
      by (simp add: on_list_def) (rule list_effect_inv, auto simp: list_inv_def list_prev_page)
  next
    case Li_next
    with lr_ui(4) show ?thesis
      by (simp add: on_list_def) (rule list_effect_inv, auto simp: list_inv_def list_next_page)
  qed
next
  case (lr_timer s rqs)
  show ?case
  proof (cases "bl_timer s")
    case None
    with lr_timer(2) show ?thesis by (simp add: list_timer_def opt_list_def)
  next
    case (Some x)
    with lr_timer(2) show ?thesis
      by (simp add: list_timer_def) (rule list_effect_inv, auto simp: list_inv_def intro: exI [of _ 0])
  qed
next
  case (lr_answer s rqs t)
  then show ?case by (simp add: list_settled_inv)
next
  case (lr_plans s rqs r)
  then show ?case 
    by (simp add: plans_settled_def list_inv_def list_request_def settled_as_same [of "s\<lparr>bl_plans := p\<rparr>" s for p])
qed

text \<open>
  Property C22. Whatever is typed, clicked and answered in whatever order: the list is at a page boundary, the last request
  sent is the one for the search and the page on screen, the search is the typed text once no timer is pending, and rows or
  an error that are shown are the answer to that last request. Backwards is offered only off the first page, onwards only
  from a full page, and neither while a page is loading.
\<close>

theorem list_shows_its_request:
  assumes "list_run ans s rqs"
  shows "(\<exists>k. bl_offset s = 50 * int k \<and> list_page s = int k + 1) \<and> rqs \<noteq> [] \<and> last rqs = list_request s
    \<and> (bl_timer s = None \<longrightarrow> bl_search s = trim (bl_searchInput s))
    \<and> (\<not> bl_loading s \<longrightarrow> settled_as (ans (length rqs - 1)) s)
    \<and> (\<forall>num local v. list_view num local s = Some v \<longrightarrow>
         (fires_any v Li_prev \<longrightarrow> 50 \<le> bl_offset s \<and> \<not> bl_loading s)
         \<and> (fires_any v Li_next \<longrightarrow> length (bl_rows s) = 50 \<and> \<not> bl_loading s))"
proof -
  have i: "list_inv ans s rqs" using assms by (rule list_run_inv)
  then obtain k where k: "bl_offset s = 50 * int k" by (auto simp: list_inv_def PAGE_SIZE_def)
  have table: "\<not> fires_any v e" if "businesses_table num local rows ps cap = Some v" for num local rows ps cap v and e :: list_ui
  proof -
    have c: "fires_any cards e = False" if "all_rendered (map (table_card num local ps) rows) = Some cards" for cards
      unfolding fires_all_rendered [OF that] by (auto simp: table_card_def business_link_def status_pill_def)
    have r: "fires_any trs e = False" if "all_rendered (map (table_row num local ps) rows) = Some trs" for trs
      unfolding fires_all_rendered [OF that] by (auto simp: table_row_def business_link_def status_pill_def)
    show ?thesis using that c r by (auto simp: businesses_table_def fires_any_map split: option.splits)
  qed
  have "(fires_any v Li_prev \<longrightarrow> 0 < bl_offset s \<and> \<not> bl_loading s) \<and> (fires_any v Li_next \<longrightarrow> length (bl_rows s) = 50 \<and> \<not> bl_loading s)"
    if "list_view num local s = Some v" for num local v
    using that table
    by (auto simp: list_view_def hasPrev_def hasNext_def PAGE_SIZE_def empty_note_def split: if_splits)
  moreover have "50 \<le> bl_offset s" if "0 < bl_offset s" using that k by (cases k) simp_all
  ultimately show ?thesis
    using i k by (auto simp: list_inv_def list_page_def PAGE_SIZE_def Suc_le_eq)
qed

theorem list_shows_its_request_witness:
  "let s = list_settled 0 (Inr []) list_mount in \<not> bl_loading s \<and> bl_rows s = []
   \<and> last [list_request list_mount] = list_request s"
proof -
  let ?s = "list_settled 0 ((\<lambda>_. Inr []) (0::nat)) list_mount"
  have "list_run (\<lambda>_. Inr []) ?s [list_request list_mount]" by (intro lr_answer lr_mount)
  from list_shows_its_request [OF this] have "last [list_request list_mount] = list_request ?s"
    and s: "\<not> bl_loading ?s \<longrightarrow> settled_as (Inr []) ?s" by auto
  moreover have "\<not> bl_loading ?s" using list_settled_fields(1) [of 0 list_mount] by (simp add: list_mount_def)
  ultimately show ?thesis by (simp add: settled_as_def Let_def)
qed

text \<open>The mount's own timer sends the operator back: Next within 350 ms of opening the page is undone.\<close>

lemma next_undone_by_first_timer:
  "bl_timer list_mount = Some [] \<and>
   bl_offset (fst (on_list Li_next list_mount)) = 50 \<and> bl_timer (fst (on_list Li_next list_mount)) = Some []
   \<and> bl_offset (fst (list_timer (fst (on_list Li_next list_mount)))) = 0"
  by (simp add: list_mount_def on_list_def list_effect_def list_timer_def PAGE_SIZE_def)

section \<open>Laws of the profile\<close>

lemma quiet_field: "fires_any [limited_field l v mx d f] e \<longleftrightarrow> \<not> d \<and> (\<exists>x. e = f x \<and> (case mx of None \<Rightarrow> True | Some n \<Rightarrow> length x \<le> n))"
  by simp

lemma quiet_header: "\<not> fires_any (detail_header num full money plans b) e"
  by (simp add: detail_header_def Let_def fact_def status_pill_def)

lemma fixed_word: "trim (heb ''ngw'') = heb ''ngw''" "heb ''ngw'' \<noteq> []"
  by (simp_all add: heb_def heb_unit_def trim_def is_space_def)

lemma confirm_word_nonblank: "confirm_word b \<noteq> []"
  by (simp add: confirm_word_def Let_def fixed_word)

text \<open>
  Property C18. A business is deleted only on purpose. The button that sends the deletion can be pressed only while the
  profile is shown with the dialog open, no other deletion is under way, and the operator has typed the business's name (a
  fixed word where it has none, so never nothing); the request names the business whose profile is shown. It cannot be sent
  twice: the button is closed until the answer. A refusal keeps the page, says so and opens the button again; only a
  success leaves for the list.
\<close>

theorem delete_needs_the_name:
  assumes "fires_any (detail_view num ld full money sub crm uses s) Bz_delete"
  shows "\<exists>b. bd_business s = Some b \<and> bd_confirmOpen s \<and> \<not> bd_deleting s \<and> \<not> bd_loading s
    \<and> trim (bd_confirmText s) = confirm_word b \<and> confirm_word b \<noteq> []
    \<and> snd (on_danger Bz_delete s) = deleteBusiness (bp_id b)
    \<and> (snd (on_danger Bz_delete s) \<noteq> None \<longrightarrow>
         \<not> fires_any (detail_view num ld full money sub crm uses (fst (on_danger Bz_delete s))) Bz_delete
         \<and> (\<forall>err. snd (business_deleted (Some err) (fst (on_danger Bz_delete s))) = None
              \<and> fires_any (detail_view num ld full money sub crm uses (fst (business_deleted (Some err) (fst (on_danger Bz_delete s))))) Bz_delete)
         \<and> snd (business_deleted None (fst (on_danger Bz_delete s))) = Some (lat ''/admin/businesses''))"
proof -
  have view: "fires_any (detail_view num ld full money sub crm uses s) Bz_delete \<longleftrightarrow>
      \<not> bd_loading s \<and> \<not> bd_notFound s \<and> or_else (bd_error s) [] = [] \<and>
      (\<exists>b. bd_business s = Some b \<and> bd_confirmOpen s \<and> \<not> bd_deleting s \<and> trim (bd_confirmText s) = confirm_word b)" for s
    by (auto simp: detail_view_def danger_dialog_def quiet_header fires_any_view_in split: option.splits if_splits)
  from assms obtain b where b: "bd_business s = Some b" "bd_confirmOpen s" "\<not> bd_deleting s" "trim (bd_confirmText s) = confirm_word b"
    and p: "\<not> bd_loading s" "\<not> bd_notFound s" "or_else (bd_error s) [] = []"
    unfolding view by blast
  have "snd (on_danger Bz_delete s) = deleteBusiness (bp_id b)"
    by (simp add: on_danger_def handleDelete_def b Let_def split: option.split)
  moreover have "fst (on_danger Bz_delete s) = s\<lparr>bd_deleting := True, bd_deleteError := None\<rparr>"
    if "snd (on_danger Bz_delete s) \<noteq> None"
    using that by (auto simp: on_danger_def handleDelete_def b Let_def split: option.splits)
  ultimately show ?thesis
    using b p confirm_word_nonblank [of b] unfolding view
    by (simp add: business_deleted_def delete_refused_def)
qed

definition shop_1 :: business_profile where
  "shop_1 =
     \<lparr>bp_id = [49], bp_name = None, bp_type = None, bp_owner_email = None, bp_created_at = None, bp_last_login_at = None,
      bp_plan_code = [], bp_status = Sub_active, bp_is_active = True, bp_wa_status = None, bp_leads_count = 0, bp_msgs_30d = 0,
      bp_ltv_estimate = None, bp_ai_calls = None, bp_crm = None\<rparr>"

definition about_to_delete :: business_detail where
  "about_to_delete = detail_mount\<lparr>bd_business := Some shop_1, bd_loading := False, bd_confirmOpen := True, bd_confirmText := heb ''ngw''\<rparr>"

theorem delete_needs_the_name_witness:
  "confirm_word shop_1 = heb ''ngw'' \<and> snd (on_danger Bz_delete about_to_delete) = deleteBusiness [49]"
proof -
  have w: "confirm_word shop_1 = heb ''ngw''" by (simp add: confirm_word_def shop_1_def trim_def or_else_def)
  with fixed_word have "fires_any (detail_view (\<lambda>_. []) (\<lambda>_. None) (\<lambda>_. []) (\<lambda>_. [])
      (sub_init [] Sub_active) (crm_mount (\<lambda>_. None) Cs_new None) [] about_to_delete) Bz_delete"
    by (simp add: detail_view_def about_to_delete_def detail_mount_def danger_dialog_def or_else_def)
  from delete_needs_the_name [OF this] w show ?thesis by (auto simp: about_to_delete_def shop_1_def)
qed

text \<open>
  Property C31. Saving a subscription, across the panel and the page. The button can be pressed only when the choice differs
  from what the server has and no save is under way, and sends exactly the two chosen values. When the server confirms them
  the profile has them, its panel is seeded with them and has nothing left to save; when it refuses, the profile is as it
  was, the choice is kept and the button is open again.
\<close>

theorem subscription_save_settles:
  assumes b: "bd_business s = Some b"
    and press: "fires_any (sub_view num plans (bp_plan_code b) (bp_status b) p) Sb_save"
  shows "snd (on_sub (bp_id b) Sb_save p) = setSubscription (bp_id b) (sp_plan p) (sp_newStatus p)
    \<and> \<not> fires_any (sub_view num plans (bp_plan_code b) (bp_status b) (fst (on_sub (bp_id b) Sb_save p))) e
    \<and> (let saved = sub_saved (Inr (sp_plan p, sp_newStatus p, act)) (fst (on_sub (bp_id b) Sb_save p));
           s' = handleSaved (the (snd saved)) s; b' = the (bd_business s');
           p' = sub_reseed (bp_plan_code b, bp_status b) (bp_plan_code b', bp_status b') (fst saved)
       in snd saved \<noteq> None \<and> bd_business s' = Some b' \<and> bp_plan_code b' = sp_plan p \<and> bp_status b' = sp_newStatus p \<and> bp_is_active b' = act
          \<and> \<not> sub_dirty (bp_plan_code b') (bp_status b') p' \<and> \<not> sp_saving p')
    \<and> (let p' = fst (sub_saved (Inl err) (fst (on_sub (bp_id b) Sb_save p)))
       in snd (sub_saved (Inl err) (fst (on_sub (bp_id b) Sb_save p))) = None \<and> sp_plan p' = sp_plan p \<and> sp_newStatus p' = sp_newStatus p
          \<and> fires_any (sub_view num plans (bp_plan_code b) (bp_status b) p') Sb_save)"
proof -
  have view: "fires_any (sub_view num plans c st q) Sb_save \<longleftrightarrow> \<not> sp_saving q \<and> sub_dirty c st q" for c st q
    by (auto simp: sub_view_def)
  have quiet: "sp_saving q \<Longrightarrow> \<not> fires_any (sub_view num plans c st q) e" for c st q
    by (simp add: sub_view_def)
  from press have d: "sub_dirty (bp_plan_code b) (bp_status b) p" unfolding view by blast
  then show ?thesis using quiet
    by (simp add: on_sub_def sub_save_def sub_saved_def handleSaved_def b sub_reseed_def view Let_def) (auto simp: sub_dirty_def)
qed

theorem subscription_save_settles_witness:
  "snd (on_sub [49] Sb_save ((sub_init [] Sub_active)\<lparr>sp_newStatus := Sub_suspended\<rparr>)) = setSubscription [49] [] Sub_suspended"
proof -
  let ?p = "(sub_init [] Sub_active)\<lparr>sp_newStatus := Sub_suspended\<rparr>"
  have "fires_any (sub_view (\<lambda>_. []) [] (bp_plan_code shop_1) (bp_status shop_1) ?p) Sb_save"
    by (simp add: sub_view_def sub_dirty_def sub_init_def shop_1_def)
  from subscription_save_settles [OF _ this, of about_to_delete] show ?thesis
    by (simp add: about_to_delete_def shop_1_def sub_init_def)
qed

text \<open>The totals of the billing table are the sums of its columns.\<close>

lemma totals_sums: "totals rows = \<lparr>bt_in = sum_list (map bw_msg_in rows), bt_out = sum_list (map bw_msg_out rows), bt_total = sum_list (map bw_total rows)\<rparr>"
proof -
  have "fold (\<lambda>r acc. \<lparr>bt_in = bt_in acc + bw_msg_in r, bt_out = bt_out acc + bw_msg_out r, bt_total = bt_total acc + bw_total r\<rparr>)
      rows \<lparr>bt_in = a, bt_out = b, bt_total = c\<rparr>
    = \<lparr>bt_in = a + sum_list (map bw_msg_in rows), bt_out = b + sum_list (map bw_msg_out rows), bt_total = c + sum_list (map bw_total rows)\<rparr>" for a b c
    by (induction rows arbitrary: a b c) (simp_all add: add.assoc)
  from this [of 0 0 0] show ?thesis by (simp add: totals_def)
qed

end
