(* ===== verification/Landing.thy ===== *)
theory Landing
  imports Shell
begin

text \<open>
  The landing page for visitors without a session (\<open>pages/LandingPage.tsx\<close> and \<open>components/landing/\<close>), the
  footer of every page (\<open>components/SiteFooter.tsx\<close>) and the frame of the legal pages (\<open>pages/LegalPage.tsx\<close>).

  The animated parts are machines driven by timers and frames: the chat in the phone, the counters, the steps that
  take turns and the list of questions. Icons, drawings and the style sheet are left out.
\<close>

section \<open>data.ts\<close>

datatype chat_side = Sd_user | Sd_bot

record chat_line =
  cl_side :: chat_side
  cl_text :: jsstr

definition MESSAGES :: "chat_line list" where
  "MESSAGES =
     [\<lparr>cl_side = Sd_user, cl_text = (heb ''dii'')\<rparr>,
      \<lparr>cl_side = Sd_bot, cl_text = (heb ''axekim da@im lrqw ylj! '' @ [55357, 56395] @ heb '' @pi aehiw, drefx dgkm ylj. and @ekl lrfex lj diem?'')\<rparr>,
      \<lparr>cl_side = Sd_bot, cl_text = (heb ''zo lpe lpdl lj @z dee@hq@t, e@zd zpdl @z drqw ylj.'')\<rparr>,
      \<lparr>cl_side = Sd_bot, cl_text = (heb ''zgqej yrez iwxez yl nrpd llwegez aee@hq@t.'')\<rparr>]"

definition ESCAPE_TEXT :: jsstr where "ESCAPE_TEXT = (heb ''@f lnd @zd ngkd?'')"

record how_step =
  hs_n :: nat
  hs_key :: string
  hs_title :: jsstr
  hs_desc :: jsstr

definition STEPS :: "how_step list" where
  "STEPS =
     [\<lparr>hs_n = 1, hs_key = ''google'', hs_title = (heb ''nzgaxim rm G'' @ lat ''oogle''), hs_desc = (heb ''gyaeo erqw ptzgim @ehenhiz '' @ [8212] @ heb '' ali htqim @xekim.'')\<rparr>,
      \<lparr>hs_n = 2, hs_key = ''ai'', hs_title = (heb ''aepim aeh rm refx d-AI''), hs_desc = (heb ''aytd getyiz, ali wec '' @ [8212] @ heb '' nz@xim, edaeh papd.'')\<rparr>,
      \<lparr>hs_n = 3, hs_key = ''whatsapp'', hs_title = (heb ''ngaxim @z dee@hq@t''), hs_desc = (heb ''qxiwz QR ndixd '' @ [8212] @ heb '' dnqtx dwiim yl drqw.'')\<rparr>,
      \<lparr>hs_n = 4, hs_key = ''config'', hs_title = (heb ''nbcixim ikelez''), hs_desc = (heb ''licim, zexim enrpd @peyi '' @ [8212] @ heb '' aegxim nd daeh iryd.'')\<rparr>,
      \<lparr>hs_n = 5, hs_key = ''live'', hs_title = (heb ''relim l@eeix''), hs_desc = (heb ''daeh nzgil lrpez llwegez 24/7, ali dzrxaez.'')\<rparr>,
      \<lparr>hs_n = 6, hs_key = ''leads'', hs_title = (heb ''nwalim licim etbiyez''), hs_desc = (heb ''@ehenhiz, iyx lcyaexc ylkm.'')\<rparr>]"

record feature =
  ft_key :: string
  ft_title :: jsstr
  ft_desc :: jsstr
  ft_soon :: bool

definition FEATURES :: "feature list" where
  "FEATURES =
     [\<lparr>ft_key = ''leads'', ft_title = (heb ''@iqes nicr''), ft_desc = (heb ''y@leo gkm y@eqs @z dtxhim dgyeaim '' @ [8212] @ heb '' ynex enevto.''), ft_soon = False\<rparr>,
      \<lparr>ft_key = ''calendar'', ft_title = (heb ''wairz zexim''), ft_desc = (heb ''cs dfnpd lrqw, nqepkxo lieno G'' @ lat ''oogle '' @ heb ''eltbiyez M'' @ lat ''eet.''), ft_soon = False\<rparr>,
      \<lparr>ft_key = ''handoff'', ft_title = (heb ''nrax lpvib @peyi''), ft_desc = (heb ''daeh nfdd vexj enraix lv'' @ [1523] @ heb ''@h gi rm pvib ndveez.''), ft_soon = False\<rparr>,
      \<lparr>ft_key = ''ai'', ft_title = (heb ''aepd aeh rm AI''), ft_desc = (heb ''nz@xim aytd getyiz '' @ [8212] @ heb '' edrefx aepd @z daeh ayailkm.''), ft_soon = False\<rparr>,
      \<lparr>ft_key = ''dashboard'', ft_title = (heb ''cyaexc nl@''), ft_desc = (heb ''licim, yigez etbiyez '' @ [8212] @ heb '' dkel anwem @gc eaxex.''), ft_soon = False\<rparr>,
      \<lparr>ft_key = ''rag'', ft_title = (heb ''nrpd nicr ndrqw''), ft_desc = (heb ''zyeaez nceiwez nzej dwavim ed@zx yl drqw (RAG).''), ft_soon = True\<rparr>]"

record industry =
  ind_key :: string
  ind_theme :: string
  ind_title :: jsstr
  ind_desc :: jsstr

definition INDUSTRIES :: "industry list" where
  "INDUSTRIES =
     [\<lparr>ind_key = ''health'', ind_theme = ''mint'', ind_title = (heb ''wlipiwez ehitel''), ind_desc = (heb ''zi@em tbiyez ezfkexez llwegez.'')\<rparr>,
      \<lparr>ind_key = ''beauty'', ind_theme = ''rose'', ind_title = (heb ''nqtxez eweqnhiwd''), ind_desc = (heb ''wairz zexim iyixez aee@hq@t.'')\<rparr>,
      \<lparr>ind_key = ''insurance'', ind_theme = ''blue'', ind_title = (heb ''qekpi aiheg''), ind_desc = (heb ''@iqes txhim lti nqlel aiheg xvei e@iqes nicr anwxd yl zairez'')\<rparr>,
      \<lparr>ind_key = ''service'', ind_theme = ''amber'', ind_title = (heb ''pezpi yixez earli nwver''), ind_desc = (heb ''dvrez ngix efineo wxi@ez yixez.'')\<rparr>,
      \<lparr>ind_key = ''consult'', ind_theme = ''violet'', ind_title = (heb ''iervim en@npim''), ind_desc = (heb ''nrpd x@yepi ewairz yigez iireu.'')\<rparr>]"

record price_plan =
  pl_name :: jsstr
  pl_amt :: jsstr
  pl_per :: jsstr
  pl_was :: "jsstr option"
  pl_note :: "jsstr option"
  pl_annual :: "jsstr option"
  pl_popular :: bool
  pl_feats :: "jsstr list"

definition PLANS :: "price_plan list" where
  "PLANS =
     [\<lparr>pl_name = (heb ''gipni''), pl_amt = (heb ''gipm''), pl_per = (heb ''lznic''), pl_was = None, pl_note = None, pl_annual = None, pl_popular = False,
        pl_feats = [(heb ''apiiz aeh rm AI''), (heb ''nqlel yigd @gc''), (heb ''30 yigez agecy''), (heb ''nrpd lrc 5 nqtxi hlteo''), (heb ''nrxkz lpidel licim'')]\<rparr>,
      \<lparr>pl_name = (heb ''nwveri''), pl_amt = ([8362] @ lat ''149''), pl_per = (heb ''/lgecy''), pl_was = Some ([8362] @ lat ''200''), pl_note = Some (heb ''ngix dywd lfno nebal''),
        pl_annual = Some (heb ''@e '' @ [8362] @ heb ''1,490 lypd '' @ [8212] @ heb '' gecyiim nzpd''), pl_popular = True,
        pl_feats = [(heb ''kl nd yagipm''), (heb ''rc 5 nqleli yigd''), (heb ''rc 600 yigez agecy''), (heb ''nqtxi hlteo ll@ dbald''), (heb ''cyaexc nl@'')]\<rparr>,
      \<lparr>pl_name = (heb ''rqwi''), pl_amt = ([8362] @ lat ''299''), pl_per = (heb ''/lgecy''), pl_was = Some ([8362] @ lat ''349''), pl_note = Some (heb ''ngix dywd lfno nebal''),
        pl_annual = Some (heb ''@e '' @ [8362] @ heb ''2,990 lypd '' @ [8212] @ heb '' gecyiim nzpd''), pl_popular = False,
        pl_feats = [(heb ''kl nd yanwveri''), (heb ''wairz epidel tbiyez + qpkxeo G'' @ lat ''oogle Calendar '' @ heb ''e-M'' @ lat ''eet''), (heb ''rc 9 nqleli yigd''), (heb ''rc 2,000 licim agecy'')]\<rparr>]"

definition FAQ :: "(jsstr \<times> jsstr) list" where
  "FAQ =
     [((heb ''vxij lcrz lzkpz?''), (heb ''l@, akll l@. aepim @z daeh aytd getyiz nel refx d-AI '' @ [8212] @ heb '' nz@xim nd yvxij ede@ nwim @z dkel ayailkm. ali wec eali dbcxez nqeakez.'')),
      ((heb ''vxij nqtx ee@hq@t gcy?''), (heb ''l@. daeh nzgax lnqtx dee@hq@t dwiim yl drqw aqxiwz QR tyehd, kj ydlwegez nnyikim lkzea aciew l@eze nqtx ydm kax nkixim.'')),
      ((heb ''dpzepim n@eahgim?''), (heb ''ko. kl dpzepim nevtpim epynxim lti zwpi @ahgd nwealim, exw lkm iy @lidm biyd '' @ [8212] @ heb '' cxj dcyaexc d@iyi ylkm.'')),
      ((heb ''knd fno lewg ldwim?''), (heb ''k-10 cwez. nzgaxim rm G'' @ lat ''oogle, '' @ heb ''aepim @z daeh arfxz d-AI engaxim @z dee@hq@t '' @ [8212] @ heb '' edaeh reld l@eeix enzgil lrpez llwegez nic.''))]"

section \<open>Reveal.tsx\<close>

text \<open>A block shows itself once it was in view, and stays.\<close>

definition landing_seen :: "bool list \<Rightarrow> bool \<Rightarrow> bool" where
  "landing_seen es vis = foldl (\<lambda>v isIntersecting. if isIntersecting then True else v) vis es"

definition reveal_block :: "string \<Rightarrow> nat \<Rightarrow> string \<Rightarrow> bool \<Rightarrow> 'e vnode list \<Rightarrow> 'e vnode" where
  "reveal_block dir delay cls vis vs =
     El ''div''
       [Attr ''class'' (lat ''reveal reveal-'' @ lat dir @ lat '' '' @ (if vis then lat ''is-visible'' else []) @ lat '' '' @ lat cls),
        Attr ''transition-delay'' (nat_str delay @ lat ''ms'')] vs"

lemma landing_seen_iff: "landing_seen es vis \<longleftrightarrow> vis \<or> True \<in> set es"
  unfolding landing_seen_def by (induction es arbitrary: vis) auto

section \<open>Counter.tsx\<close>

text \<open>\<open>ct_frame\<close>: a frame is requested, by a loop that started at that time.\<close>

record counter =
  ct_val :: int
  ct_started :: bool
  ct_frame :: "rat option"

definition counter_mount :: "int \<Rightarrow> counter" where
  "counter_mount a = \<lparr>ct_val = a, ct_started = False, ct_frame = None\<rparr>"

definition counter_seen :: "int \<Rightarrow> bool \<Rightarrow> rat \<Rightarrow> bool \<Rightarrow> counter \<Rightarrow> counter" where
  "counter_seen b reduce t0 isIntersecting s =
     (if isIntersecting \<and> \<not> ct_started s
      then (if reduce then s\<lparr>ct_started := True, ct_val := b\<rparr> else s\<lparr>ct_started := True, ct_frame := Some t0\<rparr>)
      else s)"

definition counter_tick :: "int \<Rightarrow> int \<Rightarrow> rat \<Rightarrow> rat \<Rightarrow> counter \<Rightarrow> counter" where
  "counter_tick a b duration now s =
     (case ct_frame s of
        None \<Rightarrow> s
      | Some t0 \<Rightarrow>
          (let t = min ((now - t0) / duration) 1;
               e2 = 1 - (1 - t) ^ 3
           in s\<lparr>ct_val := math_round (of_int a + (of_int b - of_int a) * e2),
                ct_frame := (if t < 1 then Some t0 else None)\<rparr>))"

section \<open>HeroSection.tsx\<close>

datatype hero_act = Ha_first | Ha_still | Ha_typing | Ha_second | Ha_third | Ha_fourth | Ha_escape | Ha_run

text \<open>\<open>ph_timers\<close> are the pending timers with the time they are due; \<open>ph_ids\<close> counts the ids kept in \<open>timers.current\<close>.\<close>

record phone =
  ph_count :: nat
  ph_typing :: bool
  ph_vibrate :: bool
  ph_escape :: bool
  ph_timers :: "(nat \<times> hero_act) list"
  ph_ids :: nat

definition hero_script :: "(nat \<times> hero_act) list" where
  "hero_script =
     [(800, Ha_first), (1300, Ha_still), (2000, Ha_typing), (4000, Ha_second), (6850, Ha_third), (9700, Ha_fourth),
      (12550, Ha_escape), (18400, Ha_run)]"

definition hero_run_at :: "nat \<Rightarrow> phone \<Rightarrow> phone" where
  "hero_run_at now s =
     s\<lparr>ph_count := 0, ph_typing := False, ph_vibrate := False, ph_escape := False,
       ph_timers := ph_timers s @ map (\<lambda>(ms, a). (now + ms, a)) hero_script,
       ph_ids := ph_ids s + length hero_script\<rparr>"

definition hero_mount :: "bool \<Rightarrow> nat \<Rightarrow> phone" where
  "hero_mount reduce now =
     (let s = \<lparr>ph_count = 0, ph_typing = False, ph_vibrate = False, ph_escape = False, ph_timers = [], ph_ids = 0\<rparr> in
      if reduce then s\<lparr>ph_count := length MESSAGES, ph_escape := True\<rparr> else hero_run_at now s)"

definition hero_fire :: "nat \<Rightarrow> phone \<Rightarrow> phone" where
  "hero_fire now s =
     (case ph_timers s of
        [] \<Rightarrow> s
      | (due, a) # rest \<Rightarrow>
          (let s1 = s\<lparr>ph_timers := rest\<rparr> in
           case a of
             Ha_first \<Rightarrow> s1\<lparr>ph_count := 1, ph_vibrate := True\<rparr>
           | Ha_still \<Rightarrow> s1\<lparr>ph_vibrate := False\<rparr>
           | Ha_typing \<Rightarrow> s1\<lparr>ph_typing := True\<rparr>
           | Ha_second \<Rightarrow> s1\<lparr>ph_typing := False, ph_count := 2\<rparr>
           | Ha_third \<Rightarrow> s1\<lparr>ph_count := 3\<rparr>
           | Ha_fourth \<Rightarrow> s1\<lparr>ph_count := 4\<rparr>
           | Ha_escape \<Rightarrow> s1\<lparr>ph_escape := True\<rparr>
           | Ha_run \<Rightarrow> hero_run_at now s1))"

definition hero_unmount :: "phone \<Rightarrow> phone" where
  "hero_unmount s = s\<lparr>ph_timers := [], ph_ids := 0\<rparr>"

definition hero_tilt :: "int \<Rightarrow> jsstr" where
  "hero_tilt innerWidth =
     (if innerWidth < 900 then lat ''perspective(1500px) rotateY(-7deg) rotateZ(-1deg) scale(.86)''
      else lat ''perspective(1600px) rotateY(-14deg) rotateX(3deg) rotateZ(-1.5deg)'')"

definition hero_message :: "chat_line \<Rightarrow> 'e vnode" where
  "hero_message m =
     El ''div'' [Attr ''class'' (if cl_side m = Sd_user then lat ''bx-user'' else lat ''bx-bot'')]
       [El ''p'' [] [Txt (cl_text m)],
        El ''span'' [] [Txt (if cl_side m = Sd_user then lat ''10:24 '' @ [10003, 10003] else lat ''10:24'')]]"

definition hero_section :: "phone \<Rightarrow> int \<Rightarrow> 'e vnode" where
  "hero_section s innerWidth =
     El ''section'' []
       ([El ''header'' []
           [El ''img'' [Attr ''src'' (lat ''/botik-icon.png''), Attr ''alt'' (lat ''Botik'')] [],
            El ''a'' [Attr ''href'' (lat ''/auth/google'')] [Txt (heb ''dzgaxez'')],
            El ''a'' [Attr ''href'' (lat ''/auth/demo'')] [Txt (heb ''vtiid acne'')]],
         El ''span'' [] [Txt (heb ''dkixe @z ''), El ''strong'' [] [Txt (heb ''aehiw'')]],
         El ''h1'' [] [Txt (heb ''daeh yrepd llwegez, @eqs txhim ewear tbiyez''), El ''span'' [] [Txt (heb '' '' @ [8212] @ heb '' @ehenhiz aee@hq@t.'')]],
         El ''p'' [] [Txt (heb ''ali wec, ali ntzg, ali @tliwvid llweg. nwinim aeh gkm acwez, ngaxim @z dee@hq@t yl drqw '' @ [8212] @ heb '' ede@ reac ayailkm 24/7.'')],
         El ''div'' [Attr ''transform'' (hero_tilt innerWidth), Attr ''class'' (if ph_vibrate s then lat ''bx-vibrate'' else [])]
           ([El ''strong'' [] [Txt (heb ''aehiw '' @ [183] @ heb '' drefx dgkm'')],
             El ''span'' [] [Txt (if ph_typing s then (heb ''nwlic'' @ [8230]) else (heb ''ngeax''))]]
            @ map hero_message (take (ph_count s) MESSAGES)
            @ shown (ph_typing s) [El ''div'' [Attr ''class'' (lat ''bx-typing'')] []]
            @ [El ''div'' [] [Txt (heb ''dwlc decrd'' @ [8230])]])]
        @ shown (ph_escape s) [El ''p'' [] [Txt ESCAPE_TEXT]]
        @ [El ''span'' [] [Txt (heb ''blle lbilei kl dikelez'')]])"

section \<open>The other sections\<close>

datatype landing_ui = Ln_step nat | Ln_faq nat

text \<open>\<open>HowItWorks.tsx\<close>: the interval, the pointer over a card, and no motion when it is unwanted.\<close>

definition steps_mount :: "bool \<Rightarrow> nat" where
  "steps_mount reduce = (if reduce then length STEPS - 1 else 0)"

definition steps_tick :: "nat \<Rightarrow> nat" where
  "steps_tick a = (a + 1) mod length STEPS"

definition column_dir :: "nat \<Rightarrow> string" where
  "column_dir col = (if col = 0 then ''right'' else if col = 2 then ''left'' else ''up'')"

definition how_it_works :: "(nat \<Rightarrow> bool) \<Rightarrow> nat \<Rightarrow> landing_ui vnode" where
  "how_it_works vis act =
     El ''section'' []
       [reveal_block ''up'' 0 ''bx-hiw-head'' (vis 0)
          [El ''h2'' [] [Txt (heb ''@ij fd reac'')], El ''p'' [] [Txt (heb ''nqlel wvx nddxynd erc dlicim dx@yepim.'')]],
        El ''div'' []
          (mapi (\<lambda>i s. let col = i mod 3 in
             reveal_block (column_dir col) (col * 80) [] (vis (i + 1))
               [El ''div'' [Attr ''class'' (lat ''bx-card-tile bx-hcard '' @ (if act = i then lat ''active'' else [])), on_click (Ln_step i)]
                  [El ''span'' [] [Txt (nat_str (hs_n s))], El ''h3'' [] [Txt (hs_title s)], El ''p'' [] [Txt (hs_desc s)]]]) STEPS)]"

text \<open>\<open>FaqSection.tsx\<close>: at most one question is open; \<open>- 1\<close>: none.\<close>

definition faq_toggle :: "nat \<Rightarrow> int \<Rightarrow> int" where
  "faq_toggle i opn = (if opn = int i then - 1 else int i)"

definition faq_section :: "(nat \<Rightarrow> bool) \<Rightarrow> int \<Rightarrow> landing_ui vnode" where
  "faq_section vis opn =
     El ''section'' []
       [reveal_block ''up'' 0 ''bx-faq-head'' (vis 0) [El ''h2'' [] [Txt (heb ''y@lez ptevez'')]],
        El ''div'' []
          (mapi (\<lambda>i item.
             reveal_block ''up'' (i * 60) [] (vis (i + 1))
               [El ''button'' [on_click (Ln_faq i), Attr ''aria-expanded'' (if opn = int i then lat ''true'' else lat ''false'')] [Txt (fst item)],
                El ''p'' [] [Txt (snd item)]]) FAQ)]"

text \<open>\<open>StatsBand.tsx\<close>: three counters and a fixed text.\<close>

definition stats_band :: "(nat \<Rightarrow> bool) \<Rightarrow> counter \<Rightarrow> counter \<Rightarrow> counter \<Rightarrow> 'e vnode" where
  "stats_band vis c1 c2 c3 =
     (let stat = (\<lambda>i dir d num label. reveal_block dir d [] (vis i) [El ''div'' [] num, El ''div'' [] [Txt label]]) in
      El ''section'' []
        [stat 0 ''right'' 0 [Txt (int_str (ct_val c1)), Txt (heb ''cw'' @ [39])] (heb ''ldwnd nl@d''),
         stat 1 ''right'' 90 [Txt (int_str (ct_val c2)), Txt (lat ''%'')] (heb ''tzigd ldecrez aee@hq@t''),
         stat 2 ''left'' 90 [Txt (int_str (ct_val c3))] (heb ''decrez ynztqtqez''),
         stat 3 ''left'' 0 [Txt (lat ''24/7'')] (heb ''fnipez nl@d'')])"

definition features_section :: "(nat \<Rightarrow> bool) \<Rightarrow> 'e vnode" where
  "features_section vis =
     El ''section'' []
       [reveal_block ''up'' 0 ''bx-feats-head'' (vis 0) [El ''h2'' [] [Txt (heb ''kl nd ydrqw vxij '' @ [8212] @ heb '' ''), El ''span'' [] [Txt (heb ''aaeh @gc'')]]],
        El ''div'' []
          (mapi (\<lambda>i f. let col = i mod 3 in
             reveal_block (column_dir col) (col * 80) [] (vis (i + 1))
               (shown (ft_soon f) [El ''span'' [] [Txt (heb ''awxea'')]]
                @ [El ''h3'' [] [Txt (ft_title f)], El ''p'' [] [Txt (ft_desc f)]])) FEATURES)]"

definition industries_section :: "(nat \<Rightarrow> bool) \<Rightarrow> 'e vnode" where
  "industries_section vis =
     El ''section'' []
       [reveal_block ''up'' 0 ''bx-ind-head'' (vis 0)
          [El ''h2'' [] [Txt (heb ''nz@im lkl rqw yncax rm lwegez'')],
           El ''p'' [] [Txt (heb ''idid dzgem @yx idid '' @ [8212] @ heb '' daeh ncax @z dytd yl dlwegez ylkm.'')]],
        El ''div'' []
          (mapi (\<lambda>i it. let m = i mod 3 in
             reveal_block (column_dir m) (m * 80) [] (vis (i + 1))
               [El ''div'' [Attr ''class'' (lat ''bx-card-tile bx-uc bx-th-'' @ lat (ind_theme it))]
                  [El ''h3'' [] [Txt (ind_title it)], El ''p'' [] [Txt (ind_desc it)]]]) INDUSTRIES)]"

definition plan_card :: "price_plan \<Rightarrow> 'e vnode" where
  "plan_card pl =
     El ''div'' [Attr ''class'' (lat ''bx-card-tile bx-plan '' @ (if pl_popular pl then lat ''bx-plan-pop'' else []))]
       ([El ''h3'' [] [Txt (pl_name pl)]]
        @ shown (pl_popular pl) [El ''span'' [] [Txt (heb ''dki tetelxi'')]]
        @ [El ''span'' [] [Txt (pl_amt pl)], El ''span'' [] [Txt (pl_per pl)]]
        @ shown_text ''span'' (pl_was pl) @ shown_text ''p'' (pl_note pl) @ shown_text ''p'' (pl_annual pl)
        @ [El ''ul'' [] (map (\<lambda>f. El ''li'' [] [Txt f]) (pl_feats pl)),
           El ''a'' [Attr ''href'' (lat ''/auth/google'')] [Txt (heb ''dzgile'')]])"

definition pricing_section :: "(nat \<Rightarrow> bool) \<Rightarrow> 'e vnode" where
  "pricing_section vis =
     El ''section'' []
       [reveal_block ''up'' 0 ''bx-pricing-head'' (vis 0)
          [El ''h2'' [] [Txt (heb ''nqlelim tyehim, ali dtzrez''), El ''span'' [] [Txt (heb ''cne'')]],
           El ''p'' [] [Txt (heb ''nzgilim agipm, nycxbim kydrqw veng. '' @ [183] @ heb '' dngixim ldngyd alac'')]],
        El ''div'' [] (mapi (\<lambda>i pl. reveal_block (column_dir i) (i * 80) [] (vis (i + 1)) [plan_card pl]) PLANS)]"

definition landing_footer :: "bool \<Rightarrow> 'e vnode list" where
  "landing_footer vis =
     [El ''section'' []
        [reveal_block ''up'' 0 ''bx-cta-inner'' vis
           [El ''h2'' [] [Txt (heb ''nekpim ldzgil?'')], El ''p'' [] [Txt (heb ''giaex ndix, ali wec '' @ [8212] @ heb '' edaeh reac ayailkm kax diem.'')],
            El ''a'' [Attr ''href'' (lat ''/auth/google'')] [Txt (heb ''dzgile gipm'')]]],
      El ''footer'' []
        [El ''img'' [Attr ''src'' (lat ''/botik-icon.png''), Attr ''alt'' (lat ''Botik'')] [],
         El ''nav'' []
           [El ''a'' [Attr ''href'' (lat ''/terms'')] [Txt (heb ''ncipiez ezp@i yiney'')],
            El ''a'' [Attr ''href'' (lat ''/accessibility'')] [Txt (heb ''dvdxz pbiyez'')]],
         El ''div'' [] [Txt ([169] @ heb '' 2026 aehiw '' @ [183] @ heb '' kl dfkeiez ynexez'')]]]"

section \<open>LandingPage.tsx\<close>

record landing =
  la_phone :: phone
  la_width :: int
  la_counters :: "counter \<times> counter \<times> counter"
  la_step :: nat
  la_open :: int
  la_vis :: "nat \<Rightarrow> nat \<Rightarrow> bool"

definition on_landing :: "landing_ui \<Rightarrow> landing \<Rightarrow> landing" where
  "on_landing e s =
     (case e of
        Ln_step i \<Rightarrow> s\<lparr>la_step := i\<rparr>
      | Ln_faq i \<Rightarrow> s\<lparr>la_open := faq_toggle i (la_open s)\<rparr>)"

definition landing_page :: "landing \<Rightarrow> landing_ui vnode list" where
  "landing_page s =
     [hero_section (la_phone s) (la_width s),
      (case la_counters s of (c1, c2, c3) \<Rightarrow> stats_band (la_vis s 1) c1 c2 c3),
      how_it_works (la_vis s 2) (la_step s), features_section (la_vis s 3), industries_section (la_vis s 4),
      pricing_section (la_vis s 5), faq_section (la_vis s 6) (la_open s)]
     @ landing_footer (la_vis s 7 0)"

section \<open>SiteFooter.tsx and LegalPage.tsx\<close>

definition site_footer :: "nat \<Rightarrow> 'e vnode" where
  "site_footer thisYear =
     El ''footer'' []
       [El ''span'' [] [Txt (([169] @ lat '' '') @ nat_str thisYear @ (heb '' aehiw''))],
        El ''a'' [Attr ''href'' (lat ''/terms'')] [Txt (heb ''zp@i yiney'')],
        El ''a'' [Attr ''href'' (lat ''/privacy'')] [Txt (heb ''ncipiez txhiez'')],
        El ''a'' [Attr ''href'' (lat ''/accessibility'')] [Txt (heb ''dvdxz pbiyez'')]]"

definition legal_page :: "nat \<Rightarrow> jsstr \<Rightarrow> 'e vnode list \<Rightarrow> 'e vnode list" where
  "legal_page thisYear title children =
     [El ''a'' [Attr ''href'' (lat ''#main'')] [Txt (heb ''clbe lzeko'')],
      El ''header'' []
        [El ''a'' [Attr ''href'' (lat ''/''), Attr ''aria-label'' (heb ''aehiw '' @ [8212] @ heb '' lcs daiz'')]
           [El ''img'' [Attr ''src'' (lat ''/botik-icon.png''), Attr ''alt'' (lat ''Botik'')] []]],
      El ''main'' [Attr ''id'' (lat ''main'')]
        ([El ''h1'' [] [Txt title], El ''Alert'' [Attr ''tone'' (lat ''warning'')] [Txt (heb ''hiehd '' @ [8212] @ heb '' cexy aciwz re'' @ [1524] @ heb ''c ltpi dywd.'')]] @ children),
      site_footer thisYear]"

section \<open>The counters\<close>

lemma counter_ease:
  fixes x :: rat
  assumes "0 \<le> x" "x \<le> 1"
  shows "0 \<le> 1 - (1 - x) ^ 3" "1 - (1 - x) ^ 3 \<le> 1"
  using assms power_le_one [of "1 - x" 3] zero_le_power [of "1 - x" 3] by simp_all

lemma counter_between:
  fixes e :: rat
  assumes "0 \<le> e" "e \<le> 1"
  shows "min a b \<le> math_round (of_int a + (of_int b - of_int a) * e)" "math_round (of_int a + (of_int b - of_int a) * e) \<le> max a b"
proof -
  let ?v = "of_int a + (of_int b - of_int a) * e :: rat"
  have v: "of_int (min a b) \<le> ?v \<and> ?v \<le> of_int (max a b)"
  proof (cases "a \<le> b")
    case True
    then have "0 \<le> (of_int b - of_int a) * e" "(of_int b - of_int a) * e \<le> of_int b - of_int a"
      using assms mult_left_le [of e "of_int b - of_int a"] by (simp_all add: mult.commute)
    with True show ?thesis by (simp add: min_def max_def)
  next
    case False
    then have "(of_int a - of_int b) * e \<le> of_int a - of_int b" "0 \<le> (of_int a - of_int b) * e"
      using assms mult_left_le [of e "of_int a - of_int b"] by (simp_all add: mult.commute)
    with False show ?thesis by (simp add: min_def max_def left_diff_distrib)
  qed
  then show "min a b \<le> math_round ?v" by (intro math_round_ge) simp
  from v show "math_round ?v \<le> max a b" by (simp add: math_round_def floor_le_iff)
qed

lemma math_round_int: "math_round (of_int b) = b"
  by (simp add: math_round_def floor_unique)

text \<open>A run of a counter from \<open>a\<close> to \<open>b\<close>, with the time of its last event; frames are not earlier than their loop.\<close>

inductive counter_run :: "int \<Rightarrow> int \<Rightarrow> rat \<Rightarrow> rat \<Rightarrow> counter \<Rightarrow> bool" for a b d where
  cr_mount: "counter_run a b d now (counter_mount a)"
| cr_seen: "counter_run a b d now s \<Longrightarrow> now \<le> t \<Longrightarrow> counter_run a b d t (counter_seen b reduce t i s)"
| cr_tick: "counter_run a b d now s \<Longrightarrow> now \<le> t \<Longrightarrow> counter_run a b d t (counter_tick a b d t s)"

text \<open>The number stays between its ends, and rests on the last one; a frame after the duration is the last.\<close>

lemma counter_lands:
  assumes "counter_run a b d now s" "0 < d"
  shows "min a b \<le> ct_val s \<and> ct_val s \<le> max a b \<and> (ct_started s \<and> ct_frame s = None \<longrightarrow> ct_val s = b)
    \<and> (\<forall>t0. ct_frame s = Some t0 \<longrightarrow> t0 \<le> now)"
  using assms(1)
proof induction
  case (cr_tick now s t)
  show ?case
  proof (cases "ct_frame s")
    case (Some t0)
    let ?x = "min ((t - t0) / d) 1"
    from Some cr_tick have x: "0 \<le> ?x" "?x \<le> 1" using assms(2) by simp_all
    have "?x = 1" if "\<not> ?x < 1" using x(2) that by simp
    then have "math_round (of_int a + (of_int b - of_int a) * (1 - (1 - ?x) ^ 3)) = b" if "\<not> ?x < 1"
      using math_round_int [of b] that by simp
    then show ?thesis
      using Some cr_tick counter_between [OF counter_ease [OF x], of a b] assms(2) by (auto simp: counter_tick_def Let_def)
  qed (use cr_tick in \<open>auto simp: counter_tick_def\<close>)
qed (auto simp: counter_mount_def counter_seen_def)

lemma counter_last_frame:
  "ct_frame s = Some t0 \<Longrightarrow> 0 < d \<Longrightarrow> t0 + d \<le> now \<Longrightarrow> counter_tick a b d now s = s\<lparr>ct_val := b, ct_frame := None\<rparr>"
proof -
  assume a: "ct_frame s = Some t0" "0 < d" "t0 + d \<le> now"
  then have "min ((now - t0) / d) 1 = 1" by (simp add: min_def divide_le_eq)
  with a(1) show ?thesis using math_round_int [of b] by (simp add: counter_tick_def Let_def)
qed

section \<open>The chat in the phone\<close>

text \<open>The pictures of one round: the messages on screen, typing, vibrating and the bubble.\<close>

definition hero_phase :: "nat \<Rightarrow> nat \<times> bool \<times> bool \<times> bool" where
  "hero_phase j =
     [(0, False, False, False), (1, False, True, False), (1, False, False, False), (1, True, False, False),
      (2, False, False, False), (3, False, False, False), (4, False, False, False), (4, False, False, True)] ! j"

definition hero_shows :: "phone \<Rightarrow> nat \<times> bool \<times> bool \<times> bool" where
  "hero_shows s = (ph_count s, ph_typing s, ph_vibrate s, ph_escape s)"

text \<open>A run after \<open>k\<close> timers fired, each as late as the browser likes.\<close>

inductive phone_run :: "nat \<Rightarrow> phone \<Rightarrow> bool" where
  pr_mount: "phone_run 0 (hero_mount False now)"
| pr_fire: "phone_run k s \<Longrightarrow> ph_timers s = (due, a) # rest \<Longrightarrow> due \<le> now \<Longrightarrow> phone_run (Suc k) (hero_fire now s)"

definition hero_at :: "nat \<Rightarrow> nat \<Rightarrow> phone \<Rightarrow> bool" where
  "hero_at j base s \<longleftrightarrow> j < 8 \<and> hero_shows s = hero_phase j \<and> ph_timers s = drop j (map (\<lambda>(ms, a). (base + ms, a)) hero_script)"

lemma hero_at_fire:
  assumes "hero_at j base s"
  shows "hero_at (Suc j mod 8) (if j = 7 then now else base) (hero_fire now s)
    \<and> ph_ids (hero_fire now s) = ph_ids s + (if j = 7 then 8 else 0)"
proof -
  from assms have "j < 8" by (simp add: hero_at_def)
  then consider "j = 0" | "j = 1" | "j = 2" | "j = 3" | "j = 4" | "j = 5" | "j = 6" | "j = 7" by linarith
  then show ?thesis
    using assms by cases (auto simp: hero_at_def hero_shows_def hero_phase_def hero_fire_def hero_script_def hero_run_at_def Let_def)
qed

text \<open>
  However late the timers fire, the pictures follow one another in the same order, round after round, and the next
  timer is never missing. The list of ids is never pruned: each round adds eight to it.
\<close>

lemma phone_plays_in_order:
  assumes "phone_run k s"
  shows "hero_shows s = hero_phase (k mod 8) \<and> ph_timers s \<noteq> [] \<and> sorted (map fst (ph_timers s)) \<and> ph_ids s = 8 * (k div 8 + 1)"
proof -
  from assms have "\<exists>base. hero_at (k mod 8) base s \<and> ph_ids s = 8 * (k div 8 + 1)"
  proof induction
    case (pr_mount now)
    have "hero_at 0 now (hero_mount False now) \<and> ph_ids (hero_mount False now) = 8"
      by (simp add: hero_at_def hero_shows_def hero_phase_def hero_mount_def hero_run_at_def hero_script_def Let_def)
    then show ?case by auto
  next
    case (pr_fire k s due a rest now)
    then obtain base where b: "hero_at (k mod 8) base s" "ph_ids s = 8 * (k div 8 + 1)" by blast
    have "Suc (k mod 8) mod 8 = Suc k mod 8" by (simp add: mod_Suc_eq)
    moreover have "ph_ids s + (if k mod 8 = 7 then 8 else 0) = 8 * (Suc k div 8 + 1)"
      using b(2) by (simp add: div_Suc mod_Suc)
    ultimately show ?case using hero_at_fire [OF b(1), of now] by auto
  qed
  moreover have "k mod 8 < 8" by simp
  moreover have "sorted (map fst (drop j (map (\<lambda>(ms, a). (base + ms, a)) hero_script)))" for j base
    by (simp add: drop_map [symmetric] sorted_wrt_drop hero_script_def)
  ultimately show ?thesis by (auto simp: hero_at_def hero_script_def)
qed

section \<open>The page\<close>

lemma steps_in_range: "steps_mount reduce < 6" "steps_tick a < 6"
  by (simp_all add: steps_mount_def steps_tick_def STEPS_def)

lemma faq_one_open:
  "faq_toggle i opn \<in> {- 1, int i}" "faq_toggle i (faq_toggle i (- 1)) = - 1" "opn \<noteq> int i \<Longrightarrow> faq_toggle i opn = int i"
  by (auto simp: faq_toggle_def)

lemma landing_block_vals:
  "vals ''href'' (reveal_block dir delay cls vis vs) = vals_of ''href'' vs"
  by (simp add: reveal_block_def)

text \<open>Every link of the landing page goes to the sign-in of the server or to a page that is shown without a session.\<close>

lemma landing_links:
  "u \<in> set (vals_of ''href'' (landing_page s)) \<Longrightarrow> u \<in> {lat ''/auth/google'', lat ''/auth/demo'', lat ''/terms'', lat ''/accessibility''}"
  by (cases "la_counters s")
    (auto simp: landing_page_def hero_section_def stats_band_def how_it_works_def features_section_def industries_section_def
      pricing_section_def faq_section_def landing_footer_def plan_card_def hero_message_def vals_mapi set_mapi vals_of_map Let_def landing_block_vals)

definition shown_to_visitors :: "jsstr \<Rightarrow> bool" where
  "shown_to_visitors u \<longleftrightarrow> (\<exists>el v. (u, el) \<in> set ROUTES \<and> (\<forall>s path. se_loading s \<or> render_element s path el = Shows v))"

lemma landing_links_public:
  assumes "u \<in> set (vals_of ''href'' (landing_page s))"
  shows "starts_with u (lat ''/auth/'') \<or> shown_to_visitors u"
proof -
  have "shown_to_visitors (lat ''/terms'')" "shown_to_visitors (lat ''/accessibility'')"
    unfolding shown_to_visitors_def
    by (rule exI [of _ "Bare V_terms"], rule exI [of _ V_terms], simp add: ROUTES_def render_element_def)
      (rule exI [of _ "Bare V_accessibility"], rule exI [of _ V_accessibility], simp add: ROUTES_def render_element_def)
  with landing_links [OF assms] show ?thesis by (auto simp: starts_with_def lat_def)
qed

end
