(* ===== verification/Focus.thy ===== *)
theory Focus
  imports Dialogs
begin

text \<open>
  The keyboard in the dialogs: Escape, the trap for Tab and the first focus of \<open>components/ui/Modal.tsx\<close>,
  \<open>components/dashboard/OutcomeNoteDialog.tsx\<close> and \<open>components/booking/RescheduleDialog.tsx\<close>. The three listeners
  differ in their selector and in whether Escape is refused while a save is in flight.

  Where the browser goes on a Tab that is not prevented is its sequential focus navigation: the neighbour in
  document order (\<open>browser_tab\<close>), since no element has a positive \<open>tabindex\<close>.
\<close>

section \<open>The selectors\<close>

fun has_href :: "'e attr \<Rightarrow> bool" where
  "has_href (Attr k v) = (k = ''href'')"
| "has_href _ = False"

text \<open>\<open>tag:not([disabled]), \<dots>, [href]\<close>.\<close>

fun selector :: "string list \<Rightarrow> 'e vnode \<Rightarrow> bool" where
  "selector tags (Txt s) = False"
| "selector tags (El t as vs) = (t \<in> set tags \<and> \<not> list_ex is_disabled as \<or> list_ex has_href as)"

text \<open>\<open>querySelectorAll\<close>: the matching elements in document order.\<close>

fun query_all :: "('e vnode \<Rightarrow> bool) \<Rightarrow> 'e vnode \<Rightarrow> 'e vnode list" where
  "query_all p (Txt s) = []"
| "query_all p (El t as vs) = (if p (El t as vs) then [El t as vs] else []) @ concat (map (query_all p) vs)"

definition focusables :: "string list \<Rightarrow> 'e vnode list \<Rightarrow> 'e vnode list" where
  "focusables tags vs = concat (map (query_all (selector tags)) vs)"

definition MODAL_TAGS :: "string list" where
  "MODAL_TAGS = [''button'', ''textarea'', ''input'', ''select'']"

definition OUTCOME_TAGS :: "string list" where
  "OUTCOME_TAGS = [''button'', ''textarea'', ''input'']"

section \<open>The listener\<close>

datatype dialog_key = K_escape | K_tab bool | K_other

datatype key_effect = Ke_close | Ke_refused | Ke_focus nat | Ke_default

text \<open>
  \<open>n\<close> elements match the selector and \<open>active\<close> is the index of the one that has the focus; \<open>None\<close> when
  none of them has it. \<open>saving\<close> is \<open>False\<close> for \<open>Modal\<close>.
\<close>

definition dialog_keydown :: "bool \<Rightarrow> nat \<Rightarrow> dialog_key \<Rightarrow> nat option \<Rightarrow> key_effect" where
  "dialog_keydown saving n k active =
     (case k of
        K_escape \<Rightarrow> if saving then Ke_refused else Ke_close
      | K_other \<Rightarrow> Ke_default
      | K_tab shift \<Rightarrow>
          if n = 0 then Ke_default
          else if shift \<and> active = Some 0 then Ke_focus (n - 1)
          else if \<not> shift \<and> active = Some (n - 1) then Ke_focus 0
          else Ke_default)"

text \<open>The timer of \<open>Modal\<close>: the first of the \<open>n\<close> elements, if there is one.\<close>

definition modal_first_focus :: "nat \<Rightarrow> nat option \<Rightarrow> nat option" where
  "modal_first_focus n active = (if n = 0 then active else Some 0)"

text \<open>The timer of the outcome dialog: its note, the first of its elements; a disabled one does not take the focus.\<close>

definition outcome_first_focus :: "bool \<Rightarrow> nat option \<Rightarrow> nat option" where
  "outcome_first_focus saving active = (if saving then active else Some 0)"

section \<open>The browser around it\<close>

text \<open>The page has \<open>stops\<close> elements to stop at; \<open>None\<close> leaves the page.\<close>

definition browser_tab :: "nat \<Rightarrow> bool \<Rightarrow> nat \<Rightarrow> nat option" where
  "browser_tab stops shift p =
     (if shift then (if p = 0 then None else Some (p - 1)) else if p + 1 < stops then Some (p + 1) else None)"

text \<open>The dialog's elements are those from \<open>pre\<close> to \<open>pre + n\<close>.\<close>

definition in_dialog :: "nat \<Rightarrow> nat \<Rightarrow> nat \<Rightarrow> nat option" where
  "in_dialog pre n p = (if pre \<le> p \<and> p < pre + n then Some (p - pre) else None)"

definition press_tab :: "bool \<Rightarrow> nat \<Rightarrow> nat \<Rightarrow> nat \<Rightarrow> bool \<Rightarrow> nat \<Rightarrow> nat option" where
  "press_tab saving pre n stops shift p =
     (case dialog_keydown saving n (K_tab shift) (in_dialog pre n p) of
        Ke_focus i \<Rightarrow> Some (pre + i) | _ \<Rightarrow> browser_tab stops shift p)"

lemma in_dialog_simps:
  "in_dialog pre n p = Some i \<longleftrightarrow> p = pre + i \<and> i < n"
  "in_dialog pre n p = None \<longleftrightarrow> \<not> (pre \<le> p \<and> p < pre + n)"
  by (auto simp: in_dialog_def)

text \<open>Inside, Tab goes round: to the next element, and from the last to the first; Shift and Tab go back.\<close>

lemma tab_forward:
  assumes "i < n" "pre + n \<le> stops"
  shows "press_tab saving pre n stops False (pre + i) = Some (pre + (i + 1) mod n)"
  using assms by (cases "i = n - 1") (auto simp: press_tab_def dialog_keydown_def browser_tab_def in_dialog_def)

lemma tab_backward:
  assumes "i < n" "pre + n \<le> stops"
  shows "press_tab saving pre n stops True (pre + i) = Some (pre + (i + n - 1) mod n)"
proof (cases i)
  case (Suc j)
  with assms have "(i + n - 1) mod n = j" by simp
  with Suc assms show ?thesis by (auto simp: press_tab_def dialog_keydown_def browser_tab_def in_dialog_def)
qed (use assms in \<open>auto simp: press_tab_def dialog_keydown_def in_dialog_def\<close>)

text \<open>So the focus never leaves an open dialog once it is inside, whatever keys are pressed.\<close>

lemma tabs_stay_inside:
  assumes "in_dialog pre n p \<noteq> None" "pre + n \<le> stops"
  shows "\<exists>q. foldl (\<lambda>q shift. Option.bind q (press_tab saving pre n stops shift)) (Some p) ks = Some q \<and> in_dialog pre n q \<noteq> None"
  using assms(1)
proof (induction ks arbitrary: p)
  case (Cons shift ks)
  then obtain i where i: "p = pre + i" "i < n" using in_dialog_simps(1) [of pre n p] by blast
  then have n: "0 < n" by simp
  have "\<exists>j < n. press_tab saving pre n stops shift p = Some (pre + j)"
    using tab_forward [OF i(2) assms(2)] tab_backward [OF i(2) assms(2)] n i(1) by (cases shift) auto
  then obtain j where "j < n" "press_tab saving pre n stops shift p = Some (pre + j)" by blast
  with Cons.IH [of "pre + j"] show ?case by (auto simp: in_dialog_def)
qed (auto simp: in_dialog_def split: if_splits)

text \<open>A focus that is outside is not pulled in: the trap of these dialogs only acts on the two ends.\<close>

lemma trap_ignores_outside:
  "in_dialog pre n p = None \<Longrightarrow> press_tab saving pre n stops shift p = browser_tab stops shift p"
  by (simp add: press_tab_def dialog_keydown_def)

section \<open>The three dialogs\<close>

text \<open>\<open>Modal\<close> always has the button of its title bar, which gets the focus when it opens.\<close>

lemma modal_focusables:
  "focusables MODAL_TAGS (modal True title close children) =
     El ''button'' [on_click close, Attr ''aria-label'' (heb ''qbixd'')] [] # focusables MODAL_TAGS children"
  by (simp add: focusables_def modal_def MODAL_TAGS_def)

lemma modal_gets_the_focus:
  "modal_first_focus (length (focusables MODAL_TAGS (modal True title close children))) active = Some 0"
  by (simp add: modal_first_focus_def modal_focusables)

text \<open>The outcome dialog has three elements, two while the note is blank.\<close>

lemma outcome_focusables:
  "length (focusables OUTCOME_TAGS (outcome_dialog out True saving err note)) =
     (if saving then 0 else if trim note = [] then 2 else 3)"
  by (cases err) (simp_all add: focusables_def outcome_dialog_def OUTCOME_TAGS_def Let_def)

lemma outcome_gets_the_focus:
  "outcome_first_focus False active = Some 0"
  "\<exists>as. hd (focusables OUTCOME_TAGS (outcome_dialog out True False err note)) = El ''textarea'' as []"
  by (simp_all add: outcome_first_focus_def focusables_def outcome_dialog_def OUTCOME_TAGS_def Let_def)

text \<open>While a save is in flight everything in the outcome dialog is disabled, and Tab is left to the browser.\<close>

lemma saving_releases_the_trap:
  "press_tab True pre (length (focusables OUTCOME_TAGS (outcome_dialog out True True err note))) stops shift p
     = browser_tab stops shift p"
  by (simp add: outcome_focusables press_tab_def dialog_keydown_def)

end
