(* ===== verification/Primitives.thy ===== *)
theory Primitives
  imports Prefs Focus GwManager
begin

text \<open>
  The small parts everything else is built from: the labelled controls and the notices of \<open>components/ui/\<close>
  (\<open>Field\<close>, \<open>Textarea\<close>, \<open>Select\<close>, \<open>Alert\<close>, \<open>Button\<close>, \<open>Badge\<close>, \<open>Spinner\<close>, \<open>Card\<close>), the colour of an avatar
  (\<open>components/dashboard/Avatar.tsx\<close>), the texts of the accessibility widget (\<open>i18n/index.ts\<close>), and the start of the
  gateway's process (\<open>gateway/src/index.js\<close>).
\<close>

section \<open>Labelled controls\<close>

text \<open>\<open>hint ? `${id}-hint` : undefined\<close>; \<open>id ?? autoId\<close>.\<close>

definition control_id :: "jsstr option \<Rightarrow> jsstr \<Rightarrow> jsstr" where
  "control_id given autoId = (case given of None \<Rightarrow> autoId | Some i \<Rightarrow> i)"

definition hint_id :: "jsstr option \<Rightarrow> jsstr \<Rightarrow> jsstr option" where
  "hint_id hint i = (if or_else hint [] = [] then None else Some (i @ lat ''-hint''))"

text \<open>The three controls differ in their tag and in what is inside; \<open>rest\<close> are the other props, set after the own ones.\<close>

definition labelled_control ::
  "string \<Rightarrow> 'e vnode list \<Rightarrow> jsstr \<Rightarrow> jsstr option \<Rightarrow> jsstr option \<Rightarrow> jsstr \<Rightarrow> 'e attr list \<Rightarrow> 'e vnode" where
  "labelled_control tag inner label hint given autoId rest =
     (let i = control_id given autoId; h = hint_id hint i in
      El ''div'' []
        ([El ''label'' [Attr ''for'' i] [Txt label],
          El tag ([Attr ''id'' i] @ (case h of None \<Rightarrow> [] | Some x \<Rightarrow> [Attr ''aria-describedby'' x]) @ rest) inner]
         @ (case h of None \<Rightarrow> [] | Some x \<Rightarrow> [El ''p'' [Attr ''id'' x] [Txt (or_else hint [])]])))"

definition ui_field :: "jsstr \<Rightarrow> jsstr option \<Rightarrow> jsstr option \<Rightarrow> jsstr \<Rightarrow> 'e attr list \<Rightarrow> 'e vnode" where
  "ui_field = labelled_control ''input'' []"

definition textarea :: "jsstr \<Rightarrow> jsstr option \<Rightarrow> jsstr option \<Rightarrow> jsstr \<Rightarrow> nat option \<Rightarrow> 'e attr list \<Rightarrow> 'e vnode" where
  "textarea label hint given autoId rows rest =
     labelled_control ''textarea'' [] label hint given autoId
       (Attr ''rows'' (nat_str (case rows of None \<Rightarrow> 3 | Some n \<Rightarrow> n)) # rest)"

definition select_box :: "(jsstr \<times> jsstr) list \<Rightarrow> jsstr \<Rightarrow> jsstr option \<Rightarrow> jsstr option \<Rightarrow> jsstr \<Rightarrow> 'e attr list \<Rightarrow> 'e vnode" where
  "select_box options =
     labelled_control ''select'' (map (\<lambda>(v, l). El ''option'' [Attr ''value'' v] [Txt l]) options)"

section \<open>Notices and buttons\<close>

datatype alert_tone = At_error | At_warning | At_info

definition ui_alert :: "alert_tone option \<Rightarrow> 'e vnode list \<Rightarrow> 'e vnode" where
  "ui_alert tone children =
     El ''div'' [Attr ''role'' (lat ''alert''),
       Attr ''aria-live'' (if (case tone of None \<Rightarrow> At_info | Some t \<Rightarrow> t) = At_error then lat ''assertive'' else lat ''polite'')] children"

datatype button_type = Bt_button | Bt_submit | Bt_reset

fun button_type_str :: "button_type \<Rightarrow> jsstr" where
  "button_type_str Bt_button = lat ''button''"
| "button_type_str Bt_submit = lat ''submit''"
| "button_type_str Bt_reset = lat ''reset''"

definition ui_button :: "button_type option \<Rightarrow> 'e attr list \<Rightarrow> 'e vnode list \<Rightarrow> 'e vnode" where
  "ui_button type rest children =
     El ''button'' (Attr ''type'' (button_type_str (case type of None \<Rightarrow> Bt_button | Some t \<Rightarrow> t)) # rest) children"

definition badge :: "'e vnode list \<Rightarrow> 'e vnode" where
  "badge children = El ''span'' [] children"

definition spinner :: "jsstr option \<Rightarrow> 'e vnode" where
  "spinner label =
     El ''div'' [Attr ''role'' (lat ''status''), Attr ''aria-busy'' (lat ''true''), Attr ''aria-live'' (lat ''polite'')]
       [El ''span'' [Attr ''aria-hidden'' (lat ''true'')] [],
        El ''span'' [] [Txt (case label of None \<Rightarrow> (heb ''hero'' @ [8230]) | Some l \<Rightarrow> l)]]"

definition ui_card :: "'e attr list \<Rightarrow> 'e vnode list \<Rightarrow> 'e vnode" where
  "ui_card rest children = El ''div'' rest children"

section \<open>Avatar.tsx\<close>

definition AVATAR_COLORS :: "string list" where
  "AVATAR_COLORS = [''bg-leaf'', ''bg-[#378ADD]'', ''bg-[#D85A30]'', ''bg-amber-600'', ''bg-violet-600'']"

text \<open>\<open>for (const ch of name)\<close>: the code points, a lone surrogate being one of its own.\<close>

fun avatar_points :: "jsstr \<Rightarrow> nat list" where
  "avatar_points [] = []"
| "avatar_points [c] = [c]"
| "avatar_points (c # d # s) =
     (if is_high c \<and> is_low d then (65536 + (c - 55296) * 1024 + (d - 56320)) # avatar_points s
      else c # avatar_points (d # s))"

definition avatar_color :: "jsstr \<Rightarrow> string" where
  "avatar_color name =
     AVATAR_COLORS ! (foldl (\<lambda>sum p. (sum + p) mod 9973) 0 (avatar_points name) mod length AVATAR_COLORS)"

definition avatar :: "jsstr \<Rightarrow> 'e vnode" where
  "avatar name =
     El ''span'' [Attr ''aria-hidden'' (lat ''true''), Attr ''class'' (lat (avatar_color name))] [Txt (initials name)]"

section \<open>i18n/index.ts\<close>

definition accessibility_he :: "(string \<times> jsstr) list" where
  "accessibility_he =
     [(''button_aria'', (heb ''tzg ztxih pbiyez'')), (''button_title'', (heb ''pbiyez'')), (''panel_title'', (heb ''dbcxez pbiyez'')),
      (''close_aria'', (heb ''qbex ztxih pbiyez'')), (''high_contrast'', (heb ''pibeciez baedd'')),
      (''high_contrast_desc'', (heb ''dbaxz dpibeciez lwxi@d head iezx'')), (''large_text'', (heb ''hwqh bcel'')),
      (''large_text_desc'', (heb ''dbclz becl dhwqh'')), (''underline_links'', (heb ''we zgzeo lwiyexim'')),
      (''underline_links_desc'', (heb ''deqtz we zgzeo lkl dwiyexim'')), (''focus_highlight'', (heb ''dcbyz teweq'')),
      (''focus_highlight_desc'', (heb ''dcbyd axexd iezx yl xkiaim ateweq'')), (''stop_animations'', (heb ''dtqwz @pinviez'')),
      (''stop_animations_desc'', (heb ''dtqwz kl d@pinviez ednraxim'')), (''reset'', (heb ''@iteq dbcxez pbiyez''))]"

definition accessibility_en :: "(string \<times> jsstr) list" where
  "accessibility_en =
     [(''button_aria'', (lat ''Open accessibility menu'')), (''button_title'', (lat ''Accessibility'')), (''panel_title'', (lat ''Accessibility settings'')),
      (''close_aria'', (lat ''Close accessibility menu'')), (''high_contrast'', (lat ''High contrast'')),
      (''high_contrast_desc'', (lat ''Increase contrast for better readability'')), (''large_text'', (lat ''Large text'')),
      (''large_text_desc'', (lat ''Increase the text size'')), (''underline_links'', (lat ''Underline links'')),
      (''underline_links_desc'', (lat ''Add an underline to all links'')), (''focus_highlight'', (lat ''Focus highlight'')),
      (''focus_highlight_desc'', (lat ''Make focused elements clearly visible'')), (''stop_animations'', (lat ''Stop all animations and transitions'')),
      (''stop_animations_desc'', (lat ''Stop all animations and transitions'')), (''reset'', (lat ''Reset accessibility settings''))]"

definition documentLang :: "jsstr \<Rightarrow> jsstr" where
  "documentLang html_lang = (if html_lang = [] then lat ''he'' else html_lang)"

section \<open>index.js\<close>

text \<open>
  The process of the gateway: it has ended with a status, or it listens, and then the manager runs once the server is up.
\<close>

datatype process = Exited nat | Listening gw_config "gateway option"

definition gw_boot :: "(jsstr \<Rightarrow> jsstr option) \<Rightarrow> process" where
  "gw_boot env = (case loadConfig env of None \<Rightarrow> Exited 1 | Some config \<Rightarrow> Listening config None)"

definition gw_listening :: "process \<Rightarrow> process" where
  "gw_listening p =
     (case p of Listening config None \<Rightarrow> Listening config (Some startManager) | _ \<Rightarrow> p)"

text \<open>\<open>GET /healthz\<close>: the number of sessions.\<close>

definition healthz :: "process \<Rightarrow> nat option" where
  "healthz p =
     (case p of
        Exited c \<Rightarrow> None
      | Listening config g \<Rightarrow> Some (case g of None \<Rightarrow> 0 | Some m \<Rightarrow> sessionCount m))"

section \<open>Lemmas\<close>

text \<open>A labelled control offers what its control offers, and so does a button: the views write them as the plain elements.\<close>

lemma fires_labelled:
  "fires (labelled_control tag inner label hint given autoId rest) e \<longleftrightarrow> fires (El tag rest inner) e"
  by (auto simp: labelled_control_def Let_def split: option.splits)

lemma fires_ui_field: "fires (ui_field label hint given autoId rest) e \<longleftrightarrow> fires (El ''input'' rest []) e"
  by (simp add: ui_field_def fires_labelled)

lemma fires_textarea: "fires (textarea label hint given autoId rows rest) e \<longleftrightarrow> fires (El ''textarea'' rest []) e"
  by (simp add: textarea_def fires_labelled)

lemma fires_select_box: "fires (select_box options label hint given autoId rest) e \<longleftrightarrow> fires (El ''select'' rest []) e"
  by (auto simp: select_box_def fires_labelled fires_any_map)

lemma fires_ui_button: "fires (ui_button type rest children) e \<longleftrightarrow> fires (El ''button'' rest children) e"
  by (simp add: ui_button_def)

text \<open>In the keyboard order the control stands for the whole.\<close>

lemma focusables_labelled:
  assumes "tag \<in> set tags" "''label'' \<notin> set tags" "''div'' \<notin> set tags" "''p'' \<notin> set tags" "\<not> list_ex has_href rest"
  shows "length (focusables tags [labelled_control tag [] label hint given autoId rest]) = (if list_ex is_disabled rest then 0 else 1)"
  using assms by (auto simp: focusables_def labelled_control_def Let_def split: option.splits)

text \<open>The label and the hint name elements of the same control.\<close>

lemma labelled_control_references:
  assumes "u \<in> set (vals ''for'' (labelled_control tag [] label hint given autoId rest)) \<union> set (vals ''aria-describedby'' (labelled_control tag [] label hint given autoId rest))"
    and "list_all (\<lambda>a. attr_value ''for'' a = [] \<and> attr_value ''aria-describedby'' a = []) rest"
  shows "u \<in> set (vals ''id'' (labelled_control tag [] label hint given autoId rest))"
proof -
  have "concat (map (attr_value ''for'') rest) = []" "concat (map (attr_value ''aria-describedby'') rest) = []"
    using assms(2) by (auto simp: list_all_iff)
  with assms(1) show ?thesis by (auto simp: labelled_control_def Let_def split: option.splits)
qed

text \<open>The colour of an avatar is one of the five, and only the sum of the code points counts.\<close>

lemma foldl_mod_sum: "foldl (\<lambda>s p. (s + p) mod (m::nat)) a xs mod m = (a + sum_list xs) mod m"
  by (induction xs arbitrary: a) (simp_all add: mod_add_left_eq add.assoc)

lemma foldl_mod_less: "a < m \<Longrightarrow> foldl (\<lambda>s p. (s + p) mod (m::nat)) a xs < m"
  by (induction xs arbitrary: a) simp_all

lemma avatar_color_sum:
  "avatar_color name = AVATAR_COLORS ! (sum_list (avatar_points name) mod 9973 mod 5)" "avatar_color name \<in> set AVATAR_COLORS"
proof -
  have l: "length AVATAR_COLORS = 5" by (simp add: AVATAR_COLORS_def)
  have "foldl (\<lambda>s p. (s + p) mod 9973) 0 (avatar_points name) = sum_list (avatar_points name) mod 9973"
    using foldl_mod_sum [of 9973 0 "avatar_points name"] foldl_mod_less [of 0 9973 "avatar_points name"] by simp
  then show "avatar_color name = AVATAR_COLORS ! (sum_list (avatar_points name) mod 9973 mod 5)" by (simp add: avatar_color_def l)
  then show "avatar_color name \<in> set AVATAR_COLORS" by (simp add: l)
qed

text \<open>Both languages have the same keys, and the widget asks for no other.\<close>

lemma same_keys: "map fst accessibility_he = map fst accessibility_en" "distinct (map fst accessibility_he)"
  by (simp_all add: accessibility_he_def accessibility_en_def)

lemma widget_keys:
  assumes "\<And>k. k \<in> set (map fst accessibility_he) \<Longrightarrow> t k = t' k"
  shows "widget_view t language opn p = widget_view t' language opn p"
proof -
  have "t k = t' k" if "k \<in> {''button_aria'', ''panel_title'', ''close_aria'', ''reset''}" for k
    using that by (intro assms) (auto simp: accessibility_he_def)
  moreover have "t (OPTIONS k) = t' (OPTIONS k)" "t (OPTIONS k @ ''_desc'') = t' (OPTIONS k @ ''_desc'')" for k
    by (cases k; rule assms; simp add: accessibility_he_def)+
  ultimately show ?thesis by (simp add: widget_view_def)
qed

text \<open>Without a real token the gateway ends before it listens.\<close>

lemma boot_fails_closed:
  assumes "gw_listening (gw_boot env) = Listening cfg g"
  shows "requireEnv env (lat ''GATEWAY_API_TOKEN'') = Some (cfg_gatewayApiToken cfg) \<and> cfg_gatewayApiToken cfg \<noteq> []
    \<and> lower (cfg_gatewayApiToken cfg) \<notin> set forbidden_secrets \<and> (\<exists>m. g = Some m \<and> gw_run m)"
proof -
  from assms have "loadConfig env = Some cfg" "g = Some startManager"
    by (auto simp: gw_boot_def gw_listening_def split: option.splits)
  then have "requireEnv env (lat ''GATEWAY_API_TOKEN'') = Some (cfg_gatewayApiToken cfg)"
    by (auto simp: loadConfig_def Let_def)
  then show ?thesis using gw_start \<open>g = Some startManager\<close> by (auto simp: requireEnv_def Let_def split: if_splits)
qed

lemma boot_refuses: "requireEnv env (lat ''GATEWAY_API_TOKEN'') = None \<longleftrightarrow> gw_boot env = Exited 1"
  by (auto simp: gw_boot_def loadConfig_def Let_def split: option.splits)

end
