(* ===== verification/Spec2Isabelle.thy ===== *)
theory Spec2Isabelle
  imports ClientLaws BuilderRuns Dates BookingLaws PublicPage GwManager Conversations Leads Home WhatsApp BookingSetup BookingsBoard Design Shell Prefs AdminPages Landing Primitives
begin

text \<open>
  A verification development of the TypeScript and JavaScript parts of the product: the web
  front end (\<open>src/frontend/src\<close>), where an owner builds a WhatsApp bot and a customer books an
  appointment, and the WhatsApp gateway (\<open>src/gateway/src\<close>), which keeps one WhatsApp
  session per business and passes messages to the backend and replies back.

  \<^bold>\<open>Conventions.\<close> A JavaScript string is a list of UTF-16 code units (\<open>JsPrelude.jsstr\<close>); ASCII
  literals are \<open>lat ''...''\<close>, Hebrew ones \<open>heb ''...''\<close>, which maps letters to the Hebrew block. A plain object
  or a \<open>Map\<close> is an association list with \<open>put\<close> and \<open>del\<close>; \<open>JsObject\<close> gives its laws as the
  locale \<open>keyed_store\<close> and the interpretation \<open>obj\<close>. An optional property has three states:
  absent, \<open>null\<close>, a value (\<open>BotConfig.opt\<close>). What throws is \<open>None\<close> or \<open>Inl\<close>. A React component is a
  record of its state; its render is a function to a tree of elements whose handlers are
  events (\<open>React.vnode\<close>, \<open>fires\<close> says which events a tree offers); \<open>commit\<close> runs the effects whose dependencies
  changed; a request in flight carries a token, and cleanup kills the token (\<open>React.loader\<close>).
  An \<open>await\<close> splits a function: the part after it is an operation of its own, and a run
  interleaves these with the user's events in every order.

  \<^bold>\<open>Theories.\<close>
  \<^item> \<open>JsPrelude\<close>, \<open>JsObject\<close>, \<open>JsUrl\<close>, \<open>React\<close>: strings, numbers, objects, URL encoding, components.
  \<^item> \<open>ApiClient\<close> (\<open>lib/apiClient.ts\<close>, \<open>lib/friendlyError.ts\<close>), \<open>DashTypes\<close> (the wire types of
    \<open>dashboard/\<close>), \<open>Clients\<close> and \<open>ClientLaws\<close> (the endpoint wrappers of \<open>lib/\<close> and their laws: every request stays
    under \<open>/api/\<close>, ids are one path segment, query strings read back).
  \<^item> \<open>BotConfig\<close> (\<open>botbuilder/config.ts\<close>, \<open>botbuilder/types.ts\<close>, \<open>lib/botClient.ts\<close>), \<open>StepsEditor\<close>, \<open>AiChat\<close>
    (\<open>AIChatPanel.tsx\<close>, \<open>TryMePage.tsx\<close>), \<open>Controls\<close> (\<open>Tabs.tsx\<close>, \<open>FlowTypeSelector.tsx\<close>, \<open>PublishToggle.tsx\<close>), \<open>BotBuilder\<close>
    (\<open>BotBuilderPage.tsx\<close>, \<open>FlowTabs.tsx\<close>) and \<open>BuilderRuns\<close>: its runs, on which every event the page offers is
    handled and all bounds of the configuration hold.
  \<^item> \<open>Dates\<close> (\<open>lib/bookingDates.ts\<close>, \<open>lib/formatDate.ts\<close>): the Gregorian arithmetic of \<open>Date\<close>.
  \<^item> \<open>BookingViews\<close> (\<open>AvailabilityCalendar.tsx\<close>, \<open>SlotGrid.tsx\<close>, \<open>ServiceCard.tsx\<close>), \<open>BookingFlow\<close>
    (\<open>BookingFlow.tsx\<close>), \<open>BookingRuns\<close> (its runs and their invariant), \<open>BookingLaws\<close> (what a run
    posts, and its races), \<open>PublicPage\<close> (\<open>PublicBookingPage.tsx\<close>).
  \<^item> \<open>GwContract\<close> (\<open>config.js\<close>, \<open>contract.js\<close>), \<open>GwSession\<close> and \<open>GwLifecycle\<close> (\<open>session.js\<close>: messages, and the life
    of the socket as the step relation \<open>lc_next\<close>), \<open>GwAuth\<close> (\<open>dbAuthState.js\<close>), \<open>GwManager\<close> (\<open>internalApi.js\<close>, \<open>webhook.js\<close>,
    \<open>manager.js\<close>, \<open>routes.js\<close>; the runs \<open>gw_run\<close> of the whole gateway are runs of its sessions).
  \<^item> \<open>JsNumber\<close> (numbers read from text), \<open>LeadSearch\<close> (\<open>leadSearch.ts\<close>, \<open>AnswerValue.tsx\<close> and the
    Python twin of the search), \<open>Dialogs\<close> and \<open>Focus\<close> (\<open>ui/Modal.tsx\<close>, \<open>OutcomeNoteDialog.tsx\<close>: what they offer, and
    their keyboard), \<open>Chat\<close> (\<open>ChatPanel.tsx\<close>, \<open>EmojiPicker.tsx\<close>), \<open>Conversations\<close> (\<open>ConversationsPage.tsx\<close> and its
    cards), \<open>Leads\<close> (\<open>LeadsPage.tsx\<close>, \<open>LeadCard.tsx\<close>), \<open>Home\<close> (\<open>DashboardHome.tsx\<close>, the unread badge).
  \<^item> \<open>WhatsApp\<close> (\<open>WhatsAppPage.tsx\<close>, \<open>components/whatsapp/\<close>), \<open>BookingSetup\<close> (settings, services, working hours, rules,
    Google), \<open>BookingDesk\<close> (\<open>BookingCard.tsx\<close>, \<open>RescheduleDialog.tsx\<close>, \<open>PublicManagePage.tsx\<close>), \<open>BookingsBoard\<close>
    (\<open>BookingsPanel.tsx\<close>, \<open>BookingsCalendar.tsx\<close>).
  \<^item> \<open>PageTheme\<close> (\<open>pageTheme.ts\<close>), \<open>BusinessPage\<close> (\<open>businessPageClient.ts\<close>, the details and the logo), \<open>Gallery\<close>
    (\<open>GalleryManager.tsx\<close>), \<open>PublicView\<close> (the public page: contact buttons, identity, pictures), \<open>Design\<close>
    (\<open>DesignPanel.tsx\<close>, \<open>PalettePicker.tsx\<close>, \<open>PagePreviewFrame.tsx\<close>).
  \<^item> \<open>Shell\<close> (\<open>AuthContext.tsx\<close>, \<open>App.tsx\<close>, the gates, the navigation, \<open>SettingsPage.tsx\<close>), \<open>Prefs\<close> (accessibility
    preferences, theme, copy button, health), \<open>Admin\<close> (\<open>adminClient.ts\<close>, \<open>SubscriptionPanel.tsx\<close>, \<open>CrmPanel.tsx\<close>, \<open>AdminCrm.tsx\<close>),
    \<open>AdminCharts\<close> (the charts and cards of the back office), \<open>AdminPages\<close> (its pages), \<open>Landing\<close>
    (\<open>LandingPage.tsx\<close> and its sections), \<open>Primitives\<close> (\<open>components/ui/\<close>, the texts of \<open>i18n/index.ts\<close>, and
    \<open>index.js\<close>, the start of the gateway).

  The pages call the wrappers of \<open>Clients\<close>, which build requests with \<open>ApiClient\<close>; what a response becomes is
  handed back as a value or as what was thrown. \<open>BusinessPage\<close>, \<open>Gallery\<close> and \<open>Design\<close> share the page record
  of one hook, and \<open>Design\<close> shows the view of \<open>PublicView\<close> that the visitor gets. \<open>Shell\<close> decides which of the pages is
  shown. The gateway's manager drives sessions, a session forwards what the contract extracts, and its credentials go
  through the store of \<open>GwAuth\<close>.

  \<^bold>\<open>Interfaces.\<close> Where parts meet, the contract is a locale with an interpretation on the definitions of the code:
  \<open>keyed_store\<close> (\<open>JsObject\<close>), \<open>guarded_settle\<close> (\<open>React\<close>: a response is ignored unless its token is live) and
  \<open>steps_owner\<close> (\<open>StepsEditor\<close>: what a page that hosts the steps promises them).

  \<^bold>\<open>What the properties show.\<close>
  \<^item> What leaves the program: every request stays under \<open>/api/\<close>; bookings, leads, outcomes, settings, test numbers and
    messages are sent only after the checks the code makes, and as they were shown; deleting a business takes
    its typed name; what the gateway forwards and sends is exactly what passed its gates.
  \<^item> Who sees what: the gates of the routes, the links of the navigation, the end of redirects, the preview that is the page
    and offers no event, the addresses of the public page.
  \<^item> Invariants of runs: the builder, the booking flow, the test chat, the connection page, the gallery, the list and the board of
    the back office, the manager and its sessions. A run interleaves events, timers and responses in any order.
  \<^item> Agreement with a specification: the key store refines a map, an export holds what the view shows, counts of the
    calendar match its lists, wrapped messages are read as plain ones, a preference survives its storage.
  \<^item> Bounds, termination and liveness: contrast of every theme, five turns of unwrapping, at most two redirects, a session that
    always has its next step pending.
  \<^item> Races and slips that the code has are lemmas about a concrete schedule, named by the findings of the
    manifest.

  \<^bold>\<open>Bounds and fuel.\<close> \<open>GwContract.unwrap_loop\<close> takes the source's own bound of five turns;
  \<open>BotConfig.uniqueKey\<close> searches the source's suffixes 2 to 999 before it falls back to the
  clock. All other recursion is structural or has a termination proof.

  \<^bold>\<open>Parameters.\<close> The messaging library (JID normalization, downloads, the codec of the auth
  blob, the stub type of undecryptable messages), the digest, the HTTP answers, the clock, the time zone, \<open>toLocaleString\<close> and the
  date formats, the calendar widget of the date picker (\<open>picks\<close>: which day a click picks), decoding and drawing of
  images, the choice of a text by the i18n library, which row of the route table a path belongs to. The contrast formula of
  WCAG and the browser's order of Tab stops are specifications, written out in \<open>PageTheme\<close> and \<open>Focus\<close>.

  \<^bold>\<open>Not modelled.\<close> Unmounting of whole pages (an effect's cleanup by a changed dependency is), scrolling,
  styling and class names beyond those that carry state, native form validation, the range limit of
  \<open>Date\<close>, rounding and overflow of doubles (numbers are rationals with the infinities and NaN), \<open>.\<close> and \<open>..\<close> as path segments (the browser
  resolves them), logging and its redaction (a library's). The legal texts, style sheets, icons and drawings are constants without
  state. The Python backend and its database are outside both languages covered.
\<close>

end
